(* ===== verification/Prelude.thy ===== *)
theory Prelude
  imports Main
begin

text \<open>
  The vocabulary every component shares.

  \<^item> An operation of the program that reads and writes the database session and may raise is a
    state monad with exceptions: a function from the session to a result (\<open>Inl\<close> the exception,
    \<open>Inr\<close> the value) and the session it leaves behind. The session of a raising operation is kept,
    because Python keeps the objects it has mutated and the caller decides between commit and
    rollback.
  \<^item> \<open>wp m Q E s\<close> is the weakest precondition of \<open>m\<close>: \<open>Q\<close> for a normal result, \<open>E\<close> for an
    exception. Its equations compute by simplification over the combinators.
  \<^item> \<open>keeps f m\<close> is the frame rule: \<open>m\<close> does not change the part \<open>f\<close> of the session.
\<close>

named_theorems wp_simps \<open>weakest preconditions of the combinators\<close>
named_theorems keeps_intros \<open>frame rules\<close>
named_theorems run_simps \<open>the combinators applied to a session\<close>
named_theorems op_defs \<open>definitions of the operations of the program\<close>

section \<open>Results\<close>

text \<open>A pure function that may raise returns \<open>Inl\<close> the exception or \<open>Inr\<close> the value.\<close>

definition rbind :: "'e + 'a \<Rightarrow> ('a \<Rightarrow> 'e + 'b) \<Rightarrow> 'e + 'b" where
  "rbind r f = (case r of Inl e \<Rightarrow> Inl e | Inr x \<Rightarrow> f x)"

definition check :: "bool \<Rightarrow> 'e \<Rightarrow> 'e + unit" where
  "check c e = (if c then Inl e else Inr ())"

lemma rbind_simps [simp]: "rbind (Inl e) f = Inl e" "rbind (Inr x) f = f x"
  by (simp_all add: rbind_def)

lemma rbind_Inr_iff: "rbind r f = Inr y \<longleftrightarrow> (\<exists>x. r = Inr x \<and> f x = Inr y)"
  by (cases r) simp_all

lemma check_iff [simp]: "check c e = Inr u \<longleftrightarrow> \<not> c" "check c e = Inl e' \<longleftrightarrow> c \<and> e' = e"
  by (auto simp: check_def)

lemma check_False [simp]: "check False e = Inr ()"
  by (simp add: check_def)

lemma check_True [simp]: "check True e = Inl e"
  by (simp add: check_def)

section \<open>Operations on a session\<close>

type_synonym ('s, 'e, 'a) sm = "'s \<Rightarrow> ('e + 'a) \<times> 's"

definition ret :: "'a \<Rightarrow> ('s, 'e, 'a) sm" where
  "ret x = (\<lambda>s. (Inr x, s))"

definition throw :: "'e \<Rightarrow> ('s, 'e, 'a) sm" where
  "throw e = (\<lambda>s. (Inl e, s))"

definition bind :: "('s, 'e, 'a) sm \<Rightarrow> ('a \<Rightarrow> ('s, 'e, 'b) sm) \<Rightarrow> ('s, 'e, 'b) sm" where
  "bind m f = (\<lambda>s. case fst (m s) of Inl e \<Rightarrow> (Inl e, snd (m s)) | Inr x \<Rightarrow> f x (snd (m s)))"

definition andthen :: "('s, 'e, unit) sm \<Rightarrow> ('s, 'e, 'b) sm \<Rightarrow> ('s, 'e, 'b) sm" where
  "andthen m n = bind m (\<lambda>_. n)"

definition gets :: "('s \<Rightarrow> 'a) \<Rightarrow> ('s, 'e, 'a) sm" where
  "gets f = (\<lambda>s. (Inr (f s), s))"

definition modify :: "('s \<Rightarrow> 's) \<Rightarrow> ('s, 'e, unit) sm" where
  "modify f = (\<lambda>s. (Inr (), f s))"

text \<open>\<open>if c: raise e\<close>\<close>

definition raise_if :: "bool \<Rightarrow> 'e \<Rightarrow> ('s, 'e, unit) sm" where
  "raise_if c e = (if c then throw e else ret ())"

text \<open>\<open>x = ...; if x is None: raise e\<close>\<close>

definition the_or :: "'e \<Rightarrow> 'a option \<Rightarrow> ('s, 'e, 'a) sm" where
  "the_or e r = (case r of None \<Rightarrow> throw e | Some x \<Rightarrow> ret x)"

definition of_result :: "'e + 'a \<Rightarrow> ('s, 'e, 'a) sm" where
  "of_result r = (case r of Inl e \<Rightarrow> throw e | Inr x \<Rightarrow> ret x)"

definition whenM :: "bool \<Rightarrow> ('s, 'e, unit) sm \<Rightarrow> ('s, 'e, unit) sm" where
  "whenM c m = (if c then m else ret ())"

text \<open>\<open>for x in xs: body x\<close>, an exception leaves the loop.\<close>

fun for_each :: "'a list \<Rightarrow> ('a \<Rightarrow> ('s, 'e, unit) sm) \<Rightarrow> ('s, 'e, unit) sm" where
  "for_each [] body = ret ()"
| "for_each (x # xs) body = andthen (body x) (for_each xs body)"

fun map_each :: "'a list \<Rightarrow> ('a \<Rightarrow> ('s, 'e, 'b) sm) \<Rightarrow> ('s, 'e, 'b list) sm" where
  "map_each [] body = ret []"
| "map_each (x # xs) body =
     bind (body x) (\<lambda>y. bind (map_each xs body) (\<lambda>ys. ret (y # ys)))"

lemma ret_apply [run_simps]: "ret x s = (Inr x, s)"
  by (simp add: ret_def)

lemma throw_apply [run_simps]: "throw e s = (Inl e, s)"
  by (simp add: throw_def)

lemma gets_apply [run_simps]: "gets f s = (Inr (f s), s)"
  by (simp add: gets_def)

lemma modify_apply [run_simps]: "modify f s = (Inr (), f s)"
  by (simp add: modify_def)

lemma bind_apply [run_simps]:
  "bind m f s = (case fst (m s) of Inl e \<Rightarrow> (Inl e, snd (m s)) | Inr x \<Rightarrow> f x (snd (m s)))"
  by (simp add: bind_def)

lemma andthen_apply [run_simps]:
  "andthen m n s = (case fst (m s) of Inl e \<Rightarrow> (Inl e, snd (m s)) | Inr _ \<Rightarrow> n (snd (m s)))"
  by (simp add: andthen_def bind_def)

lemma bind_ret [simp]: "bind (ret x) f = f x"
  by (simp add: bind_def ret_def)

lemma bind_throw [simp]: "bind (throw e) f = throw e"
  by (simp add: bind_def throw_def)

lemma bind_ret_right: "bind m ret = m"
  by (rule ext) (auto simp: bind_def ret_def split: sum.splits intro: prod_eqI)

lemma bind_assoc: "bind (bind m f) g = bind m (\<lambda>x. bind (f x) g)"
  by (rule ext) (simp add: bind_def split: sum.splits)

lemma bind_Inr: "m s = (Inr x, s') \<Longrightarrow> bind m f s = f x s'"
  by (simp add: bind_def)

lemma bind_Inl: "m s = (Inl e, s') \<Longrightarrow> bind m f s = (Inl e, s')"
  by (simp add: bind_def)

lemma andthen_Inr: "m s = (Inr u, s') \<Longrightarrow> andthen m n s = n s'"
  by (simp add: andthen_def bind_def)

lemma andthen_Inl: "m s = (Inl e, s') \<Longrightarrow> andthen m n s = (Inl e, s')"
  by (simp add: andthen_def bind_def)

lemma raise_if_apply [run_simps]:
  "raise_if c e s = ((if c then Inl e else Inr ()), s)"
  by (simp add: raise_if_def run_simps)

lemma whenM_apply [run_simps]: "whenM c m s = (if c then m s else (Inr (), s))"
  by (simp add: whenM_def ret_def)

lemma the_or_apply [run_simps]:
  "the_or e r s = ((case r of None \<Rightarrow> Inl e | Some x \<Rightarrow> Inr x), s)"
  by (simp add: the_or_def run_simps split: option.splits)

lemma of_result_apply [run_simps]: "of_result r s = (r, s)"
  by (simp add: of_result_def run_simps split: sum.splits)

section \<open>Savepoints and transactions\<close>

text \<open>
  \<open>with session.begin_nested()\<close> and \<open>with session_factory.begin()\<close>: an exception restores the
  session \<open>restore old new\<close> built from the session at the start and the session at the raise.
\<close>

definition atomically :: "('s \<Rightarrow> 's \<Rightarrow> 's) \<Rightarrow> ('s, 'e, 'a) sm \<Rightarrow> ('s, 'e, 'a) sm" where
  "atomically restore m =
     (\<lambda>s. case fst (m s) of Inl e \<Rightarrow> (Inl e, restore s (snd (m s))) | Inr x \<Rightarrow> (Inr x, snd (m s)))"

text \<open>\<open>try: m except Exception as exc: h exc\<close>\<close>

definition catch :: "('s, 'e, 'a) sm \<Rightarrow> ('e \<Rightarrow> ('s, 'e, 'a) sm) \<Rightarrow> ('s, 'e, 'a) sm" where
  "catch m h = (\<lambda>s. case fst (m s) of Inl e \<Rightarrow> h e (snd (m s)) | Inr x \<Rightarrow> (Inr x, snd (m s)))"

text \<open>Run \<open>m\<close>, return its outcome as a value: the shape of a \<open>try\<close> whose branches differ in type.\<close>

definition attempt :: "('s, 'e, 'a) sm \<Rightarrow> ('s, 'e, 'e + 'a) sm" where
  "attempt m = (\<lambda>s. (Inr (fst (m s)), snd (m s)))"

lemma attempt_apply [run_simps]: "attempt m s = (Inr (fst (m s)), snd (m s))"
  by (simp add: attempt_def)

lemma atomically_apply [run_simps]:
  "atomically r m s =
     (case fst (m s) of Inl e \<Rightarrow> (Inl e, r s (snd (m s))) | Inr x \<Rightarrow> (Inr x, snd (m s)))"
  by (simp add: atomically_def)

section \<open>Weakest preconditions\<close>

definition wp ::
  "('s, 'e, 'a) sm \<Rightarrow> ('a \<Rightarrow> 's \<Rightarrow> bool) \<Rightarrow> ('e \<Rightarrow> 's \<Rightarrow> bool) \<Rightarrow> 's \<Rightarrow> bool" where
  "wp m Q E s = (case fst (m s) of Inl e \<Rightarrow> E e (snd (m s)) | Inr x \<Rightarrow> Q x (snd (m s)))"

lemma wp_ret [wp_simps]: "wp (ret x) Q E s = Q x s"
  by (simp add: wp_def run_simps)

lemma wp_throw [wp_simps]: "wp (throw e) Q E s = E e s"
  by (simp add: wp_def run_simps)

lemma wp_bind [wp_simps]: "wp (bind m f) Q E s = wp m (\<lambda>x. wp (f x) Q E) E s"
  by (simp add: wp_def bind_def split: sum.splits)

lemma wp_andthen [wp_simps]: "wp (andthen m n) Q E s = wp m (\<lambda>_. wp n Q E) E s"
  by (simp add: andthen_def wp_bind)

lemma wp_gets [wp_simps]: "wp (gets f) Q E s = Q (f s) s"
  by (simp add: wp_def run_simps)

lemma wp_modify [wp_simps]: "wp (modify f) Q E s = Q () (f s)"
  by (simp add: wp_def run_simps)

lemma wp_raise_if [wp_simps]: "wp (raise_if c e) Q E s = (if c then E e s else Q () s)"
  by (simp add: wp_def run_simps)

lemma wp_whenM [wp_simps]: "wp (whenM c m) Q E s = (if c then wp m Q E s else Q () s)"
  by (simp add: whenM_def wp_ret)

lemma wp_the_or [wp_simps]:
  "wp (the_or e r) Q E s = (case r of None \<Rightarrow> E e s | Some x \<Rightarrow> Q x s)"
  by (simp add: wp_def run_simps split: option.splits)

lemma wp_of_result [wp_simps]:
  "wp (of_result r) Q E s = (case r of Inl e \<Rightarrow> E e s | Inr x \<Rightarrow> Q x s)"
  by (cases r) (simp_all add: wp_def run_simps)

lemma wp_if [wp_simps]:
  "wp (if c then m else n) Q E s = (if c then wp m Q E s else wp n Q E s)"
  by simp

lemma wp_case_option [wp_simps]:
  "wp (case x of None \<Rightarrow> m | Some y \<Rightarrow> n y) Q E s =
     (case x of None \<Rightarrow> wp m Q E s | Some y \<Rightarrow> wp (n y) Q E s)"
  by (simp split: option.splits)

lemma wp_attempt [wp_simps]:
  "wp (attempt m) Q E s = wp m (\<lambda>x. Q (Inr x)) (\<lambda>e. Q (Inl e)) s"
  by (simp add: wp_def run_simps split: sum.splits)

lemma wp_atomically [wp_simps]:
  "wp (atomically r m) Q E s = wp m Q (\<lambda>e t. E e (r s t)) s"
  by (simp add: wp_def atomically_def split: sum.splits)

lemma wp_mono:
  assumes "wp m Q E s"
    and "\<And>x t. m s = (Inr x, t) \<Longrightarrow> Q x t \<Longrightarrow> Q' x t"
    and "\<And>e t. m s = (Inl e, t) \<Longrightarrow> E e t \<Longrightarrow> E' e t"
  shows "wp m Q' E' s"
  using assms by (auto simp: wp_def split: sum.splits) (metis prod.collapse)+

lemma wp_conj: "wp m Q E s \<Longrightarrow> wp m Q' E' s \<Longrightarrow>
    wp m (\<lambda>x t. Q x t \<and> Q' x t) (\<lambda>e t. E e t \<and> E' e t) s"
  by (auto simp: wp_def split: sum.splits)

lemma wp_InrD: "wp m Q E s \<Longrightarrow> m s = (Inr x, t) \<Longrightarrow> Q x t"
  by (simp add: wp_def run_simps)

lemma wp_InlD: "wp m Q E s \<Longrightarrow> m s = (Inl e, t) \<Longrightarrow> E e t"
  by (simp add: wp_def run_simps)

lemma wp_snd: "wp m (\<lambda>_. P) (\<lambda>_. P) s \<longleftrightarrow> P (snd (m s))"
  by (simp add: wp_def split: sum.splits)

lemma wp_eqI:
  "(\<And>x t. m s = (Inr x, t) \<Longrightarrow> Q x t) \<Longrightarrow> (\<And>e t. m s = (Inl e, t) \<Longrightarrow> E e t) \<Longrightarrow> wp m Q E s"
  by (auto simp: wp_def split: sum.splits) (metis prod.collapse)+

text \<open>A loop keeps what its body keeps.\<close>

lemma wp_for_each:
  assumes body: "\<And>x t. x \<in> set xs \<Longrightarrow> I t \<Longrightarrow> wp (body x) (\<lambda>_. I) E t"
    and "I s"
  shows "wp (for_each xs body) (\<lambda>_. I) E s"
  using assms
proof (induction xs arbitrary: s)
  case Nil
  then show ?case by (simp add: wp_simps)
next
  case (Cons x xs)
  have "wp (body x) (\<lambda>_. I) E s" using Cons.prems by simp
  then show ?case
    unfolding for_each.simps wp_andthen
    by (rule wp_mono) (use Cons in auto)
qed

section \<open>Frame rules\<close>

definition keeps :: "('s \<Rightarrow> 'b) \<Rightarrow> ('s, 'e, 'a) sm \<Rightarrow> bool" where
  "keeps f m \<longleftrightarrow> (\<forall>s. f (snd (m s)) = f s)"

lemma keepsD: "keeps f m \<Longrightarrow> m s = (r, t) \<Longrightarrow> f t = f s"
  by (metis keeps_def snd_conv)

lemma keeps_snd: "keeps f m \<Longrightarrow> f (snd (m s)) = f s"
  by (simp add: keeps_def run_simps)

lemma keeps_ret [keeps_intros]: "keeps f (ret x)"
  by (simp add: keeps_def run_simps)

lemma keeps_throw [keeps_intros]: "keeps f (throw e)"
  by (simp add: keeps_def run_simps)

lemma keeps_gets [keeps_intros]: "keeps f (gets g)"
  by (simp add: keeps_def run_simps)

lemma keeps_raise_if [keeps_intros]: "keeps f (raise_if c e)"
  by (simp add: keeps_def run_simps)

lemma keeps_the_or [keeps_intros]: "keeps f (the_or e r)"
  by (simp add: keeps_def run_simps)

lemma keeps_of_result [keeps_intros]: "keeps f (of_result r)"
  by (simp add: keeps_def run_simps)

lemma keeps_bind [keeps_intros]:
  "keeps f m \<Longrightarrow> (\<And>x. keeps f (n x)) \<Longrightarrow> keeps f (bind m n)"
  by (auto simp: keeps_def bind_def split: sum.splits)

lemma keeps_andthen [keeps_intros]: "keeps f m \<Longrightarrow> keeps f n \<Longrightarrow> keeps f (andthen m n)"
  by (auto simp: andthen_def intro: keeps_bind)

lemma keeps_whenM [keeps_intros]: "keeps f m \<Longrightarrow> keeps f (whenM c m)"
  by (simp add: keeps_def run_simps)

lemma keeps_if [keeps_intros]: "keeps f m \<Longrightarrow> keeps f n \<Longrightarrow> keeps f (if c then m else n)"
  by simp

lemma keeps_case_option [keeps_intros]:
  "keeps f m \<Longrightarrow> (\<And>y. keeps f (n y)) \<Longrightarrow> keeps f (case x of None \<Rightarrow> m | Some y \<Rightarrow> n y)"
  by (simp split: option.splits)

lemma keeps_case_prod [keeps_intros]:
  "(\<And>x y. keeps f (n x y)) \<Longrightarrow> keeps f (case p of (x, y) \<Rightarrow> n x y)"
  by (simp split: prod.splits)

lemma keeps_let [keeps_intros]: "(\<And>x. keeps f (n x)) \<Longrightarrow> keeps f (let x = v in n x)"
  by simp

lemma keeps_modify: "(\<And>s. f (g s) = f s) \<Longrightarrow> keeps f (modify g)"
  by (simp add: keeps_def run_simps)

lemma keeps_attempt [keeps_intros]: "keeps f m \<Longrightarrow> keeps f (attempt m)"
  by (simp add: keeps_def run_simps)

lemma keeps_for_each [keeps_intros]:
  "(\<And>x. keeps f (body x)) \<Longrightarrow> keeps f (for_each xs body)"
  by (induction xs) (auto intro!: keeps_intros)

lemma keeps_map_each [keeps_intros]:
  "(\<And>x. keeps f (body x)) \<Longrightarrow> keeps f (map_each xs body)"
  by (induction xs) (auto intro!: keeps_intros)

lemma keeps_wp: "keeps f m \<Longrightarrow> wp m (\<lambda>_ t. f t = f s) (\<lambda>_ t. f t = f s) s"
  by (simp add: wp_snd keeps_def)

text \<open>
  Stepping over a call whose frame is known: the rest of the proof sees an arbitrary later
  session that agrees with the present one on \<open>f\<close>.
\<close>

lemma wp_keeps:
  assumes "keeps f m"
    and "\<And>x t. f t = f s \<Longrightarrow> Q x t"
    and "\<And>e t. f t = f s \<Longrightarrow> E e t"
  shows "wp m Q E s"
  using assms by (auto simp: wp_def keeps_def split: sum.splits)

section \<open>Lists\<close>

lemma find_SomeD: "find P xs = Some x \<Longrightarrow> x \<in> set xs \<and> P x"
  by (auto simp: find_Some_iff)

lemma find_NoneD: "find P xs = None \<Longrightarrow> x \<in> set xs \<Longrightarrow> \<not> P x"
  by (auto simp: find_None_iff)

lemma find_append: "find P (xs @ ys) = (case find P xs of None \<Rightarrow> find P ys | Some x \<Rightarrow> Some x)"
  by (induction xs) auto

lemma sum_list_map_update:
  fixes g :: "'a \<Rightarrow> int"
  assumes "distinct (map k xs)" and "x \<in> set xs"
  shows "sum_list (map g (map (\<lambda>y. if k y = k x then h y else y) xs)) =
         sum_list (map g xs) - g x + g (h x)"
  using assms
proof (induction xs)
  case Nil
  then show ?case by simp
next
  case (Cons y ys)
  show ?case
  proof (cases "k y = k x")
    case True
    with Cons.prems have "y = x" by (metis distinct.simps(2) list.simps(9) map_eq_conv rev_image_eqI set_ConsD set_map)
    moreover from True Cons.prems have "map (\<lambda>z. if k z = k x then h z else z) ys = ys"
      by (intro map_idI) (metis distinct.simps(2) list.set_map list.simps(9) rev_image_eqI)
    ultimately show ?thesis by simp
  next
    case False
    with Cons show ?thesis by auto
  qed
qed

end
