(* ===== verification/Core_Types.thy ===== *)
theory Core_Types
  imports Complex_Main Prelude
begin

text \<open>
  The values the components exchange: the enumerations of \<open>persistence/enums.py\<close> and the
  \<open>StrEnum\<close>s next to the code that uses them, with the strings they are stored as; the exceptions;
  identifiers and their text; JSON documents.

  \<^item> A \<open>uuid.UUID\<close> is a natural number, \<open>str(u)\<close> its 8-4-4-4-12 hexadecimal text.
  \<^item> A \<open>datetime\<close> is a number of microseconds; every value the code compares is in UTC.
  \<^item> A \<open>Decimal\<close> is its rational value (theory \<open>Py_Decimal\<close> holds its arithmetic); trailing zeros
    of a representation are not kept, so a JSON string that holds \<open>str(d)\<close> is the leaf \<open>JDec d\<close>.
\<close>

section \<open>Enumerations\<close>

datatype ProductStatus = Product_APPROVED | Product_ARCHIVED

datatype SupplierStatus = Supplier_ACTIVE | Supplier_INACTIVE

datatype ProcurementStatus =
    Procurement_PROPOSED | Procurement_AWAITING_APPROVAL | Procurement_APPROVED
  | Procurement_ORDERED | Procurement_SHIPPED | Procurement_RECEIVED | Procurement_CANCELLED

datatype PurchaseOrderStatus =
    PO_DRAFT | PO_APPROVED | PO_SUBMITTED | PO_SHIPPED | PO_RECEIVED | PO_CANCELLED

datatype InventoryMovementType =
    Move_RECEIPT | Move_RESERVATION | Move_RELEASE | Move_SHIPMENT | Move_RETURN | Move_ADJUSTMENT

text \<open>\<open>REQUESTED = "pending"\<close> is an alias of \<open>PENDING\<close>.\<close>

datatype ApprovalStatus =
    Approval_PENDING | Approval_APPROVED | Approval_REJECTED | Approval_EXPIRED
  | Approval_CANCELLED | Approval_EXECUTED | Approval_EXECUTION_FAILED

abbreviation Approval_REQUESTED :: ApprovalStatus where
  "Approval_REQUESTED \<equiv> Approval_PENDING"

datatype PublicationStatus =
    Publication_DRAFT | Publication_PENDING | Publication_PUBLISHED | Publication_FAILED
  | Publication_ARCHIVED

datatype OrderStatus =
    Order_PENDING | Order_PAID | Order_PROCESSING | Order_DISPATCHED | Order_DELIVERED
  | Order_CANCELLED | Order_RETURNED | Order_REFUNDED

datatype ReturnStatus =
    Return_REQUESTED | Return_APPROVED | Return_RECEIVED | Return_REJECTED | Return_COMPLETED

datatype RefundStatus =
    Refund_PROPOSED | Refund_APPROVED | Refund_PROCESSING | Refund_COMPLETED | Refund_FAILED
  | Refund_CANCELLED

datatype ConversationStatus =
    Conversation_OPEN | Conversation_AWAITING_APPROVAL | Conversation_ESCALATED
  | Conversation_CLOSED

datatype MessageDirection = Message_INBOUND | Message_OUTBOUND

datatype MessageStatus =
    Message_RECEIVED | Message_DRAFT | Message_APPROVED | Message_SENT | Message_FAILED

datatype CustomerServiceDecision =
    Decision_AUTO_RESPOND | Decision_DRAFT_FOR_APPROVAL | Decision_HUMAN_ESCALATION

datatype CustomerIntent =
    Intent_PRODUCT_ENQUIRY | Intent_ORDER_STATUS | Intent_DELIVERY_QUESTION
  | Intent_RETURN_REQUEST | Intent_REFUND_ENQUIRY | Intent_COMPLAINT
  | Intent_COMMON_MARKETPLACE_MESSAGE | Intent_UNKNOWN

datatype RunStatus =
    Run_PENDING | Run_RUNNING | Run_SUCCEEDED | Run_FAILED | Run_RETRYING | Run_ESCALATED
  | Run_CANCELLED

datatype EventStatus = Event_PENDING | Event_PUBLISHED | Event_FAILED | Event_DEAD_LETTERED

datatype HandlerReceiptStatus = Receipt_COMPLETED

primrec procurement_value :: "ProcurementStatus \<Rightarrow> string" where
  "procurement_value Procurement_PROPOSED = ''proposed''"
| "procurement_value Procurement_AWAITING_APPROVAL = ''awaiting_approval''"
| "procurement_value Procurement_APPROVED = ''approved''"
| "procurement_value Procurement_ORDERED = ''ordered''"
| "procurement_value Procurement_SHIPPED = ''shipped''"
| "procurement_value Procurement_RECEIVED = ''received''"
| "procurement_value Procurement_CANCELLED = ''cancelled''"

primrec purchase_order_value :: "PurchaseOrderStatus \<Rightarrow> string" where
  "purchase_order_value PO_DRAFT = ''draft''"
| "purchase_order_value PO_APPROVED = ''approved''"
| "purchase_order_value PO_SUBMITTED = ''submitted''"
| "purchase_order_value PO_SHIPPED = ''shipped''"
| "purchase_order_value PO_RECEIVED = ''received''"
| "purchase_order_value PO_CANCELLED = ''cancelled''"

primrec movement_value :: "InventoryMovementType \<Rightarrow> string" where
  "movement_value Move_RECEIPT = ''receipt''"
| "movement_value Move_RESERVATION = ''reservation''"
| "movement_value Move_RELEASE = ''release''"
| "movement_value Move_SHIPMENT = ''shipment''"
| "movement_value Move_RETURN = ''return''"
| "movement_value Move_ADJUSTMENT = ''adjustment''"

primrec approval_value :: "ApprovalStatus \<Rightarrow> string" where
  "approval_value Approval_PENDING = ''pending''"
| "approval_value Approval_APPROVED = ''approved''"
| "approval_value Approval_REJECTED = ''rejected''"
| "approval_value Approval_EXPIRED = ''expired''"
| "approval_value Approval_CANCELLED = ''cancelled''"
| "approval_value Approval_EXECUTED = ''executed''"
| "approval_value Approval_EXECUTION_FAILED = ''execution_failed''"

primrec order_value :: "OrderStatus \<Rightarrow> string" where
  "order_value Order_PENDING = ''pending''"
| "order_value Order_PAID = ''paid''"
| "order_value Order_PROCESSING = ''processing''"
| "order_value Order_DISPATCHED = ''dispatched''"
| "order_value Order_DELIVERED = ''delivered''"
| "order_value Order_CANCELLED = ''cancelled''"
| "order_value Order_RETURNED = ''returned''"
| "order_value Order_REFUNDED = ''refunded''"

primrec refund_value :: "RefundStatus \<Rightarrow> string" where
  "refund_value Refund_PROPOSED = ''proposed''"
| "refund_value Refund_APPROVED = ''approved''"
| "refund_value Refund_PROCESSING = ''processing''"
| "refund_value Refund_COMPLETED = ''completed''"
| "refund_value Refund_FAILED = ''failed''"
| "refund_value Refund_CANCELLED = ''cancelled''"

primrec run_value :: "RunStatus \<Rightarrow> string" where
  "run_value Run_PENDING = ''pending''"
| "run_value Run_RUNNING = ''running''"
| "run_value Run_SUCCEEDED = ''succeeded''"
| "run_value Run_FAILED = ''failed''"
| "run_value Run_RETRYING = ''retrying''"
| "run_value Run_ESCALATED = ''escalated''"
| "run_value Run_CANCELLED = ''cancelled''"

section \<open>Exceptions\<close>

text \<open>
  An exception is its class and \<open>str(exc)\<close>. \<open>IntegrityError\<close> is what the database raises when a
  unique constraint of a table refuses an insert, \<open>ValidationError\<close> what a pydantic model raises
  when a field breaks its bound, \<open>InvalidOperation\<close> what decimal arithmetic raises.
\<close>

datatype (plugins only: code size) exc_class =
    ValueError | LookupError | RuntimeError | AssertionError | IntegrityError | ValidationError
  | InvalidOperation | DivisionByZero | AttributeError | KeyError | TypeError
  | InvalidInventoryChange | InvalidOrderTransition | InvalidProcurementTransition
  | PricingValidationError
  | ApprovalNotFoundError | ApprovalTransitionError | ApprovalExpiredError
  | ApprovalNotRequiredError
  | EventConflictError | EventNotFoundError | EventProcessingError
  | ProcurementNotFoundError | PurchaseOrderNotFoundError | ProcurementValidationError
  | InventoryNotFoundError | PurchaseOrderNotReceivableError | PurchaseOrderReceiptNotFoundError
  | InventoryIdempotencyConflict
  | OrderNotFoundError | InsufficientInventoryError | OrderIdempotencyConflict
  | OrderValidationError
  | PricingInventoryNotFoundError | PricingApprovalError
  | RefundApprovalError
  | NonRetryableWorkflowError
  | ListingInventoryNotReadyError | ListingApprovalError | ListingPublicationError
  | ConversationNotFoundError | CustomerMessageConflict | CustomerResponseApprovalError
  | ApprovedProductConflictError | SpendingLimitExceeded
  | MarketplaceConnectorError | MarketplaceValidationError | MarketplaceConfigurationError

datatype exn = Exn (exn_class: exc_class) (exn_message: string)

text \<open>\<open>type(exc).__name__\<close> of the classes a workflow step may raise.\<close>

primrec class_name :: "exc_class \<Rightarrow> string" where
  "class_name ValueError = ''ValueError''"
| "class_name LookupError = ''LookupError''"
| "class_name RuntimeError = ''RuntimeError''"
| "class_name AssertionError = ''AssertionError''"
| "class_name IntegrityError = ''IntegrityError''"
| "class_name ValidationError = ''ValidationError''"
| "class_name InvalidOperation = ''InvalidOperation''"
| "class_name DivisionByZero = ''DivisionByZero''"
| "class_name AttributeError = ''AttributeError''"
| "class_name KeyError = ''KeyError''"
| "class_name TypeError = ''TypeError''"
| "class_name InvalidInventoryChange = ''InvalidInventoryChange''"
| "class_name InvalidOrderTransition = ''InvalidOrderTransition''"
| "class_name InvalidProcurementTransition = ''InvalidProcurementTransition''"
| "class_name PricingValidationError = ''PricingValidationError''"
| "class_name ApprovalNotFoundError = ''ApprovalNotFoundError''"
| "class_name ApprovalTransitionError = ''ApprovalTransitionError''"
| "class_name ApprovalExpiredError = ''ApprovalExpiredError''"
| "class_name ApprovalNotRequiredError = ''ApprovalNotRequiredError''"
| "class_name EventConflictError = ''EventConflictError''"
| "class_name EventNotFoundError = ''EventNotFoundError''"
| "class_name EventProcessingError = ''EventProcessingError''"
| "class_name ProcurementNotFoundError = ''ProcurementNotFoundError''"
| "class_name PurchaseOrderNotFoundError = ''PurchaseOrderNotFoundError''"
| "class_name ProcurementValidationError = ''ProcurementValidationError''"
| "class_name InventoryNotFoundError = ''InventoryNotFoundError''"
| "class_name PurchaseOrderNotReceivableError = ''PurchaseOrderNotReceivableError''"
| "class_name PurchaseOrderReceiptNotFoundError = ''PurchaseOrderReceiptNotFoundError''"
| "class_name InventoryIdempotencyConflict = ''InventoryIdempotencyConflict''"
| "class_name OrderNotFoundError = ''OrderNotFoundError''"
| "class_name InsufficientInventoryError = ''InsufficientInventoryError''"
| "class_name OrderIdempotencyConflict = ''OrderIdempotencyConflict''"
| "class_name OrderValidationError = ''OrderValidationError''"
| "class_name PricingInventoryNotFoundError = ''PricingInventoryNotFoundError''"
| "class_name PricingApprovalError = ''PricingApprovalError''"
| "class_name RefundApprovalError = ''RefundApprovalError''"
| "class_name NonRetryableWorkflowError = ''NonRetryableWorkflowError''"
| "class_name ListingInventoryNotReadyError = ''ListingInventoryNotReadyError''"
| "class_name ListingApprovalError = ''ListingApprovalError''"
| "class_name ListingPublicationError = ''ListingPublicationError''"
| "class_name ConversationNotFoundError = ''ConversationNotFoundError''"
| "class_name CustomerMessageConflict = ''CustomerMessageConflict''"
| "class_name CustomerResponseApprovalError = ''CustomerResponseApprovalError''"
| "class_name ApprovedProductConflictError = ''ApprovedProductConflictError''"
| "class_name SpendingLimitExceeded = ''SpendingLimitExceeded''"
| "class_name MarketplaceConnectorError = ''MarketplaceConnectorError''"
| "class_name MarketplaceValidationError = ''MarketplaceValidationError''"
| "class_name MarketplaceConfigurationError = ''MarketplaceConfigurationError''"

section \<open>Identifiers and text\<close>

type_synonym uuid = nat
type_synonym datetime = int

definition seconds :: "int \<Rightarrow> int" where
  "seconds n = n * 1000000"

definition hours :: "int \<Rightarrow> int" where
  "hours n = seconds (n * 3600)"

definition days :: "int \<Rightarrow> int" where
  "days n = hours (n * 24)"

fun nat_str :: "nat \<Rightarrow> string" where
  "nat_str n = (if n < 10 then [''0123456789'' ! n]
     else nat_str (n div 10) @ [''0123456789'' ! (n mod 10)])"

declare nat_str.simps [simp del]

definition int_str :: "int \<Rightarrow> string" where
  "int_str i = (if i < 0 then CHR ''-'' # nat_str (nat (- i)) else nat_str (nat i))"

definition hex_digit :: "nat \<Rightarrow> char" where
  "hex_digit n = ''0123456789abcdef'' ! n"

fun hex_digits :: "nat \<Rightarrow> string" where
  "hex_digits n = (if n < 16 then [hex_digit n] else hex_digits (n div 16) @ [hex_digit (n mod 16)])"

declare hex_digits.simps [simp del]

text \<open>\<open>u.hex\<close>\<close>

definition uuid_hex :: "uuid \<Rightarrow> string" where
  "uuid_hex u = (let ds = hex_digits u in replicate (32 - length ds) (CHR ''0'') @ ds)"

text \<open>\<open>str(u)\<close>\<close>

definition uuid_str :: "uuid \<Rightarrow> string" where
  "uuid_str u = (let h = uuid_hex u in
     take 8 h @ ''-'' @ take 4 (drop 8 h) @ ''-'' @ take 4 (drop 12 h) @ ''-'' @
     take 4 (drop 16 h) @ ''-'' @ drop 20 h)"

text \<open>The reader of the text: dashes are skipped, the digits are read to base 16.\<close>

definition hex_value :: "char \<Rightarrow> nat" where
  "hex_value c = length (takeWhile (\<lambda>d. d \<noteq> c) ''0123456789abcdef'')"

definition hex_read :: "string \<Rightarrow> nat" where
  "hex_read = foldl (\<lambda>a c. 16 * a + hex_value c) 0"

definition uuid_read :: "string \<Rightarrow> uuid" where
  "uuid_read s = hex_read (filter (\<lambda>c. c \<noteq> CHR ''-'') s)"

lemma hex_digit_table: "\<forall>d \<in> set [0..<16]. hex_value (hex_digit d) = d \<and> hex_digit d \<noteq> CHR ''-''"
  by code_simp

lemma hex_value_digit: "n < 16 \<Longrightarrow> hex_value (hex_digit n) = n"
  using hex_digit_table by simp

lemma hex_digit_not_dash: "n < 16 \<Longrightarrow> hex_digit n \<noteq> CHR ''-''"
  using hex_digit_table by simp

lemma hex_read_append: "hex_read (xs @ [c]) = 16 * hex_read xs + hex_value c"
  by (simp add: hex_read_def)

lemma hex_read_digits: "hex_read (hex_digits n) = n"
proof (induction n rule: hex_digits.induct)
  case (1 n)
  show ?case
  proof (cases "n < 16")
    case True
    then show ?thesis by (simp add: hex_digits.simps hex_read_def hex_value_digit)
  next
    case False
    with 1 have IH: "hex_read (hex_digits (n div 16)) = n div 16" by simp
    have "hex_digits n = hex_digits (n div 16) @ [hex_digit (n mod 16)]"
      using False by (simp add: hex_digits.simps [of n])
    then show ?thesis by (simp only: hex_read_append IH) (simp add: hex_value_digit)
  qed
qed

lemma foldl_zeros: "foldl (\<lambda>a c. 16 * a + hex_value c) 0 (replicate k (CHR ''0'')) = 0"
  by (induction k) (simp_all add: hex_value_def)

lemma hex_read_pad: "hex_read (replicate k (CHR ''0'') @ xs) = hex_read xs"
  by (simp add: hex_read_def foldl_zeros)

lemma hex_digits_no_dash: "CHR ''-'' \<notin> set (hex_digits n)"
proof (induction n rule: hex_digits.induct)
  case (1 n)
  then show ?case
    by (cases "n < 16")
      (simp_all add: hex_digits.simps [of n] hex_digit_not_dash [symmetric] not_sym [OF hex_digit_not_dash])
qed

lemma uuid_hex_no_dash: "filter (\<lambda>c. c \<noteq> CHR ''-'') (uuid_hex u) = uuid_hex u"
  by (rule filter_True) (auto simp: uuid_hex_def Let_def hex_digits_no_dash)

lemma take_drop_chunk: "take n (drop m xs) @ drop (m + n) xs = drop m xs"
  by (metis add.commute append_take_drop_id drop_drop)

lemma uuid_chunks:
  "take 8 h @ take 4 (drop 8 h) @ take 4 (drop 12 h) @ take 4 (drop 16 h) @ drop 20 h = h"
  using take_drop_chunk [of 4 16 h] take_drop_chunk [of 4 12 h] take_drop_chunk [of 4 8 h]
  by simp

lemma uuid_read_str: "uuid_read (uuid_str u) = u"
proof -
  let ?P = "\<lambda>c. c \<noteq> CHR ''-''"
  let ?h = "uuid_hex u"
  have "filter ?P (uuid_str u) =
      filter ?P (take 8 ?h @ take 4 (drop 8 ?h) @ take 4 (drop 12 ?h) @ take 4 (drop 16 ?h) @ drop 20 ?h)"
    by (simp add: uuid_str_def Let_def)
  also have "\<dots> = ?h" by (simp only: uuid_chunks uuid_hex_no_dash)
  finally show ?thesis
    by (simp add: uuid_read_def uuid_hex_def Let_def hex_read_pad hex_read_digits)
qed

lemma uuid_str_inject [simp]: "uuid_str a = uuid_str b \<longleftrightarrow> a = b"
  by (metis uuid_read_str)

text \<open>\<open>s.upper()\<close>, \<open>s.lower()\<close> and \<open>s.isalpha()\<close> of ASCII text.\<close>

definition upper_char :: "char \<Rightarrow> char" where
  "upper_char c = (let n = of_char c :: nat in if 97 \<le> n \<and> n \<le> 122 then char_of (n - 32) else c)"

definition str_upper :: "string \<Rightarrow> string" where
  "str_upper = map upper_char"

definition lower_char :: "char \<Rightarrow> char" where
  "lower_char c = (let n = of_char c :: nat in if 65 \<le> n \<and> n \<le> 90 then char_of (n + 32) else c)"

definition str_lower :: "string \<Rightarrow> string" where
  "str_lower = map lower_char"

definition is_letter :: "char \<Rightarrow> bool" where
  "is_letter c = (let n = of_char c :: nat in 65 \<le> n \<and> n \<le> 90 \<or> 97 \<le> n \<and> n \<le> 122)"

definition is_alpha :: "string \<Rightarrow> bool" where
  "is_alpha s \<longleftrightarrow> s \<noteq> [] \<and> list_all is_letter s"

section \<open>JSON documents\<close>

datatype json =
    JNull | JBool bool | JInt int | JStr string | JDec rat
  | JList "json list" | JObj "(string \<times> json) list"

type_synonym dict = "(string \<times> json) list"

text \<open>\<open>d.get(k)\<close>\<close>

definition dict_get :: "dict \<Rightarrow> string \<Rightarrow> json option" where
  "dict_get d k = map_of d k"

text \<open>\<open>d[k] = v\<close>: in place if the key is there, at the end otherwise.\<close>

fun dict_put :: "dict \<Rightarrow> string \<Rightarrow> json \<Rightarrow> dict" where
  "dict_put [] k v = [(k, v)]"
| "dict_put ((k', v') # d) k v = (if k' = k then (k, v) # d else (k', v') # dict_put d k v)"

text \<open>\<open>{**a, **b}\<close>\<close>

definition dict_merge :: "dict \<Rightarrow> dict \<Rightarrow> dict" where
  "dict_merge a b = foldl (\<lambda>d (k, v). dict_put d k v) a b"

lemma dict_get_put: "dict_get (dict_put d k v) k' = (if k' = k then Some v else dict_get d k')"
  by (induction d k v rule: dict_put.induct) (auto simp: dict_get_def)

lemma dict_get_merge:
  "dict_get (dict_merge a b) k =
     (case dict_get (rev b) k of None \<Rightarrow> dict_get a k | Some v \<Rightarrow> Some v)"
proof (induction b arbitrary: a)
  case Nil
  then show ?case by (simp add: dict_merge_def dict_get_def)
next
  case (Cons p b)
  obtain k' v' where p: "p = (k', v')" by force
  have "dict_merge a (p # b) = dict_merge (dict_put a k' v') b"
    by (simp add: dict_merge_def p)
  then show ?case
    using Cons [of "dict_put a k' v'"]
    by (auto simp: dict_get_put [unfolded dict_get_def] p dict_get_def map_add_def
        split: option.splits)
qed

end
