(* ===== verification/Py_Decimal.thy ===== *)
theory Py_Decimal
  imports Core_Types
begin

text \<open>
  Python's \<open>decimal\<close> in its default context, which is the one the program computes in: 28 significant
  digits, ROUND_HALF_EVEN. An arithmetic operation returns the exact result rounded to 28
  significant digits (\<open>round28\<close>); \<open>quantize\<close> rounds to a fixed number of places and raises
  \<open>InvalidOperation\<close> when the result needs more than 28 digits; \<open>to_integral_value\<close> is exact. The
  limits on the exponent are not reached by the values of the program and are not modelled.

  \<open>decimal_context\<close> is what the callers rely on: rounding is exact on representable values,
  monotone, and has a bounded relative error.
\<close>

section \<open>Rounding to 28 significant digits\<close>

function ndigits :: "int \<Rightarrow> nat" where
  "ndigits n = (if n < 10 then 1 else Suc (ndigits (n div 10)))"
  by pat_completeness auto
termination
  by (relation "measure nat") auto

declare ndigits.simps [simp del]

text \<open>The exponent of the leading digit: \<open>10 ^ adjusted x \<le> |x| < 10 ^ (adjusted x + 1)\<close>.\<close>

definition adjusted :: "rat \<Rightarrow> int" where
  "adjusted x = (let (n, d) = quotient_of \<bar>x\<bar>;
       k = int (ndigits n) - int (ndigits d)
     in if 10 powi k \<le> \<bar>x\<bar> then k else k - 1)"

definition round_half_even :: "rat \<Rightarrow> int" where
  "round_half_even x = (let f = \<lfloor>x\<rfloor>; r = x - of_int f
     in if r < 1/2 then f else if 1/2 < r then f + 1 else if even f then f else f + 1)"

definition round28 :: "rat \<Rightarrow> rat" where
  "round28 x = (if x = 0 then 0
     else let e = adjusted x - 27 in of_int (round_half_even (x / 10 powi e)) * 10 powi e)"

definition dec_add :: "rat \<Rightarrow> rat \<Rightarrow> rat" where "dec_add a b = round28 (a + b)"
definition dec_sub :: "rat \<Rightarrow> rat \<Rightarrow> rat" where "dec_sub a b = round28 (a - b)"
definition dec_mul :: "rat \<Rightarrow> rat \<Rightarrow> rat" where "dec_mul a b = round28 (a * b)"

definition dec_div :: "rat \<Rightarrow> rat \<Rightarrow> exn + rat" where
  "dec_div a b = (if b = 0 then (if a = 0 then Inl (Exn InvalidOperation ''division undefined'')
       else Inl (Exn DivisionByZero ''division by zero''))
     else Inr (round28 (a / b)))"

text \<open>\<open>x.quantize(Decimal("0.0001"))\<close>\<close>

definition quantize4 :: "rat \<Rightarrow> exn + rat" where
  "quantize4 x = (let c = round_half_even (x * 10000) in
     if 10 ^ 28 \<le> \<bar>c\<bar> then Inl (Exn InvalidOperation ''quantize result has too many digits'')
     else Inr (of_int c / 10000))"

text \<open>\<open>x.to_integral_value(rounding=ROUND_CEILING)\<close>\<close>

definition integral_ceiling :: "rat \<Rightarrow> rat" where
  "integral_ceiling x = of_int \<lceil>x\<rceil>"

text \<open>A value with at most 28 significant digits.\<close>

definition representable :: "rat \<Rightarrow> bool" where
  "representable x \<longleftrightarrow> (\<exists>c e. x = of_int c * 10 powi e \<and> \<bar>c\<bar> < 10 ^ 28)"

section \<open>The leading digit\<close>

lemma ndigits_bounds: "(0::int) < n \<Longrightarrow> 10 ^ (ndigits n - 1) \<le> n \<and> n < 10 ^ ndigits n"
proof (induction n rule: ndigits.induct)
  case (1 n)
  show ?case
  proof (cases "n < 10")
    case True
    with "1.prems" show ?thesis by (simp add: ndigits.simps)
  next
    case False
    let ?k = "ndigits (n div 10)"
    have IH: "10 ^ (?k - 1) \<le> n div 10" "n div 10 < 10 ^ ?k" using False 1 by auto
    have pos: "0 < ndigits (n div 10)" by (simp add: ndigits.simps [of "n div 10"])
    have "10 * 10 ^ (?k - 1) \<le> n" using IH(1) by linarith
    then have "10 ^ ?k \<le> n" using pos by (metis Suc_diff_1 power_Suc)
    moreover have "n < 10 * 10 ^ ?k" using IH(2) by linarith
    moreover have "ndigits n = Suc ?k" using False by (simp add: ndigits.simps [of n])
    ultimately show ?thesis by simp
  qed
qed

lemma powi_less: "(10::rat) powi a < 10 powi b \<longleftrightarrow> a < b"
proof
  assume "(10::rat) powi a < 10 powi b"
  then show "a < b" by (rule_tac ccontr) (auto simp: not_less dest: power_int_increasing [of b a "10::rat"])
qed (simp add: power_int_strict_increasing)

lemma powi_le: "(10::rat) powi a \<le> 10 powi b \<longleftrightarrow> a \<le> b"
  using powi_less [of b a] by (simp add: linorder_not_less [symmetric])

lemma powi_pos [simp]: "0 < (10::rat) powi a" "(10::rat) powi a \<noteq> 0"
  by (simp_all add: zero_less_power_int)

lemma powi_suc: "(10::rat) powi (a + 1) = 10 * 10 powi a"
  by (simp add: power_int_add)

lemma powi_28: "(10::rat) powi (e + 27) = 10 ^ 27 * 10 powi e" "(10::rat) powi (e + 28) = 10 ^ 28 * 10 powi e"
  using power_int_add [of "10::rat" e 27] power_int_add [of "10::rat" e 28] by simp_all

lemma adjusted_bounds:
  assumes "x \<noteq> 0"
  shows "10 powi adjusted x \<le> \<bar>x\<bar> \<and> \<bar>x\<bar> < 10 powi (adjusted x + 1)"
proof -
  obtain n d where q: "quotient_of \<bar>x\<bar> = (n, d)" by force
  have d: "0 < d" and x: "\<bar>x\<bar> = of_int n / of_int d"
    using quotient_of_denom_pos [OF q] quotient_of_div [OF q] by auto
  have n: "0 < n" using assms d x by (metis abs_of_pos divide_pos_pos linorder_neqE_linordered_idom
        not_less of_int_0_less_iff of_int_le_0_iff order_refl zero_less_abs_iff divide_nonpos_pos)
  let ?dn = "ndigits n" and ?dd = "ndigits d"
  let ?k = "int ?dn - int ?dd"
  have nb: "10 ^ (?dn - 1) \<le> n" "n < 10 ^ ?dn" using ndigits_bounds [of n] n by auto
  have db: "10 ^ (?dd - 1) \<le> d" "d < 10 ^ ?dd" using ndigits_bounds [of d] d by auto
  have pos: "0 < ?dn" "0 < ?dd" by (simp_all add: ndigits.simps [of n] ndigits.simps [of d])
  have n1: "(10::rat) ^ (?dn - 1) \<le> of_int n" and n2: "(of_int n :: rat) < 10 ^ ?dn"
    using nb by (metis of_int_le_iff of_int_less_iff of_int_numeral of_int_power)+
  have d1: "(10::rat) ^ (?dd - 1) \<le> of_int d" and d2: "(of_int d :: rat) < 10 ^ ?dd"
    using db by (metis of_int_le_iff of_int_less_iff of_int_numeral of_int_power)+
  have dpos: "(0::rat) < of_int d" using d by simp
  have p1: "(10::rat) powi (?k - 1) * 10 ^ ?dd = 10 ^ (?dn - 1)"
  proof -
    have "(10::rat) powi (?k - 1) * 10 powi (int ?dd) = 10 powi (?k - 1 + int ?dd)"
      by (rule power_int_add [symmetric]) simp
    also have "?k - 1 + int ?dd = int (?dn - 1)" using pos by simp
    finally show ?thesis by (simp only: power_int_of_nat)
  qed
  have p2: "(10::rat) powi (?k + 1) * 10 ^ (?dd - 1) = 10 ^ ?dn"
  proof -
    have "(10::rat) powi (?k + 1) * 10 powi (int (?dd - 1)) = 10 powi (?k + 1 + int (?dd - 1))"
      by (rule power_int_add [symmetric]) simp
    also have "?k + 1 + int (?dd - 1) = int ?dn" using pos by simp
    finally show ?thesis by (simp only: power_int_of_nat)
  qed
  have low: "10 powi (?k - 1) \<le> \<bar>x\<bar>"
  proof -
    have "10 powi (?k - 1) * (of_int d :: rat) \<le> 10 powi (?k - 1) * 10 ^ ?dd"
      using d2 by (intro mult_left_mono) (auto simp: less_imp_le)
    also have "\<dots> \<le> of_int n" using n1 p1 by simp
    finally show ?thesis using dpos by (simp add: x pos_le_divide_eq)
  qed
  have high: "\<bar>x\<bar> < 10 powi (?k + 1)"
  proof -
    have "(of_int n :: rat) < 10 ^ ?dn" by (rule n2)
    also have "\<dots> = 10 powi (?k + 1) * 10 ^ (?dd - 1)" using p2 by simp
    also have "\<dots> \<le> 10 powi (?k + 1) * of_int d" using d1 by (intro mult_left_mono) (auto simp: less_imp_le)
    finally show ?thesis using dpos by (simp add: x pos_divide_less_eq)
  qed
  show ?thesis using low high by (auto simp: adjusted_def q Let_def)
qed

lemma adjusted_eqI:
  assumes "10 powi k \<le> \<bar>x\<bar>" "\<bar>x\<bar> < 10 powi (k + 1)" shows "adjusted x = k"
proof -
  have "0 < \<bar>x\<bar>" using assms(1) powi_pos(1) [of k] by linarith
  then have "x \<noteq> 0" by simp
  from adjusted_bounds [OF this] assms
  have "10 powi k < (10::rat) powi (adjusted x + 1)" "10 powi adjusted x < (10::rat) powi (k + 1)" by linarith+
  then show ?thesis by (simp add: powi_less)
qed

section \<open>Rounding to an integer\<close>

lemma round_half_even_int [simp]: "round_half_even (of_int c) = c"
  by (simp add: round_half_even_def)

lemma round_half_even_error: "\<bar>of_int (round_half_even x) - x\<bar> \<le> 1/2"
proof -
  have "of_int \<lfloor>x\<rfloor> \<le> x" "x < of_int \<lfloor>x\<rfloor> + 1" by linarith+
  then show ?thesis by (auto simp: round_half_even_def Let_def)
qed

lemma round_half_even_mono:
  assumes "x \<le> y" shows "round_half_even x \<le> round_half_even y"
proof (cases "\<lfloor>x\<rfloor> = \<lfloor>y\<rfloor>")
  case True
  with assms show ?thesis by (auto simp: round_half_even_def Let_def)
next
  case False
  with assms have "\<lfloor>x\<rfloor> + 1 \<le> \<lfloor>y\<rfloor>" by (meson floor_mono order_le_less zless_imp_add1_zle)
  moreover have "round_half_even x \<le> \<lfloor>x\<rfloor> + 1" "\<lfloor>y\<rfloor> \<le> round_half_even y"
    by (auto simp: round_half_even_def Let_def)
  ultimately show ?thesis by simp
qed

section \<open>What callers rely on\<close>

locale decimal_context =
  fixes rnd :: "rat \<Rightarrow> rat"
  assumes rnd_exact: "representable x \<Longrightarrow> rnd x = x"
    and rnd_mono: "x \<le> y \<Longrightarrow> rnd x \<le> rnd y"
    and rnd_error: "\<bar>rnd x - x\<bar> \<le> \<bar>x\<bar> / (2 * 10 ^ 27)"
begin

lemma rnd_ge: "representable a \<Longrightarrow> a \<le> x \<Longrightarrow> a \<le> rnd x"
  using rnd_exact rnd_mono by metis

lemma rnd_le: "representable b \<Longrightarrow> x \<le> b \<Longrightarrow> rnd x \<le> b"
  using rnd_exact rnd_mono by metis

lemma rnd_lower:
  assumes "0 \<le> x" shows "x - x / (2 * 10 ^ 27) \<le> rnd x"
proof -
  have "x - rnd x \<le> \<bar>rnd x - x\<bar>" by simp
  also have "\<dots> \<le> x / (2 * 10 ^ 27)" using rnd_error [of x] assms by simp
  finally show ?thesis by simp
qed

text \<open>
  A quotient with a small denominator lies so far above the next integer below it, compared with
  its size, that two roundings cannot move it there: rounding up after two rounded divisions gives
  what rounding up the exact quotient gives.
\<close>

lemma rounded_quotient_ceiling:
  fixes a b c N :: int and y :: rat
  assumes a: "0 \<le> a" "a < 10 ^ 23" and b: "0 < b" and c: "0 < c"
    and y: "rnd (of_int a / of_int b) \<le> y"
    and N: "rnd (y / (of_int c / 10000)) \<le> of_int N"
  shows "of_int a / of_int b \<le> of_int N * (of_int c / 10000 :: rat)"
proof (rule ccontr)
  let ?e = "1 / (2 * 10 ^ 27) :: rat"
  let ?t = "of_int a / of_int b :: rat" and ?i = "of_int c / 10000 :: rat"
  assume "\<not> ?t \<le> of_int N * ?i"
  then have "of_int N * ?i < ?t" by simp
  then have "(of_int (N * c * b) :: rat) < of_int (a * 10000)"
    using b by (simp add: field_simps)
  then have "N * c * b + 1 \<le> a * 10000" by (simp only: of_int_less_iff)
  then have gap: "(of_int N * of_int c * of_int b + 1 :: rat) \<le> of_int a * 10000"
    by (metis (mono_tags) of_int_1 of_int_add of_int_le_iff of_int_mult of_int_numeral)
  have t0: "0 \<le> ?t" using a b by simp
  have i0: "0 < ?i" using c by simp
  have y1: "?t * (1 - ?e) \<le> y" using rnd_lower [OF t0] y by (simp add: algebra_simps)
  have y0: "0 \<le> y" using mult_nonneg_nonneg [OF t0, of "1 - ?e"] y1 by simp
  have "y / ?i * (1 - ?e) \<le> rnd (y / ?i)"
    using rnd_lower [of "y / ?i"] y0 i0 by (simp add: algebra_simps)
  with N have "y / ?i * (1 - ?e) \<le> of_int N" by linarith
  moreover have "?t * (1 - ?e) / ?i * (1 - ?e) \<le> y / ?i * (1 - ?e)"
    using y1 i0 by (intro mult_right_mono divide_right_mono) simp_all
  ultimately have "?t / ?i * ((1 - ?e) * (1 - ?e)) \<le> of_int N" by (simp add: algebra_simps)
  moreover have "?t / ?i * (1 - 2 * ?e) \<le> ?t / ?i * ((1 - ?e) * (1 - ?e))"
    using a b c by (intro mult_left_mono divide_nonneg_pos) simp_all
  ultimately have "?t / ?i * (1 - 2 * ?e) \<le> of_int N" by linarith
  then have "of_int a * 10000 * (1 - 2 * ?e) \<le> (of_int N * of_int c * of_int b :: rat)"
    using b c by (simp add: field_simps)
  with gap have "1 \<le> of_int a * 10000 * (2 * ?e)" by (simp add: algebra_simps)
  then have "(10 ^ 23 :: rat) \<le> of_int a" by simp
  then have "10 ^ 23 \<le> a" by (metis of_int_le_iff of_int_numeral of_int_power)
  with a show False by simp
qed

end

section \<open>The default context meets the contract\<close>

lemma round28_bounds:
  assumes "x \<noteq> 0"
  defines "e \<equiv> adjusted x - 27"
  shows "10 ^ 27 * 10 powi e \<le> \<bar>x\<bar>" "\<bar>x\<bar> < 10 ^ 28 * 10 powi e"
    "round28 x = of_int (round_half_even (x / 10 powi e)) * 10 powi e"
proof -
  have "adjusted x = e + 27" "adjusted x + 1 = e + 28" by (simp_all add: e_def)
  with adjusted_bounds [OF assms(1)]
  have "10 powi (e + 27) \<le> \<bar>x\<bar>" "\<bar>x\<bar> < 10 powi (e + 28)" by (simp_all only:)
  then show "10 ^ 27 * 10 powi e \<le> \<bar>x\<bar>" "\<bar>x\<bar> < 10 ^ 28 * 10 powi e"
    by (simp_all only: powi_28)
  show "round28 x = of_int (round_half_even (x / 10 powi e)) * 10 powi e"
    using assms(1) by (simp only: e_def round28_def Let_def if_False)
qed

lemma adjusted_mono:
  assumes "0 < x" "x \<le> y" shows "adjusted x \<le> adjusted y"
proof -
  have "10 powi adjusted x < (10::rat) powi (adjusted y + 1)"
    using adjusted_bounds [of x] adjusted_bounds [of y] assms by simp
  then show ?thesis by (simp add: powi_less)
qed

lemma adjusted_minus: "adjusted (- x) = adjusted x"
  by (simp add: adjusted_def)

lemma representable_exact:
  assumes "representable x" shows "round28 x = x"
proof (cases "x = 0")
  case True
  then show ?thesis by (simp add: round28_def)
next
  case False
  define e where "e = adjusted x - 27"
  obtain c k where x: "x = of_int c * 10 powi k" and c: "\<bar>c\<bar> < 10 ^ 28"
    using assms by (auto simp: representable_def)
  have "\<bar>x\<bar> < 10 ^ 28 * 10 powi k"
  proof -
    have "\<bar>of_int c :: rat\<bar> < 10 ^ 28" using c
      by (metis of_int_abs of_int_less_iff of_int_numeral of_int_power)
    then show ?thesis by (simp add: x abs_mult)
  qed
  then have "10 ^ 27 * 10 powi e < (10::rat) ^ 28 * 10 powi k"
    using round28_bounds(1) [OF False] by (simp add: e_def)
  then have "(10::rat) powi (e + 27) < 10 powi (k + 28)" by (simp add: powi_28)
  then have "e \<le> k" by (simp add: powi_less)
  then have "(10::rat) powi k = 10 ^ nat (k - e) * 10 powi e"
    using power_int_add [of "10::rat" "k - e" e] by (simp add: power_int_def)
  then have "x / 10 powi e = of_int (c * 10 ^ nat (k - e))" by (simp add: x)
  then have "round_half_even (x / 10 powi e) = c * 10 ^ nat (k - e)" by (simp only: round_half_even_int)
  then show ?thesis
    using round28_bounds(3) [OF False] \<open>x / 10 powi e = of_int (c * 10 ^ nat (k - e))\<close>
    by (simp add: e_def field_simps)
qed

lemma round28_error: "\<bar>round28 x - x\<bar> \<le> \<bar>x\<bar> / (2 * 10 ^ 27)"
proof (cases "x = 0")
  case True
  then show ?thesis by (simp add: round28_def)
next
  case False
  define e where "e = adjusted x - 27"
  have "\<bar>round28 x - x\<bar> = \<bar>(of_int (round_half_even (x / 10 powi e)) - x / 10 powi e) * 10 powi e\<bar>"
    using round28_bounds(3) [OF False] by (simp add: e_def algebra_simps)
  also have "\<dots> = \<bar>of_int (round_half_even (x / 10 powi e)) - x / 10 powi e\<bar> * 10 powi e"
    by (simp add: abs_mult)
  also have "\<dots> \<le> 1/2 * 10 powi e" by (intro mult_right_mono round_half_even_error) simp
  also have "\<dots> \<le> \<bar>x\<bar> / (2 * 10 ^ 27)"
    using round28_bounds(1) [OF False] by (simp add: e_def field_simps)
  finally show ?thesis .
qed

lemma round28_sign: "0 \<le> x \<Longrightarrow> 0 \<le> round28 x" "x \<le> 0 \<Longrightarrow> round28 x \<le> 0"
proof -
  have "\<bar>x\<bar> / (2 * 10 ^ 27) \<le> \<bar>x\<bar>" by (simp add: field_simps)
  then have "\<bar>round28 x - x\<bar> \<le> \<bar>x\<bar>" using round28_error [of x] by (rule order_trans [rotated])
  then show "0 \<le> x \<Longrightarrow> 0 \<le> round28 x" "x \<le> 0 \<Longrightarrow> round28 x \<le> 0" by linarith+
qed

text \<open>A value of the next decade is representable, so decades are kept apart.\<close>

lemma round28_decade:
  assumes "0 < x" shows "round28 x \<le> 10 powi (adjusted x + 1)" "10 powi adjusted x \<le> round28 x"
proof -
  define e where "e = adjusted x - 27"
  have x: "x \<noteq> 0" "\<bar>x\<bar> = x" using assms by simp_all
  have b: "of_int (10 ^ 27) \<le> x / 10 powi e" "x / 10 powi e \<le> of_int (10 ^ 28)"
    using round28_bounds(1,2) [OF x(1)] by (simp_all add: x e_def field_simps)
  have "round_half_even (x / 10 powi e) \<le> 10 ^ 28" "10 ^ 27 \<le> round_half_even (x / 10 powi e)"
    using round_half_even_mono [OF b(1)] round_half_even_mono [OF b(2)]
    by (simp_all only: round_half_even_int)
  then have r: "(of_int (round_half_even (x / 10 powi e)) :: rat) \<le> 10 ^ 28"
      "(10 ^ 27 :: rat) \<le> of_int (round_half_even (x / 10 powi e))"
    by (metis of_int_le_iff of_int_numeral of_int_power)+
  have "(10::rat) powi (adjusted x + 1) = 10 ^ 28 * 10 powi e" "(10::rat) powi adjusted x = 10 ^ 27 * 10 powi e"
    using powi_28 [of e] by (simp_all add: e_def algebra_simps)
  then show "round28 x \<le> 10 powi (adjusted x + 1)" "10 powi adjusted x \<le> round28 x"
    using round28_bounds(3) [OF x(1)] r by (simp_all add: e_def)
qed

lemma round28_mono_pos:
  assumes "0 < x" "x \<le> y" shows "round28 x \<le> round28 y"
proof (cases "adjusted x = adjusted y")
  case True
  define e where "e = adjusted y - 27"
  have "x / 10 powi e \<le> y / 10 powi e" using assms by (simp add: divide_right_mono)
  then have "(of_int (round_half_even (x / 10 powi e)) :: rat) \<le> of_int (round_half_even (y / 10 powi e))"
    by (simp add: round_half_even_mono)
  then show ?thesis
    using assms True round28_bounds(3) [of x] round28_bounds(3) [of y] by (simp add: e_def)
next
  case False
  with adjusted_mono [OF assms] have "adjusted x + 1 \<le> adjusted y" by simp
  then have "(10::rat) powi (adjusted x + 1) \<le> 10 powi adjusted y" by (simp only: powi_le)
  with round28_decade(1) [of x] round28_decade(2) [of y] assms show ?thesis by simp
qed

lemma round_half_even_minus: "round_half_even (- x) = - round_half_even x"
proof (cases "x = of_int \<lfloor>x\<rfloor>")
  case True
  then show ?thesis by (metis of_int_minus round_half_even_int)
next
  case False
  then have "\<lfloor>- x\<rfloor> = - \<lfloor>x\<rfloor> - 1"
    by (simp add: floor_minus ceiling_altdef)
  then show ?thesis by (auto simp: round_half_even_def Let_def)
qed

lemma round28_minus: "round28 (- x) = - round28 x"
  by (simp add: round28_def Let_def adjusted_minus round_half_even_minus)

lemma round28_mono: "x \<le> y \<Longrightarrow> round28 x \<le> round28 y"
proof -
  assume le: "x \<le> y"
  consider "0 < x" | "x \<le> 0" "0 \<le> y" | "y < 0" using le by linarith
  then show ?thesis
  proof cases
    case 1
    then show ?thesis using le by (rule round28_mono_pos)
  next
    case 2
    then show ?thesis using round28_sign by (meson order_trans)
  next
    case 3
    then have "round28 (- y) \<le> round28 (- x)" using le by (intro round28_mono_pos) simp_all
    then show ?thesis by (simp add: round28_minus)
  qed
qed

interpretation ctx28: decimal_context round28
  by unfold_locales (rule representable_exact round28_mono round28_error, assumption?)+

section \<open>Amounts of money\<close>

text \<open>A value of a \<open>Numeric(19, 4)\<close> column: four decimal places, below \<open>10 ^ 15\<close>.\<close>

definition money :: "rat \<Rightarrow> bool" where
  "money x \<longleftrightarrow> (\<exists>k. x = of_int k / 10000 \<and> \<bar>k\<bar> < 10 ^ 19)"

lemma representable_places:
  assumes "\<bar>k\<bar> < 10 ^ 28" shows "representable (of_int k / 10000)"
  unfolding representable_def
  by (rule exI [of _ k], rule exI [of _ "- 4"]) (use assms in \<open>simp add: power_int_def field_simps\<close>)

lemma representable_int: "\<bar>k\<bar> < 10 ^ 28 \<Longrightarrow> representable (of_int k)"
  unfolding representable_def by (rule exI [of _ k], rule exI [of _ 0]) simp

lemma money_representable: "money x \<Longrightarrow> representable x"
proof -
  assume "money x"
  then obtain k where k: "x = of_int k / 10000" "\<bar>k\<bar> < 10 ^ 19" unfolding money_def by blast
  then have "\<bar>k\<bar> < 10 ^ 28" by simp
  then show ?thesis unfolding k(1) by (rule representable_places)
qed

lemma quantize4_exact: "\<bar>k\<bar> < 10 ^ 28 \<Longrightarrow> quantize4 (of_int k / 10000) = Inr (of_int k / 10000)"
  by (simp add: quantize4_def)

lemma dec_add_nonneg: "0 \<le> a \<Longrightarrow> 0 \<le> b \<Longrightarrow> 0 \<le> dec_add a b"
  by (simp add: dec_add_def round28_sign)

lemma dec_mul_nonneg: "0 \<le> a \<Longrightarrow> 0 \<le> b \<Longrightarrow> 0 \<le> dec_mul a b"
  by (simp add: dec_mul_def round28_sign)

lemma dec_div_nonneg: "0 \<le> a \<Longrightarrow> 0 < b \<Longrightarrow> dec_div a b = Inr q \<Longrightarrow> 0 \<le> q"
  by (auto simp: dec_div_def round28_sign split: if_splits)

end
