(* ===== verification/Inventory_Model.thy ===== *)
theory Inventory_Model
  imports Py_Decimal
begin

text \<open>
  \<open>domains/inventory/model.py\<close>: a balance of stock and how a change of quantity and a receipt at a
  unit cost act on it.
\<close>

record InventoryBalance =
  quantity_on_hand :: int
  reserved_quantity :: int

definition balance_available :: "InventoryBalance \<Rightarrow> int" where
  "balance_available b = quantity_on_hand b - reserved_quantity b"

definition apply_quantity_change :: "int \<Rightarrow> int \<Rightarrow> int \<Rightarrow> exn + InventoryBalance" where
  "apply_quantity_change on_hand reserved quantity_delta =
     (if quantity_delta = 0
      then Inl (Exn InvalidInventoryChange ''Inventory change must not be zero'')
      else let new_on_hand = on_hand + quantity_delta in
        if new_on_hand < 0
        then Inl (Exn InvalidInventoryChange ''Inventory change would make on-hand stock negative'')
        else if new_on_hand < reserved
        then Inl (Exn InvalidInventoryChange ''Inventory change would make available stock negative'')
        else Inr \<lparr>quantity_on_hand = new_on_hand, reserved_quantity = reserved\<rparr>)"

definition weighted_cost_basis :: "int \<Rightarrow> rat \<Rightarrow> int \<Rightarrow> rat \<Rightarrow> exn + rat" where
  "weighted_cost_basis current_quantity current_cost_basis added_quantity added_unit_cost =
     (if added_quantity \<le> 0
      then Inl (Exn InvalidInventoryChange ''Cost basis can only be recalculated for positive stock'')
      else if added_unit_cost < 0
      then Inl (Exn InvalidInventoryChange ''Unit cost cannot be negative'')
      else dec_div (dec_add (dec_mul current_cost_basis (of_int current_quantity))
                            (dec_mul added_unit_cost (of_int added_quantity)))
             (of_int (current_quantity + added_quantity)))"

section \<open>Changes of quantity\<close>

lemma apply_quantity_change_Inr: "apply_quantity_change h r d = Inr b \<longleftrightarrow>
    d \<noteq> 0 \<and> 0 \<le> h + d \<and> r \<le> h + d \<and> b = \<lparr>quantity_on_hand = h + d, reserved_quantity = r\<rparr>"
  by (auto simp: apply_quantity_change_def Let_def)

text \<open>Changes from a balance that is in order only fail when the new balance would not be.\<close>

lemma apply_quantity_change_available:
  "apply_quantity_change h r d = Inr b \<Longrightarrow> 0 \<le> balance_available b \<and> 0 \<le> quantity_on_hand b"
  by (auto simp: apply_quantity_change_Inr balance_available_def)

section \<open>The weighted cost basis\<close>

text \<open>
  The exact weighted mean lies between the two unit costs. The decimal one is computed by three
  roundings; it still lies between them, because each bound is representable after
  multiplication by a quantity.
\<close>

lemma dec_scale_exact:
  assumes "money u" "0 \<le> n" "n < 10 ^ 8" shows "dec_mul u (of_int n) = u * of_int n"
    "representable (u * of_int n)"
proof -
  obtain k where k: "u = of_int k / 10000" "\<bar>k\<bar> < 10 ^ 19" using assms(1) money_def by blast
  have "\<bar>k * n\<bar> \<le> \<bar>k\<bar> * 10 ^ 8" using assms(2,3) by (simp add: abs_mult mult_left_mono)
  also have "\<dots> < 10 ^ 28" using k(2) by simp
  finally have "representable (of_int (k * n) / 10000)" by (rule representable_places)
  then show "representable (u * of_int n)" by (simp add: k(1))
  then show "dec_mul u (of_int n) = u * of_int n" by (simp add: dec_mul_def ctx28.rnd_exact)
qed

lemma weighted_between:
  assumes "0 \<le> q" "0 < a" "lo \<le> x" "lo \<le> y" "x \<le> hi" "y \<le> (hi::rat)"
    "0 \<le> (q::int)" "0 < (a::int)"
  shows "lo * of_int (q + a) \<le> x * of_int q + y * of_int a"
    "x * of_int q + y * of_int a \<le> hi * of_int (q + a)"
proof -
  have q: "(0::rat) \<le> of_int q" "(0::rat) \<le> of_int a" using assms by simp_all
  have "lo * of_int q + lo * of_int a \<le> x * of_int q + y * of_int a"
    using assms q by (intro add_mono mult_right_mono) simp_all
  then show "lo * of_int (q + a) \<le> x * of_int q + y * of_int a" by (simp add: algebra_simps)
  have "x * of_int q + y * of_int a \<le> hi * of_int q + hi * of_int a"
    using assms q by (intro add_mono mult_right_mono) simp_all
  then show "x * of_int q + y * of_int a \<le> hi * of_int (q + a)" by (simp add: algebra_simps)
qed

lemma weighted_cost_basis_between:
  assumes w: "weighted_cost_basis q c a u = Inr w"
    and c: "money c" and u: "money u" and q: "0 \<le> q" and small: "q + a < 10 ^ 8"
  shows "min c u \<le> w \<and> w \<le> max c u"
proof -
  have a: "0 < a" using w by (simp add: weighted_cost_basis_def split: if_splits)
  let ?n = "q + a" and ?lo = "min c u" and ?hi = "max c u"
  let ?s = "dec_add (dec_mul c (of_int q)) (dec_mul u (of_int a))"
  have m: "money ?lo" "money ?hi" using c u by (simp_all add: min_def max_def)
  have mul: "dec_mul c (of_int q) = c * of_int q" "dec_mul u (of_int a) = u * of_int a"
    using dec_scale_exact(1) c u q a small by auto
  note b = weighted_between [of q a ?lo c u ?hi]
  have rep: "representable (?lo * of_int ?n)" "representable (?hi * of_int ?n)"
    using dec_scale_exact(2) [OF m(1) _ small] dec_scale_exact(2) [OF m(2) _ small] q a by simp_all
  have "?lo * of_int ?n \<le> ?s" "?s \<le> ?hi * of_int ?n"
    unfolding mul dec_add_def using b rep q a by (auto intro!: ctx28.rnd_ge ctx28.rnd_le)
  then have s: "?lo \<le> ?s / of_int ?n" "?s / of_int ?n \<le> ?hi"
    using q a by (simp_all add: pos_le_divide_eq pos_divide_le_eq)
  have "w = round28 (?s / of_int ?n)"
    using w q a by (auto simp: weighted_cost_basis_def dec_div_def split: if_splits)
  then show ?thesis
    using ctx28.rnd_ge [OF money_representable [OF m(1)] s(1)]
      ctx28.rnd_le [OF money_representable [OF m(2)] s(2)] by simp
qed

lemma weighted_cost_basis_total:
  "0 \<le> q \<Longrightarrow> 0 < a \<Longrightarrow> 0 \<le> u \<Longrightarrow> \<exists>w. weighted_cost_basis q c a u = Inr w"
  by (simp add: weighted_cost_basis_def dec_div_def)

section \<open>Properties\<close>

text \<open>
  The cost basis after a receipt lies between the old basis and the unit cost of the receipt,
  whatever the decimal roundings do, for stock below \<open>10 ^ 8\<close> units.
\<close>

theorem cost_basis_between:
  assumes "weighted_cost_basis q c a u = Inr w" "money c" "money u" "0 \<le> q" "q + a < 10 ^ 8"
  shows "min c u \<le> w \<and> w \<le> max c u"
  using assms by (rule weighted_cost_basis_between)

theorem cost_basis_between_witness:
  "\<exists>w. weighted_cost_basis 10 4 5 7 = Inr w \<and> 4 \<le> w \<and> w \<le> 7"
proof -
  obtain w where w: "weighted_cost_basis 10 4 5 7 = Inr w" using weighted_cost_basis_total [of 10 5 7 4] by auto
  have "money 4" "money 7" unfolding money_def by (rule exI [of _ 40000] exI [of _ 70000]; simp)+
  with cost_basis_between [OF w] w show ?thesis by auto
qed

end
