(* ===== verification/Event_Types.thy ===== *)
theory Event_Types
  imports Core_Types
begin

text \<open>
  \<open>events/types.py\<close>: the event types, the typed payloads with their pydantic field bounds, their
  JSON form (\<open>model_dump(mode="json")\<close>) and its reader (\<open>decode_payload\<close>). The envelope of an event
  is the record \<open>EventEnvelope\<close>; \<open>create_event\<close> is with the session operations, because it draws
  identifiers and reads the clock.

  Reading a UUID accepts the canonical text only; pydantic accepts other spellings of a UUID too,
  which the program never stores.
\<close>

section \<open>Event types\<close>

datatype EventType =
    PRODUCT_APPROVED | PROCUREMENT_REQUESTED | PROCUREMENT_STATUS_CHANGED | PURCHASE_APPROVED
  | PURCHASE_ORDER_CREATED | STOCK_RECEIVED | INVENTORY_CHANGED | LISTING_DRAFT_CREATED
  | LISTING_VALIDATION_FAILED | LISTING_APPROVED | LISTING_PUBLISHED | ORDER_RECEIVED
  | ORDER_CANCELLED | ORDER_RETURNED | LOW_STOCK | CUSTOMER_MESSAGE_RECEIVED | REFUND_REQUESTED
  | WORKFLOW_FAILED

primrec event_type_value :: "EventType \<Rightarrow> string" where
  "event_type_value PRODUCT_APPROVED = ''PRODUCT_APPROVED''"
| "event_type_value PROCUREMENT_REQUESTED = ''PROCUREMENT_REQUESTED''"
| "event_type_value PROCUREMENT_STATUS_CHANGED = ''PROCUREMENT_STATUS_CHANGED''"
| "event_type_value PURCHASE_APPROVED = ''PURCHASE_APPROVED''"
| "event_type_value PURCHASE_ORDER_CREATED = ''PURCHASE_ORDER_CREATED''"
| "event_type_value STOCK_RECEIVED = ''STOCK_RECEIVED''"
| "event_type_value INVENTORY_CHANGED = ''INVENTORY_CHANGED''"
| "event_type_value LISTING_DRAFT_CREATED = ''LISTING_DRAFT_CREATED''"
| "event_type_value LISTING_VALIDATION_FAILED = ''LISTING_VALIDATION_FAILED''"
| "event_type_value LISTING_APPROVED = ''LISTING_APPROVED''"
| "event_type_value LISTING_PUBLISHED = ''LISTING_PUBLISHED''"
| "event_type_value ORDER_RECEIVED = ''ORDER_RECEIVED''"
| "event_type_value ORDER_CANCELLED = ''ORDER_CANCELLED''"
| "event_type_value ORDER_RETURNED = ''ORDER_RETURNED''"
| "event_type_value LOW_STOCK = ''LOW_STOCK''"
| "event_type_value CUSTOMER_MESSAGE_RECEIVED = ''CUSTOMER_MESSAGE_RECEIVED''"
| "event_type_value REFUND_REQUESTED = ''REFUND_REQUESTED''"
| "event_type_value WORKFLOW_FAILED = ''WORKFLOW_FAILED''"

definition all_event_types :: "EventType list" where
  "all_event_types =
     [PRODUCT_APPROVED, PROCUREMENT_REQUESTED, PROCUREMENT_STATUS_CHANGED, PURCHASE_APPROVED,
      PURCHASE_ORDER_CREATED, STOCK_RECEIVED, INVENTORY_CHANGED, LISTING_DRAFT_CREATED,
      LISTING_VALIDATION_FAILED, LISTING_APPROVED, LISTING_PUBLISHED, ORDER_RECEIVED,
      ORDER_CANCELLED, ORDER_RETURNED, LOW_STOCK, CUSTOMER_MESSAGE_RECEIVED, REFUND_REQUESTED,
      WORKFLOW_FAILED]"

text \<open>\<open>EventType(value)\<close>: a \<open>ValueError\<close> for an unknown value.\<close>

definition event_type_of :: "string \<Rightarrow> EventType option" where
  "event_type_of v = find (\<lambda>t. event_type_value t = v) all_event_types"

lemma event_type_of_value [simp]: "event_type_of (event_type_value t) = Some t"
  by (cases t) (simp_all add: event_type_of_def all_event_types_def)

lemma event_type_value_inject [simp]: "event_type_value a = event_type_value b \<longleftrightarrow> a = b"
  by (metis event_type_of_value option.inject)

section \<open>Payloads\<close>

datatype EventPayload =
    ProductApprovedPayload (product_id: uuid) (source_product_id: string)
      (source_workflow_run_id: "string option") (payload_procurement_id: "uuid option")
  | ProcurementRequestedPayload uuid uuid (requested_quantity: int)
  | ProcurementStatusChangedPayload uuid string string string
  | PurchaseApprovedPayload uuid uuid
  | PurchaseOrderCreatedPayload uuid uuid string
  | StockReceivedPayload uuid uuid int
  | InventoryChangedPayload uuid int int int
  | ListingDraftCreatedPayload uuid uuid string int
  | ListingValidationFailedPayload uuid uuid string int
  | ListingApprovedPayload uuid uuid
  | ListingPublishedPayload uuid uuid string
  | OrderReceivedPayload uuid string string
  | OrderCancelledPayload uuid "string option"
  | OrderReturnedPayload uuid uuid int
  | LowStockPayload uuid string int int
  | CustomerMessageReceivedPayload uuid uuid string
  | RefundRequestedPayload uuid uuid rat string
  | WorkflowFailedPayload uuid string string bool

text \<open>\<open>EVENT_TYPES_BY_PAYLOAD\<close>, the inverse of \<open>PAYLOAD_TYPES\<close>.\<close>

fun payload_event_type :: "EventPayload \<Rightarrow> EventType" where
  "payload_event_type (ProductApprovedPayload _ _ _ _) = PRODUCT_APPROVED"
| "payload_event_type (ProcurementRequestedPayload _ _ _) = PROCUREMENT_REQUESTED"
| "payload_event_type (ProcurementStatusChangedPayload _ _ _ _) = PROCUREMENT_STATUS_CHANGED"
| "payload_event_type (PurchaseApprovedPayload _ _) = PURCHASE_APPROVED"
| "payload_event_type (PurchaseOrderCreatedPayload _ _ _) = PURCHASE_ORDER_CREATED"
| "payload_event_type (StockReceivedPayload _ _ _) = STOCK_RECEIVED"
| "payload_event_type (InventoryChangedPayload _ _ _ _) = INVENTORY_CHANGED"
| "payload_event_type (ListingDraftCreatedPayload _ _ _ _) = LISTING_DRAFT_CREATED"
| "payload_event_type (ListingValidationFailedPayload _ _ _ _) = LISTING_VALIDATION_FAILED"
| "payload_event_type (ListingApprovedPayload _ _) = LISTING_APPROVED"
| "payload_event_type (ListingPublishedPayload _ _ _) = LISTING_PUBLISHED"
| "payload_event_type (OrderReceivedPayload _ _ _) = ORDER_RECEIVED"
| "payload_event_type (OrderCancelledPayload _ _) = ORDER_CANCELLED"
| "payload_event_type (OrderReturnedPayload _ _ _) = ORDER_RETURNED"
| "payload_event_type (LowStockPayload _ _ _ _) = LOW_STOCK"
| "payload_event_type (CustomerMessageReceivedPayload _ _ _) = CUSTOMER_MESSAGE_RECEIVED"
| "payload_event_type (RefundRequestedPayload _ _ _ _) = REFUND_REQUESTED"
| "payload_event_type (WorkflowFailedPayload _ _ _ _) = WORKFLOW_FAILED"

text \<open>The \<open>Field\<close> bounds that constructing a payload checks.\<close>

fun payload_valid :: "EventPayload \<Rightarrow> bool" where
  "payload_valid (ProcurementRequestedPayload _ _ n) \<longleftrightarrow> 0 < n"
| "payload_valid (StockReceivedPayload _ _ n) \<longleftrightarrow> 0 < n"
| "payload_valid (InventoryChangedPayload _ _ on_hand reserved) \<longleftrightarrow> 0 \<le> on_hand \<and> 0 \<le> reserved"
| "payload_valid (ListingDraftCreatedPayload _ _ _ v) \<longleftrightarrow> 0 < v"
| "payload_valid (ListingValidationFailedPayload _ _ _ n) \<longleftrightarrow> 0 < n"
| "payload_valid (OrderReturnedPayload _ _ n) \<longleftrightarrow> 0 < n"
| "payload_valid (LowStockPayload _ _ available threshold) \<longleftrightarrow> 0 \<le> available \<and> 0 \<le> threshold"
| "payload_valid (RefundRequestedPayload _ _ a c) \<longleftrightarrow> 0 < a \<and> length c = 3"
| "payload_valid _ \<longleftrightarrow> True"

section \<open>JSON form of a payload\<close>

definition j_uuid :: "uuid \<Rightarrow> json" where "j_uuid u = JStr (uuid_str u)"

definition j_opt :: "('a \<Rightarrow> json) \<Rightarrow> 'a option \<Rightarrow> json" where
  "j_opt f x = (case x of None \<Rightarrow> JNull | Some v \<Rightarrow> f v)"

fun model_dump :: "EventPayload \<Rightarrow> dict" where
  "model_dump (ProductApprovedPayload p sp sw pr) =
     [(''product_id'', j_uuid p), (''source_product_id'', JStr sp),
      (''source_workflow_run_id'', j_opt JStr sw), (''procurement_request_id'', j_opt j_uuid pr)]"
| "model_dump (ProcurementRequestedPayload pr p n) =
     [(''procurement_request_id'', j_uuid pr), (''product_id'', j_uuid p), (''quantity'', JInt n)]"
| "model_dump (ProcurementStatusChangedPayload pr a b who) =
     [(''procurement_request_id'', j_uuid pr), (''previous_status'', JStr a),
      (''current_status'', JStr b), (''actor'', JStr who)]"
| "model_dump (PurchaseApprovedPayload pr ap) =
     [(''procurement_request_id'', j_uuid pr), (''approval_id'', j_uuid ap)]"
| "model_dump (PurchaseOrderCreatedPayload po pr num) =
     [(''purchase_order_id'', j_uuid po), (''procurement_request_id'', j_uuid pr),
      (''po_number'', JStr num)]"
| "model_dump (StockReceivedPayload i po n) =
     [(''inventory_item_id'', j_uuid i), (''purchase_order_id'', j_uuid po), (''quantity'', JInt n)]"
| "model_dump (InventoryChangedPayload i d h r) =
     [(''inventory_item_id'', j_uuid i), (''quantity_delta'', JInt d),
      (''quantity_on_hand'', JInt h), (''reserved_quantity'', JInt r)]"
| "model_dump (ListingDraftCreatedPayload l i m v) =
     [(''listing_draft_id'', j_uuid l), (''inventory_item_id'', j_uuid i),
      (''marketplace'', JStr m), (''listing_version'', JInt v)]"
| "model_dump (ListingValidationFailedPayload l i m n) =
     [(''listing_draft_id'', j_uuid l), (''inventory_item_id'', j_uuid i),
      (''marketplace'', JStr m), (''error_count'', JInt n)]"
| "model_dump (ListingApprovedPayload l a) =
     [(''listing_draft_id'', j_uuid l), (''approval_id'', j_uuid a)]"
| "model_dump (ListingPublishedPayload m l e) =
     [(''marketplace_listing_id'', j_uuid m), (''listing_draft_id'', j_uuid l),
      (''external_listing_id'', JStr e)]"
| "model_dump (OrderReceivedPayload ord m e) =
     [(''order_id'', j_uuid ord), (''marketplace'', JStr m), (''external_order_id'', JStr e)]"
| "model_dump (OrderCancelledPayload ord r) =
     [(''order_id'', j_uuid ord), (''reason'', j_opt JStr r)]"
| "model_dump (OrderReturnedPayload ord r n) =
     [(''order_id'', j_uuid ord), (''return_id'', j_uuid r), (''quantity'', JInt n)]"
| "model_dump (LowStockPayload i sku a t) =
     [(''inventory_item_id'', j_uuid i), (''sku'', JStr sku),
      (''available_quantity'', JInt a), (''threshold'', JInt t)]"
| "model_dump (CustomerMessageReceivedPayload c m ch) =
     [(''conversation_id'', j_uuid c), (''message_id'', j_uuid m), (''channel'', JStr ch)]"
| "model_dump (RefundRequestedPayload r ord a c) =
     [(''refund_id'', j_uuid r), (''order_id'', j_uuid ord), (''amount'', JDec a),
      (''currency'', JStr c)]"
| "model_dump (WorkflowFailedPayload w n r rt) =
     [(''failed_workflow_id'', j_uuid w), (''workflow_name'', JStr n), (''reason'', JStr r),
      (''retryable'', JBool rt)]"

text \<open>Readers of one field: \<open>None\<close> is a validation error.\<close>

definition get_str :: "dict \<Rightarrow> string \<Rightarrow> string option" where
  "get_str d k = (case dict_get d k of Some (JStr s) \<Rightarrow> Some s | _ \<Rightarrow> None)"

definition get_int :: "dict \<Rightarrow> string \<Rightarrow> int option" where
  "get_int d k = (case dict_get d k of Some (JInt n) \<Rightarrow> Some n | _ \<Rightarrow> None)"

definition get_bool :: "dict \<Rightarrow> string \<Rightarrow> bool option" where
  "get_bool d k = (case dict_get d k of Some (JBool b) \<Rightarrow> Some b | _ \<Rightarrow> None)"

definition get_dec :: "dict \<Rightarrow> string \<Rightarrow> rat option" where
  "get_dec d k = (case dict_get d k of Some (JDec x) \<Rightarrow> Some x | Some (JInt n) \<Rightarrow> Some (of_int n)
     | _ \<Rightarrow> None)"

definition read_uuid :: "string \<Rightarrow> uuid option" where
  "read_uuid s = (if uuid_str (uuid_read s) = s then Some (uuid_read s) else None)"

definition get_uuid :: "dict \<Rightarrow> string \<Rightarrow> uuid option" where
  "get_uuid d k = Option.bind (get_str d k) read_uuid"

text \<open>A field with default \<open>None\<close>: missing or null is \<open>None\<close>.\<close>

definition get_opt :: "(dict \<Rightarrow> string \<Rightarrow> 'a option) \<Rightarrow> dict \<Rightarrow> string \<Rightarrow> 'a option option" where
  "get_opt g d k = (case dict_get d k of None \<Rightarrow> Some None | Some JNull \<Rightarrow> Some None
     | Some _ \<Rightarrow> map_option Some (g d k))"

text \<open>\<open>extra="forbid"\<close>\<close>

definition only_keys :: "dict \<Rightarrow> string list \<Rightarrow> bool" where
  "only_keys d ks = list_all (\<lambda>(k, _). k \<in> set ks) d"

definition map2_opt :: "('a \<Rightarrow> 'b \<Rightarrow> 'c) \<Rightarrow> 'a option \<Rightarrow> 'b option \<Rightarrow> 'c option" where
  "map2_opt f x y = Option.bind x (\<lambda>a. map_option (f a) y)"

definition map3_opt ::
  "('a \<Rightarrow> 'b \<Rightarrow> 'c \<Rightarrow> 'd) \<Rightarrow> 'a option \<Rightarrow> 'b option \<Rightarrow> 'c option \<Rightarrow> 'd option" where
  "map3_opt f x y z = Option.bind x (\<lambda>a. map2_opt (f a) y z)"

definition map4_opt ::
  "('a \<Rightarrow> 'b \<Rightarrow> 'c \<Rightarrow> 'd \<Rightarrow> 'e) \<Rightarrow> 'a option \<Rightarrow> 'b option \<Rightarrow> 'c option \<Rightarrow> 'd option \<Rightarrow> 'e option"
  where "map4_opt f x y z w = Option.bind x (\<lambda>a. map3_opt (f a) y z w)"

text \<open>The fields of the payload class of an event type.\<close>

primrec payload_fields :: "EventType \<Rightarrow> string list" where
  "payload_fields PRODUCT_APPROVED =
     [''product_id'', ''source_product_id'', ''source_workflow_run_id'', ''procurement_request_id'']"
| "payload_fields PROCUREMENT_REQUESTED = [''procurement_request_id'', ''product_id'', ''quantity'']"
| "payload_fields PROCUREMENT_STATUS_CHANGED =
     [''procurement_request_id'', ''previous_status'', ''current_status'', ''actor'']"
| "payload_fields PURCHASE_APPROVED = [''procurement_request_id'', ''approval_id'']"
| "payload_fields PURCHASE_ORDER_CREATED =
     [''purchase_order_id'', ''procurement_request_id'', ''po_number'']"
| "payload_fields STOCK_RECEIVED = [''inventory_item_id'', ''purchase_order_id'', ''quantity'']"
| "payload_fields INVENTORY_CHANGED =
     [''inventory_item_id'', ''quantity_delta'', ''quantity_on_hand'', ''reserved_quantity'']"
| "payload_fields LISTING_DRAFT_CREATED =
     [''listing_draft_id'', ''inventory_item_id'', ''marketplace'', ''listing_version'']"
| "payload_fields LISTING_VALIDATION_FAILED =
     [''listing_draft_id'', ''inventory_item_id'', ''marketplace'', ''error_count'']"
| "payload_fields LISTING_APPROVED = [''listing_draft_id'', ''approval_id'']"
| "payload_fields LISTING_PUBLISHED =
     [''marketplace_listing_id'', ''listing_draft_id'', ''external_listing_id'']"
| "payload_fields ORDER_RECEIVED = [''order_id'', ''marketplace'', ''external_order_id'']"
| "payload_fields ORDER_CANCELLED = [''order_id'', ''reason'']"
| "payload_fields ORDER_RETURNED = [''order_id'', ''return_id'', ''quantity'']"
| "payload_fields LOW_STOCK =
     [''inventory_item_id'', ''sku'', ''available_quantity'', ''threshold'']"
| "payload_fields CUSTOMER_MESSAGE_RECEIVED = [''conversation_id'', ''message_id'', ''channel'']"
| "payload_fields REFUND_REQUESTED = [''refund_id'', ''order_id'', ''amount'', ''currency'']"
| "payload_fields WORKFLOW_FAILED =
     [''failed_workflow_id'', ''workflow_name'', ''reason'', ''retryable'']"

fun read_payload :: "EventType \<Rightarrow> dict \<Rightarrow> EventPayload option" where
  "read_payload PRODUCT_APPROVED d =
     map4_opt ProductApprovedPayload (get_uuid d ''product_id'') (get_str d ''source_product_id'')
       (get_opt get_str d ''source_workflow_run_id'') (get_opt get_uuid d ''procurement_request_id'')"
| "read_payload PROCUREMENT_REQUESTED d =
     map3_opt ProcurementRequestedPayload (get_uuid d ''procurement_request_id'')
       (get_uuid d ''product_id'') (get_int d ''quantity'')"
| "read_payload PROCUREMENT_STATUS_CHANGED d =
     map4_opt ProcurementStatusChangedPayload (get_uuid d ''procurement_request_id'')
       (get_str d ''previous_status'') (get_str d ''current_status'') (get_str d ''actor'')"
| "read_payload PURCHASE_APPROVED d =
     map2_opt PurchaseApprovedPayload (get_uuid d ''procurement_request_id'')
       (get_uuid d ''approval_id'')"
| "read_payload PURCHASE_ORDER_CREATED d =
     map3_opt PurchaseOrderCreatedPayload (get_uuid d ''purchase_order_id'')
       (get_uuid d ''procurement_request_id'') (get_str d ''po_number'')"
| "read_payload STOCK_RECEIVED d =
     map3_opt StockReceivedPayload (get_uuid d ''inventory_item_id'')
       (get_uuid d ''purchase_order_id'') (get_int d ''quantity'')"
| "read_payload INVENTORY_CHANGED d =
     map4_opt InventoryChangedPayload (get_uuid d ''inventory_item_id'') (get_int d ''quantity_delta'')
       (get_int d ''quantity_on_hand'') (get_int d ''reserved_quantity'')"
| "read_payload LISTING_DRAFT_CREATED d =
     map4_opt ListingDraftCreatedPayload (get_uuid d ''listing_draft_id'')
       (get_uuid d ''inventory_item_id'') (get_str d ''marketplace'') (get_int d ''listing_version'')"
| "read_payload LISTING_VALIDATION_FAILED d =
     map4_opt ListingValidationFailedPayload (get_uuid d ''listing_draft_id'')
       (get_uuid d ''inventory_item_id'') (get_str d ''marketplace'') (get_int d ''error_count'')"
| "read_payload LISTING_APPROVED d =
     map2_opt ListingApprovedPayload (get_uuid d ''listing_draft_id'') (get_uuid d ''approval_id'')"
| "read_payload LISTING_PUBLISHED d =
     map3_opt ListingPublishedPayload (get_uuid d ''marketplace_listing_id'')
       (get_uuid d ''listing_draft_id'') (get_str d ''external_listing_id'')"
| "read_payload ORDER_RECEIVED d =
     map3_opt OrderReceivedPayload (get_uuid d ''order_id'') (get_str d ''marketplace'')
       (get_str d ''external_order_id'')"
| "read_payload ORDER_CANCELLED d =
     map2_opt OrderCancelledPayload (get_uuid d ''order_id'') (get_opt get_str d ''reason'')"
| "read_payload ORDER_RETURNED d =
     map3_opt OrderReturnedPayload (get_uuid d ''order_id'') (get_uuid d ''return_id'')
       (get_int d ''quantity'')"
| "read_payload LOW_STOCK d =
     map4_opt LowStockPayload (get_uuid d ''inventory_item_id'') (get_str d ''sku'')
       (get_int d ''available_quantity'') (get_int d ''threshold'')"
| "read_payload CUSTOMER_MESSAGE_RECEIVED d =
     map3_opt CustomerMessageReceivedPayload (get_uuid d ''conversation_id'')
       (get_uuid d ''message_id'') (get_str d ''channel'')"
| "read_payload REFUND_REQUESTED d =
     map4_opt RefundRequestedPayload (get_uuid d ''refund_id'') (get_uuid d ''order_id'')
       (get_dec d ''amount'') (get_str d ''currency'')"
| "read_payload WORKFLOW_FAILED d =
     map4_opt WorkflowFailedPayload (get_uuid d ''failed_workflow_id'') (get_str d ''workflow_name'')
       (get_str d ''reason'') (get_bool d ''retryable'')"

definition decode_payload :: "EventType \<Rightarrow> dict \<Rightarrow> exn + EventPayload" where
  "decode_payload t d =
     (case read_payload t d of
        None \<Rightarrow> Inl (Exn ValidationError ''invalid payload'')
      | Some p \<Rightarrow> if only_keys d (payload_fields t) \<and> payload_valid p then Inr p
                  else Inl (Exn ValidationError ''invalid payload''))"

section \<open>Round trip\<close>

lemma read_uuid_str [simp]: "read_uuid (uuid_str u) = Some u"
  by (simp add: read_uuid_def uuid_read_str)

lemmas reader_defs =
  get_str_def get_int_def get_bool_def get_dec_def get_uuid_def get_opt_def dict_get_def
  map2_opt_def map3_opt_def map4_opt_def j_uuid_def j_opt_def

lemma read_model_dump: "read_payload (payload_event_type p) (model_dump p) = Some p"
  by (cases p) (simp_all add: reader_defs split: option.splits)

lemma model_dump_keys: "map fst (model_dump p) = payload_fields (payload_event_type p)"
  by (cases p) simp_all

lemma only_keys_model_dump: "only_keys (model_dump p) (payload_fields (payload_event_type p))"
  unfolding model_dump_keys [symmetric] by (force simp: only_keys_def list_all_iff)

lemma decode_dump: "payload_valid p \<Longrightarrow> decode_payload (payload_event_type p) (model_dump p) = Inr p"
  by (simp add: decode_payload_def read_model_dump only_keys_model_dump)

lemma model_dump_inject:
  "payload_event_type p = payload_event_type q \<Longrightarrow> model_dump p = model_dump q \<Longrightarrow> p = q"
  by (metis read_model_dump option.inject)

section \<open>Envelopes\<close>

record EventEnvelope =
  ee_event_id :: uuid
  ee_event_type :: EventType
  ee_event_version :: int
  ee_occurred_at :: datetime
  ee_producer :: string
  ee_aggregate_type :: string
  ee_aggregate_id :: uuid
  ee_aggregate_version :: int
  ee_correlation_id :: uuid
  ee_workflow_id :: "uuid option"
  ee_causation_id :: "uuid option"
  ee_idempotency_key :: string
  ee_data :: EventPayload

end
