(* ===== verification/Models.thy ===== *)
theory Models
  imports Event_Types
begin

text \<open>
  The tables of \<open>persistence/models.py\<close> as records, and the session over them.

  \<^item> A row is a record that extends \<open>EntityMixin\<close>; field names carry a prefix of their table, because
    a field name is global here. A foreign key is the identifier it holds, a \<open>relationship\<close> is the
    lookup by that identifier. Money and percentage columns hold their numeric value; the rounding a
    \<open>Numeric(19, 4)\<close> column applies on the way to disk is the database's and not modelled.
  \<^item> A table is the list of its rows in insertion order.
  \<^item> \<open>version_id_col\<close>: the version of a row is kept in \<open>versions\<close>, beside the tables. Assigning to
    a row marks it dirty, and the next flush adds one to the version of every dirty row that was in
    the database before; a row added since the last flush is inserted with version 1.
  \<^item> A flush happens where the code calls \<open>session.flush()\<close> and before every \<open>select\<close> (autoflush);
    \<open>session.get\<close> reads the identity map and does not flush.
  \<^item> \<open>uuid4()\<close> draws the next identifier: identifiers never repeat, a rolled-back transaction does
    not give its identifiers back. \<open>datetime.now(UTC)\<close> reads \<open>clock\<close>.
\<close>

section \<open>Rows\<close>

record EntityMixin =
  row_id :: uuid
  row_created_at :: datetime

record Product = EntityMixin +
  pd_source_system :: string
  pd_external_product_id :: string
  pd_source_workflow_run_id :: string
  pd_source_recommendation_id :: string
  pd_source_payload_hash :: string
  pd_name :: string
  pd_brand :: "string option"
  pd_identifiers :: dict
  pd_attributes :: dict
  pd_recommendation_evidence :: "json list"
  pd_status :: ProductStatus

record Supplier = EntityMixin +
  sp_source_system :: string
  sp_external_supplier_id :: string
  sp_name :: string
  sp_contact_details :: dict
  sp_terms :: dict
  sp_status :: SupplierStatus

record SupplierQuote = EntityMixin +
  sq_product_id :: uuid
  sq_supplier_id :: uuid
  sq_external_quote_id :: string
  sq_currency :: string
  sq_moq :: int
  sq_quantity :: int
  sq_unit_cost :: rat
  sq_shipping_cost :: rat
  sq_lead_time_days :: int
  sq_valid_until :: "datetime option"
  sq_source_reference :: "string option"

record ProcurementRequest = EntityMixin +
  pr_product_id :: uuid
  pr_selected_quote_id :: uuid
  pr_workflow_run_id :: "uuid option"
  pr_requested_quantity :: int
  pr_estimated_landed_cost :: rat
  pr_currency :: string
  pr_recommendation_context :: dict
  pr_expected_arrival_at :: "datetime option"
  pr_status :: ProcurementStatus

record PurchaseOrder = EntityMixin +
  po_procurement_request_id :: uuid
  po_supplier_id :: uuid
  po_po_number :: string
  po_quantity :: int
  po_received_quantity :: int
  po_total_amount :: rat
  po_actual_landed_cost :: "rat option"
  po_currency :: string
  po_terms :: dict
  po_external_reference :: "string option"
  po_status :: PurchaseOrderStatus
  po_ordered_at :: "datetime option"
  po_shipped_at :: "datetime option"
  po_received_at :: "datetime option"
  po_expected_arrival_at :: "datetime option"

record InventoryItem = EntityMixin +
  ii_product_id :: uuid
  ii_sku :: string
  ii_storage_location :: string
  ii_quantity_on_hand :: int
  ii_reserved_quantity :: int
  ii_cost_basis :: rat
  ii_currency :: string
  ii_low_stock_threshold :: int

definition available_quantity :: "InventoryItem \<Rightarrow> int" where
  "available_quantity i = ii_quantity_on_hand i - ii_reserved_quantity i"

record InventoryMovement = EntityMixin +
  im_inventory_item_id :: uuid
  im_purchase_order_id :: "uuid option"
  im_movement_type :: InventoryMovementType
  im_quantity_delta :: int
  im_unit_cost :: "rat option"
  im_reason :: string
  im_source_type :: string
  im_source_id :: string
  im_idempotency_key :: string

record ListingDraft = EntityMixin +
  ld_inventory_item_id :: uuid
  ld_workflow_run_id :: "uuid option"
  ld_agent_run_id :: "uuid option"
  ld_approval_id :: "uuid option"
  ld_marketplace :: string
  ld_listing_version :: int
  ld_title :: string
  ld_bullet_points :: "string list"
  ld_description :: string
  ld_category :: "string option"
  ld_attributes :: dict
  ld_search_keywords :: "string list"
  ld_sku :: string
  ld_proposed_price :: rat
  ld_currency :: string
  ld_image_requirements :: "json list"
  ld_marketplace_payload :: dict
  ld_validation_results :: dict
  ld_approval_status :: ApprovalStatus
  ld_provider_metadata :: dict
  ld_structured_ai_response :: "dict option"
  ld_prompt_version :: "string option"
  ld_ai_provider :: "string option"
  ld_ai_model :: "string option"

record MarketplaceListing = EntityMixin +
  ml_draft_id :: uuid
  ml_marketplace :: string
  ml_marketplace_account_id :: string
  ml_sku :: string
  ml_external_listing_id :: "string option"
  ml_publication_status :: PublicationStatus
  ml_last_error :: "string option"
  ml_published_at :: "datetime option"
  ml_synchronised_at :: "datetime option"

record Approval = EntityMixin +
  ap_action_type :: string
  ap_resource_type :: string
  ap_resource_id :: uuid
  ap_requested_payload :: dict
  ap_action_hash :: string
  ap_risk_level :: string
  ap_rule_name :: string
  ap_rule_version :: int
  ap_status :: ApprovalStatus
  ap_requested_by :: string
  ap_requested_reason :: string
  ap_decided_by :: "string option"
  ap_rationale :: "string option"
  ap_workflow_run_id :: "uuid option"
  ap_expires_at :: "datetime option"
  ap_decided_at :: "datetime option"
  ap_resumed_at :: "datetime option"

record PricingDecision = EntityMixin +
  pg_inventory_item_id :: uuid
  pg_listing_id :: "uuid option"
  pg_approval_id :: "uuid option"
  pg_landed_cost :: rat
  pg_marketplace_fees :: rat
  pg_fulfilment_costs :: rat
  pg_target_margin :: rat
  pg_minimum_margin :: rat
  pg_minimum_price :: rat
  pg_current_price :: "rat option"
  pg_proposed_price :: rat
  pg_contribution_margin :: rat
  pg_gross_profit :: rat
  pg_contribution_profit :: rat
  pg_margin_percentage :: rat
  pg_roi_percentage :: "rat option"
  pg_recommended_price :: rat
  pg_price_change_percentage :: "rat option"
  pg_landed_cost_source :: string
  pg_commercial_rules :: dict
  pg_currency :: string
  pg_reason :: string
  pg_policy_result :: string
  pg_formula_version :: int
  pg_effective_at :: "datetime option"

record Order = EntityMixin +
  or_marketplace :: string
  or_workflow_run_id :: "uuid option"
  or_marketplace_account_id :: string
  or_external_order_id :: string
  or_source_event_id :: string
  or_source_payload_hash :: string
  or_status :: OrderStatus
  or_currency :: string
  or_total_amount :: rat
  or_customer_reference :: "string option"
  or_shipping_details :: dict
  or_ordered_at :: datetime
  or_paid_at :: "datetime option"
  or_dispatched_at :: "datetime option"
  or_delivered_at :: "datetime option"

record OrderItem = EntityMixin +
  oi_order_id :: uuid
  oi_inventory_item_id :: uuid
  oi_external_line_id :: string
  oi_sku :: string
  oi_quantity :: int
  oi_unit_price :: rat
  oi_tax_amount :: rat
  oi_discount_amount :: rat
  oi_reservation_reference :: "string option"

record Return = EntityMixin +
  rt_order_id :: uuid
  rt_order_item_id :: "uuid option"
  rt_quantity :: int
  rt_reason :: string
  rt_disposition :: "string option"
  rt_status :: ReturnStatus
  rt_received_at :: "datetime option"

record Refund = EntityMixin +
  rf_order_id :: uuid
  rf_return_id :: "uuid option"
  rf_approval_id :: "uuid option"
  rf_marketplace :: string
  rf_marketplace_account_id :: string
  rf_external_refund_id :: "string option"
  rf_amount :: rat
  rf_currency :: string
  rf_reason :: string
  rf_status :: RefundStatus

record CustomerConversation = EntityMixin +
  cc_order_id :: "uuid option"
  cc_product_id :: "uuid option"
  cc_marketplace :: string
  cc_marketplace_account_id :: string
  cc_external_conversation_id :: string
  cc_customer_reference :: string
  cc_classification :: "string option"
  cc_risk_level :: "string option"
  cc_status :: ConversationStatus
  cc_assignee :: "string option"

record CustomerMessage = EntityMixin +
  cm_conversation_id :: uuid
  cm_approval_id :: "uuid option"
  cm_external_message_id :: "string option"
  cm_direction :: MessageDirection
  cm_channel :: string
  cm_content :: string
  cm_author_type :: string
  cm_status :: MessageStatus
  cm_sent_at :: "datetime option"
  cm_intent :: "CustomerIntent option"
  cm_classification :: "CustomerServiceDecision option"
  cm_risk_level :: "string option"
  cm_risk_reasons :: "string list"
  cm_generated_response :: "string option"
  cm_final_response :: "string option"
  cm_structured_ai_response :: "dict option"
  cm_prompt_version :: "string option"
  cm_ai_provider :: "string option"
  cm_ai_model :: "string option"
  cm_input_tokens :: int
  cm_output_tokens :: int
  cm_ai_cost_amount :: rat
  cm_ai_cost_currency :: "string option"
  cm_responded_at :: "datetime option"

record WorkflowRun = EntityMixin +
  wf_workflow_name :: string
  wf_workflow_version :: int
  wf_correlation_id :: uuid
  wf_source_event_id :: "uuid option"
  wf_idempotency_key :: "string option"
  wf_status :: RunStatus
  wf_current_step :: "string option"
  wf_attempts :: int
  wf_next_retry_at :: "datetime option"
  wf_error :: "dict option"
  wf_checkpoints :: dict
  wf_max_attempts :: int
  wf_timeout_seconds :: int
  wf_started_at :: "datetime option"
  wf_deadline_at :: "datetime option"
  wf_completed_at :: "datetime option"
  wf_waiting_approval_id :: "uuid option"
  wf_cost_amount :: rat
  wf_cost_currency :: "string option"

record ReorderRecommendation = EntityMixin +
  rr_inventory_item_id :: uuid
  rr_workflow_run_id :: uuid
  rr_source_event_id :: uuid
  rr_available_quantity :: int
  rr_low_stock_threshold :: int
  rr_suggested_quantity :: int
  rr_reason :: string
  rr_status :: string

record AgentRun = EntityMixin +
  ag_workflow_run_id :: "uuid option"
  ag_agent_type :: string
  ag_status :: RunStatus
  ag_input_reference :: "string option"
  ag_output_reference :: "string option"
  ag_provider :: "string option"
  ag_model :: "string option"
  ag_prompt_version :: "string option"
  ag_input_tokens :: int
  ag_output_tokens :: int
  ag_cost_amount :: rat
  ag_cost_currency :: "string option"
  ag_safety_result :: dict
  ag_error :: "dict option"

record DomainEvent = EntityMixin +
  ev_event_type :: string
  ev_event_version :: int
  ev_producer :: string
  ev_aggregate_type :: string
  ev_aggregate_id :: uuid
  ev_aggregate_version :: int
  ev_correlation_id :: uuid
  ev_workflow_id :: "uuid option"
  ev_causation_id :: "uuid option"
  ev_idempotency_key :: string
  ev_payload :: dict
  ev_publication_status :: EventStatus
  ev_published_at :: "datetime option"
  ev_publication_attempts :: int
  ev_processing_attempts :: int
  ev_last_error :: "string option"

record EventHandlerReceipt = EntityMixin +
  hr_event_id :: uuid
  hr_handler_name :: string
  hr_status :: HandlerReceiptStatus

record AuditEvent = EntityMixin +
  au_actor_type :: string
  au_actor_id :: string
  au_action :: string
  au_resource_type :: string
  au_resource_id :: uuid
  au_before_state :: "dict option"
  au_after_state :: "dict option"
  au_reason :: "string option"
  au_request_id :: "uuid option"
  au_correlation_id :: uuid

section \<open>Check constraints\<close>

text \<open>
  The \<open>CheckConstraint\<close>s of the tables. The database refuses a row that breaks one; the lemmas of
  the components show that the operations never produce such a row.
\<close>

definition supplier_quote_checks :: "SupplierQuote \<Rightarrow> bool" where
  "supplier_quote_checks q \<longleftrightarrow> 0 < sq_moq q \<and> 0 < sq_quantity q \<and> 0 \<le> sq_unit_cost q \<and>
     0 \<le> sq_shipping_cost q \<and> 0 \<le> sq_lead_time_days q"

definition procurement_request_checks :: "ProcurementRequest \<Rightarrow> bool" where
  "procurement_request_checks p \<longleftrightarrow> 0 < pr_requested_quantity p \<and> 0 \<le> pr_estimated_landed_cost p"

definition purchase_order_checks :: "PurchaseOrder \<Rightarrow> bool" where
  "purchase_order_checks p \<longleftrightarrow> 0 < po_quantity p \<and> 0 \<le> po_received_quantity p \<and>
     po_received_quantity p \<le> po_quantity p \<and> 0 \<le> po_total_amount p"

definition inventory_item_checks :: "InventoryItem \<Rightarrow> bool" where
  "inventory_item_checks i \<longleftrightarrow> 0 \<le> ii_quantity_on_hand i \<and> 0 \<le> ii_reserved_quantity i \<and>
     ii_reserved_quantity i \<le> ii_quantity_on_hand i \<and> 0 \<le> ii_cost_basis i \<and>
     0 \<le> ii_low_stock_threshold i"

definition inventory_movement_checks :: "InventoryMovement \<Rightarrow> bool" where
  "inventory_movement_checks m \<longleftrightarrow> im_quantity_delta m \<noteq> 0"

definition pricing_decision_checks :: "PricingDecision \<Rightarrow> bool" where
  "pricing_decision_checks d \<longleftrightarrow> 0 \<le> pg_landed_cost d \<and> 0 \<le> pg_fulfilment_costs d \<and>
     0 \<le> pg_minimum_price d \<and> pg_minimum_price d \<le> pg_proposed_price d \<and>
     0 \<le> pg_minimum_margin d \<and> pg_minimum_margin d < 1 \<and>
     pg_minimum_margin d \<le> pg_target_margin d \<and> pg_target_margin d < 1"

definition order_item_checks :: "OrderItem \<Rightarrow> bool" where
  "order_item_checks l \<longleftrightarrow> 0 < oi_quantity l \<and> 0 \<le> oi_unit_price l"

definition refund_checks :: "Refund \<Rightarrow> bool" where
  "refund_checks r \<longleftrightarrow> 0 < rf_amount r"

section \<open>The session\<close>

record db =
  clock :: datetime
  next_id :: uuid
  pending_rows :: "uuid list"
  dirty_rows :: "uuid list"
  versions :: "uuid \<Rightarrow> int"
  products :: "Product list"
  suppliers :: "Supplier list"
  supplier_quotes :: "SupplierQuote list"
  procurement_requests :: "ProcurementRequest list"
  purchase_orders :: "PurchaseOrder list"
  inventory_items :: "InventoryItem list"
  inventory_movements :: "InventoryMovement list"
  listing_drafts :: "ListingDraft list"
  marketplace_listings :: "MarketplaceListing list"
  approvals :: "Approval list"
  pricing_decisions :: "PricingDecision list"
  orders :: "Order list"
  order_items :: "OrderItem list"
  returns :: "Return list"
  refunds :: "Refund list"
  customer_conversations :: "CustomerConversation list"
  customer_messages :: "CustomerMessage list"
  workflow_runs :: "WorkflowRun list"
  reorder_recommendations :: "ReorderRecommendation list"
  agent_runs :: "AgentRun list"
  domain_events :: "DomainEvent list"
  handler_receipts :: "EventHandlerReceipt list"
  audit_events :: "AuditEvent list"

definition empty_db :: "datetime \<Rightarrow> db" where
  "empty_db now = \<lparr>clock = now, next_id = 1, pending_rows = [], dirty_rows = [], versions = (\<lambda>_. 1),
     products = [], suppliers = [], supplier_quotes = [], procurement_requests = [],
     purchase_orders = [], inventory_items = [], inventory_movements = [], listing_drafts = [],
     marketplace_listings = [], approvals = [], pricing_decisions = [], orders = [],
     order_items = [], returns = [], refunds = [], customer_conversations = [],
     customer_messages = [], workflow_runs = [], reorder_recommendations = [], agent_runs = [],
     domain_events = [], handler_receipts = [], audit_events = []\<rparr>"

end
