(* ===== verification/Session.thy ===== *)
theory Session
  imports Models
begin

text \<open>
  What the services use of a SQLAlchemy session, over the tables of \<open>Models\<close>. A table is passed as
  its field and the record's update function, so one definition serves every table:
  \<open>session.add\<close> is \<open>add_row\<close>, \<open>session.get\<close> is \<open>get_row\<close>, \<open>session.scalar(select(..).where(..))\<close> is
  \<open>scalar\<close>, \<open>session.scalars(..).all()\<close> is \<open>scalars\<close>, an assignment to attributes of an object is
  \<open>set_row\<close>, \<open>session.execute(update(..).where(..).values(..).returning(..))\<close> is \<open>update_where\<close>.
  The class \<open>EntityMixin\<close> gives every row its identifier.
\<close>

type_synonym 'a op = "(db, exn, 'a) sm"
type_synonym 'r updater = "('r list \<Rightarrow> 'r list) \<Rightarrow> db \<Rightarrow> db"

section \<open>Definitions\<close>

definition now_utc :: "datetime op" where
  "now_utc = gets clock"

definition new_uuid :: "uuid op" where
  "new_uuid = (\<lambda>s. (Inr (next_id s), s\<lparr>next_id := next_id s + 1\<rparr>))"

definition flush_db :: "db \<Rightarrow> db" where
  "flush_db s = s\<lparr>versions := (\<lambda>i. if i \<in> set (dirty_rows s) \<and> i \<notin> set (pending_rows s)
       then versions s i + 1 else versions s i), pending_rows := [], dirty_rows := []\<rparr>"

definition flush :: "unit op" where
  "flush = modify flush_db"

text \<open>The row of a table with an identifier.\<close>

definition row :: "'r EntityMixin_scheme list \<Rightarrow> uuid \<Rightarrow> 'r EntityMixin_scheme option" where
  "row rs i = find (\<lambda>r. row_id r = i) rs"

definition update_rows ::
  "uuid \<Rightarrow> ('r EntityMixin_scheme \<Rightarrow> 'r EntityMixin_scheme) \<Rightarrow> 'r EntityMixin_scheme list \<Rightarrow>
   'r EntityMixin_scheme list" where
  "update_rows i f rs = map (\<lambda>r. if row_id r = i then f r else r) rs"

definition add_row :: "('r EntityMixin_scheme) updater \<Rightarrow> 'r EntityMixin_scheme \<Rightarrow> unit op" where
  "add_row upd r = modify (\<lambda>s. pending_rows_update (\<lambda>ps. row_id r # ps) (upd (\<lambda>rs. rs @ [r]) s))"

definition get_row ::
  "(db \<Rightarrow> 'r EntityMixin_scheme list) \<Rightarrow> uuid \<Rightarrow> 'r EntityMixin_scheme option op" where
  "get_row rows i = gets (\<lambda>s. row (rows s) i)"

definition get_opt_row ::
  "(db \<Rightarrow> 'r EntityMixin_scheme list) \<Rightarrow> uuid option \<Rightarrow> 'r EntityMixin_scheme option op" where
  "get_opt_row rows k = (case k of None \<Rightarrow> ret None | Some i \<Rightarrow> get_row rows i)"

definition scalar :: "(db \<Rightarrow> 'r list) \<Rightarrow> ('r \<Rightarrow> bool) \<Rightarrow> 'r option op" where
  "scalar rows P = andthen flush (gets (\<lambda>s. find P (rows s)))"

definition scalars :: "(db \<Rightarrow> 'r list) \<Rightarrow> ('r \<Rightarrow> bool) \<Rightarrow> 'r list op" where
  "scalars rows P = andthen flush (gets (\<lambda>s. filter P (rows s)))"

definition set_row ::
  "(db \<Rightarrow> 'r EntityMixin_scheme list) \<Rightarrow> ('r EntityMixin_scheme) updater \<Rightarrow> uuid \<Rightarrow>
   ('r EntityMixin_scheme \<Rightarrow> 'r EntityMixin_scheme) \<Rightarrow> unit op" where
  "set_row rows upd i f = modify (\<lambda>s. dirty_rows_update
     (\<lambda>ds. if list_ex (\<lambda>r. row_id r = i \<and> f r \<noteq> r) (rows s) then i # ds else ds)
     (upd (update_rows i f) s))"

text \<open>
  The conditional \<open>UPDATE .. WHERE id = i AND P .. RETURNING id\<close>, with \<open>version = version + 1\<close>: one
  statement, so the test and the change are one step of the database.
\<close>

definition update_where ::
  "(db \<Rightarrow> 'r EntityMixin_scheme list) \<Rightarrow> ('r EntityMixin_scheme) updater \<Rightarrow> uuid \<Rightarrow>
   ('r EntityMixin_scheme \<Rightarrow> bool) \<Rightarrow> ('r EntityMixin_scheme \<Rightarrow> 'r EntityMixin_scheme) \<Rightarrow> uuid option op"
  where
  "update_where rows upd i P f =
     andthen flush
       (\<lambda>s. if (\<exists>r \<in> set (rows s). row_id r = i \<and> P r)
            then (Inr (Some i), versions_update (\<lambda>v. v(i := v i + 1)) (upd (update_rows i f) s))
            else (Inr None, s))"

text \<open>
  Leaving a transaction or savepoint by an exception: the tables and versions are the ones of the
  start, the clock and the identifiers drawn stay drawn.
\<close>

definition rollback_to :: "db \<Rightarrow> db \<Rightarrow> db" where
  "rollback_to old new = old\<lparr>clock := clock new, next_id := max (next_id old) (next_id new)\<rparr>"

text \<open>\<open>with session.begin_nested(): m\<close>; the savepoint flushes first.\<close>

definition begin_nested :: "'a op \<Rightarrow> 'a op" where
  "begin_nested m = andthen flush (atomically rollback_to m)"

text \<open>\<open>with session_factory.begin() as session: m\<close>: commit (which flushes), or roll back.\<close>

definition transaction :: "'a op \<Rightarrow> 'a op" where
  "transaction m = atomically rollback_to (bind m (\<lambda>x. andthen flush (ret x)))"

section \<open>Rows\<close>

lemma row_Some_iff: "row rs i = Some r \<Longrightarrow> r \<in> set rs \<and> row_id r = i"
  by (auto simp: row_def dest: find_SomeD)

lemma row_id_of [dest]: "row rs i = Some r \<Longrightarrow> row_id r = i"
  by (auto dest: row_Some_iff)

lemma row_None_iff: "row rs i = None \<longleftrightarrow> i \<notin> row_id ` set rs"
  by (auto simp: row_def find_None_iff)

lemma row_Nil [simp]: "row [] i = None"
  by (simp add: row_def)

lemma row_Cons: "row (r # rs) i = (if row_id r = i then Some r else row rs i)"
  by (simp add: row_def)

lemma row_append: "row (rs @ rs') i = (case row rs i of None \<Rightarrow> row rs' i | Some r \<Rightarrow> Some r)"
  by (simp add: row_def find_append split: option.splits)

lemma row_in_set: "distinct (map row_id rs) \<Longrightarrow> r \<in> set rs \<Longrightarrow> row rs (row_id r) = Some r"
proof (induction rs)
  case Nil
  then show ?case by simp
next
  case (Cons a rs)
  then show ?case by (auto simp: row_Cons)
qed

lemma map_id_update_rows: "(\<And>r. row_id (f r) = row_id r) \<Longrightarrow>
    map row_id (update_rows i f rs) = map row_id rs"
  by (simp add: update_rows_def)

lemma row_update_rows:
  assumes "\<And>r. row_id (f r) = row_id r"
  shows "row (update_rows i f rs) j = (if i = j then map_option f (row rs i) else row rs j)"
  by (induction rs) (auto simp: update_rows_def row_Cons assms)

lemma set_update_rows: "set (update_rows i f rs) = (\<lambda>r. if row_id r = i then f r else r) ` set rs"
  by (simp add: update_rows_def)

lemma update_rows_idem: "row rs i = None \<Longrightarrow> update_rows i f rs = rs"
  by (auto simp: update_rows_def row_None_iff intro!: map_idI)

lemma length_update_rows [simp]: "length (update_rows i f rs) = length rs"
  by (simp add: update_rows_def)

lemma update_rows_append [simp]: "update_rows i f (xs @ ys) = update_rows i f xs @ update_rows i f ys"
  by (simp add: update_rows_def)

lemma update_rows_Nil [simp]: "update_rows i f [] = []"
  by (simp add: update_rows_def)

lemma update_rows_Cons: "update_rows i f (r # rs) = (if row_id r = i then f r else r) # update_rows i f rs"
  by (simp add: update_rows_def)

lemma sum_update_rows:
  fixes g :: "'r EntityMixin_scheme \<Rightarrow> int"
  assumes "distinct (map row_id rs)" and "row rs i = Some r"
  shows "sum_list (map g (update_rows i f rs)) = sum_list (map g rs) - g r + g (f r)"
proof -
  have "r \<in> set rs" "row_id r = i" using assms(2) by (auto dest: row_Some_iff)
  then show ?thesis
    using sum_list_map_update [OF assms(1), of r g f] by (simp add: update_rows_def)
qed

text \<open>Identifiers of a table are distinct and were drawn before.\<close>

definition ids_ok :: "uuid \<Rightarrow> 'r EntityMixin_scheme list \<Rightarrow> bool" where
  "ids_ok n rs \<longleftrightarrow> distinct (map row_id rs) \<and> (\<forall>r \<in> set rs. row_id r < n)"

lemma ids_ok_Nil [simp]: "ids_ok n []"
  by (simp add: ids_ok_def)

lemma ids_ok_mono: "ids_ok n rs \<Longrightarrow> n \<le> m \<Longrightarrow> ids_ok m rs"
  by (auto simp: ids_ok_def)

lemma ids_ok_append: "ids_ok n rs \<Longrightarrow> n \<le> row_id r \<Longrightarrow> row_id r < m \<Longrightarrow> ids_ok m (rs @ [r])"
  by (auto simp: ids_ok_def)

lemma ids_ok_update: "ids_ok n rs \<Longrightarrow> (\<And>r. row_id (f r) = row_id r) \<Longrightarrow> ids_ok n (update_rows i f rs)"
  by (auto simp: ids_ok_def map_id_update_rows set_update_rows)

lemma ids_ok_distinct: "ids_ok n rs \<Longrightarrow> distinct (map row_id rs)"
  by (simp add: ids_ok_def)

lemma ids_ok_fresh: "ids_ok n rs \<Longrightarrow> n \<le> i \<Longrightarrow> row rs i = None"
  by (auto simp: ids_ok_def row_None_iff)

lemma ids_ok_row: "ids_ok n rs \<Longrightarrow> r \<in> set rs \<Longrightarrow> row rs (row_id r) = Some r"
  by (simp add: ids_ok_def row_in_set)

section \<open>Flush\<close>

lemma flush_db_fields [simp]:
  "clock (flush_db s) = clock s" "next_id (flush_db s) = next_id s"
  "pending_rows (flush_db s) = []" "dirty_rows (flush_db s) = []"
  "products (flush_db s) = products s" "suppliers (flush_db s) = suppliers s"
  "supplier_quotes (flush_db s) = supplier_quotes s"
  "procurement_requests (flush_db s) = procurement_requests s"
  "purchase_orders (flush_db s) = purchase_orders s"
  "inventory_items (flush_db s) = inventory_items s"
  "inventory_movements (flush_db s) = inventory_movements s"
  "listing_drafts (flush_db s) = listing_drafts s"
  "marketplace_listings (flush_db s) = marketplace_listings s"
  "approvals (flush_db s) = approvals s" "pricing_decisions (flush_db s) = pricing_decisions s"
  "orders (flush_db s) = orders s" "order_items (flush_db s) = order_items s"
  "returns (flush_db s) = returns s" "refunds (flush_db s) = refunds s"
  "customer_conversations (flush_db s) = customer_conversations s"
  "customer_messages (flush_db s) = customer_messages s"
  "workflow_runs (flush_db s) = workflow_runs s"
  "reorder_recommendations (flush_db s) = reorder_recommendations s"
  "agent_runs (flush_db s) = agent_runs s" "domain_events (flush_db s) = domain_events s"
  "handler_receipts (flush_db s) = handler_receipts s" "audit_events (flush_db s) = audit_events s"
  by (simp_all add: flush_db_def)

text \<open>A flush of a session with nothing to write changes nothing.\<close>

lemma flush_db_idem [simp]: "flush_db (flush_db s) = flush_db s"
  by (simp add: flush_db_def)

section \<open>Running and weakest preconditions of the session operations\<close>

lemma now_utc_apply [run_simps]: "now_utc s = (Inr (clock s), s)"
  by (simp add: now_utc_def run_simps)

lemma new_uuid_apply [run_simps]: "new_uuid s = (Inr (next_id s), s\<lparr>next_id := next_id s + 1\<rparr>)"
  by (simp add: new_uuid_def)

lemma flush_apply [run_simps]: "flush s = (Inr (), flush_db s)"
  by (simp add: flush_def run_simps)

lemma add_row_apply [run_simps]:
  "add_row upd r s = (Inr (), pending_rows_update (\<lambda>ps. row_id r # ps) (upd (\<lambda>rs. rs @ [r]) s))"
  by (simp add: add_row_def run_simps)

lemma get_row_apply [run_simps]: "get_row rows i s = (Inr (row (rows s) i), s)"
  by (simp add: get_row_def run_simps)

lemma get_opt_row_apply [run_simps]:
  "get_opt_row rows k s = (Inr (case k of None \<Rightarrow> None | Some i \<Rightarrow> row (rows s) i), s)"
  by (simp add: get_opt_row_def run_simps split: option.splits)

lemma scalar_apply [run_simps]: "scalar rows P s = (Inr (find P (rows (flush_db s))), flush_db s)"
  by (simp add: scalar_def run_simps)

lemma scalars_apply [run_simps]:
  "scalars rows P s = (Inr (filter P (rows (flush_db s))), flush_db s)"
  by (simp add: scalars_def run_simps)

lemma set_row_apply [run_simps]:
  "set_row rows upd i f s = (Inr (), dirty_rows_update
     (\<lambda>ds. if list_ex (\<lambda>r. row_id r = i \<and> f r \<noteq> r) (rows s) then i # ds else ds)
     (upd (update_rows i f) s))"
  by (simp add: set_row_def run_simps)

lemma update_where_apply [run_simps]:
  "update_where rows upd i P f s = (let t = flush_db s in
     if (\<exists>r \<in> set (rows t). row_id r = i \<and> P r)
     then (Inr (Some i), versions_update (\<lambda>v. v(i := v i + 1)) (upd (update_rows i f) t))
     else (Inr None, t))"
  by (simp add: update_where_def run_simps Let_def)

lemma wp_now_utc [wp_simps]: "wp now_utc Q E s = Q (clock s) s"
  by (simp add: wp_def run_simps)

lemma wp_new_uuid [wp_simps]: "wp new_uuid Q E s = Q (next_id s) (s\<lparr>next_id := next_id s + 1\<rparr>)"
  by (simp add: wp_def run_simps)

lemma wp_flush [wp_simps]: "wp flush Q E s = Q () (flush_db s)"
  by (simp add: wp_def run_simps)

lemma wp_add_row [wp_simps]: "wp (add_row upd r) Q E s =
    Q () (pending_rows_update (\<lambda>ps. row_id r # ps) (upd (\<lambda>rs. rs @ [r]) s))"
  by (simp add: wp_def run_simps)

lemma wp_get_row [wp_simps]: "wp (get_row rows i) Q E s = Q (row (rows s) i) s"
  by (simp add: wp_def run_simps)

lemma wp_get_opt_row [wp_simps]: "wp (get_opt_row rows k) Q E s =
    Q (case k of None \<Rightarrow> None | Some i \<Rightarrow> row (rows s) i) s"
  by (simp add: wp_def run_simps)

lemma wp_scalar [wp_simps]: "wp (scalar rows P) Q E s = Q (find P (rows (flush_db s))) (flush_db s)"
  by (simp add: wp_def run_simps)

lemma wp_scalars [wp_simps]:
  "wp (scalars rows P) Q E s = Q (filter P (rows (flush_db s))) (flush_db s)"
  by (simp add: wp_def run_simps)

lemma wp_set_row [wp_simps]: "wp (set_row rows upd i f) Q E s = Q () (dirty_rows_update
     (\<lambda>ds. if list_ex (\<lambda>r. row_id r = i \<and> f r \<noteq> r) (rows s) then i # ds else ds)
     (upd (update_rows i f) s))"
  by (simp add: wp_def run_simps)

lemma wp_update_where [wp_simps]: "wp (update_where rows upd i P f) Q E s =
   (if (\<exists>r \<in> set (rows (flush_db s)). row_id r = i \<and> P r)
    then Q (Some i) (versions_update (\<lambda>v. v(i := v i + 1)) (upd (update_rows i f) (flush_db s)))
    else Q None (flush_db s))"
  by (auto simp: wp_def run_simps Let_def)

lemma wp_begin_nested [wp_simps]: "wp (begin_nested m) Q E s =
    wp m Q (\<lambda>e t. E e (rollback_to (flush_db s) t)) (flush_db s)"
  by (simp add: begin_nested_def wp_simps)

lemma wp_transaction [wp_simps]: "wp (transaction m) Q E s =
    wp m (\<lambda>x t. Q x (flush_db t)) (\<lambda>e t. E e (rollback_to s t)) s"
  by (simp add: transaction_def wp_atomically) (simp add: wp_def run_simps split: sum.splits)

lemma rollback_to_fields [simp]:
  "clock (rollback_to s t) = clock t" "next_id (rollback_to s t) = max (next_id s) (next_id t)"
  "pending_rows (rollback_to s t) = pending_rows s" "dirty_rows (rollback_to s t) = dirty_rows s"
  "versions (rollback_to s t) = versions s"
  "products (rollback_to s t) = products s" "suppliers (rollback_to s t) = suppliers s"
  "supplier_quotes (rollback_to s t) = supplier_quotes s"
  "procurement_requests (rollback_to s t) = procurement_requests s"
  "purchase_orders (rollback_to s t) = purchase_orders s"
  "inventory_items (rollback_to s t) = inventory_items s"
  "inventory_movements (rollback_to s t) = inventory_movements s"
  "listing_drafts (rollback_to s t) = listing_drafts s"
  "marketplace_listings (rollback_to s t) = marketplace_listings s"
  "approvals (rollback_to s t) = approvals s"
  "pricing_decisions (rollback_to s t) = pricing_decisions s"
  "orders (rollback_to s t) = orders s" "order_items (rollback_to s t) = order_items s"
  "returns (rollback_to s t) = returns s" "refunds (rollback_to s t) = refunds s"
  "customer_conversations (rollback_to s t) = customer_conversations s"
  "customer_messages (rollback_to s t) = customer_messages s"
  "workflow_runs (rollback_to s t) = workflow_runs s"
  "reorder_recommendations (rollback_to s t) = reorder_recommendations s"
  "agent_runs (rollback_to s t) = agent_runs s" "domain_events (rollback_to s t) = domain_events s"
  "handler_receipts (rollback_to s t) = handler_receipts s"
  "audit_events (rollback_to s t) = audit_events s"
  by (simp_all add: rollback_to_def)

section \<open>Frames of the session operations\<close>

lemma keeps_now_utc [keeps_intros]: "keeps f now_utc"
  by (simp add: keeps_def run_simps)

lemma keeps_get_row [keeps_intros]: "keeps f (get_row rows i)"
  by (simp add: keeps_def run_simps)

lemma keeps_get_opt_row [keeps_intros]: "keeps f (get_opt_row rows i)"
  by (simp add: keeps_def run_simps)

lemma keeps_new_uuid [keeps_intros]: "(\<And>s n. f (s\<lparr>next_id := n\<rparr>) = f s) \<Longrightarrow> keeps f new_uuid"
  by (simp add: keeps_def run_simps)

lemma keeps_flush [keeps_intros]: "(\<And>s. f (flush_db s) = f s) \<Longrightarrow> keeps f flush"
  by (simp add: keeps_def run_simps)

lemma keeps_scalar [keeps_intros]: "(\<And>s. f (flush_db s) = f s) \<Longrightarrow> keeps f (scalar rows P)"
  by (simp add: keeps_def run_simps)

lemma keeps_scalars [keeps_intros]: "(\<And>s. f (flush_db s) = f s) \<Longrightarrow> keeps f (scalars rows P)"
  by (simp add: keeps_def run_simps)

lemma keeps_add_row [keeps_intros]:
  "(\<And>s g h. f (pending_rows_update g (upd h s)) = f s) \<Longrightarrow> keeps f (add_row upd r)"
  by (simp add: keeps_def run_simps)

lemma keeps_set_row [keeps_intros]:
  "(\<And>s g h. f (dirty_rows_update g (upd h s)) = f s) \<Longrightarrow> keeps f (set_row rows upd i g)"
  by (simp add: keeps_def run_simps)

lemma keeps_update_where [keeps_intros]:
  "(\<And>s. f (flush_db s) = f s) \<Longrightarrow> (\<And>s g h. f (versions_update g (upd h s)) = f s) \<Longrightarrow>
   keeps f (update_where rows upd i P g)"
  by (simp add: keeps_def run_simps Let_def)

lemma keeps_begin_nested [keeps_intros]:
  "keeps f m \<Longrightarrow> (\<And>s. f (flush_db s) = f s) \<Longrightarrow> (\<And>s t. f t = f s \<Longrightarrow> f (rollback_to s t) = f s) \<Longrightarrow>
   keeps f (begin_nested m)"
  by (simp add: keeps_def begin_nested_def run_simps split: sum.splits)

lemma keeps_transaction [keeps_intros]:
  "keeps f m \<Longrightarrow> (\<And>s. f (flush_db s) = f s) \<Longrightarrow> (\<And>s t. f t = f s \<Longrightarrow> f (rollback_to s t) = f s) \<Longrightarrow>
   keeps f (transaction m)"
  by (auto simp: keeps_def transaction_def run_simps split: sum.splits)

section \<open>Identifiers only advance\<close>

definition advances :: "'a op \<Rightarrow> bool" where
  "advances m \<longleftrightarrow> (\<forall>s. next_id s \<le> next_id (snd (m s)))"

lemma advancesD: "advances m \<Longrightarrow> m s = (r, t) \<Longrightarrow> next_id s \<le> next_id t"
  by (metis advances_def snd_conv)

lemma advances_keeps: "keeps next_id m \<Longrightarrow> advances m"
  by (simp add: keeps_def advances_def)

lemma advances_new_uuid: "advances new_uuid"
  by (simp add: advances_def run_simps)

lemma advances_bind: "advances m \<Longrightarrow> (\<And>x. advances (f x)) \<Longrightarrow> advances (bind m f)"
  by (auto simp: advances_def bind_def split: sum.splits intro: order_trans)

lemma advances_andthen: "advances m \<Longrightarrow> advances n \<Longrightarrow> advances (andthen m n)"
  by (auto simp: andthen_def intro: advances_bind)

lemma advances_whenM: "advances m \<Longrightarrow> advances (whenM c m)"
  by (simp add: advances_def run_simps)

lemma advances_if: "advances m \<Longrightarrow> advances n \<Longrightarrow> advances (if c then m else n)"
  by simp

lemma advances_case_option: "advances m \<Longrightarrow> (\<And>x. advances (f x)) \<Longrightarrow>
    advances (case k of None \<Rightarrow> m | Some x \<Rightarrow> f x)"
  by (simp split: option.split)

lemma advances_case_prod: "(\<And>x y. advances (f x y)) \<Longrightarrow> advances (case p of (x, y) \<Rightarrow> f x y)"
  by (simp split: prod.split)

lemma advances_let: "(\<And>x. advances (f x)) \<Longrightarrow> advances (let x = v in f x)"
  by simp

lemma advances_attempt: "advances m \<Longrightarrow> advances (attempt m)"
  by (simp add: advances_def run_simps)

lemma advances_for_each: "(\<And>x. advances (f x)) \<Longrightarrow> advances (for_each xs f)"
  by (induction xs) (auto intro: advances_andthen advances_keeps keeps_intros)

lemma advances_map_each: "(\<And>x. advances (f x)) \<Longrightarrow> advances (map_each xs f)"
  by (induction xs) (auto intro!: advances_bind intro: advances_keeps keeps_intros)

lemma advances_begin_nested: "advances m \<Longrightarrow> advances (begin_nested m)"
  by (auto simp: advances_def begin_nested_def andthen_def bind_def run_simps split: sum.splits)
    (metis flush_db_fields(2))

lemma advances_transaction: "advances m \<Longrightarrow> advances (transaction m)"
  by (auto simp: advances_def transaction_def run_simps split: sum.splits)

lemmas advances_intros =
  advances_new_uuid advances_bind advances_andthen advances_whenM advances_if advances_case_option
  advances_case_prod advances_let advances_attempt advances_for_each advances_map_each
  advances_begin_nested advances_transaction

lemma advances_simple [simp]:
  "advances (ret x)" "advances (throw e)" "advances (gets g)" "advances (raise_if c e)"
  "advances (the_or e opt)" "advances (of_result res)" "advances now_utc" "advances flush"
  "advances (get_row rows i)" "advances (get_opt_row rows' k)" "advances (scalar table P)"
  "advances (scalars table' P')"
  by (simp_all add: advances_def run_simps)

lemma advances_writes:
  "(\<And>s g h. next_id (pending_rows_update g (upd h s)) = next_id s) \<Longrightarrow> advances (add_row upd r)"
  "(\<And>s g h. next_id (dirty_rows_update g (upd h s)) = next_id s) \<Longrightarrow> advances (set_row rows upd i f)"
  "(\<And>s g h. next_id (versions_update g (upd h s)) = next_id s) \<Longrightarrow> advances (update_where rows upd i P f)"
  by (simp_all add: advances_def run_simps Let_def)

lemma wp_keeps_advances:
  assumes "keeps f m" "advances m"
    and "\<And>x t. f t = f s \<Longrightarrow> next_id s \<le> next_id t \<Longrightarrow> Q x t"
    and "\<And>e t. f t = f s \<Longrightarrow> E e t"
  shows "wp m Q E s"
proof (cases "m s")
  case (Pair r t)
  then have "f t = f s" "next_id s \<le> next_id t"
    using assms(1,2) by (auto simp: keeps_def dest: advancesD) (metis snd_conv)
  with Pair assms(3,4) show ?thesis by (auto simp: wp_def split: sum.splits)
qed

lemma advances_set_row_simp:
  "(\<And>s g h. next_id (dirty_rows_update g (upd h s)) = next_id s) \<Longrightarrow> advances (set_row rows upd i f)"
  by (simp add: advances_def run_simps)

section \<open>Units of work\<close>

lemma transaction_Inr: "m s = (Inr x, u) \<Longrightarrow> transaction m s = (Inr x, flush_db u)"
  by (simp add: transaction_def run_simps)

lemma transaction_Inl: "m s = (Inl e, u) \<Longrightarrow> transaction m s = (Inl e, rollback_to s u)"
  by (simp add: transaction_def run_simps)

lemma transaction_cases:
  obtains (ok) x u where "m s = (Inr x, u)" "snd (transaction m s) = flush_db u"
  | (failed) e u where "m s = (Inl e, u)" "snd (transaction m s) = rollback_to s u"
proof (cases "fst (m s)")
  case (Inl e)
  then have m: "m s = (Inl e, snd (m s))" by (metis prod.collapse)
  show ?thesis using m by (rule failed) (metis m transaction_Inl snd_conv)
next
  case (Inr x)
  then have m: "m s = (Inr x, snd (m s))" by (metis prod.collapse)
  show ?thesis using m by (rule ok) (metis m transaction_Inr snd_conv)
qed

text \<open>What is in the tables.\<close>

definition tables_of :: "db \<Rightarrow> db" where
  "tables_of s = s\<lparr>clock := 0, next_id := 0, pending_rows := [], dirty_rows := [], versions := (\<lambda>_. 0)\<rparr>"

lemma tables_of_simps [simp]:
  "tables_of (flush_db s) = tables_of s" "tables_of (rollback_to s t) = tables_of s"
  "tables_of (clock_update c s) = tables_of s" "tables_of (next_id_update n s) = tables_of s"
  "tables_of (pending_rows_update p s) = tables_of s" "tables_of (dirty_rows_update d s) = tables_of s"
  "tables_of (versions_update v s) = tables_of s"
  by (simp_all add: tables_of_def flush_db_def rollback_to_def)

lemma tables_ofD:
  assumes "tables_of s = tables_of t"
  shows "products s = products t" "suppliers s = suppliers t" "supplier_quotes s = supplier_quotes t"
    "procurement_requests s = procurement_requests t" "purchase_orders s = purchase_orders t"
    "inventory_items s = inventory_items t" "inventory_movements s = inventory_movements t"
    "listing_drafts s = listing_drafts t" "marketplace_listings s = marketplace_listings t"
    "approvals s = approvals t" "pricing_decisions s = pricing_decisions t" "orders s = orders t"
    "order_items s = order_items t" "returns s = returns t" "refunds s = refunds t"
    "customer_conversations s = customer_conversations t" "customer_messages s = customer_messages t"
    "workflow_runs s = workflow_runs t" "reorder_recommendations s = reorder_recommendations t"
    "agent_runs s = agent_runs t" "domain_events s = domain_events t"
    "handler_receipts s = handler_receipts t" "audit_events s = audit_events t"
  using assms by (cases s, cases t, simp add: tables_of_def)+

text \<open>
  An invariant of the tables holds after a transaction when it holds after every success: an
  exception restores the tables. A sequence of such transactions keeps it.
\<close>

locale unit_of_work =
  fixes inv :: "db \<Rightarrow> bool"
  assumes tables: "inv s \<Longrightarrow> tables_of t = tables_of s \<Longrightarrow> next_id s \<le> next_id t \<Longrightarrow> inv t"
begin

lemma flushed: "inv s \<Longrightarrow> inv (flush_db s)"
  by (rule tables [of s]) (assumption, simp_all)

lemma rolled_back: "inv s \<Longrightarrow> inv (rollback_to s t)"
  by (rule tables [of s]) (assumption, simp_all)

lemma transaction_keeps:
  assumes "inv s" "\<And>x t. m s = (Inr x, t) \<Longrightarrow> inv t"
  shows "inv (snd (transaction m s))"
proof (cases "m s")
  case (Pair r t)
  with assms show ?thesis
    by (cases r) (simp_all add: transaction_def run_simps flushed rolled_back)
qed

fun run_all :: "unit op list \<Rightarrow> db \<Rightarrow> db" where
  "run_all [] s = s"
| "run_all (m # ms) s = run_all ms (snd (transaction m s))"

lemma run_all_keeps:
  "inv s \<Longrightarrow> \<forall>m \<in> set ms. \<forall>s t. inv s \<longrightarrow> m s = (Inr (), t) \<longrightarrow> inv t \<Longrightarrow> inv (run_all ms s)"
proof (induction ms arbitrary: s)
  case Nil
  then show ?case by simp
next
  case (Cons m ms)
  have "inv (snd (transaction m s))"
  proof (rule transaction_keeps [OF Cons.prems(1)])
    fix x :: unit and t
    assume "m s = (Inr x, t)"
    then have "m s = (Inr (), t)" by (cases x) simp
    with Cons.prems show "inv t" by (meson list.set_intros(1))
  qed
  moreover have "\<forall>m \<in> set ms. \<forall>s t. inv s \<longrightarrow> m s = (Inr (), t) \<longrightarrow> inv t"
    using Cons.prems(2) by (meson list.set_intros(2))
  ultimately show ?case unfolding run_all.simps by (rule Cons.IH)
qed

end

end
