(* ===== verification/Lifecycles.thy ===== *)
theory Lifecycles
  imports Session
begin

text \<open>
  The state machines of \<open>domains/orders/model.py\<close> and \<open>domains/procurement/model.py\<close>. A status is
  ordered by its progress (\<open>linorder\<close>); every allowed transition makes progress, which is the
  contract of the locale \<open>lifecycle\<close>: a life is a path without repetition and of bounded length.
\<close>

section \<open>Paths of a transition relation\<close>

fun path_from :: "('s \<Rightarrow> 's \<Rightarrow> bool) \<Rightarrow> 's \<Rightarrow> 's list \<Rightarrow> bool" where
  "path_from step a [] = True"
| "path_from step a (b # bs) \<longleftrightarrow> step a b \<and> path_from step b bs"

locale lifecycle =
  fixes step :: "'s \<Rightarrow> 's \<Rightarrow> bool" and rank :: "'s \<Rightarrow> nat" and limit :: nat
  assumes step_rank: "step a b \<Longrightarrow> rank a < rank b"
    and rank_limit: "rank a \<le> limit"
begin

lemma path_rank: "path_from step a bs \<Longrightarrow> b \<in> set bs \<Longrightarrow> rank a < rank b"
proof (induction bs arbitrary: a)
  case Nil
  then show ?case by simp
next
  case (Cons c bs)
  then have "rank a < rank c" by (simp add: step_rank)
  with Cons show ?case by (auto intro: less_trans)
qed

lemma path_distinct: "path_from step a bs \<Longrightarrow> distinct (a # bs)"
proof (induction bs arbitrary: a)
  case Nil
  then show ?case by simp
next
  case (Cons b bs)
  have "a \<notin> set (b # bs)"
    using path_rank [OF Cons.prems, of a] by blast
  with Cons.IH [of b] Cons.prems show ?case by simp
qed

lemma path_length: "path_from step a bs \<Longrightarrow> length bs \<le> limit - rank a"
proof (induction bs arbitrary: a)
  case Nil
  then show ?case by simp
next
  case (Cons b bs)
  then have "length bs \<le> limit - rank b" "rank a < rank b" by (simp_all add: step_rank)
  with rank_limit [of b] show ?case by simp
qed

lemma no_return: "step\<^sup>*\<^sup>* a b \<Longrightarrow> step b c \<Longrightarrow> \<not> step\<^sup>*\<^sup>* c a"
proof
  have up: "step\<^sup>*\<^sup>* x y \<Longrightarrow> rank x \<le> rank y" for x y
    by (induction rule: rtranclp_induct) (auto dest: step_rank)
  assume "step\<^sup>*\<^sup>* a b" "step b c" "step\<^sup>*\<^sup>* c a"
  with up [of a b] up [of c a] step_rank [of b c] show False by simp
qed

end

section \<open>Orders\<close>

text \<open>\<open>ALLOWED_TRANSITIONS\<close> of \<open>domains/orders/model.py\<close>\<close>

fun order_allowed :: "OrderStatus \<Rightarrow> OrderStatus list" where
  "order_allowed Order_PENDING = [Order_PAID, Order_CANCELLED]"
| "order_allowed Order_PAID = [Order_PROCESSING, Order_CANCELLED]"
| "order_allowed Order_PROCESSING = [Order_DISPATCHED, Order_CANCELLED]"
| "order_allowed Order_DISPATCHED = [Order_DELIVERED, Order_RETURNED]"
| "order_allowed Order_DELIVERED = [Order_RETURNED, Order_REFUNDED]"
| "order_allowed Order_CANCELLED = []"
| "order_allowed Order_RETURNED = [Order_REFUNDED]"
| "order_allowed Order_REFUNDED = []"

definition transition_order :: "OrderStatus \<Rightarrow> OrderStatus \<Rightarrow> exn + OrderStatus" where
  "transition_order current target =
     (if target = current then Inr current
      else if target \<notin> set (order_allowed current)
      then Inl (Exn InvalidOrderTransition (''Order cannot transition from '' @ order_value current @
                  '' to '' @ order_value target))
      else Inr target)"

text \<open>A change of status that the code lets through.\<close>

definition order_step :: "OrderStatus \<Rightarrow> OrderStatus \<Rightarrow> bool" where
  "order_step a b \<longleftrightarrow> a \<noteq> b \<and> transition_order a b = Inr b"

primrec order_rank :: "OrderStatus \<Rightarrow> nat" where
  "order_rank Order_PENDING = 0"
| "order_rank Order_PAID = 1"
| "order_rank Order_PROCESSING = 2"
| "order_rank Order_DISPATCHED = 3"
| "order_rank Order_DELIVERED = 4"
| "order_rank Order_RETURNED = 5"
| "order_rank Order_REFUNDED = 6"
| "order_rank Order_CANCELLED = 7"

lemma order_rank_inject: "order_rank a = order_rank b \<Longrightarrow> a = b"
  by (cases a; cases b) simp_all

instantiation OrderStatus :: linorder
begin

definition less_eq_OrderStatus :: "OrderStatus \<Rightarrow> OrderStatus \<Rightarrow> bool" where
  "less_eq_OrderStatus a b \<longleftrightarrow> order_rank a \<le> order_rank b"

definition less_OrderStatus :: "OrderStatus \<Rightarrow> OrderStatus \<Rightarrow> bool" where
  "less_OrderStatus a b \<longleftrightarrow> order_rank a < order_rank b"

instance
  by standard (auto simp: less_eq_OrderStatus_def less_OrderStatus_def dest: order_rank_inject)

end

lemma order_step_iff: "order_step a b \<longleftrightarrow> b \<in> set (order_allowed a)"
  by (cases a; cases b) (simp_all add: order_step_def transition_order_def)

lemma order_step_progress: "order_step a b \<Longrightarrow> a < b"
  by (cases a; cases b) (simp_all add: order_step_iff less_OrderStatus_def)

interpretation order_life: lifecycle order_step order_rank 7
proof
  show "order_rank a \<le> 7" for a by (cases a) simp_all
qed (use order_step_progress in \<open>simp add: less_OrderStatus_def\<close>)

lemma transition_order_same [simp]: "transition_order a a = Inr a"
  by (simp add: transition_order_def)

lemma transition_order_Inr: "transition_order a b = Inr c \<longleftrightarrow> c = b \<and> (a = b \<or> order_step a b)"
  by (auto simp: order_step_def transition_order_def split: if_splits)

lemma order_cancelled_final: "\<not> order_step Order_CANCELLED b" "\<not> order_step Order_REFUNDED b"
  by (simp_all add: order_step_iff)

text \<open>The only way to dispatch leads through payment and processing.\<close>

lemma order_path_cases:
  assumes "path_from order_step Order_PENDING (b # bs)"
  shows "b = Order_CANCELLED \<and> bs = [] \<or>
    b = Order_PAID \<and> path_from order_step Order_PAID bs"
proof -
  have "path_from order_step Order_CANCELLED cs \<Longrightarrow> cs = []" for cs
    by (cases cs) (simp_all add: order_step_iff)
  with assms show ?thesis by (auto simp: order_step_iff)
qed

lemma order_path_dispatch:
  assumes "path_from order_step Order_PENDING bs" and "Order_DISPATCHED \<in> set bs"
  shows "take 3 bs = [Order_PAID, Order_PROCESSING, Order_DISPATCHED]"
proof -
  have nil: "path_from order_step Order_CANCELLED cs \<Longrightarrow> cs = []" for cs
    by (cases cs) (simp_all add: order_step_iff)
  have proc: "path_from order_step Order_PROCESSING cs \<Longrightarrow> Order_DISPATCHED \<in> set cs \<Longrightarrow>
      take 1 cs = [Order_DISPATCHED]" for cs
    by (cases cs) (auto simp: order_step_iff dest: nil)
  have paid: "path_from order_step Order_PAID cs \<Longrightarrow> Order_DISPATCHED \<in> set cs \<Longrightarrow>
      take 2 cs = [Order_PROCESSING, Order_DISPATCHED]" for cs
    by (cases cs) (auto simp: order_step_iff numeral_2_eq_2 dest: nil proc)
  show ?thesis
    using assms by (cases bs) (auto simp: order_step_iff eval_nat_numeral dest: nil paid)
qed

section \<open>Procurement\<close>

text \<open>\<open>ALLOWED_TRANSITIONS\<close> of \<open>domains/procurement/model.py\<close>\<close>

fun procurement_allowed :: "ProcurementStatus \<Rightarrow> ProcurementStatus list" where
  "procurement_allowed Procurement_PROPOSED =
     [Procurement_AWAITING_APPROVAL, Procurement_CANCELLED]"
| "procurement_allowed Procurement_AWAITING_APPROVAL =
     [Procurement_APPROVED, Procurement_CANCELLED]"
| "procurement_allowed Procurement_APPROVED = [Procurement_ORDERED, Procurement_CANCELLED]"
| "procurement_allowed Procurement_ORDERED = [Procurement_SHIPPED]"
| "procurement_allowed Procurement_SHIPPED = [Procurement_RECEIVED]"
| "procurement_allowed Procurement_RECEIVED = []"
| "procurement_allowed Procurement_CANCELLED = []"

record ProcurementTransition =
  pt_previous :: ProcurementStatus
  pt_current :: ProcurementStatus

definition transition :: "ProcurementStatus \<Rightarrow> ProcurementStatus \<Rightarrow> exn + ProcurementTransition" where
  "transition current target =
     (if target \<notin> set (procurement_allowed current)
      then Inl (Exn InvalidProcurementTransition (''Cannot transition procurement from '' @
                  procurement_value current @ '' to '' @ procurement_value target))
      else Inr \<lparr>pt_previous = current, pt_current = target\<rparr>)"

definition procurement_step :: "ProcurementStatus \<Rightarrow> ProcurementStatus \<Rightarrow> bool" where
  "procurement_step a b \<longleftrightarrow> transition a b = Inr \<lparr>pt_previous = a, pt_current = b\<rparr>"

primrec procurement_rank :: "ProcurementStatus \<Rightarrow> nat" where
  "procurement_rank Procurement_PROPOSED = 0"
| "procurement_rank Procurement_AWAITING_APPROVAL = 1"
| "procurement_rank Procurement_APPROVED = 2"
| "procurement_rank Procurement_ORDERED = 3"
| "procurement_rank Procurement_SHIPPED = 4"
| "procurement_rank Procurement_RECEIVED = 5"
| "procurement_rank Procurement_CANCELLED = 6"

lemma procurement_rank_inject: "procurement_rank a = procurement_rank b \<Longrightarrow> a = b"
  by (cases a; cases b) simp_all

instantiation ProcurementStatus :: linorder
begin

definition less_eq_ProcurementStatus :: "ProcurementStatus \<Rightarrow> ProcurementStatus \<Rightarrow> bool" where
  "less_eq_ProcurementStatus a b \<longleftrightarrow> procurement_rank a \<le> procurement_rank b"

definition less_ProcurementStatus :: "ProcurementStatus \<Rightarrow> ProcurementStatus \<Rightarrow> bool" where
  "less_ProcurementStatus a b \<longleftrightarrow> procurement_rank a < procurement_rank b"

instance
  by standard
    (auto simp: less_eq_ProcurementStatus_def less_ProcurementStatus_def dest: procurement_rank_inject)

end

lemma procurement_step_iff: "procurement_step a b \<longleftrightarrow> b \<in> set (procurement_allowed a)"
  by (simp add: procurement_step_def transition_def)

lemma procurement_step_progress: "procurement_step a b \<Longrightarrow> a < b"
  by (cases a; cases b) (simp_all add: procurement_step_iff less_ProcurementStatus_def)

interpretation procurement_life: lifecycle procurement_step procurement_rank 6
proof
  show "procurement_rank a \<le> 6" for a by (cases a) simp_all
qed (use procurement_step_progress in \<open>simp add: less_ProcurementStatus_def\<close>)

lemma transition_Inr: "transition a b = Inr c \<longleftrightarrow>
    c = \<lparr>pt_previous = a, pt_current = b\<rparr> \<and> procurement_step a b"
  by (auto simp: procurement_step_def transition_def split: if_splits)

lemma transition_cases:
  "transition a b = (if procurement_step a b then Inr \<lparr>pt_previous = a, pt_current = b\<rparr>
     else Inl (Exn InvalidProcurementTransition (''Cannot transition procurement from '' @
                  procurement_value a @ '' to '' @ procurement_value b)))"
  by (simp add: transition_def procurement_step_iff)

text \<open>Nothing is ordered that was not submitted for approval and approved.\<close>

lemma procurement_path_ordered:
  assumes "path_from procurement_step Procurement_PROPOSED bs" and "Procurement_ORDERED \<in> set bs"
  shows "take 3 bs = [Procurement_AWAITING_APPROVAL, Procurement_APPROVED, Procurement_ORDERED]"
proof -
  have nil: "path_from procurement_step Procurement_CANCELLED cs \<Longrightarrow> cs = []" for cs
    by (cases cs) (simp_all add: procurement_step_iff)
  have appr: "path_from procurement_step Procurement_APPROVED cs \<Longrightarrow> Procurement_ORDERED \<in> set cs \<Longrightarrow>
      take 1 cs = [Procurement_ORDERED]" for cs
    by (cases cs) (auto simp: procurement_step_iff dest: nil)
  have wait: "path_from procurement_step Procurement_AWAITING_APPROVAL cs \<Longrightarrow>
      Procurement_ORDERED \<in> set cs \<Longrightarrow> take 2 cs = [Procurement_APPROVED, Procurement_ORDERED]" for cs
    by (cases cs) (auto simp: procurement_step_iff numeral_2_eq_2 dest: nil appr)
  show ?thesis
    using assms by (cases bs) (auto simp: procurement_step_iff eval_nat_numeral dest: nil wait)
qed

end
