(* ===== verification/Registry.thy ===== *)
theory Registry
  imports Core_Types
begin

text \<open>
  The contract of the registries of the program: event handlers by name, approval actions by action
  type, workflow definitions by name and version. A key is registered once, a second registration
  is refused, and what was registered stays what a lookup returns.
\<close>

locale keyed_registry =
  fixes ok :: "'r \<Rightarrow> bool"
    and register :: "'k \<Rightarrow> 'v \<Rightarrow> 'r \<Rightarrow> exn + 'r"
    and lookup :: "'r \<Rightarrow> 'k \<Rightarrow> 'v option"
  assumes register_new: "ok r \<Longrightarrow> lookup r k = None \<Longrightarrow>
      \<exists>r'. register k v r = Inr r' \<and> ok r' \<and> lookup r' = (lookup r)(k \<mapsto> v)"
    and register_taken: "ok r \<Longrightarrow> lookup r k = Some w \<Longrightarrow> \<exists>m. register k v r = Inl (Exn ValueError m)"
begin

fun register_all :: "('k \<times> 'v) list \<Rightarrow> 'r \<Rightarrow> exn + 'r" where
  "register_all [] r = Inr r"
| "register_all ((k, v) # kvs) r = rbind (register k v r) (register_all kvs)"

lemma register_cases:
  assumes "ok r"
  obtains (new) r' where "lookup r k = None" "register k v r = Inr r'" "ok r'" "lookup r' = (lookup r)(k \<mapsto> v)"
  | (taken) w m where "lookup r k = Some w" "register k v r = Inl (Exn ValueError m)"
  using register_new [OF assms] register_taken [OF assms] by (cases "lookup r k") blast+

lemma register_InrD:
  "ok r \<Longrightarrow> register k v r = Inr r' \<Longrightarrow> ok r' \<and> lookup r k = None \<and> lookup r' = (lookup r)(k \<mapsto> v)"
  by (cases rule: register_cases [of r k v]) auto

lemma register_all_Inr:
  "ok r \<Longrightarrow> register_all kvs r = Inr r' \<Longrightarrow>
   ok r' \<and> distinct (map fst kvs) \<and> (\<forall>(k, v) \<in> set kvs. lookup r k = None \<and> lookup r' k = Some v) \<and>
   (\<forall>k. lookup r k \<noteq> None \<longrightarrow> lookup r' k = lookup r k)"
proof (induction kvs arbitrary: r)
  case Nil
  then show ?case by simp
next
  case (Cons kv kvs)
  obtain k v where kv: "kv = (k, v)" by force
  from Cons.prems(2) obtain r1 where r1: "register k v r = Inr r1" "register_all kvs r1 = Inr r'"
    by (auto simp: kv rbind_Inr_iff)
  have step: "ok r1" "lookup r k = None" "lookup r1 = (lookup r)(k \<mapsto> v)"
    using register_InrD [OF Cons.prems(1) r1(1)] by auto
  note IH = Cons.IH [OF step(1) r1(2)]
  have "k \<notin> fst ` set kvs" using IH step(3) by fastforce
  then show ?case using IH step by (fastforce simp: kv split: if_splits)
qed

end

end
