(* ===== verification/Approval_Policy.thy ===== *)
theory Approval_Policy
  imports Py_Decimal
begin

text \<open>
  \<open>approvals/policy.py\<close>: which actions wait for a human. A rule is a datatype with the classes of the
  source as constructors, each with its \<open>name\<close> and \<open>version\<close>; the policy evaluates its rules in order
  and the first match decides.
\<close>

section \<open>Definitions\<close>

datatype ApprovalActionType =
    SUPPLIER_PURCHASE | FIRST_MARKETPLACE_PUBLICATION | PRICE_CHANGE | REFUND_ACTION
  | DESTRUCTIVE_ACTION | HIGH_RISK_ACTION | CUSTOMER_RESPONSE

primrec action_type_value :: "ApprovalActionType \<Rightarrow> string" where
  "action_type_value SUPPLIER_PURCHASE = ''supplier_purchase''"
| "action_type_value FIRST_MARKETPLACE_PUBLICATION = ''first_marketplace_publication''"
| "action_type_value PRICE_CHANGE = ''price_change''"
| "action_type_value REFUND_ACTION = ''refund''"
| "action_type_value DESTRUCTIVE_ACTION = ''destructive_action''"
| "action_type_value HIGH_RISK_ACTION = ''high_risk_action''"
| "action_type_value CUSTOMER_RESPONSE = ''customer_response''"

datatype PolicyDecision = ALLOW | REQUIRE_APPROVAL

record ApprovalContext =
  ctx_action_type :: ApprovalActionType
  ctx_amount :: "rat option"
  ctx_price_change_percent :: "rat option"
  ctx_is_first_publication :: bool
  ctx_risk_level :: string

text \<open>\<open>ApprovalContext(action_type)\<close> with the defaults of its other fields.\<close>

definition approval_context :: "ApprovalActionType \<Rightarrow> ApprovalContext" where
  "approval_context t = \<lparr>ctx_action_type = t, ctx_amount = None, ctx_price_change_percent = None,
     ctx_is_first_publication = False, ctx_risk_level = ''normal''\<rparr>"

datatype ApprovalRule =
    ActionRule (rule_name: string) "ApprovalActionType list" (rule_version: int)
  | FirstPublicationRule (rule_name: string) (rule_version: int)
  | SignificantPriceChangeRule rat (rule_name: string) (rule_version: int)
  | RefundThresholdRule rat (rule_name: string) (rule_version: int)

fun requires_approval :: "ApprovalRule \<Rightarrow> ApprovalContext \<Rightarrow> bool" where
  "requires_approval (ActionRule _ action_types _) c \<longleftrightarrow> ctx_action_type c \<in> set action_types"
| "requires_approval (FirstPublicationRule _ _) c \<longleftrightarrow>
     ctx_action_type c = FIRST_MARKETPLACE_PUBLICATION \<and> ctx_is_first_publication c"
| "requires_approval (SignificantPriceChangeRule threshold_percent _ _) c \<longleftrightarrow>
     ctx_action_type c = PRICE_CHANGE \<and>
     (case ctx_price_change_percent c of None \<Rightarrow> False | Some p \<Rightarrow> threshold_percent \<le> round28 \<bar>p\<bar>)"
| "requires_approval (RefundThresholdRule threshold _ _) c \<longleftrightarrow>
     ctx_action_type c = REFUND_ACTION \<and>
     (case ctx_amount c of None \<Rightarrow> False | Some a \<Rightarrow> threshold < a)"

record PolicyResult =
  decision :: PolicyDecision
  matched_rule :: "ApprovalRule option"

text \<open>\<open>ApprovalPolicy.from_settings\<close>; the two settings are read as decimals.\<close>

definition policy_from_settings :: "rat \<Rightarrow> rat \<Rightarrow> ApprovalRule list" where
  "policy_from_settings significant_price_change_percent refund_approval_threshold =
     [ActionRule ''financial_and_high_risk_actions''
        [SUPPLIER_PURCHASE, DESTRUCTIVE_ACTION, HIGH_RISK_ACTION] 1,
      FirstPublicationRule ''first_marketplace_publication'' 1,
      SignificantPriceChangeRule significant_price_change_percent ''significant_price_change'' 1,
      RefundThresholdRule refund_approval_threshold ''refund_above_threshold'' 1]"

fun evaluate :: "ApprovalRule list \<Rightarrow> ApprovalContext \<Rightarrow> PolicyResult" where
  "evaluate [] context = \<lparr>decision = ALLOW, matched_rule = None\<rparr>"
| "evaluate (rule # rules) context =
     (if requires_approval rule context then \<lparr>decision = REQUIRE_APPROVAL, matched_rule = Some rule\<rparr>
      else evaluate rules context)"

section \<open>Lemmas\<close>

lemma evaluate_find: "evaluate rules c = (case find (\<lambda>r. requires_approval r c) rules of
    None \<Rightarrow> \<lparr>decision = ALLOW, matched_rule = None\<rparr>
  | Some r \<Rightarrow> \<lparr>decision = REQUIRE_APPROVAL, matched_rule = Some r\<rparr>)"
  by (induction rules) auto

lemma evaluate_iff: "decision (evaluate rules c) = REQUIRE_APPROVAL \<longleftrightarrow> (\<exists>r \<in> set rules. requires_approval r c)"
  by (induction rules) auto

lemma evaluate_cases:
  obtains (allow) "evaluate rules c = \<lparr>decision = ALLOW, matched_rule = None\<rparr>"
      "\<forall>r \<in> set rules. \<not> requires_approval r c"
  | (ask) r where "evaluate rules c = \<lparr>decision = REQUIRE_APPROVAL, matched_rule = Some r\<rparr>" "r \<in> set rules"
      "requires_approval r c"
  by (cases "find (\<lambda>r. requires_approval r c) rules")
    (auto simp: evaluate_find find_None_iff dest: find_SomeD)

section \<open>Properties\<close>

text \<open>
  What the configured policy asks a human for: every supplier purchase, destructive and
  high-risk action, a first publication, a price change of at least the configured percentage and
  a refund above the configured threshold; nothing else, in particular no customer response and no
  price change without a known percentage.
\<close>

theorem configured_policy:
  "decision (evaluate (policy_from_settings percent threshold) c) =
     (case ctx_action_type c of
        SUPPLIER_PURCHASE \<Rightarrow> REQUIRE_APPROVAL
      | DESTRUCTIVE_ACTION \<Rightarrow> REQUIRE_APPROVAL
      | HIGH_RISK_ACTION \<Rightarrow> REQUIRE_APPROVAL
      | FIRST_MARKETPLACE_PUBLICATION \<Rightarrow>
          (if ctx_is_first_publication c then REQUIRE_APPROVAL else ALLOW)
      | PRICE_CHANGE \<Rightarrow> (case ctx_price_change_percent c of None \<Rightarrow> ALLOW
          | Some p \<Rightarrow> if percent \<le> round28 \<bar>p\<bar> then REQUIRE_APPROVAL else ALLOW)
      | REFUND_ACTION \<Rightarrow> (case ctx_amount c of None \<Rightarrow> ALLOW
          | Some a \<Rightarrow> if threshold < a then REQUIRE_APPROVAL else ALLOW)
      | CUSTOMER_RESPONSE \<Rightarrow> ALLOW)"
  by (cases "ctx_action_type c") (simp_all add: policy_from_settings_def split: option.splits)

end
