(* ===== verification/Approval_Engine.thy ===== *)
theory Approval_Engine
  imports Session Registry Approval_Policy "HOL-Library.List_Lexorder" "HOL-Library.Char_ord"
begin

text \<open>
  \<open>approvals/engine.py\<close>: requests for approval, decisions on them, expiry, and the resumption of the
  approved action.

  \<^item> An engine is its policy, the default expiry, the registry of resume handlers and \<open>digest\<close>: the
    SHA-256 hex digest of the compact JSON text of a document. The document whose digest is taken,
    with its keys sorted at every level (\<open>sort_keys=True\<close>), is \<open>action_document\<close>.
  \<^item> A resume handler works on the session; it is given the row of the approval as it is when the
    handler is called.
\<close>

section \<open>The registry of resume handlers\<close>

type_synonym resume_handler = "Approval \<Rightarrow> unit op"
type_synonym ApprovalActionRegistry = "(string \<times> resume_handler) list"

definition register_action ::
  "string \<Rightarrow> resume_handler \<Rightarrow> ApprovalActionRegistry \<Rightarrow> exn + ApprovalActionRegistry" where
  "register_action action_type handler reg =
     (if map_of reg action_type \<noteq> None
      then Inl (Exn ValueError (''Resume handler already registered for '' @ action_type))
      else Inr (reg @ [(action_type, handler)]))"

definition get_action :: "ApprovalActionRegistry \<Rightarrow> string \<Rightarrow> resume_handler option" where
  "get_action reg action_type = map_of reg action_type"

interpretation action_registry: keyed_registry "\<lambda>_. True" register_action get_action
  by unfold_locales (auto simp: register_action_def get_action_def map_add_def fun_eq_iff split: option.splits)

section \<open>Definitions\<close>

record ApprovalEngine =
  engine_policy :: "ApprovalRule list"
  default_expiry_hours :: int
  engine_registry :: ApprovalActionRegistry
  digest :: "json \<Rightarrow> string"

primrec canonical :: "json \<Rightarrow> json" where
  "canonical JNull = JNull"
| "canonical (JBool b) = JBool b"
| "canonical (JInt i) = JInt i"
| "canonical (JStr s) = JStr s"
| "canonical (JDec d) = JDec d"
| "canonical (JList xs) = JList (map canonical xs)"
| "canonical (JObj kvs) = JObj (sort_key fst (map (map_prod id canonical) kvs))"

definition action_document :: "string \<Rightarrow> uuid \<Rightarrow> dict \<Rightarrow> json" where
  "action_document action_type resource_id requested_action =
     JObj [(''action_type'', JStr action_type), (''resource_id'', JStr (uuid_str resource_id)),
           (''requested_action'', JObj requested_action)]"

definition action_hash :: "ApprovalEngine \<Rightarrow> string \<Rightarrow> uuid \<Rightarrow> dict \<Rightarrow> string" where
  "action_hash E action_type resource_id requested_action =
     digest E (canonical (action_document action_type resource_id requested_action))"

definition audit_approval :: "Approval \<Rightarrow> string \<Rightarrow> string \<Rightarrow> string option \<Rightarrow> string \<Rightarrow> unit op" where
  "audit_approval approval action actor before_status after_status =
     bind new_uuid (\<lambda>audit_id.
     bind now_utc (\<lambda>now.
     add_row audit_events_update
       \<lparr>row_id = audit_id, row_created_at = now,
        au_actor_type = (if actor \<noteq> ''system'' then ''user'' else ''system''), au_actor_id = actor,
        au_action = action, au_resource_type = ''approval'', au_resource_id = row_id approval,
        au_before_state = map_option (\<lambda>b. [(''status'', JStr b)]) before_status,
        au_after_state = Some [(''status'', JStr after_status)],
        au_reason = Some (case ap_rationale approval of
            Some r \<Rightarrow> if r = [] then ap_requested_reason approval else r
          | None \<Rightarrow> ap_requested_reason approval),
        au_request_id = None, au_correlation_id = row_id approval\<rparr>))"

text \<open>What a request is made of: the keyword arguments of \<open>create_request\<close> a caller chooses.\<close>

record ApprovalRequest =
  rq_action_type :: string
  rq_resource_type :: string
  rq_resource_id :: uuid
  rq_requested_action :: dict
  rq_reason :: string
  rq_requester :: string
  rq_risk_level :: string
  rq_workflow_run_id :: "uuid option"
  rq_expires_at :: "datetime option"

definition create_request :: "ApprovalEngine \<Rightarrow> ApprovalRequest \<Rightarrow> string \<Rightarrow> int \<Rightarrow> Approval op" where
  "create_request E req name rule_ver =
     (let hash = action_hash E (rq_action_type req) (rq_resource_id req) (rq_requested_action req) in
      bind (scalar approvals (\<lambda>a. ap_resource_type a = rq_resource_type req \<and>
              ap_resource_id a = rq_resource_id req \<and> ap_action_hash a = hash)) (\<lambda>existing.
      case existing of Some a \<Rightarrow> ret a
      | None \<Rightarrow>
        bind now_utc (\<lambda>now.
        bind new_uuid (\<lambda>approval_id.
        let approval = \<lparr>row_id = approval_id, row_created_at = now,
              ap_action_type = rq_action_type req, ap_resource_type = rq_resource_type req,
              ap_resource_id = rq_resource_id req, ap_requested_payload = rq_requested_action req,
              ap_action_hash = hash, ap_risk_level = rq_risk_level req, ap_rule_name = name,
              ap_rule_version = rule_ver, ap_status = Approval_PENDING,
              ap_requested_by = rq_requester req, ap_requested_reason = rq_reason req,
              ap_decided_by = None, ap_rationale = None,
              ap_workflow_run_id = rq_workflow_run_id req,
              ap_expires_at = Some (case rq_expires_at req of Some e \<Rightarrow> e
                | None \<Rightarrow> now + hours (default_expiry_hours E)),
              ap_decided_at = None, ap_resumed_at = None\<rparr> in
        andthen (add_row approvals_update approval)
        (andthen flush
        (andthen (audit_approval approval ''approval.requested'' (rq_requester req) None ''pending'')
        (ret approval)))))))"

definition request_if_required ::
  "ApprovalEngine \<Rightarrow> ApprovalContext \<Rightarrow> ApprovalRequest \<Rightarrow> Approval option op" where
  "request_if_required E context req =
     (let result = evaluate (engine_policy E) context in
      if decision result = ALLOW then ret None
      else bind (the_or (Exn AssertionError []) (matched_rule result)) (\<lambda>rule.
           bind (create_request E req (rule_name rule) (rule_version rule)) (\<lambda>a. ret (Some a))))"

definition get_approval :: "uuid \<Rightarrow> Approval op" where
  "get_approval approval_id =
     bind (scalar approvals (\<lambda>a. row_id a = approval_id)) (\<lambda>found.
     the_or (Exn ApprovalNotFoundError (uuid_str approval_id)) found)"

definition list_pending :: "nat \<Rightarrow> Approval list op" where
  "list_pending limit =
     bind (scalars approvals (\<lambda>a. ap_status a = Approval_PENDING)) (\<lambda>rows.
     ret (take limit (sort_key row_created_at rows)))"

definition require_pending :: "Approval \<Rightarrow> unit op" where
  "require_pending a = raise_if (ap_status a \<noteq> Approval_PENDING)
     (Exn ApprovalTransitionError (''Approval '' @ uuid_str (row_id a) @ '' is already '' @
        approval_value (ap_status a)))"

text \<open>\<open>approval.expires_at is not None and approval.expires_at <= now\<close>\<close>

definition past_expiry :: "datetime \<Rightarrow> Approval \<Rightarrow> bool" where
  "past_expiry now a \<longleftrightarrow> (case ap_expires_at a of None \<Rightarrow> False | Some e \<Rightarrow> e \<le> now)"

text \<open>Assign to the attributes of an approval and continue with the changed object.\<close>

definition set_approval :: "(Approval \<Rightarrow> Approval) \<Rightarrow> uuid \<Rightarrow> unit op" where
  "set_approval f approval_id = set_row approvals approvals_update approval_id f"

definition decided :: "ApprovalStatus \<Rightarrow> string \<Rightarrow> string \<Rightarrow> datetime \<Rightarrow> Approval \<Rightarrow> Approval" where
  "decided status who why now a =
     a\<lparr>ap_status := status, ap_decided_by := Some who, ap_rationale := Some why, ap_decided_at := Some now\<rparr>"

definition expire :: "Approval \<Rightarrow> datetime \<Rightarrow> string \<Rightarrow> unit op" where
  "expire approval now actor =
     (let change = decided Approval_EXPIRED actor ''Approval expired before a decision was made'' now in
      andthen (set_approval change (row_id approval))
      (audit_approval (change approval) ''approval.expired'' actor (Some ''pending'') ''expired''))"

definition resume_action :: "ApprovalEngine \<Rightarrow> Approval \<Rightarrow> datetime \<Rightarrow> unit op" where
  "resume_action E approval now =
     andthen (case get_action (engine_registry E) (ap_action_type approval) of
                None \<Rightarrow> ret () | Some handler \<Rightarrow> handler approval)
     (andthen (case ap_workflow_run_id approval of
                None \<Rightarrow> ret ()
              | Some run_id \<Rightarrow>
                  bind (get_row workflow_runs run_id) (\<lambda>workflow.
                  andthen (raise_if (workflow = None) (Exn ApprovalTransitionError
                    (''Workflow '' @ uuid_str run_id @ '' linked to approval was not found'')))
                  (set_row workflow_runs workflow_runs_update run_id
                    (\<lambda>w. w\<lparr>wf_status := Run_RUNNING, wf_next_retry_at := None, wf_error := None\<rparr>))))
     (set_approval (\<lambda>a. a\<lparr>ap_resumed_at := Some now\<rparr>) (row_id approval)))"

definition expired_error :: "uuid \<Rightarrow> exn" where
  "expired_error approval_id = Exn ApprovalExpiredError (''Approval '' @ uuid_str approval_id @ '' has expired'')"

definition approve :: "ApprovalEngine \<Rightarrow> uuid \<Rightarrow> string \<Rightarrow> string \<Rightarrow> datetime option \<Rightarrow> Approval op" where
  "approve E approval_id approver reason at_time =
     bind (case at_time of Some n \<Rightarrow> ret n | None \<Rightarrow> now_utc) (\<lambda>now.
     bind (get_approval approval_id) (\<lambda>approval.
     andthen (require_pending approval)
     (if past_expiry now approval
      then andthen (expire approval now ''system'') (throw (expired_error approval_id))
      else
        let approved = decided Approval_APPROVED approver reason now approval in
        andthen (set_approval (decided Approval_APPROVED approver reason now) approval_id)
        (andthen (resume_action E approved now)
        (andthen (audit_approval approved ''approval.approved'' approver (Some ''pending'') ''approved'')
        (andthen flush
        (get_approval approval_id)))))))"

definition reject :: "uuid \<Rightarrow> string \<Rightarrow> string \<Rightarrow> datetime option \<Rightarrow> Approval op" where
  "reject approval_id approver reason at_time =
     bind (case at_time of Some n \<Rightarrow> ret n | None \<Rightarrow> now_utc) (\<lambda>now.
     bind (get_approval approval_id) (\<lambda>approval.
     andthen (require_pending approval)
     (if past_expiry now approval
      then andthen (expire approval now ''system'') (throw (expired_error approval_id))
      else
        let rejected = decided Approval_REJECTED approver reason now approval in
        andthen (set_approval (decided Approval_REJECTED approver reason now) approval_id)
        (andthen (audit_approval rejected ''approval.rejected'' approver (Some ''pending'') ''rejected'')
        (andthen flush
        (get_approval approval_id))))))"

definition expire_due :: "datetime option \<Rightarrow> nat op" where
  "expire_due at_time =
     bind (case at_time of Some n \<Rightarrow> ret n | None \<Rightarrow> now_utc) (\<lambda>now.
     bind (scalars approvals (\<lambda>a. ap_status a = Approval_PENDING \<and> past_expiry now a)) (\<lambda>due.
     andthen (for_each due (\<lambda>a. expire a now ''system''))
     (andthen flush
     (ret (length due)))))"

section \<open>Frames\<close>

lemma keeps_audit_approval [keeps_intros]:
  "(\<And>s n. f (s\<lparr>next_id := n\<rparr>) = f s) \<Longrightarrow>
   (\<And>s g h. f (pending_rows_update g (audit_events_update h s)) = f s) \<Longrightarrow>
   keeps f (audit_approval a act who b c)"
  unfolding audit_approval_def by (intro keeps_intros)

lemma keeps_create_request [keeps_intros]:
  "(\<And>s n. f (s\<lparr>next_id := n\<rparr>) = f s) \<Longrightarrow> (\<And>s. f (flush_db s) = f s) \<Longrightarrow>
   (\<And>s g h. f (pending_rows_update g (audit_events_update h s)) = f s) \<Longrightarrow>
   (\<And>s g h. f (pending_rows_update g (approvals_update h s)) = f s) \<Longrightarrow>
   keeps f (create_request E req n v)"
  unfolding create_request_def Let_def by (intro keeps_intros)

lemma keeps_request_if_required [keeps_intros]:
  "(\<And>s n. f (s\<lparr>next_id := n\<rparr>) = f s) \<Longrightarrow> (\<And>s. f (flush_db s) = f s) \<Longrightarrow>
   (\<And>s g h. f (pending_rows_update g (audit_events_update h s)) = f s) \<Longrightarrow>
   (\<And>s g h. f (pending_rows_update g (approvals_update h s)) = f s) \<Longrightarrow>
   keeps f (request_if_required E c req)"
  unfolding request_if_required_def Let_def by (intro keeps_intros)

lemma keeps_get_approval [keeps_intros]: "(\<And>s. f (flush_db s) = f s) \<Longrightarrow> keeps f (get_approval i)"
  unfolding get_approval_def by (intro keeps_intros)

lemma keeps_set_approval [keeps_intros]:
  "(\<And>s g h. f (dirty_rows_update g (approvals_update h s)) = f s) \<Longrightarrow> keeps f (set_approval c i)"
  unfolding set_approval_def by (intro keeps_intros)

text \<open>Everything beside the approvals and their audit trail.\<close>

definition but_approvals :: "db \<Rightarrow> db" where
  "but_approvals s = s\<lparr>next_id := 0, pending_rows := [], dirty_rows := [], versions := (\<lambda>_. 0),
     approvals := [], audit_events := []\<rparr>"

lemma but_approvals_simps [simp]:
  "but_approvals (flush_db s) = but_approvals s"
  "but_approvals (next_id_update n s) = but_approvals s"
  "but_approvals (pending_rows_update p s) = but_approvals s"
  "but_approvals (dirty_rows_update p s) = but_approvals s"
  "but_approvals (approvals_update a s) = but_approvals s"
  "but_approvals (audit_events_update e s) = but_approvals s"
  by (simp_all add: but_approvals_def flush_db_def)

section \<open>Decisions\<close>

text \<open>What was asked for, without the decision.\<close>

definition request_part :: "Approval \<Rightarrow> Approval" where
  "request_part a = a\<lparr>ap_status := Approval_PENDING, ap_decided_by := None, ap_rationale := None,
     ap_decided_at := None, ap_resumed_at := None\<rparr>"

text \<open>A change of an approval: none, or the decision of a pending one.\<close>

definition approval_step :: "Approval \<Rightarrow> Approval \<Rightarrow> bool" where
  "approval_step a b \<longleftrightarrow> a = b \<or>
     ap_status a = Approval_PENDING \<and> request_part b = request_part a \<and>
     ap_status b \<in> {Approval_APPROVED, Approval_REJECTED, Approval_EXPIRED} \<and>
     ap_decided_by b \<noteq> None \<and> ap_decided_at b \<noteq> None"

definition approvals_step :: "db \<Rightarrow> db \<Rightarrow> bool" where
  "approvals_step s t \<longleftrightarrow> (\<forall>i a. row (approvals s) i = Some a \<longrightarrow>
     (\<exists>b. row (approvals t) i = Some b \<and> approval_step a b))"

lemma decided_id [simp]: "row_id (decided st who why now a) = row_id a"
  "row_id (a\<lparr>ap_resumed_at := x\<rparr>) = row_id a"
  by (simp_all add: decided_def)

lemma decided_fields [simp]:
  "ap_status (decided st who why now a) = st" "ap_decided_by (decided st who why now a) = Some who"
  "ap_rationale (decided st who why now a) = Some why" "ap_decided_at (decided st who why now a) = Some now"
  "ap_action_type (decided st who why now a) = ap_action_type a"
  "ap_workflow_run_id (decided st who why now a) = ap_workflow_run_id a"
  "ap_resource_id (decided st who why now a) = ap_resource_id a"
  by (simp_all add: decided_def)

lemma approval_step_decided:
  "ap_status a = Approval_PENDING \<Longrightarrow> st \<in> {Approval_APPROVED, Approval_REJECTED, Approval_EXPIRED} \<Longrightarrow>
   approval_step a (decided st who why now a)"
  "ap_status a = Approval_PENDING \<Longrightarrow> st \<in> {Approval_APPROVED, Approval_REJECTED, Approval_EXPIRED} \<Longrightarrow>
   approval_step a ((decided st who why now a)\<lparr>ap_resumed_at := x\<rparr>)"
  by (auto simp: approval_step_def decided_def request_part_def)

lemma approval_step_refl [simp]: "approval_step a a"
  by (simp add: approval_step_def)

lemma approvals_step_refl: "approvals t = approvals s \<Longrightarrow> approvals_step s t"
  by (simp add: approvals_step_def)

lemma approvals_step_update:
  assumes "approvals t = update_rows i f (approvals s)" "\<And>a. row_id (f a) = row_id a"
    and "\<And>a. row (approvals s) i = Some a \<Longrightarrow> approval_step a (f a)"
  shows "approvals_step s t"
  using assms by (auto simp: approvals_step_def row_update_rows)

lemma find_row: "find (\<lambda>a. row_id a = i) rs = row rs i"
  by (simp add: row_def)

lemma get_approval_apply: "get_approval i s =
    (case row (approvals s) i of None \<Rightarrow> Inl (Exn ApprovalNotFoundError (uuid_str i)) | Some a \<Rightarrow> Inr a,
     flush_db s)"
  by (simp add: get_approval_def run_simps find_row split: option.splits)

lemma audit_approval_apply: "\<exists>t. audit_approval a act who b c s = (Inr (), t) \<and> approvals t = approvals s \<and>
    but_approvals t = but_approvals s \<and> next_id s \<le> next_id t"
  by (simp add: audit_approval_def run_simps)

lemma expire_apply: "\<exists>t. expire a now who s = (Inr (), t) \<and> but_approvals t = but_approvals s \<and>
    next_id s \<le> next_id t \<and>
    approvals t = update_rows (row_id a) (decided Approval_EXPIRED who ''Approval expired before a decision was made'' now)
      (approvals s)"
  by (simp add: expire_def audit_approval_def set_approval_def run_simps Let_def)

section \<open>Requests\<close>

definition approval_key :: "Approval \<Rightarrow> string \<times> uuid \<times> string" where
  "approval_key a = (ap_resource_type a, ap_resource_id a, ap_action_hash a)"

definition request_key :: "ApprovalEngine \<Rightarrow> ApprovalRequest \<Rightarrow> string \<times> uuid \<times> string" where
  "request_key E req = (rq_resource_type req, rq_resource_id req,
     action_hash E (rq_action_type req) (rq_resource_id req) (rq_requested_action req))"

text \<open>\<open>UniqueConstraint("resource_type", "resource_id", "action_hash")\<close>, and identifiers.\<close>

definition approvals_ok :: "db \<Rightarrow> bool" where
  "approvals_ok s \<longleftrightarrow> ids_ok (next_id s) (approvals s) \<and> distinct (map approval_key (approvals s))"

lemma create_request_cases:
  assumes "create_request E req n v s = (r, t)"
  obtains
    (existing) a where "a \<in> set (approvals s)" "approval_key a = request_key E req" "r = Inr a" "t = flush_db s"
  | (new) a where "request_key E req \<notin> approval_key ` set (approvals s)" "r = Inr a"
      "approvals t = approvals s @ [a]" "approval_key a = request_key E req" "row_id a = next_id s"
      "ap_status a = Approval_PENDING" "ap_requested_payload a = rq_requested_action req"
      "ap_rule_name a = n" "next_id s < next_id t" "but_approvals t = but_approvals s"
proof -
  let ?P = "\<lambda>a. ap_resource_type a = rq_resource_type req \<and> ap_resource_id a = rq_resource_id req \<and>
    ap_action_hash a = action_hash E (rq_action_type req) (rq_resource_id req) (rq_requested_action req)"
  have key: "?P a \<longleftrightarrow> approval_key a = request_key E req" for a
    by (simp add: approval_key_def request_key_def)
  show thesis
  proof (cases "find ?P (approvals s)")
    case (Some a)
    then have "create_request E req n v s = (Inr a, flush_db s)"
      by (simp add: create_request_def Let_def run_simps)
    with assms find_SomeD [OF Some] show thesis by (intro existing [of a]) (auto simp: key)
  next
    case None
    then have "request_key E req \<notin> approval_key ` set (approvals s)"
      unfolding find_None_iff key by (metis imageE)
    moreover obtain a t' where "create_request E req n v s = (Inr a, t')"
      "approvals t' = approvals s @ [a]" "approval_key a = request_key E req" "row_id a = next_id s"
      "ap_status a = Approval_PENDING" "ap_requested_payload a = rq_requested_action req"
      "ap_rule_name a = n" "next_id s < next_id t'" "but_approvals t' = but_approvals s"
      using None by (simp add: create_request_def Let_def run_simps audit_approval_def approval_key_def request_key_def)
    ultimately show thesis using new assms by auto
  qed
qed

lemma approvals_ok_create:
  assumes "approvals_ok s" "create_request E req n v s = (r, t)" shows "approvals_ok t"
  using assms(2)
proof (cases rule: create_request_cases)
  case (existing a)
  with assms(1) show ?thesis by (simp add: approvals_ok_def)
next
  case (new a)
  with assms(1) show ?thesis by (auto simp: approvals_ok_def intro: ids_ok_append)
qed

lemma create_request_again:
  assumes ok: "approvals_ok u" and a: "a \<in> set (approvals u)" and key: "approval_key a = request_key E req"
  shows "create_request E req n v u = (Inr a, flush_db u)"
proof -
  obtain r t where c: "create_request E req n v u = (r, t)" by force
  then show ?thesis
  proof (cases rule: create_request_cases)
    case (existing b)
    then have "b = a" using ok a key by (metis approvals_ok_def distinct_map inj_onD)
    with c existing show ?thesis by simp
  next
    case (new b)
    with a key show ?thesis by (metis imageI)
  qed
qed

section \<open>Approving\<close>

definition quiet_handlers :: "ApprovalEngine \<Rightarrow> bool" where
  "quiet_handlers E \<longleftrightarrow> (\<forall>t h a. get_action (engine_registry E) t = Some h \<longrightarrow> keeps approvals (h a))"

lemma resume_action_cases:
  assumes "resume_action E a now s = (r, t)" "quiet_handlers E"
  obtains (broke) x where "r = Inl x" "approvals t = approvals s"
  | (resumed) u where "r = Inr ()" "case get_action (engine_registry E) (ap_action_type a) of
        None \<Rightarrow> u = s | Some h \<Rightarrow> h a s = (Inr (), u)"
      "approvals t = update_rows (row_id a) (\<lambda>a. a\<lparr>ap_resumed_at := Some now\<rparr>) (approvals s)"
      "\<forall>i w. ap_workflow_run_id a = Some i \<longrightarrow> row (workflow_runs t) i = Some w \<longrightarrow> wf_status w = Run_RUNNING"
proof -
  let ?handler = "case get_action (engine_registry E) (ap_action_type a) of None \<Rightarrow> ret () | Some h \<Rightarrow> h a"
  obtain r1 u where h: "?handler s = (r1, u)" by force
  have "keeps approvals ?handler"
    using assms(2) by (auto simp: quiet_handlers_def intro!: keeps_intros split: option.split)
  then have u: "approvals u = approvals s" using h by (rule keepsD)
  show thesis
  proof (cases r1)
    case (Inl x)
    with assms(1) h u show thesis by (intro broke) (auto simp: resume_action_def andthen_Inl)
  next
    case (Inr y)
    have run: "case get_action (engine_registry E) (ap_action_type a) of
        None \<Rightarrow> u = s | Some h \<Rightarrow> h a s = (Inr (), u)"
      using h Inr by (auto simp: ret_apply split: option.splits)
    show thesis
    proof (cases "ap_workflow_run_id a")
      case None
      with assms(1) h Inr u run show thesis
        by (intro resumed [of u]) (auto simp: resume_action_def andthen_apply run_simps set_approval_def)
    next
      case (Some i)
      show thesis
      proof (cases "row (workflow_runs u) i")
        case None
        with Some assms(1) h Inr u show thesis
          by (intro broke) (auto simp: resume_action_def run_simps set_approval_def)
      next
        case (Some w)
        with \<open>ap_workflow_run_id a = Some i\<close> assms(1) h Inr u run show thesis
          by (intro resumed [of u]) (auto simp: resume_action_def run_simps set_approval_def row_update_rows)
      qed
    qed
  qed
qed

definition decision_time :: "datetime option \<Rightarrow> db \<Rightarrow> datetime" where
  "decision_time at_time s = (case at_time of Some n \<Rightarrow> n | None \<Rightarrow> clock s)"

lemma decision_time_bind: "bind (case at_time of Some n \<Rightarrow> ret n | None \<Rightarrow> now_utc) f s = f (decision_time at_time s) s"
  by (simp add: decision_time_def bind_apply run_simps split: option.split)

lemma approve_cases:
  assumes "approve E i who why at_time s = (r, t)" "quiet_handlers E"
  defines "now \<equiv> decision_time at_time s"
  obtains
    (unknown) "row (approvals s) i = None" "r = Inl (Exn ApprovalNotFoundError (uuid_str i))" "t = flush_db s"
  | (decided) a m where "row (approvals s) i = Some a" "ap_status a \<noteq> Approval_PENDING"
      "r = Inl (Exn ApprovalTransitionError m)" "t = flush_db s"
  | (late) a where "row (approvals s) i = Some a" "ap_status a = Approval_PENDING" "past_expiry now a"
      "r = Inl (expired_error i)" "but_approvals t = but_approvals s"
      "approvals t = update_rows i (decided Approval_EXPIRED ''system'' ''Approval expired before a decision was made'' now)
         (approvals s)"
  | (failed) a x where "row (approvals s) i = Some a" "ap_status a = Approval_PENDING" "\<not> past_expiry now a"
      "r = Inl x" "approvals t = update_rows i (decided Approval_APPROVED who why now) (approvals s)"
  | (approved) a u v where "row (approvals s) i = Some a" "ap_status a = Approval_PENDING" "\<not> past_expiry now a"
      "r = Inr ((decided Approval_APPROVED who why now a)\<lparr>ap_resumed_at := Some now\<rparr>)"
      "approvals t = update_rows i (\<lambda>a. (decided Approval_APPROVED who why now a)\<lparr>ap_resumed_at := Some now\<rparr>) (approvals s)"
      "but_approvals u = but_approvals s"
      "case get_action (engine_registry E) (ap_action_type a) of None \<Rightarrow> v = u
         | Some h \<Rightarrow> h (decided Approval_APPROVED who why now a) u = (Inr (), v)"
      "\<forall>j w. ap_workflow_run_id a = Some j \<longrightarrow> row (workflow_runs t) j = Some w \<longrightarrow> wf_status w = Run_RUNNING"
proof (cases "row (approvals s) i")
  case None
  then have "approve E i who why at_time s = (Inl (Exn ApprovalNotFoundError (uuid_str i)), flush_db s)"
    unfolding approve_def decision_time_bind by (simp add: bind_Inl get_approval_apply)
  with assms(1) None show thesis by (intro unknown) simp_all
next
  case (Some a)
  then have id: "row_id a = i" by blast
  have start: "approve E i who why at_time s = andthen (require_pending a)
     (if past_expiry now a
      then andthen (expire a now ''system'') (throw (expired_error i))
      else
        andthen (set_approval (decided Approval_APPROVED who why now) i)
        (andthen (resume_action E (decided Approval_APPROVED who why now a) now)
        (andthen (audit_approval (decided Approval_APPROVED who why now a) ''approval.approved'' who (Some ''pending'') ''approved'')
        (andthen flush (get_approval i))))) (flush_db s)"
    using Some unfolding approve_def decision_time_bind Let_def now_def
    by (simp add: bind_apply get_approval_apply)
  show thesis
  proof (cases "ap_status a = Approval_PENDING")
    case False
    with start assms(1) Some show thesis
      by (intro decided [of a]) (auto simp: require_pending_def raise_if_def andthen_apply run_simps)
  next
    case True
    then have pass: "andthen (require_pending a) m = m" for m :: "Approval op"
      by (simp add: require_pending_def raise_if_def andthen_def)
    show thesis
    proof (cases "past_expiry now a")
      case late_a: True
      obtain u where u: "expire a now ''system'' (flush_db s) = (Inr (), u)" "but_approvals u = but_approvals s"
        "approvals u = update_rows i (decided Approval_EXPIRED ''system'' ''Approval expired before a decision was made'' now)
           (approvals s)"
        using expire_apply [of a now "''system''" "flush_db s"] id by auto
      with start assms(1) late_a pass Some True show thesis
        by (intro late [of a]) (auto simp: andthen_apply throw_apply)
    next
      case False
      let ?a = "decided Approval_APPROVED who why now a"
      obtain u where u: "set_approval (decided Approval_APPROVED who why now) i (flush_db s) = (Inr (), u)"
          "approvals u = update_rows i (decided Approval_APPROVED who why now) (approvals s)"
          "but_approvals u = but_approvals s"
        by (simp add: set_approval_def set_row_apply)
      obtain r2 w where w: "resume_action E ?a now u = (r2, w)" by force
      from w assms(2) show thesis
      proof (cases rule: resume_action_cases)
        case (broke x)
        with start assms(1) pass False u w Some True show thesis
          by (intro failed [of a x]) (auto simp: andthen_apply)
      next
        case (resumed v)
        obtain z where z: "audit_approval ?a ''approval.approved'' who (Some ''pending'') ''approved'' w = (Inr (), z)"
            "approvals z = approvals w"
          using audit_approval_apply [of ?a] by blast
        have zz: "workflow_runs z = workflow_runs w"
        proof -
          have "keeps workflow_runs (audit_approval ?a ''approval.approved'' who (Some ''pending'') ''approved'')"
            by (intro keeps_intros) simp_all
          then show ?thesis using z(1) by (rule keepsD)
        qed
        have ap: "approvals z = update_rows i (\<lambda>a. (decided Approval_APPROVED who why now a)\<lparr>ap_resumed_at := Some now\<rparr>) (approvals s)"
          using z(2) resumed(3) u(2) id by (simp add: update_rows_def)
        then have "row (approvals z) i = Some (?a\<lparr>ap_resumed_at := Some now\<rparr>)"
          using Some by (simp add: row_update_rows)
        with start assms(1) pass False u w resumed z
        have "r = Inr (?a\<lparr>ap_resumed_at := Some now\<rparr>)" "t = flush_db (flush_db z)"
          by (auto simp: andthen_apply flush_apply get_approval_apply)
        with ap resumed u zz Some True False show thesis
          by (intro approved [of a u v]) (auto simp: decided_def)
      qed
    qed
  qed
qed

lemma reject_effect:
  "\<exists>t. reject i who why at_time s = (fst (reject i who why at_time s), t) \<and> but_approvals t = but_approvals s \<and>
    (approvals t = approvals s \<or>
     (\<exists>a st who' why' n. row (approvals s) i = Some a \<and> ap_status a = Approval_PENDING \<and>
        st \<in> {Approval_REJECTED, Approval_EXPIRED} \<and>
        approvals t = update_rows i (decided st who' why' n) (approvals s)))"
proof (cases "row (approvals s) i")
  case None
  then have "reject i who why at_time s = (Inl (Exn ApprovalNotFoundError (uuid_str i)), flush_db s)"
    unfolding reject_def decision_time_bind by (simp add: bind_Inl get_approval_apply)
  then show ?thesis by simp
next
  case (Some a)
  let ?now = "decision_time at_time s"
  have id: "row_id a = i" using Some by blast
  have start: "reject i who why at_time s = andthen (require_pending a)
     (if past_expiry ?now a
      then andthen (expire a ?now ''system'') (throw (expired_error i))
      else
        andthen (set_approval (decided Approval_REJECTED who why ?now) i)
        (andthen (audit_approval (decided Approval_REJECTED who why ?now a) ''approval.rejected'' who (Some ''pending'') ''rejected'')
        (andthen flush (get_approval i)))) (flush_db s)"
    using Some unfolding reject_def decision_time_bind Let_def by (simp add: bind_Inr get_approval_apply)
  show ?thesis
  proof (cases "ap_status a = Approval_PENDING")
    case False
    with start show ?thesis by (simp add: require_pending_def raise_if_def andthen_apply run_simps)
  next
    case True
    then have pass: "andthen (require_pending a) m = m" for m :: "Approval op"
      by (simp add: require_pending_def raise_if_def andthen_def)
    obtain u where u: "expire a ?now ''system'' (flush_db s) = (Inr (), u)" "but_approvals u = but_approvals s"
        "approvals u = update_rows i (decided Approval_EXPIRED ''system'' ''Approval expired before a decision was made'' ?now)
           (approvals s)"
      using expire_apply [of a ?now "''system''" "flush_db s"] id by auto
    let ?v = "snd (set_approval (decided Approval_REJECTED who why ?now) i (flush_db s))"
    obtain v where v: "audit_approval (decided Approval_REJECTED who why ?now a) ''approval.rejected'' who
        (Some ''pending'') ''rejected'' ?v = (Inr (), v)" "approvals v = approvals ?v" "but_approvals v = but_approvals ?v"
      using audit_approval_apply by blast
    have w: "approvals ?v = update_rows i (decided Approval_REJECTED who why ?now) (approvals s)"
      "but_approvals ?v = but_approvals s" "fst (set_approval (decided Approval_REJECTED who why ?now) i (flush_db s)) = Inr ()"
      by (simp_all add: set_approval_def set_row_apply)
    show ?thesis
    proof (cases "past_expiry ?now a")
      case True
      with start pass u have "reject i who why at_time s = (Inl (expired_error i), u)"
        by (simp add: andthen_apply throw_apply)
      with u Some \<open>ap_status a = Approval_PENDING\<close> show ?thesis by force
    next
      case False
      with start pass v w have r: "snd (reject i who why at_time s) = flush_db (flush_db v)"
        by (simp add: andthen_apply flush_apply get_approval_apply)
      show ?thesis
      proof (intro exI [of _ "snd (reject i who why at_time s)"] conjI)
        show "but_approvals (snd (reject i who why at_time s)) = but_approvals s" using r v w by simp
        have "approvals (snd (reject i who why at_time s)) =
            update_rows i (decided Approval_REJECTED who why ?now) (approvals s)" using r v w by simp
        with Some True show "approvals (snd (reject i who why at_time s)) = approvals s \<or>
          (\<exists>a st who' why' n. row (approvals s) i = Some a \<and> ap_status a = Approval_PENDING \<and>
           st \<in> {Approval_REJECTED, Approval_EXPIRED} \<and>
           approvals (snd (reject i who why at_time s)) = update_rows i (decided st who' why' n) (approvals s))"
          by blast
      qed simp
    qed
  qed
qed

section \<open>Expiry\<close>

definition expired_by_system :: "datetime \<Rightarrow> Approval \<Rightarrow> Approval" where
  "expired_by_system now = decided Approval_EXPIRED ''system'' ''Approval expired before a decision was made'' now"

lemma expire_each:
  "\<exists>t. for_each xs (\<lambda>a. expire a now ''system'') s = (Inr (), t) \<and> but_approvals t = but_approvals s \<and>
    next_id s \<le> next_id t \<and>
    approvals t = map (\<lambda>a. if row_id a \<in> row_id ` set xs then expired_by_system now a else a) (approvals s)"
proof (induction xs arbitrary: s)
  case Nil
  then show ?case by (simp add: ret_apply)
next
  case (Cons x xs)
  obtain u where u: "expire x now ''system'' s = (Inr (), u)" "but_approvals u = but_approvals s"
      "next_id s \<le> next_id u" "approvals u = update_rows (row_id x) (expired_by_system now) (approvals s)"
    using expire_apply unfolding expired_by_system_def by blast
  obtain t where t: "for_each xs (\<lambda>a. expire a now ''system'') u = (Inr (), t)" "but_approvals t = but_approvals u"
    "next_id u \<le> next_id t"
    "approvals t = map (\<lambda>a. if row_id a \<in> row_id ` set xs then expired_by_system now a else a) (approvals u)"
    using Cons.IH by blast
  have "expired_by_system now (expired_by_system now a) = expired_by_system now a"
    "row_id (expired_by_system now a) = row_id a" for a
    by (simp_all add: expired_by_system_def decided_def)
  then have "approvals t = map (\<lambda>a. if row_id a \<in> row_id ` set (x # xs) then expired_by_system now a else a) (approvals s)"
    by (auto simp: t(4) u(4) update_rows_def)
  with t u show ?case by (auto simp: andthen_apply)
qed

lemma expire_due_apply:
  defines "now \<equiv> \<lambda>at_time s. decision_time at_time s"
  assumes "distinct (map row_id (approvals s))"
  shows "\<exists>t. expire_due at_time s = (Inr (length (filter (\<lambda>a. ap_status a = Approval_PENDING \<and> past_expiry (now at_time s) a)
        (approvals s))), t) \<and> but_approvals t = but_approvals s \<and> next_id s \<le> next_id t \<and>
    approvals t = map (\<lambda>a. if ap_status a = Approval_PENDING \<and> past_expiry (now at_time s) a
       then expired_by_system (now at_time s) a else a) (approvals s)"
proof -
  let ?due = "\<lambda>a. ap_status a = Approval_PENDING \<and> past_expiry (now at_time s) a"
  let ?xs = "filter ?due (approvals s)"
  obtain t where t: "for_each ?xs (\<lambda>a. expire a (now at_time s) ''system'') (flush_db s) = (Inr (), t)"
    "but_approvals t = but_approvals (flush_db s)" "next_id (flush_db s) \<le> next_id t"
    "approvals t = map (\<lambda>a. if row_id a \<in> row_id ` set ?xs then expired_by_system (now at_time s) a else a)
       (approvals (flush_db s))"
    using expire_each by blast
  have "row_id a \<in> row_id ` set ?xs \<longleftrightarrow> ?due a" if "a \<in> set (approvals s)" for a
    using that assms(2) by (auto simp: distinct_map dest: inj_onD)
  then have "approvals t = map (\<lambda>a. if ?due a then expired_by_system (now at_time s) a else a) (approvals s)"
    using t(4) by (auto intro!: map_cong)
  moreover have "expire_due at_time s = (Inr (length ?xs), flush_db t)"
    unfolding expire_due_def decision_time_bind now_def [symmetric]
    using t(1) by (simp add: bind_apply scalars_apply andthen_apply flush_apply ret_apply)
  ultimately show ?thesis using t by auto
qed

section \<open>Every operation makes allowed steps\<close>

lemma approve_step:
  assumes "quiet_handlers E" shows "approvals_step s (snd (approve E i who why at_time s))"
proof -
  obtain r t where a: "approve E i who why at_time s = (r, t)" by force
  then have "approvals_step s t"
    using assms by (cases rule: approve_cases)
      (auto intro: approvals_step_refl approvals_step_update simp: approval_step_decided)
  with a show ?thesis by simp
qed

lemma reject_step: "approvals_step s (snd (reject i who why at_time s))"
proof -
  obtain r t where t: "reject i who why at_time s = (r, t)" by force
  from reject_effect [of i who why at_time s] consider "approvals t = approvals s"
    | a st who' why' n where "row (approvals s) i = Some a" "ap_status a = Approval_PENDING"
        "st \<in> {Approval_REJECTED, Approval_EXPIRED}" "approvals t = update_rows i (decided st who' why' n) (approvals s)"
    unfolding t fst_conv prod.inject by blast
  then have "approvals_step s t"
    by cases (auto intro: approvals_step_refl approvals_step_update simp: approval_step_decided)
  with t show ?thesis by simp
qed

lemma row_map_same_id:
  "(\<And>a. row_id (f a) = row_id a) \<Longrightarrow> row (map f rs) i = map_option f (row rs i)"
  by (induction rs) (auto simp: row_Cons)

lemma expired_by_system_id [simp]: "row_id (expired_by_system now a) = row_id a"
  by (simp add: expired_by_system_def)

lemma expire_due_step:
  assumes "distinct (map row_id (approvals s))"
  shows "approvals_step s (snd (expire_due at_time s))"
  using expire_due_apply [OF assms, of at_time]
  by (auto simp: approvals_step_def row_map_same_id expired_by_system_def approval_step_decided)

section \<open>Properties\<close>

text \<open>
  C30: a decision is final. Whatever is approved, rejected or expired, every approval of the table
  either is untouched or was pending and is now approved, rejected or expired with a decider and a
  time; what was requested (action, payload, hash, rule, expiry) is never changed.
\<close>

theorem decisions_final:
  assumes "quiet_handlers E" "approvals_ok s"
  shows "approvals_step s (snd (approve E i who why at_time s)) \<and>
    approvals_step s (snd (reject i who why at_time s)) \<and>
    approvals_step s (snd (expire_due at_time s))"
  using assms approve_step reject_step expire_due_step by (simp add: approvals_ok_def ids_ok_def)

definition sample_engine :: ApprovalEngine where
  "sample_engine = \<lparr>engine_policy = policy_from_settings 10 50, default_expiry_hours = 72,
     engine_registry = [], digest = (\<lambda>j. case j of JObj ((_, JStr t) # _) \<Rightarrow> t | _ \<Rightarrow> [])\<rparr>"

definition sample_request :: "dict \<Rightarrow> ApprovalRequest" where
  "sample_request action = \<lparr>rq_action_type = ''refund'', rq_resource_type = ''refund'', rq_resource_id = 5,
     rq_requested_action = action, rq_reason = ''damaged'', rq_requester = ''alice'', rq_risk_level = ''high'',
     rq_workflow_run_id = None, rq_expires_at = None\<rparr>"

lemma sample_quiet: "quiet_handlers sample_engine"
  by (simp add: quiet_handlers_def get_action_def sample_engine_def)

lemma empty_approvals_ok: "approvals_ok (empty_db now)"
  by (simp add: approvals_ok_def empty_db_def)

lemma sample_created:
  obtains a t where "create_request sample_engine (sample_request act) ''r'' 1 (empty_db 0) = (Inr a, t)"
    "approvals t = [a]" "ap_status a = Approval_PENDING" "row_id a = 1"
    "ap_expires_at a = Some (hours 72)" "clock t = 0" "ap_workflow_run_id a = None"
  by (simp add: create_request_def Let_def run_simps empty_db_def audit_approval_def sample_engine_def
      sample_request_def)

theorem decisions_final_witness:
  "\<exists>a t. create_request sample_engine (sample_request []) ''r'' 1 (empty_db 0) = (Inr a, t) \<and>
     approvals_step t (snd (approve sample_engine 1 ''bob'' ''ok'' None t))"
proof -
  obtain a t where c: "create_request sample_engine (sample_request []) ''r'' 1 (empty_db 0) = (Inr a, t)"
    using sample_created by blast
  show ?thesis
    using decisions_final [OF sample_quiet approvals_ok_create [OF empty_approvals_ok c], of 1 "''bob''" "''ok''" None] c
    by blast
qed



text \<open>
  C31: one approval per action. While an approval exists, whatever has happened to it, a request for
  the same action on the same resource, with the payload's keys in any order, returns that approval
  and creates nothing. A rejected or expired action therefore stays rejected or expired.
\<close>

theorem one_approval_per_action:
  assumes "create_request E req n v s = (Inr a, t)" "approvals_ok u"
    and "b \<in> set (approvals u)" "request_part b = request_part a"
    and "rq_resource_type req' = rq_resource_type req" "rq_resource_id req' = rq_resource_id req"
      "rq_action_type req' = rq_action_type req"
      "canonical (JObj (rq_requested_action req')) = canonical (JObj (rq_requested_action req))"
  shows "create_request E req' n' v' u = (Inr b, flush_db u)"
proof (rule create_request_again [OF assms(2,3)])
  have "approval_key a = request_key E req"
    using assms(1) by (cases rule: create_request_cases) auto
  moreover have "approval_key b = approval_key (request_part b)" "approval_key a = approval_key (request_part a)"
    by (simp_all add: approval_key_def request_part_def)
  moreover have "request_key E req' = request_key E req"
    using assms(5-8) by (simp add: request_key_def action_hash_def action_document_def)
  ultimately show "approval_key b = request_key E req'" using assms(4) by simp
qed

theorem one_approval_per_action_witness:
  "\<exists>a t. create_request sample_engine (sample_request [(''x'', JInt 1), (''y'', JInt 2)]) ''r'' 1 (empty_db 0) = (Inr a, t) \<and>
     create_request sample_engine (sample_request [(''y'', JInt 2), (''x'', JInt 1)]) ''r'' 1 t = (Inr a, flush_db t)"
proof -
  let ?x = "[(''x'', JInt 1), (''y'', JInt 2)]" and ?y = "[(''y'', JInt 2), (''x'', JInt 1)]"
  obtain a t where c: "create_request sample_engine (sample_request ?x) ''r'' 1 (empty_db 0) = (Inr a, t)"
    "approvals t = [a]" using sample_created [of ?x] by metis
  have "canonical (JObj ?y) = canonical (JObj ?x)"
    by code_simp
  with one_approval_per_action [OF c(1) approvals_ok_create [OF empty_approvals_ok c(1)], of a "sample_request ?y"] c
  show ?thesis by (auto simp: sample_request_def)
qed

text \<open>
  \<open>expire_due\<close> expires exactly the pending approvals whose expiry has come and reports their
  number: afterwards no pending approval is past its expiry, every other approval is untouched, and
  nothing but approvals and their audit trail changes.
\<close>

theorem expire_due_exact:
  assumes "approvals_ok s"
  shows "case expire_due at_time s of (r, t) \<Rightarrow>
    r = Inr (length (filter (\<lambda>a. ap_status a = Approval_PENDING \<and> past_expiry (decision_time at_time s) a) (approvals s))) \<and>
    (\<forall>a \<in> set (approvals t). ap_status a = Approval_PENDING \<longrightarrow> \<not> past_expiry (decision_time at_time s) a) \<and>
    (\<forall>i a. row (approvals s) i = Some a \<longrightarrow>
       \<not> (ap_status a = Approval_PENDING \<and> past_expiry (decision_time at_time s) a) \<longrightarrow> row (approvals t) i = Some a) \<and>
    length (approvals t) = length (approvals s) \<and> but_approvals t = but_approvals s"
proof -
  have "distinct (map row_id (approvals s))" using assms by (simp add: approvals_ok_def ids_ok_def)
  from expire_due_apply [OF this, of at_time] show ?thesis
    by (auto simp: row_map_same_id expired_by_system_def)
qed

theorem expire_due_exact_witness:
  "\<exists>a t u. create_request sample_engine (sample_request []) ''r'' 1 (empty_db 0) = (Inr a, t) \<and>
     expire_due (Some (hours 72)) t = (Inr 1, u) \<and> (\<forall>b \<in> set (approvals u). ap_status b \<noteq> Approval_PENDING)"
proof -
  obtain a t where c: "create_request sample_engine (sample_request []) ''r'' 1 (empty_db 0) = (Inr a, t)"
    and a: "approvals t = [a]" "ap_status a = Approval_PENDING" "ap_expires_at a = Some (hours 72)"
    using sample_created by metis
  obtain r u where e: "expire_due (Some (hours 72)) t = (r, u)" by force
  have late: "past_expiry (hours 72) a" by (simp add: past_expiry_def a(3))
  note E = expire_due_exact [OF approvals_ok_create [OF empty_approvals_ok c], of "Some (hours 72)", unfolded e, simplified]
  have "r = Inr 1" using E a late by (simp add: decision_time_def)
  moreover have "\<forall>b \<in> set (approvals u). ap_status b \<noteq> Approval_PENDING"
  proof -
    have "snd (expire_due (Some (hours 72)) t) = u" using e by simp
    moreover have "distinct (map row_id (approvals t))" using a by simp
    ultimately show ?thesis
      using expire_due_apply [of t "Some (hours 72)"] a late by (auto simp: decision_time_def expired_by_system_def)
  qed
  ultimately show ?thesis using c e by blast
qed

end
