(* ===== verification/Event_Store.thy ===== *)
theory Event_Store
  imports Session
begin

text \<open>
  \<open>create_event\<close> of \<open>events/types.py\<close> and the transactional outbox of \<open>events/store.py\<close>.

  \<^item> An event is written in the transaction of the change it reports, under an idempotency key. The
    same key with the same type and payload returns the stored event, with another payload it is an
    \<open>EventConflictError\<close>.
  \<^item> \<open>domain_events\<close> has two unique constraints. The key is looked up before the insert; the second
    one, on aggregate, aggregate version and event type, is only known to the database, whose
    refusal is the \<open>IntegrityError\<close> of \<open>publish\<close>.
  \<^item> \<open>event_port\<close> is the contract of the port \<open>EventPublisher\<close> that the services rely on.
\<close>

section \<open>Creating an event\<close>

text \<open>
  \<open>create_event(payload, aggregate_type=.., aggregate_id=.., aggregate_version=..,
  idempotency_key=.., correlation_id=.., workflow_id=.., causation_id=.., producer=..)\<close>. The payload is
  validated when it is constructed, the envelope requires a positive aggregate version.
\<close>

definition create_event_by ::
  "string \<Rightarrow> EventPayload \<Rightarrow> string \<Rightarrow> uuid \<Rightarrow> int \<Rightarrow> string \<Rightarrow> uuid option \<Rightarrow> uuid option \<Rightarrow>
   uuid option \<Rightarrow> EventEnvelope op" where
  "create_event_by producer payload aggregate_type aggregate_id aggregate_version key correlation_id
     workflow_id causation_id =
     andthen (raise_if (\<not> payload_valid payload) (Exn ValidationError ''invalid payload''))
     (bind (case correlation_id of None \<Rightarrow> new_uuid | Some c \<Rightarrow> ret c) (\<lambda>correlation.
      bind new_uuid (\<lambda>event_id.
      bind now_utc (\<lambda>now.
      andthen (raise_if (aggregate_version \<le> 0) (Exn ValidationError ''invalid event''))
      (ret \<lparr>ee_event_id = event_id, ee_event_type = payload_event_type payload, ee_event_version = 1,
            ee_occurred_at = now, ee_producer = producer, ee_aggregate_type = aggregate_type,
            ee_aggregate_id = aggregate_id, ee_aggregate_version = aggregate_version,
            ee_correlation_id = correlation, ee_workflow_id = workflow_id,
            ee_causation_id = causation_id, ee_idempotency_key = key, ee_data = payload\<rparr>)))))"

definition create_event ::
  "EventPayload \<Rightarrow> string \<Rightarrow> uuid \<Rightarrow> int \<Rightarrow> string \<Rightarrow> uuid option \<Rightarrow> uuid option \<Rightarrow> uuid option \<Rightarrow>
   EventEnvelope op" where
  "create_event = create_event_by ''commerce-operations''"

section \<open>The store\<close>

definition event_record :: "EventEnvelope \<Rightarrow> DomainEvent" where
  "event_record event =
     \<lparr>row_id = ee_event_id event, row_created_at = ee_occurred_at event,
      ev_event_type = event_type_value (ee_event_type event),
      ev_event_version = ee_event_version event, ev_producer = ee_producer event,
      ev_aggregate_type = ee_aggregate_type event, ev_aggregate_id = ee_aggregate_id event,
      ev_aggregate_version = ee_aggregate_version event,
      ev_correlation_id = ee_correlation_id event, ev_workflow_id = ee_workflow_id event,
      ev_causation_id = ee_causation_id event, ev_idempotency_key = ee_idempotency_key event,
      ev_payload = model_dump (ee_data event), ev_publication_status = Event_PENDING,
      ev_published_at = None, ev_publication_attempts = 0, ev_processing_attempts = 0,
      ev_last_error = None\<rparr>"

text \<open>\<open>UniqueConstraint("aggregate_type", "aggregate_id", "aggregate_version", "event_type")\<close>\<close>

definition aggregate_key :: "DomainEvent \<Rightarrow> string \<times> uuid \<times> int \<times> string" where
  "aggregate_key e = (ev_aggregate_type e, ev_aggregate_id e, ev_aggregate_version e, ev_event_type e)"

definition publish :: "EventEnvelope \<Rightarrow> DomainEvent op" where
  "publish event =
     bind (scalar domain_events (\<lambda>e. ev_idempotency_key e = ee_idempotency_key event)) (\<lambda>existing.
     case existing of
       Some e \<Rightarrow>
         andthen (raise_if (ev_event_type e \<noteq> event_type_value (ee_event_type event) \<or>
                            ev_payload e \<noteq> model_dump (ee_data event))
           (Exn EventConflictError (''Idempotency key '' @ ee_idempotency_key event @
              '' was reused for another event'')))
         (ret e)
     | None \<Rightarrow>
         bind (gets domain_events) (\<lambda>stored.
         andthen (raise_if (\<exists>e \<in> set stored. aggregate_key e = aggregate_key (event_record event))
           (Exn IntegrityError ''uq_domain_events_aggregate_type''))
         (andthen (add_row domain_events_update (event_record event))
         (andthen flush (ret (event_record event))))))"

definition get_event :: "uuid \<Rightarrow> DomainEvent option op" where
  "get_event event_id = get_row domain_events event_id"

definition pending_events :: "nat \<Rightarrow> EventType list option \<Rightarrow> DomainEvent list op" where
  "pending_events limit event_types =
     bind (scalars domain_events (\<lambda>e.
         (ev_publication_status e = Event_PENDING \<or> ev_publication_status e = Event_FAILED) \<and>
         (case event_types of None \<Rightarrow> True | Some ts \<Rightarrow> ev_event_type e \<in> set (map event_type_value ts))))
       (\<lambda>rows. ret (take limit (sort_key row_created_at rows)))"

definition to_envelope :: "DomainEvent \<Rightarrow> exn + EventEnvelope" where
  "to_envelope e =
     (case event_type_of (ev_event_type e) of
        None \<Rightarrow> Inl (Exn ValueError (ev_event_type e @ '' is not a valid EventType''))
      | Some t \<Rightarrow> rbind (decode_payload t (ev_payload e)) (\<lambda>payload.
          rbind (check (ev_event_version e \<le> 0 \<or> ev_aggregate_version e \<le> 0)
             (Exn ValidationError ''invalid event'')) (\<lambda>_.
          Inr \<lparr>ee_event_id = row_id e, ee_event_type = t, ee_event_version = ev_event_version e,
               ee_occurred_at = row_created_at e, ee_producer = ev_producer e,
               ee_aggregate_type = ev_aggregate_type e, ee_aggregate_id = ev_aggregate_id e,
               ee_aggregate_version = ev_aggregate_version e,
               ee_correlation_id = ev_correlation_id e, ee_workflow_id = ev_workflow_id e,
               ee_causation_id = ev_causation_id e, ee_idempotency_key = ev_idempotency_key e,
               ee_data = payload\<rparr>)))"

text \<open>\<open>events.publish(session, create_event(..))\<close>, the way every service reports a change.\<close>

definition emit ::
  "EventPayload \<Rightarrow> string \<Rightarrow> uuid \<Rightarrow> int \<Rightarrow> string \<Rightarrow> uuid option \<Rightarrow> uuid option \<Rightarrow> uuid option \<Rightarrow>
   DomainEvent op" where
  "emit payload aggregate_type aggregate_id aggregate_version key correlation workflow causation =
     bind (create_event payload aggregate_type aggregate_id aggregate_version key correlation workflow
             causation) publish"

section \<open>Frames\<close>

lemma keeps_create_event_by [keeps_intros]:
  "(\<And>s n. f (s\<lparr>next_id := n\<rparr>) = f s) \<Longrightarrow> keeps f (create_event_by p pl aty ai av k c w ca)"
  unfolding create_event_by_def by (intro keeps_intros)

lemma keeps_create_event [keeps_intros]:
  "(\<And>s n. f (s\<lparr>next_id := n\<rparr>) = f s) \<Longrightarrow> keeps f (create_event pl aty ai av k c w ca)"
  unfolding create_event_def by (intro keeps_intros)

lemma keeps_publish [keeps_intros]:
  assumes "\<And>s. f (flush_db s) = f s"
    and "\<And>s g h. f (pending_rows_update g (domain_events_update h s)) = f s"
  shows "keeps f (publish e)"
  unfolding publish_def by (intro keeps_intros assms)

lemma keeps_emit [keeps_intros]:
  assumes "\<And>s. f (flush_db s) = f s"
    and "\<And>s g h. f (pending_rows_update g (domain_events_update h s)) = f s"
    and "\<And>s n. f (s\<lparr>next_id := n\<rparr>) = f s"
  shows "keeps f (emit pl aty ai av k c w ca)"
  unfolding emit_def by (intro keeps_intros assms)

section \<open>Publishing\<close>

definition matching_event :: "EventEnvelope \<Rightarrow> DomainEvent \<Rightarrow> bool" where
  "matching_event event e \<longleftrightarrow> ev_idempotency_key e = ee_idempotency_key event \<and>
     ev_event_type e = event_type_value (ee_event_type event) \<and> ev_payload e = model_dump (ee_data event)"

definition keys_distinct :: "db \<Rightarrow> bool" where
  "keys_distinct s \<longleftrightarrow> distinct (map ev_idempotency_key (domain_events s))"

lemma flush_pending_add: "flush_db (pending_rows_update g (domain_events_update h (flush_db s))) =
    domain_events_update h (flush_db s)"
  by (cases s) (simp add: flush_db_def fun_eq_iff)

lemma publish_new:
  assumes "find (\<lambda>e. ev_idempotency_key e = ee_idempotency_key ev) (domain_events s) = None"
  shows "publish ev s =
    (if \<exists>e \<in> set (domain_events s). aggregate_key e = aggregate_key (event_record ev)
     then (Inl (Exn IntegrityError ''uq_domain_events_aggregate_type''), flush_db s)
     else (Inr (event_record ev), domain_events_update (\<lambda>es. es @ [event_record ev]) (flush_db s)))"
  using assms by (simp add: publish_def run_simps flush_pending_add)

lemma publish_existing:
  assumes "find (\<lambda>e. ev_idempotency_key e = ee_idempotency_key ev) (domain_events s) = Some e"
  shows "publish ev s = (if matching_event ev e then Inr e
      else Inl (Exn EventConflictError (''Idempotency key '' @ ee_idempotency_key ev @
              '' was reused for another event'')), flush_db s)"
  using find_SomeD [OF assms] assms by (simp add: publish_def run_simps matching_event_def)

lemma publish_cases:
  obtains
    (replay) e where "e \<in> set (domain_events s)" "matching_event ev e" "publish ev s = (Inr e, flush_db s)"
  | (conflict) e m where "e \<in> set (domain_events s)" "ev_idempotency_key e = ee_idempotency_key ev"
      "\<not> matching_event ev e" "publish ev s = (Inl (Exn EventConflictError m), flush_db s)"
  | (duplicate) e m where "e \<in> set (domain_events s)" "aggregate_key e = aggregate_key (event_record ev)"
      "ee_idempotency_key ev \<notin> ev_idempotency_key ` set (domain_events s)"
      "publish ev s = (Inl (Exn IntegrityError m), flush_db s)"
  | (new) "ee_idempotency_key ev \<notin> ev_idempotency_key ` set (domain_events s)"
      "aggregate_key (event_record ev) \<notin> aggregate_key ` set (domain_events s)"
      "publish ev s = (Inr (event_record ev), domain_events_update (\<lambda>es. es @ [event_record ev]) (flush_db s))"
proof (cases "find (\<lambda>e. ev_idempotency_key e = ee_idempotency_key ev) (domain_events s)")
  case None
  then have "ee_idempotency_key ev \<notin> ev_idempotency_key ` set (domain_events s)"
    by (auto simp: find_None_iff)
  with publish_new [OF None] show thesis
  proof (cases "\<exists>e \<in> set (domain_events s). aggregate_key e = aggregate_key (event_record ev)")
    case True
    with duplicate \<open>ee_idempotency_key ev \<notin> _\<close> publish_new [OF None] show thesis by auto
  next
    case False
    with \<open>ee_idempotency_key ev \<notin> _\<close> publish_new [OF None] show thesis by (intro new) auto
  qed
next
  case (Some e)
  with publish_existing [OF Some] find_SomeD [OF Some] show thesis
    by (cases "matching_event ev e") (auto intro: replay conflict)
qed

section \<open>The contract of the port\<close>

locale event_port =
  fixes port :: "EventEnvelope \<Rightarrow> DomainEvent op"
  assumes stored: "port ev s = (Inr e, t) \<Longrightarrow> e \<in> set (domain_events t) \<and> matching_event ev e"
    and kept: "port ev s = (r, t) \<Longrightarrow> set (domain_events s) \<subseteq> set (domain_events t)"
    and distinct: "port ev s = (r, t) \<Longrightarrow> keys_distinct s \<Longrightarrow> keys_distinct t"
    and replay: "keys_distinct s \<Longrightarrow> e \<in> set (domain_events s) \<Longrightarrow> matching_event ev e \<Longrightarrow>
      port ev s = (Inr e, flush_db s)"
    and conflict: "keys_distinct s \<Longrightarrow> e \<in> set (domain_events s) \<Longrightarrow>
      ev_idempotency_key e = ee_idempotency_key ev \<Longrightarrow> \<not> matching_event ev e \<Longrightarrow>
      \<exists>m. port ev s = (Inl (Exn EventConflictError m), flush_db s)"
begin

text \<open>Reporting a change twice stores one event, whatever else was stored in between.\<close>

lemma republish:
  assumes first: "port ev s = (Inr e, t)" and between: "keys_distinct u" "set (domain_events t) \<subseteq> set (domain_events u)"
    and same: "ee_idempotency_key ev' = ee_idempotency_key ev" "ee_event_type ev' = ee_event_type ev"
      "ee_data ev' = ee_data ev"
  shows "port ev' u = (Inr e, flush_db u)"
proof (rule replay [OF between(1)])
  show "e \<in> set (domain_events u)" using stored [OF first] between(2) by blast
  show "matching_event ev' e" using stored [OF first] same by (simp add: matching_event_def)
qed

text \<open>A key stands for one payload for ever.\<close>

lemma key_reserved:
  assumes first: "port ev s = (Inr e, t)" and between: "keys_distinct u" "set (domain_events t) \<subseteq> set (domain_events u)"
    and "ee_idempotency_key ev' = ee_idempotency_key ev"
      "ee_data ev' \<noteq> ee_data ev" "ee_event_type ev' = payload_event_type (ee_data ev')"
      "ee_event_type ev = payload_event_type (ee_data ev)"
  shows "\<exists>m. port ev' u = (Inl (Exn EventConflictError m), flush_db u)"
proof (rule conflict [OF between(1)])
  note e = stored [OF first]
  show "e \<in> set (domain_events u)" using e between(2) by blast
  show "ev_idempotency_key e = ee_idempotency_key ev'" using e assms(4) by (simp add: matching_event_def)
  show "\<not> matching_event ev' e"
    using e assms(5-) event_type_value_inject model_dump_inject [of "ee_data ev'" "ee_data ev"] by (auto simp: matching_event_def)
qed

end

lemma keys_distinctD: "keys_distinct s \<Longrightarrow> a \<in> set (domain_events s) \<Longrightarrow> b \<in> set (domain_events s) \<Longrightarrow>
    ev_idempotency_key a = ev_idempotency_key b \<Longrightarrow> a = b"
  by (auto simp: keys_distinct_def distinct_map dest: inj_onD)

lemma publish_keyed:
  assumes "keys_distinct s" "e \<in> set (domain_events s)" "ev_idempotency_key e = ee_idempotency_key ev"
  shows "publish ev s = (if matching_event ev e then Inr e
      else Inl (Exn EventConflictError (''Idempotency key '' @ ee_idempotency_key ev @
              '' was reused for another event'')), flush_db s)"
proof (rule publish_existing)
  obtain e' where e': "find (\<lambda>e. ev_idempotency_key e = ee_idempotency_key ev) (domain_events s) = Some e'"
    using assms(2,3) by (cases "find (\<lambda>e. ev_idempotency_key e = ee_idempotency_key ev) (domain_events s)")
      (auto simp: find_None_iff)
  with find_SomeD [OF e'] keys_distinctD [OF assms(1) _ assms(2)] assms(3)
  show "find (\<lambda>e. ev_idempotency_key e = ee_idempotency_key ev) (domain_events s) = Some e" by auto
qed

lemma event_record_match: "matching_event ev (event_record ev)"
  by (simp add: matching_event_def event_record_def)

lemma event_record_key [simp]: "ev_idempotency_key (event_record ev) = ee_idempotency_key ev"
  by (simp add: event_record_def)

interpretation outbox: event_port publish
proof
  show "e \<in> set (domain_events t) \<and> matching_event ev e" if "publish ev s = (Inr e, t)" for ev s e t
    using that by (cases rule: publish_cases [of s ev]) (auto simp: event_record_match)
  show "set (domain_events s) \<subseteq> set (domain_events t)" if "publish ev s = (r, t)" for ev s r t
    using that by (cases rule: publish_cases [of s ev]) auto
  show "keys_distinct t" if "publish ev s = (r, t)" "keys_distinct s" for ev s r t
    using that by (cases rule: publish_cases [of s ev]) (auto simp: keys_distinct_def)
  show "publish ev s = (Inr e, flush_db s)"
    if "keys_distinct s" "e \<in> set (domain_events s)" "matching_event ev e" for ev s e
    using publish_keyed [OF that(1,2), of ev] that(3) by (simp add: matching_event_def)
  show "\<exists>m. publish ev s = (Inl (Exn EventConflictError m), flush_db s)"
    if "keys_distinct s" "e \<in> set (domain_events s)" "ev_idempotency_key e = ee_idempotency_key ev"
      "\<not> matching_event ev e" for ev s e
    using publish_keyed [OF that(1-3)] that(4) by simp
qed

section \<open>Events that are created and published\<close>

lemma create_event_Inr:
  assumes "create_event pl aty ai av k c w ca s = (Inr ev, t)"
  shows "payload_valid pl" "0 < av" "ee_event_type ev = payload_event_type pl" "ee_data ev = pl"
    "ee_aggregate_type ev = aty" "ee_aggregate_id ev = ai" "ee_aggregate_version ev = av"
    "ee_idempotency_key ev = k" "ee_event_version ev = 1" "next_id s \<le> ee_event_id ev"
    "ee_event_id ev < next_id t" "\<exists>n. t = s\<lparr>next_id := n\<rparr>"
proof -
  have "payload_valid pl \<and> 0 < av \<and> ee_event_type ev = payload_event_type pl \<and> ee_data ev = pl \<and>
    ee_aggregate_type ev = aty \<and> ee_aggregate_id ev = ai \<and> ee_aggregate_version ev = av \<and>
    ee_idempotency_key ev = k \<and> ee_event_version ev = 1 \<and> next_id s \<le> ee_event_id ev \<and>
    ee_event_id ev < next_id t \<and> (\<exists>n. t = s\<lparr>next_id := n\<rparr>)"
    using assms
    by (cases c) (auto simp: create_event_def create_event_by_def run_simps raise_if_def split: if_splits)
  then show "payload_valid pl" "0 < av" "ee_event_type ev = payload_event_type pl" "ee_data ev = pl"
    "ee_aggregate_type ev = aty" "ee_aggregate_id ev = ai" "ee_aggregate_version ev = av"
    "ee_idempotency_key ev = k" "ee_event_version ev = 1" "next_id s \<le> ee_event_id ev"
    "ee_event_id ev < next_id t" "\<exists>n. t = s\<lparr>next_id := n\<rparr>" by blast+
qed

lemma create_event_Inl:
  "create_event pl aty ai av k c w ca s = (Inl e, t) \<Longrightarrow> \<exists>n. next_id s \<le> n \<and> t = s\<lparr>next_id := n\<rparr>"
  by (cases c; cases s)
    (auto simp: create_event_def create_event_by_def run_simps raise_if_def split: if_splits)

text \<open>A row of the outbox is one that an envelope was written to.\<close>

definition event_ok :: "DomainEvent \<Rightarrow> bool" where
  "event_ok e \<longleftrightarrow> (\<exists>env. to_envelope e = Inr env)"

definition outbox_ok :: "db \<Rightarrow> bool" where
  "outbox_ok s \<longleftrightarrow> ids_ok (next_id s) (domain_events s) \<and> keys_distinct s \<and>
     distinct (map aggregate_key (domain_events s)) \<and> (\<forall>e \<in> set (domain_events s). event_ok e)"

lemma to_envelope_record:
  assumes "ee_event_type ev = payload_event_type (ee_data ev)" "payload_valid (ee_data ev)"
    "0 < ee_event_version ev" "0 < ee_aggregate_version ev"
  shows "to_envelope (event_record ev) = Inr ev"
  using assms by (simp add: to_envelope_def event_record_def decode_dump)

lemma emit_cases:
  assumes "emit pl aty ai av k c w ca s = (r, t)"
  obtains
    (failed) x n where "r = Inl x" "next_id s \<le> n" "t = s\<lparr>next_id := n\<rparr>"
  | (tried) ev n where "create_event pl aty ai av k c w ca s = (Inr ev, s\<lparr>next_id := n\<rparr>)"
      "publish ev (s\<lparr>next_id := n\<rparr>) = (r, t)" "next_id s \<le> ee_event_id ev" "ee_event_id ev < n"
proof (cases "create_event pl aty ai av k c w ca s")
  case (Pair x u)
  show thesis
  proof (cases x)
    case (Inl e)
    with Pair assms create_event_Inl [of pl aty ai av k c w ca s e u] show thesis
      by (auto simp: emit_def bind_Inl intro: failed)
  next
    case (Inr ev)
    note I = create_event_Inr [OF Pair [unfolded Inr]]
    from I(12) obtain n where "u = s\<lparr>next_id := n\<rparr>" ..
    with I Pair Inr assms show thesis by (auto simp: emit_def bind_Inr intro: tried)
  qed
qed

lemma outbox_ok_emit:
  assumes ok: "outbox_ok s" and e: "emit pl aty ai av k c w ca s = (r, t)"
  shows "outbox_ok t"
using e
proof (cases rule: emit_cases)
  case (failed x n)
  with ok show ?thesis by (auto simp: outbox_ok_def keys_distinct_def intro: ids_ok_mono)
next
  case (tried ev n)
  note I = create_event_Inr [OF tried(1)]
  have ids: "ids_ok n (domain_events s)" "ids_ok n (domain_events s @ [event_record ev])"
    using ok tried(3,4) by (auto simp: outbox_ok_def event_record_def intro: ids_ok_mono ids_ok_append)
  have keys: "keys_distinct t" using ok outbox.distinct [OF tried(2)] by (simp add: outbox_ok_def keys_distinct_def)
  have ev: "event_ok (event_record ev)"
    using to_envelope_record [of ev] I by (auto simp: event_ok_def)
  show ?thesis
    using publish_cases [of "s\<lparr>next_id := n\<rparr>" ev] tried(2) ok ids keys ev
    by cases (auto simp: outbox_ok_def)
qed

text \<open>What a service may rely on after reporting a change.\<close>

lemma emit_stored:
  assumes "emit pl aty ai av k c w ca s = (Inr e, t)"
  shows "e \<in> set (domain_events t)" "ev_idempotency_key e = k"
    "ev_event_type e = event_type_value (payload_event_type pl)" "ev_payload e = model_dump pl"
    "set (domain_events s) \<subseteq> set (domain_events t)"
proof -
  obtain ev n where ev: "create_event pl aty ai av k c w ca s = (Inr ev, s\<lparr>next_id := n\<rparr>)"
      "publish ev (s\<lparr>next_id := n\<rparr>) = (Inr e, t)"
    using assms by (cases rule: emit_cases) auto
  note I = create_event_Inr [OF ev(1)]
  show "e \<in> set (domain_events t)" "ev_idempotency_key e = k"
    "ev_event_type e = event_type_value (payload_event_type pl)" "ev_payload e = model_dump pl"
    "set (domain_events s) \<subseteq> set (domain_events t)"
    using outbox.stored [OF ev(2)] outbox.kept [OF ev(2)] I by (simp_all add: matching_event_def)
qed

section \<open>Properties\<close>

text \<open>Running \<open>emit\<close> where its key and the version of its aggregate are new.\<close>

definition event_for ::
  "EventPayload \<Rightarrow> string \<Rightarrow> uuid \<Rightarrow> int \<Rightarrow> string \<Rightarrow> uuid \<Rightarrow> uuid option \<Rightarrow> uuid option \<Rightarrow> db \<Rightarrow> DomainEvent" where
  "event_for payload aggregate_type aggregate_id aggregate_version key correlation workflow causation s =
     event_record \<lparr>ee_event_id = next_id s, ee_event_type = payload_event_type payload, ee_event_version = 1,
       ee_occurred_at = clock s, ee_producer = ''commerce-operations'', ee_aggregate_type = aggregate_type,
       ee_aggregate_id = aggregate_id, ee_aggregate_version = aggregate_version, ee_correlation_id = correlation,
       ee_workflow_id = workflow, ee_causation_id = causation, ee_idempotency_key = key, ee_data = payload\<rparr>"

lemma event_for_simps [simp]:
  "ev_idempotency_key (event_for pl aty ai av k c w ca s) = k"
  "aggregate_key (event_for pl aty ai av k c w ca s) = (aty, ai, av, event_type_value (payload_event_type pl))"
  by (simp_all add: event_for_def event_record_def aggregate_key_def)

lemma emit_run:
  assumes "payload_valid pl" "0 < av"
    "\<forall>e \<in> set (domain_events s). ev_idempotency_key e \<noteq> k \<and> aggregate_key e \<noteq> (aty, ai, av, event_type_value (payload_event_type pl))"
  shows "emit pl aty ai av k (Some c) w ca s = (Inr (event_for pl aty ai av k c w ca s),
    flush_db (domain_events_update (\<lambda>es. es @ [event_for pl aty ai av k c w ca s]) (s\<lparr>next_id := next_id s + 1\<rparr>)))"
proof -
  have none: "find (\<lambda>e. ev_idempotency_key e = k) (domain_events s) = None" using assms(3) by (auto simp: find_None_iff)
  show ?thesis
    using assms(1,2) bspec [OF assms(3)]
    by (auto simp: emit_def create_event_def create_event_by_def publish_def run_simps none event_for_def event_record_def aggregate_key_def
        flush_db_def fun_eq_iff)
qed

text \<open>
  Publishing keeps the outbox in order: identifiers, idempotency keys and (aggregate, version,
  type) tuples stay unique, and every stored row can be read back into a typed event.
\<close>

theorem outbox_invariant:
  assumes "outbox_ok s" "emit pl aty ai av k c w ca s = (r, t)"
  shows "outbox_ok t"
  using assms by (rule outbox_ok_emit)

definition sample_cancel :: "string \<Rightarrow> EventPayload" where
  "sample_cancel reason = OrderCancelledPayload 7 (Some reason)"

theorem outbox_invariant_witness:
  "outbox_ok (snd (emit (sample_cancel ''late'') ''order'' 7 2 ''k'' None None None (empty_db 0)))"
proof (rule outbox_invariant)
  show "outbox_ok (empty_db 0)" by (simp add: outbox_ok_def keys_distinct_def empty_db_def)
qed (rule prod.collapse [symmetric])



text \<open>
  An idempotency key stands for one event. After a successful publish, publishing the same type
  and payload under the same key returns the stored event and changes no table, and publishing
  another payload of an event type under that key raises \<open>EventConflictError\<close> and changes no table.
\<close>

theorem publish_idempotent:
  assumes "publish ev s = (Inr e, t)" "keys_distinct s" "ee_idempotency_key ev' = ee_idempotency_key ev"
    and "ee_event_type ev = payload_event_type (ee_data ev)" "ee_event_type ev' = payload_event_type (ee_data ev')"
  shows "if ee_data ev' = ee_data ev then publish ev' t = (Inr e, flush_db t)
    else \<exists>m. publish ev' t = (Inl (Exn EventConflictError m), flush_db t)"
proof (cases "ee_data ev' = ee_data ev")
  case True
  with outbox.republish [OF assms(1) outbox.distinct [OF assms(1,2)] order_refl assms(3)] assms(4,5)
  show ?thesis by simp
next
  case False
  with outbox.key_reserved [OF assms(1) outbox.distinct [OF assms(1,2)] order_refl assms(3) False assms(5,4)]
  show ?thesis by simp
qed

definition sample_event :: "string \<Rightarrow> EventEnvelope" where
  "sample_event reason = \<lparr>ee_event_id = 1, ee_event_type = ORDER_CANCELLED, ee_event_version = 1,
     ee_occurred_at = 0, ee_producer = ''commerce-operations'', ee_aggregate_type = ''order'',
     ee_aggregate_id = 7, ee_aggregate_version = 2, ee_correlation_id = 3, ee_workflow_id = None,
     ee_causation_id = None, ee_idempotency_key = ''k'', ee_data = sample_cancel reason\<rparr>"

theorem publish_idempotent_witness:
  "\<exists>e t m. publish (sample_event ''late'') (empty_db 0) = (Inr e, t) \<and>
     publish (sample_event ''late'') t = (Inr e, flush_db t) \<and>
     publish (sample_event ''lost'') t = (Inl (Exn EventConflictError m), flush_db t)"
proof -
  have "publish (sample_event ''late'') (empty_db 0) = (Inr (event_record (sample_event ''late'')),
      domain_events_update (\<lambda>es. es @ [event_record (sample_event ''late'')]) (flush_db (empty_db 0)))"
    using publish_new [of "sample_event ''late''" "empty_db 0"] by (simp add: empty_db_def)
  moreover have "keys_distinct (empty_db 0)" by (simp add: keys_distinct_def empty_db_def)
  ultimately obtain e t where p: "publish (sample_event ''late'') (empty_db 0) = (Inr e, t)" "keys_distinct (empty_db 0)"
    by blast
  show ?thesis
    using publish_idempotent [OF p, of "sample_event ''late''"] publish_idempotent [OF p, of "sample_event ''lost''"] p(1)
    by (auto simp: sample_event_def sample_cancel_def)
qed

end
