(* ===== verification/Audit_Trail.thy ===== *)
theory Audit_Trail
  imports Event_Store
begin

text \<open>
  The audit row that procurement, inventory and order operations write with every change, and reading
  the version of a row: \<open>session.add(AuditEvent(..))\<close> and \<open>entity.version\<close>.
\<close>

definition add_audit ::
  "string \<Rightarrow> string \<Rightarrow> string \<Rightarrow> uuid \<Rightarrow> dict option \<Rightarrow> dict option \<Rightarrow> string option \<Rightarrow> uuid \<Rightarrow> unit op"
  where
  "add_audit actor action resource_type resource_id before after reason correlation =
     bind new_uuid (\<lambda>audit_id.
     bind now_utc (\<lambda>now.
     add_row audit_events_update
       \<lparr>row_id = audit_id, row_created_at = now,
        au_actor_type = (if actor \<noteq> ''system'' then ''user'' else ''system''), au_actor_id = actor,
        au_action = action, au_resource_type = resource_type, au_resource_id = resource_id,
        au_before_state = before, au_after_state = after, au_reason = reason,
        au_request_id = None, au_correlation_id = correlation\<rparr>))"

text \<open>The audit row of a service that names the kind of its actor; it has no state before.\<close>

definition write_audit ::
  "string \<Rightarrow> string \<Rightarrow> string \<Rightarrow> string \<Rightarrow> uuid \<Rightarrow> dict option \<Rightarrow> string option \<Rightarrow> uuid \<Rightarrow> unit op" where
  "write_audit actor_type actor action resource_type resource_id after reason correlation =
     bind new_uuid (\<lambda>audit_id.
     bind now_utc (\<lambda>now.
     add_row audit_events_update
       \<lparr>row_id = audit_id, row_created_at = now, au_actor_type = actor_type, au_actor_id = actor,
        au_action = action, au_resource_type = resource_type, au_resource_id = resource_id,
        au_before_state = None, au_after_state = after, au_reason = reason,
        au_request_id = None, au_correlation_id = correlation\<rparr>))"

definition version_of :: "uuid \<Rightarrow> int op" where
  "version_of i = gets (\<lambda>s. versions s i)"

text \<open>\<open>return entity\<close>: the object the session holds, with the changes made to it.\<close>

definition reload :: "(db \<Rightarrow> 'r EntityMixin_scheme list) \<Rightarrow> uuid \<Rightarrow> 'r EntityMixin_scheme op" where
  "reload rows i = bind (get_row rows i) (the_or (Exn AssertionError []))"

text \<open>\<open>now or datetime.now(UTC)\<close>, assignments to a workflow run, and its insertion.\<close>

definition time_or_now :: "datetime option \<Rightarrow> datetime op" where
  "time_or_now at_time = (case at_time of Some n \<Rightarrow> ret n | None \<Rightarrow> now_utc)"

definition set_workflow :: "uuid \<Rightarrow> (WorkflowRun \<Rightarrow> WorkflowRun) \<Rightarrow> unit op" where
  "set_workflow = set_row workflow_runs workflow_runs_update"

text \<open>\<open>UniqueConstraint("workflow_name", "correlation_id")\<close>, checked when a run is inserted.\<close>

definition add_workflow :: "WorkflowRun \<Rightarrow> unit op" where
  "add_workflow workflow =
     bind (gets workflow_runs) (\<lambda>stored.
     andthen (raise_if (\<exists>w \<in> set stored. wf_workflow_name w = wf_workflow_name workflow \<and>
                          wf_correlation_id w = wf_correlation_id workflow)
       (Exn IntegrityError ''uq_workflow_runs_workflow_name''))
     (andthen (add_row workflow_runs_update workflow) flush))"

definition new_workflow :: "uuid \<Rightarrow> datetime \<Rightarrow> string \<Rightarrow> uuid \<Rightarrow> RunStatus \<Rightarrow> string \<Rightarrow> dict \<Rightarrow> WorkflowRun" where
  "new_workflow workflow_id now name correlation status step checkpoints =
     \<lparr>row_id = workflow_id, row_created_at = now, wf_workflow_name = name, wf_workflow_version = 1,
      wf_correlation_id = correlation, wf_source_event_id = None, wf_idempotency_key = None,
      wf_status = status, wf_current_step = Some step, wf_attempts = 0, wf_next_retry_at = None,
      wf_error = None, wf_checkpoints = checkpoints, wf_max_attempts = 3, wf_timeout_seconds = 300,
      wf_started_at = None, wf_deadline_at = None, wf_completed_at = None,
      wf_waiting_approval_id = None, wf_cost_amount = 0, wf_cost_currency = None\<rparr>"

lemma reload_apply [run_simps]: "reload rows i s =
    (case row (rows s) i of None \<Rightarrow> Inl (Exn AssertionError []) | Some r \<Rightarrow> Inr r, s)"
  by (simp add: reload_def run_simps)

lemma keeps_reload [keeps_intros]: "keeps f (reload rows i)"
  by (simp add: keeps_def run_simps)

lemma advances_reload [simp]: "advances (reload rows i)"
  by (simp add: advances_def run_simps)

lemma wp_reload [wp_simps]: "wp (reload rows i) Q E s =
    (case row (rows s) i of None \<Rightarrow> E (Exn AssertionError []) s | Some r \<Rightarrow> Q r s)"
  by (simp add: wp_def run_simps split: option.split)

lemma keeps_add_audit [keeps_intros]:
  "(\<And>s n. f (s\<lparr>next_id := n\<rparr>) = f s) \<Longrightarrow>
   (\<And>s g h. f (pending_rows_update g (audit_events_update h s)) = f s) \<Longrightarrow>
   keeps f (add_audit a b c d e g h i)"
  unfolding add_audit_def by (intro keeps_intros)

lemma keeps_write_audit [keeps_intros]:
  "(\<And>s n. f (s\<lparr>next_id := n\<rparr>) = f s) \<Longrightarrow>
   (\<And>s g h. f (pending_rows_update g (audit_events_update h s)) = f s) \<Longrightarrow>
   keeps f (write_audit ty a b c d e g h)"
  unfolding write_audit_def by (intro keeps_intros)

lemma keeps_time_or_now [keeps_intros]: "keeps f (time_or_now t)"
  unfolding time_or_now_def by (intro keeps_intros)

lemma keeps_version_of [keeps_intros]: "keeps f (version_of i)"
  by (simp add: version_of_def keeps_gets)

lemma advances_audit [simp]: "advances (add_audit a b c d e g h i)" "advances (version_of i)"
  by (simp_all add: add_audit_def version_of_def advances_intros advances_writes)

lemma advances_write_audit [simp]: "advances (write_audit ty a b c d e g h)"
  by (simp add: write_audit_def advances_intros advances_writes)

lemma advances_create_event [simp]: "advances (create_event pl aty ai av k c w ca)"
  by (auto simp: create_event_def create_event_by_def intro!: advances_intros)

lemma advances_publish [simp]: "advances (publish ev)"
  by (auto simp: publish_def intro!: advances_intros advances_writes)

lemma advances_emit [simp]: "advances (emit pl aty ai av k c w ca)"
  by (auto simp: emit_def intro!: advances_intros)

lemma wp_version_of [wp_simps]: "wp (version_of i) Q E s = Q (versions s i) s"
  by (simp add: version_of_def wp_simps)

lemma version_of_apply [run_simps]: "version_of i s = (Inr (versions s i), s)"
  by (simp add: version_of_def run_simps)

text \<open>How \<open>emit\<close> may fail.\<close>

definition event_failure :: "exn \<Rightarrow> bool" where
  "event_failure e \<longleftrightarrow> exn_class e \<in> {ValidationError, EventConflictError, IntegrityError}"

lemma emit_failure: "wp (emit pl aty ai av k c w ca) (\<lambda>_ _. True) (\<lambda>e _. event_failure e) s"
  unfolding emit_def create_event_def create_event_by_def publish_def
  by (simp add: wp_simps event_failure_def split: option.split)

text \<open>What neither auditing nor publishing touches: everything but events, audit rows and identifiers.\<close>

definition business :: "db \<Rightarrow> db" where
  "business s = s\<lparr>next_id := 0, pending_rows := [], dirty_rows := [], versions := (\<lambda>_. 0),
     domain_events := [], audit_events := []\<rparr>"

lemma business_simps [simp]:
  "business (flush_db s) = business s" "business (next_id_update n s) = business s"
  "business (pending_rows_update p s) = business s" "business (dirty_rows_update d s) = business s"
  "business (versions_update v s) = business s" "business (domain_events_update e s) = business s"
  "business (audit_events_update a s) = business s"
  by (simp_all add: business_def flush_db_def)

lemma keeps_business [simp]:
  "keeps business (add_audit a b c d e g h i)" "keeps business (emit pl aty ai av k cc w ca)"
  "keeps business flush" "keeps business (write_audit ty w1 w2 w3 w4 w5 w6 w7)"
  by (intro keeps_intros, simp_all)+

lemma businessD:
  assumes "business s = business t"
  shows "clock s = clock t" "procurement_requests s = procurement_requests t" "purchase_orders s = purchase_orders t"
    "inventory_items s = inventory_items t" "inventory_movements s = inventory_movements t"
    "orders s = orders t" "order_items s = order_items t" "approvals s = approvals t"
    "workflow_runs s = workflow_runs t" "refunds s = refunds t" "pricing_decisions s = pricing_decisions t"
    "supplier_quotes s = supplier_quotes t" "products s = products t" "handler_receipts s = handler_receipts t"
    "listing_drafts s = listing_drafts t" "returns s = returns t"
  using assms by (cases s, cases t, simp add: business_def)+

end
