(* ===== verification/Approval_Requests.thy ===== *)
theory Approval_Requests
  imports Approval_Engine Audit_Trail
begin

text \<open>
  \<open>api/approvals.py\<close>: the two decision endpoints, which commit an expiry although it is reported as an error; and what a
  service that asks for approvals relies on: the row a request adds, and the invariants that survive a decision.
\<close>

section \<open>Endpoints\<close>

text \<open>A response is an \<open>HTTPException\<close> with its status and detail, or the record.\<close>

type_synonym 'a response = "(nat \<times> string) + 'a"

definition authenticated_actor :: "string \<Rightarrow> string \<Rightarrow> string" where
  "authenticated_actor request_principal claimed_actor = (if request_principal = ''anonymous'' then claimed_actor else request_principal)"

text \<open>The \<open>try\<close> around \<open>engine.approve\<close> and \<open>engine.reject\<close>; \<open>ApprovalExpiredError\<close> is caught before its base class.\<close>

definition decision_response :: "Approval op \<Rightarrow> Approval response op" where
  "decision_response m s = (case m s of
       (Inr record_row, t) \<Rightarrow> (Inr (Inr record_row), flush_db t)
     | (Inl exc, t) \<Rightarrow>
         if exn_class exc = ApprovalExpiredError then (Inr (Inl (409, exn_message exc)), flush_db t)
         else if exn_class exc = ApprovalNotFoundError then (Inr (Inl (404, ''Approval not found'')), rollback_to s t)
         else if exn_class exc = ApprovalTransitionError then (Inr (Inl (409, exn_message exc)), rollback_to s t)
         else (Inl exc, rollback_to s t))"

definition approve_endpoint :: "ApprovalEngine \<Rightarrow> string \<Rightarrow> uuid \<Rightarrow> string \<Rightarrow> string \<Rightarrow> Approval response op" where
  "approve_endpoint E request_principal approval_id approver reason =
     decision_response (approve E approval_id (authenticated_actor request_principal approver) reason None)"

definition reject_endpoint :: "string \<Rightarrow> uuid \<Rightarrow> string \<Rightarrow> string \<Rightarrow> Approval response op" where
  "reject_endpoint request_principal approval_id approver reason =
     decision_response (reject approval_id (authenticated_actor request_principal approver) reason None)"

section \<open>What a decision leaves alone\<close>

lemma advances_audit_approval: "advances (audit_approval a act who b c)"
  unfolding audit_approval_def by (intro advances_intros advances_simple advances_writes) simp

lemma advances_set_approval: "advances (set_approval f i)"
  unfolding set_approval_def by (intro advances_writes) simp

lemma advances_expire: "advances (expire a now who)"
  unfolding expire_def Let_def by (intro advances_intros advances_audit_approval advances_set_approval)

lemmas advances_decision = advances_audit_approval advances_set_approval advances_expire

definition but_decisions :: "db \<Rightarrow> db" where
  "but_decisions s = but_approvals (s\<lparr>workflow_runs := []\<rparr>)"

lemma but_decisions_simps [simp]:
  "but_decisions (flush_db s) = but_decisions s" "but_decisions (next_id_update n s) = but_decisions s"
  "but_decisions (pending_rows_update p s) = but_decisions s" "but_decisions (dirty_rows_update d s) = but_decisions s"
  "but_decisions (approvals_update a s) = but_decisions s" "but_decisions (audit_events_update e s) = but_decisions s"
  "but_decisions (workflow_runs_update w s) = but_decisions s" "but_decisions (versions_update v s) = but_decisions s"
  by (simp_all add: but_decisions_def but_approvals_def flush_db_def)

lemma but_decisions_part: "but_approvals t = but_approvals s \<Longrightarrow> but_decisions t = but_decisions s"
  by (cases s, cases t) (simp add: but_decisions_def but_approvals_def)

lemma but_decisionsD:
  assumes "but_decisions s = but_decisions t"
  shows "clock s = clock t" "pricing_decisions s = pricing_decisions t" "refunds s = refunds t"
    "listing_drafts s = listing_drafts t" "marketplace_listings s = marketplace_listings t"
    "customer_messages s = customer_messages t" "customer_conversations s = customer_conversations t"
    "inventory_items s = inventory_items t" "domain_events s = domain_events t" "orders s = orders t"
    "procurement_requests s = procurement_requests t" "purchase_orders s = purchase_orders t"
  using assms by (cases s, cases t, simp add: but_decisions_def but_approvals_def)+

text \<open>What a decision may do to a row of the approvals.\<close>

definition approval_moves :: "Approval \<Rightarrow> Approval \<Rightarrow> bool" where
  "approval_moves a b \<longleftrightarrow> request_part b = request_part a \<and> (ap_status a = Approval_PENDING \<or> ap_status b = ap_status a)"

lemma approval_moves_refl [simp]: "approval_moves a a"
  by (simp add: approval_moves_def)

lemma approval_moves_resumed [simp]: "approval_moves a (a\<lparr>ap_resumed_at := x\<rparr>)"
  by (simp add: approval_moves_def request_part_def)

lemma request_part_decided [simp]: "request_part (decided st who why now a) = request_part a"
  by (simp add: request_part_def decided_def)

lemma request_part_eqD: "request_part b = request_part a \<Longrightarrow> row_id b = row_id a \<and> ap_action_type b = ap_action_type a \<and>
    ap_resource_type b = ap_resource_type a \<and> ap_resource_id b = ap_resource_id a \<and>
    ap_requested_payload b = ap_requested_payload a \<and> ap_action_hash b = ap_action_hash a"
  by (cases a, cases b) (simp add: request_part_def)

lemma moves_refl: "list_all2 approval_moves xs xs"
  by (simp add: list_all2_same)

lemma moves_update:
  "(\<And>a. a \<in> set xs \<Longrightarrow> row_id a = i \<Longrightarrow> approval_moves a (f a)) \<Longrightarrow> list_all2 approval_moves xs (update_rows i f xs)"
  by (induction xs) (auto simp: update_rows_Cons)

lemma moves_decided:
  assumes "distinct (map row_id xs)" "row xs i = Some a" "ap_status a = Approval_PENDING"
  shows "list_all2 approval_moves xs (update_rows i (decided st who why now) xs)"
proof (rule moves_update)
  fix b assume "b \<in> set xs" "row_id b = i"
  then have "b = a" using row_in_set [OF assms(1)] assms(2) by fastforce
  then show "approval_moves b (decided st who why now b)" using assms(3) by (simp add: approval_moves_def)
qed

lemma moves_row: "list_all2 approval_moves xs ys \<Longrightarrow> row xs i = Some a \<Longrightarrow> \<exists>b. row ys i = Some b \<and> approval_moves a b"
proof (induction rule: list_all2_induct)
  case (Cons x xs y ys)
  then show ?case using request_part_eqD [of y x] by (auto simp: row_Cons approval_moves_def split: if_splits)
qed simp

lemma moves_ids: "list_all2 approval_moves xs ys \<Longrightarrow> map row_id ys = map row_id xs"
  by (induction rule: list_all2_induct) (auto simp: approval_moves_def dest: request_part_eqD)

lemma moves_ids_ok: "list_all2 approval_moves xs ys \<Longrightarrow> ids_ok n xs \<Longrightarrow> n \<le> m \<Longrightarrow> ids_ok m ys"
  using moves_ids [of xs ys] unfolding ids_ok_def by (metis image_iff list.set_map order_less_le_trans)

lemma moves_all:
  "list_all2 approval_moves xs ys \<Longrightarrow> (\<And>a b. approval_moves a b \<Longrightarrow> P a \<Longrightarrow> P b) \<Longrightarrow> \<forall>a \<in> set xs. P a \<Longrightarrow> \<forall>b \<in> set ys. P b"
  by (induction rule: list_all2_induct) auto

section \<open>Asking for an approval\<close>

text \<open>What \<open>request_if_required\<close> leaves behind for a resource that no approval names yet.\<close>

definition requested :: "ApprovalEngine \<Rightarrow> ApprovalContext \<Rightarrow> ApprovalRequest \<Rightarrow> db \<Rightarrow> Approval option \<Rightarrow> db \<Rightarrow> bool" where
  "requested E ctx req s r t \<longleftrightarrow> but_approvals t = but_approvals s \<and> next_id s \<le> next_id t \<and>
     (case r of
        None \<Rightarrow> decision (evaluate (engine_policy E) ctx) = ALLOW \<and> approvals t = approvals s
      | Some a \<Rightarrow> decision (evaluate (engine_policy E) ctx) = REQUIRE_APPROVAL \<and> approvals t = approvals s @ [a] \<and>
          next_id s \<le> row_id a \<and> row_id a < next_id t \<and> ap_status a = Approval_PENDING \<and>
          ap_action_type a = rq_action_type req \<and> ap_resource_type a = rq_resource_type req \<and>
          ap_resource_id a = rq_resource_id req \<and> ap_requested_payload a = rq_requested_action req)"

lemma request_new_wp:
  assumes "\<forall>a \<in> set (approvals s). ap_resource_type a = rq_resource_type req \<longrightarrow> ap_resource_id a \<noteq> rq_resource_id req"
  shows "wp (request_if_required E ctx req) (\<lambda>r t. requested E ctx req s r t) (\<lambda>_ _. False) s"
proof -
  have none: "find (\<lambda>a. ap_resource_type a = rq_resource_type req \<and> ap_resource_id a = rq_resource_id req \<and> ap_action_hash a = h)
      (approvals s) = None" for h
    using assms by (auto simp: find_None_iff)
  show ?thesis
  proof (cases rule: evaluate_cases [of "engine_policy E" ctx])
    case allow
    then show ?thesis by (simp add: request_if_required_def wp_def run_simps requested_def)
  next
    case (ask r)
    then show ?thesis
      by (simp add: request_if_required_def create_request_def Let_def wp_def run_simps none requested_def audit_approval_def)
  qed
qed

section \<open>Invariants over decisions\<close>

text \<open>
  The handler of an approved action keeps \<open>holds\<close>, given that the row of the approval already says so; and none of the handlers
  raises the error that the endpoint takes for an expiry.
\<close>

definition handlers_keep :: "(db \<Rightarrow> bool) \<Rightarrow> ApprovalEngine \<Rightarrow> bool" where
  "handlers_keep holds E \<longleftrightarrow> (\<forall>ty h a u. get_action (engine_registry E) ty = Some h \<longrightarrow> holds u \<longrightarrow>
     row (approvals u) (row_id a) = Some a \<longrightarrow> ap_action_type a = ty \<longrightarrow> ap_status a = Approval_APPROVED \<longrightarrow>
     wp (h a) (\<lambda>_. holds) (\<lambda>e _. exn_class e \<noteq> ApprovalExpiredError) u)"

locale approval_invariant = unit_of_work holds for holds :: "db \<Rightarrow> bool" +
  assumes ids: "holds s \<Longrightarrow> ids_ok (next_id s) (approvals s)"
    and decision: "holds s \<Longrightarrow> but_decisions t = but_decisions s \<Longrightarrow> next_id s \<le> next_id t \<Longrightarrow>
      list_all2 approval_moves (approvals s) (approvals t) \<Longrightarrow> holds t"
begin

lemma audited: "holds s \<Longrightarrow> wp (audit_approval a act who b c) (\<lambda>_ t. holds t) E s"
  by (simp add: audit_approval_def wp_simps, intro conjI impI) (rule decision, assumption, simp_all add: moves_refl)+

lemma expired:
  assumes "holds s" "row (approvals s) (row_id a) = Some a" "ap_status a = Approval_PENDING"
  shows "wp (expire a now who) (\<lambda>_ t. holds t) E s"
proof -
  have "holds (snd (set_approval (decided Approval_EXPIRED who ''Approval expired before a decision was made'' now) (row_id a) s))"
    by (rule decision [OF assms(1)]) (simp_all add: set_approval_def run_simps moves_decided [OF ids_ok_distinct [OF ids [OF assms(1)]] assms(2,3)])
  then show ?thesis
    by (simp add: expire_def Let_def wp_andthen set_approval_def wp_set_row run_simps) (rule audited)
qed

lemma resumed:
  assumes "handlers_keep holds E" "holds s" "row (approvals s) (row_id a) = Some a" "ap_status a = Approval_APPROVED"
  shows "wp (resume_action E a now) (\<lambda>_ t. holds t) (\<lambda>e _. exn_class e \<noteq> ApprovalExpiredError) s"
proof -
  have rest: "wp (andthen (case ap_workflow_run_id a of
                None \<Rightarrow> ret ()
              | Some run_id \<Rightarrow>
                  bind (get_row workflow_runs run_id) (\<lambda>workflow.
                  andthen (raise_if (workflow = None) (Exn ApprovalTransitionError
                    (''Workflow '' @ uuid_str run_id @ '' linked to approval was not found'')))
                  (set_row workflow_runs workflow_runs_update run_id
                    (\<lambda>w. w\<lparr>wf_status := Run_RUNNING, wf_next_retry_at := None, wf_error := None\<rparr>))))
     (set_approval (\<lambda>a. a\<lparr>ap_resumed_at := Some now\<rparr>) (row_id a))) (\<lambda>_ t. holds t)
       (\<lambda>e _. exn_class e \<noteq> ApprovalExpiredError) t" if "holds t" for t
    by (simp add: wp_simps set_approval_def split: option.split)
      (intro conjI allI impI; rule decision [OF that]; simp add: moves_update)
  let ?handler = "case get_action (engine_registry E) (ap_action_type a) of None \<Rightarrow> ret () | Some h \<Rightarrow> h a"
  have "wp ?handler (\<lambda>_. holds) (\<lambda>e _. exn_class e \<noteq> ApprovalExpiredError) s"
    using assms by (auto simp: handlers_keep_def wp_ret split: option.split)
  then show ?thesis
    unfolding resume_action_def by (simp only: wp_andthen [of ?handler]) (rule wp_mono, assumption, rule rest)
qed

lemma approve_keeps:
  assumes "handlers_keep holds E" "holds s"
  shows "wp (approve E i who why at_time) (\<lambda>_ t. holds t) (\<lambda>e t. exn_class e = ApprovalExpiredError \<longrightarrow> holds t) s"
proof (cases "row (approvals s) i")
  case None
  then show ?thesis
    by (simp add: approve_def decision_time_bind wp_def get_approval_apply bind_Inl)
next
  case (Some a)
  let ?now = "decision_time at_time s"
  have id: "row_id a = i" using Some by blast
  have s: "holds (flush_db s)" by (rule flushed [OF assms(2)])
  have start: "approve E i who why at_time s = andthen (require_pending a)
     (if past_expiry ?now a
      then andthen (expire a ?now ''system'') (throw (expired_error i))
      else
        andthen (set_approval (decided Approval_APPROVED who why ?now) i)
        (andthen (resume_action E (decided Approval_APPROVED who why ?now a) ?now)
        (andthen (audit_approval (decided Approval_APPROVED who why ?now a) ''approval.approved'' who (Some ''pending'') ''approved'')
        (andthen flush (get_approval i))))) (flush_db s)"
    using Some unfolding approve_def decision_time_bind Let_def by (simp add: bind_apply get_approval_apply)
  have last: "wp (andthen flush (get_approval i)) (\<lambda>_ t. holds t) (\<lambda>e t. exn_class e = ApprovalExpiredError \<longrightarrow> holds t) t"
    if "holds t" for t
    using flushed [OF that] by (simp add: wp_def run_simps get_approval_apply split: option.split)
  let ?u = "snd (set_approval (decided Approval_APPROVED who why ?now) i (flush_db s))"
  show ?thesis
  proof (cases "ap_status a = Approval_PENDING")
    case False
    then have "wp (approve E i who why at_time) (\<lambda>_ t. holds t) (\<lambda>e t. exn_class e = ApprovalExpiredError \<longrightarrow> holds t) s \<longleftrightarrow> True"
      unfolding wp_def start by (simp add: require_pending_def run_simps)
    then show ?thesis by simp
  next
    case True
    have u: "holds ?u"
      by (rule decision [OF s]) (simp_all add: set_approval_def run_simps
          moves_decided [OF ids_ok_distinct [OF ids [OF assms(2)]] Some True])
    have row: "row (approvals ?u) (row_id (decided Approval_APPROVED who why ?now a)) = Some (decided Approval_APPROVED who why ?now a)"
      by (simp add: set_approval_def run_simps row_update_rows id Some)
    have "wp (if past_expiry ?now a
      then andthen (expire a ?now ''system'') (throw (expired_error i))
      else
        andthen (set_approval (decided Approval_APPROVED who why ?now) i)
        (andthen (resume_action E (decided Approval_APPROVED who why ?now a) ?now)
        (andthen (audit_approval (decided Approval_APPROVED who why ?now a) ''approval.approved'' who (Some ''pending'') ''approved'')
        (andthen flush (get_approval i))))) (\<lambda>_ t. holds t) (\<lambda>e t. exn_class e = ApprovalExpiredError \<longrightarrow> holds t) (flush_db s)"
    proof (cases "past_expiry ?now a")
      case True
      then show ?thesis
        by (simp add: wp_andthen) (rule wp_mono, rule expired [where E = "\<lambda>_ _. False", OF s],
          simp_all add: wp_throw Some id \<open>ap_status a = Approval_PENDING\<close>)
    next
      case False
      have set: "wp (set_approval f i) Q X t = Q () (snd (set_approval f i t))" for f Q X t
        by (simp add: wp_def set_approval_def run_simps)
      have "wp (resume_action E (decided Approval_APPROVED who why ?now a) ?now)
          (\<lambda>_. wp (andthen (audit_approval (decided Approval_APPROVED who why ?now a) ''approval.approved'' who (Some ''pending'') ''approved'')
            (andthen flush (get_approval i))) (\<lambda>_ t. holds t) (\<lambda>e t. exn_class e = ApprovalExpiredError \<longrightarrow> holds t))
          (\<lambda>e t. exn_class e = ApprovalExpiredError \<longrightarrow> holds t) ?u"
        by (rule wp_mono [OF resumed [OF assms(1) u row]])
          (simp, unfold wp_andthen [of "audit_approval _ _ _ _ _"], rule wp_mono [OF audited [where E = "\<lambda>_ _. False"]],
           assumption, rule last, simp_all)
      with False show ?thesis by (simp only: if_False wp_andthen set)
    qed
    moreover have "andthen (require_pending a) m = m" for m :: "Approval op"
      using True by (simp add: require_pending_def raise_if_def andthen_def)
    ultimately show ?thesis unfolding wp_def start by (simp only:)
  qed
qed

lemma reject_keeps:
  assumes "holds s" shows "holds (snd (reject i who why at_time s))"
proof -
  have "advances (reject i who why at_time)"
    unfolding reject_def Let_def get_approval_def require_pending_def
    by (intro advances_intros advances_simple advances_decision)
  then have n: "next_id s \<le> next_id (snd (reject i who why at_time s))" by (simp add: advances_def)
  obtain t where r: "reject i who why at_time s = (fst (reject i who why at_time s), t)"
    and t: "but_approvals t = but_approvals s" "approvals t = approvals s \<or>
     (\<exists>a st who' why' n. row (approvals s) i = Some a \<and> ap_status a = Approval_PENDING \<and>
        st \<in> {Approval_REJECTED, Approval_EXPIRED} \<and> approvals t = update_rows i (decided st who' why' n) (approvals s))"
    using reject_effect [of i who why at_time s] by blast
  then have rt: "snd (reject i who why at_time s) = t" by (metis snd_conv)
  have "list_all2 approval_moves (approvals s) (approvals t)"
    using t(2)
  proof (elim disjE exE conjE)
    fix a st who' why' n
    assume a: "row (approvals s) i = Some a" "ap_status a = Approval_PENDING" "approvals t = update_rows i (decided st who' why' n) (approvals s)"
    show ?thesis unfolding a(3) by (rule moves_decided [OF ids_ok_distinct [OF ids [OF assms]] a(1,2)])
  qed (simp only: moves_refl)
  then show ?thesis
    unfolding rt by (rule decision [OF assms but_decisions_part [OF t(1)] n [unfolded rt]])
qed

text \<open>Both endpoints keep the invariant, whatever they answer.\<close>

lemma response_keeps:
  assumes "holds s" "wp m (\<lambda>_ t. holds t) (\<lambda>e t. exn_class e = ApprovalExpiredError \<longrightarrow> holds t) s"
  shows "holds (snd (decision_response m s))"
  using assms(2) flushed rolled_back [OF assms(1)]
  by (auto simp: decision_response_def wp_def split: prod.splits sum.splits)

lemma endpoints_keep:
  assumes "holds s"
  shows "handlers_keep holds E \<Longrightarrow> holds (snd (approve_endpoint E p i who why s))"
    and "holds (snd (reject_endpoint p i who why s))"
proof -
  show "holds (snd (approve_endpoint E p i who why s))" if "handlers_keep holds E"
    unfolding approve_endpoint_def by (rule response_keeps [OF assms]) (rule approve_keeps [OF that assms])
  show "holds (snd (reject_endpoint p i who why s))"
    unfolding reject_endpoint_def
    by (rule response_keeps [OF assms]) (use reject_keeps [OF assms] in \<open>auto simp: wp_def split: sum.split\<close>)
qed

end

end
