(* ===== verification/Pricing_Model.thy ===== *)
theory Pricing_Model
  imports Py_Decimal
begin

text \<open>
  \<open>domains/pricing/model.py\<close>: validation of the inputs, the price calculation in decimal
  arithmetic, and its equivalence with the exact rational calculation for amounts of money.
\<close>

section \<open>Definitions\<close>

record CommercialPricingRules =
  rule_minimum_price :: rat
  maximum_price :: "rat option"
  rounding_increment :: rat
  maximum_automatic_change_percent :: rat

record PricingInputs =
  landed_cost :: rat
  marketplace_fees :: rat
  fulfilment_costs :: rat
  target_margin :: rat
  minimum_margin :: rat
  current_selling_price :: "rat option"

record PricingCalculation =
  gross_profit :: rat
  contribution_profit :: rat
  margin_percentage :: rat
  roi_percentage :: "rat option"
  minimum_selling_price :: rat
  recommended_selling_price :: rat
  price_change_percentage :: "rat option"
  within_automatic_boundary :: bool

definition validate_pricing :: "PricingInputs \<Rightarrow> CommercialPricingRules \<Rightarrow> exn + unit" where
  "validate_pricing inputs rules =
     rbind (check (landed_cost inputs < 0)
       (Exn PricingValidationError ''landed_cost cannot be negative'')) (\<lambda>_.
     rbind (check (marketplace_fees inputs < 0)
       (Exn PricingValidationError ''marketplace_fees cannot be negative'')) (\<lambda>_.
     rbind (check (fulfilment_costs inputs < 0)
       (Exn PricingValidationError ''fulfilment_costs cannot be negative'')) (\<lambda>_.
     rbind (check (\<not> (0 \<le> minimum_margin inputs \<and> minimum_margin inputs < 1))
       (Exn PricingValidationError ''minimum_margin must be at least 0 and below 1'')) (\<lambda>_.
     rbind (check (\<not> (minimum_margin inputs \<le> target_margin inputs \<and> target_margin inputs < 1))
       (Exn PricingValidationError ''target_margin must be at least minimum_margin and below 1'')) (\<lambda>_.
     rbind (check (case current_selling_price inputs of None \<Rightarrow> False | Some p \<Rightarrow> p \<le> 0)
       (Exn PricingValidationError ''current_selling_price must be positive when supplied'')) (\<lambda>_.
     rbind (check (rule_minimum_price rules < 0)
       (Exn PricingValidationError ''configured minimum_price cannot be negative'')) (\<lambda>_.
     rbind (check (case maximum_price rules of None \<Rightarrow> False | Some p \<Rightarrow> p < rule_minimum_price rules)
       (Exn PricingValidationError ''maximum_price cannot be below minimum_price'')) (\<lambda>_.
     rbind (check (rounding_increment rules \<le> 0)
       (Exn PricingValidationError ''rounding_increment must be positive'')) (\<lambda>_.
     check (maximum_automatic_change_percent rules \<le> 0)
       (Exn PricingValidationError ''maximum automatic change must be positive''))))))))))"

definition round_up :: "rat \<Rightarrow> rat \<Rightarrow> exn + rat" where
  "round_up v increment =
     rbind (dec_div v increment) (\<lambda>q. Inr (dec_mul (integral_ceiling q) increment))"

text \<open>\<open>a / b * Decimal("100")\<close>\<close>

definition percentage :: "rat \<Rightarrow> rat \<Rightarrow> exn + rat" where
  "percentage a b = rbind (dec_div a b) (\<lambda>q. Inr (dec_mul q 100))"

text \<open>A computation that is skipped for \<open>None\<close>.\<close>

definition optional :: "('a \<Rightarrow> 'e + 'b) \<Rightarrow> 'a option \<Rightarrow> 'e + 'b option" where
  "optional f x = (case x of None \<Rightarrow> Inr None | Some v \<Rightarrow> rbind (f v) (\<lambda>w. Inr (Some w)))"

text \<open>The part of \<open>calculate_price\<close> after the two prices are known: the limit, the profits.\<close>

definition price_report ::
  "PricingInputs \<Rightarrow> CommercialPricingRules \<Rightarrow> rat \<Rightarrow> rat \<Rightarrow> rat \<Rightarrow> exn + PricingCalculation" where
  "price_report inputs rules cost minimum_price recommended_price =
     rbind (check (case maximum_price rules of None \<Rightarrow> False | Some m \<Rightarrow> m < recommended_price)
       (Exn PricingValidationError ''Configured maximum price cannot satisfy the profitability floor and target margin''))
       (\<lambda>_.
     let gross = dec_sub recommended_price (landed_cost inputs);
         contribution = dec_sub recommended_price cost in
     rbind (percentage contribution recommended_price) (\<lambda>margin.
     rbind (optional (percentage contribution)
              (if 0 < landed_cost inputs then Some (landed_cost inputs) else None)) (\<lambda>roi.
     rbind (optional (\<lambda>c. percentage (dec_sub recommended_price c) c) (current_selling_price inputs))
       (\<lambda>price_change.
     let within_boundary = (case price_change of None \<Rightarrow> True
           | Some p \<Rightarrow> round28 \<bar>p\<bar> < maximum_automatic_change_percent rules) in
     rbind (quantize4 gross) (\<lambda>gross_q.
     rbind (quantize4 contribution) (\<lambda>contribution_q.
     rbind (quantize4 margin) (\<lambda>margin_q.
     rbind (optional quantize4 roi) (\<lambda>roi_q.
     rbind (quantize4 minimum_price) (\<lambda>minimum_q.
     rbind (quantize4 recommended_price) (\<lambda>recommended_q.
     rbind (optional quantize4 price_change) (\<lambda>change_q.
     Inr \<lparr>gross_profit = gross_q, contribution_profit = contribution_q, margin_percentage = margin_q,
          roi_percentage = roi_q, minimum_selling_price = minimum_q,
          recommended_selling_price = recommended_q, price_change_percentage = change_q,
          within_automatic_boundary = within_boundary\<rparr>)))))))))))"

definition calculate_price ::
  "PricingInputs \<Rightarrow> CommercialPricingRules \<Rightarrow> exn + PricingCalculation" where
  "calculate_price inputs rules =
     rbind (validate_pricing inputs rules) (\<lambda>_.
     let cost = dec_add (dec_add (landed_cost inputs) (marketplace_fees inputs))
                   (fulfilment_costs inputs) in
     rbind (dec_div cost (dec_sub 1 (minimum_margin inputs))) (\<lambda>floor_from_margin.
     rbind (dec_div cost (dec_sub 1 (target_margin inputs))) (\<lambda>target_price.
     rbind (round_up (max floor_from_margin (rule_minimum_price rules)) (rounding_increment rules))
       (\<lambda>minimum_price.
     rbind (round_up (max target_price minimum_price) (rounding_increment rules))
       (\<lambda>recommended_price.
     price_report inputs rules cost minimum_price recommended_price)))))"

section \<open>Validation\<close>

definition valid_pricing :: "PricingInputs \<Rightarrow> CommercialPricingRules \<Rightarrow> bool" where
  "valid_pricing inputs rules \<longleftrightarrow>
     0 \<le> landed_cost inputs \<and> 0 \<le> marketplace_fees inputs \<and> 0 \<le> fulfilment_costs inputs \<and>
     0 \<le> minimum_margin inputs \<and> minimum_margin inputs < 1 \<and>
     minimum_margin inputs \<le> target_margin inputs \<and> target_margin inputs < 1 \<and>
     (\<forall>p. current_selling_price inputs = Some p \<longrightarrow> 0 < p) \<and>
     0 \<le> rule_minimum_price rules \<and>
     (\<forall>p. maximum_price rules = Some p \<longrightarrow> rule_minimum_price rules \<le> p) \<and>
     0 < rounding_increment rules \<and> 0 < maximum_automatic_change_percent rules"

lemma validate_pricing_iff: "validate_pricing inputs rules = Inr u \<longleftrightarrow> valid_pricing inputs rules"
  by (auto simp: validate_pricing_def valid_pricing_def rbind_Inr_iff not_less split: option.splits)

lemma validate_pricing_class: "validate_pricing inputs rules = Inl e \<Longrightarrow> exn_class e = PricingValidationError"
  by (auto simp: validate_pricing_def rbind_def check_def split: sum.splits if_splits)

lemma optional_Inr: "optional f x = Inr y \<longleftrightarrow>
    (case x of None \<Rightarrow> y = None | Some v \<Rightarrow> \<exists>w. f v = Inr w \<and> y = Some w)"
  by (auto simp: optional_def rbind_Inr_iff split: option.splits)

section \<open>Exact prices\<close>

text \<open>Amounts below \<open>10 ^ 11\<close> and margins, with four decimal places.\<close>

definition amount :: "rat \<Rightarrow> bool" where
  "amount x \<longleftrightarrow> (\<exists>k. x = of_int k / 10000 \<and> 0 \<le> k \<and> k < 10 ^ 15)"

definition margin4 :: "rat \<Rightarrow> bool" where
  "margin4 x \<longleftrightarrow> (\<exists>k. x = of_int k / 10000 \<and> 0 \<le> k \<and> k < 10000)"

definition pricing_amounts :: "PricingInputs \<Rightarrow> CommercialPricingRules \<Rightarrow> bool" where
  "pricing_amounts inputs rules \<longleftrightarrow>
     amount (landed_cost inputs) \<and> amount (marketplace_fees inputs) \<and>
     amount (fulfilment_costs inputs) \<and> margin4 (minimum_margin inputs) \<and>
     margin4 (target_margin inputs) \<and> amount (rule_minimum_price rules) \<and>
     amount (rounding_increment rules) \<and>
     (\<forall>p. current_selling_price inputs = Some p \<longrightarrow> amount p)"

definition total_cost :: "PricingInputs \<Rightarrow> rat" where
  "total_cost inputs = landed_cost inputs + marketplace_fees inputs + fulfilment_costs inputs"

text \<open>The least multiple of the increment that is not below \<open>x\<close>.\<close>

definition up_to :: "rat \<Rightarrow> rat \<Rightarrow> rat" where
  "up_to x inc = of_int \<lceil>x / inc\<rceil> * inc"

definition exact_minimum :: "PricingInputs \<Rightarrow> CommercialPricingRules \<Rightarrow> rat" where
  "exact_minimum inputs rules =
     up_to (max (total_cost inputs / (1 - minimum_margin inputs)) (rule_minimum_price rules))
       (rounding_increment rules)"

definition exact_price :: "PricingInputs \<Rightarrow> CommercialPricingRules \<Rightarrow> rat" where
  "exact_price inputs rules =
     up_to (max (total_cost inputs / (1 - target_margin inputs)) (exact_minimum inputs rules))
       (rounding_increment rules)"

lemma up_to_ge: "0 < inc \<Longrightarrow> x \<le> up_to x inc"
  by (simp add: up_to_def field_simps) (metis le_of_int_ceiling mult.commute pos_divide_le_eq)

lemma up_to_less: "0 < inc \<Longrightarrow> up_to x inc < x + inc"
  using ceiling_correct [of "x / inc"] by (simp add: up_to_def field_simps)

lemma up_to_least: "0 < inc \<Longrightarrow> x \<le> of_int k * inc \<Longrightarrow> up_to x inc \<le> of_int k * inc"
  by (simp add: up_to_def ceiling_le_iff pos_divide_le_eq)

lemma up_to_mono: "0 < inc \<Longrightarrow> x \<le> y \<Longrightarrow> up_to x inc \<le> up_to y inc"
  by (simp add: up_to_def ceiling_mono divide_right_mono)

section \<open>Decimal arithmetic on four places\<close>

definition fixed4 :: "int \<Rightarrow> rat \<Rightarrow> bool" where
  "fixed4 b x \<longleftrightarrow> (\<exists>k. x = of_int k / 10000 \<and> \<bar>k\<bar> \<le> b)"

lemma fixed4_add: "fixed4 a x \<Longrightarrow> fixed4 b y \<Longrightarrow> fixed4 (a + b) (x + y)"
  unfolding fixed4_def by (elim exE conjE, rule_tac x = "k + ka" in exI) (simp add: add_divide_distrib)

lemma fixed4_minus: "fixed4 b x \<Longrightarrow> fixed4 b (- x)"
  unfolding fixed4_def by (elim exE conjE, rule_tac x = "- k" in exI) simp

lemma fixed4_diff: "fixed4 a x \<Longrightarrow> fixed4 b y \<Longrightarrow> fixed4 (a + b) (x - y)"
  using fixed4_add [of a x b "- y"] by (simp add: fixed4_minus)

lemma fixed4_mono: "fixed4 a x \<Longrightarrow> a \<le> b \<Longrightarrow> fixed4 b x"
  unfolding fixed4_def by force

lemma fixed4_representable: "fixed4 b x \<Longrightarrow> b < 10 ^ 28 \<Longrightarrow> representable x"
proof -
  assume "fixed4 b x" "b < 10 ^ 28"
  then obtain k where "x = of_int k / 10000" "\<bar>k\<bar> < 10 ^ 28" unfolding fixed4_def by auto
  then show ?thesis by (simp only: representable_places)
qed

lemma fixed4_round: "fixed4 b x \<Longrightarrow> b < 10 ^ 28 \<Longrightarrow> round28 x = x"
  by (rule ctx28.rnd_exact) (rule fixed4_representable)

lemma fixed4_quantize: "fixed4 b x \<Longrightarrow> b < 10 ^ 28 \<Longrightarrow> quantize4 x = Inr x"
proof -
  assume "fixed4 b x" "b < 10 ^ 28"
  then obtain k where "x = of_int k / 10000" "\<bar>k\<bar> < 10 ^ 28" unfolding fixed4_def by auto
  then show ?thesis by (simp only: quantize4_exact)
qed

lemma amount_fixed4: "amount x \<Longrightarrow> fixed4 (10 ^ 15) x"
  unfolding amount_def fixed4_def by (elim exE conjE, rule_tac x = k in exI) simp

lemma amount_bound: "amount x \<Longrightarrow> 0 \<le> x \<and> x < 10 ^ 11"
  unfolding amount_def
proof (elim exE conjE)
  fix k :: int
  assume k: "x = of_int k / 10000" "0 \<le> k" "k < 10 ^ 15"
  then have "(of_int k :: rat) < of_int (10 ^ 15)" by (simp only: of_int_less_iff)
  with k show ?thesis by simp
qed

lemma amount_pos: "amount x \<Longrightarrow> 0 < x \<Longrightarrow> 1 / 10000 \<le> x"
  unfolding amount_def by (elim exE conjE) simp

lemma margin_rest:
  assumes "margin4 m"
  obtains b where "dec_sub 1 m = of_int b / 10000" "1 - m = of_int b / 10000" "0 < b" "b \<le> 10000"
proof -
  obtain k where k: "m = of_int k / 10000" "0 \<le> k" "k < 10000" using assms margin4_def by blast
  have "1 - m = of_int (10000 - k) / 10000" by (simp add: k(1))
  moreover have "fixed4 10000 (1 - m)"
    unfolding fixed4_def by (rule exI [of _ "10000 - k"]) (use k in simp)
  then have "dec_sub 1 m = 1 - m" unfolding dec_sub_def by (rule fixed4_round) simp
  ultimately show thesis using that [of "10000 - k"] k by simp
qed

section \<open>Rounding up a bracketed value\<close>

text \<open>
  \<open>y\<close> stands for \<open>x\<close> when rounding up: no multiple of the increment that the rounded quotient
  reaches is below \<open>x\<close>, and no representable one above \<open>x\<close> is below \<open>y\<close>.
\<close>

definition brackets :: "rat \<Rightarrow> rat \<Rightarrow> rat \<Rightarrow> bool" where
  "brackets inc x y \<longleftrightarrow>
     (\<forall>N. round28 (y / inc) \<le> of_int N \<longrightarrow> x \<le> of_int N * inc) \<and>
     (\<forall>K. representable (of_int K * inc) \<longrightarrow> x \<le> of_int K * inc \<longrightarrow> y \<le> of_int K * inc)"

lemma brackets_max:
  assumes "0 < inc" "brackets inc x y" "brackets inc x' y'"
  shows "brackets inc (max x x') (max y y')"
proof -
  have "round28 (y / inc) \<le> round28 (max y y' / inc)" "round28 (y' / inc) \<le> round28 (max y y' / inc)"
    using assms(1) by (auto intro!: ctx28.rnd_mono divide_right_mono)
  with assms(2,3) show ?thesis unfolding brackets_def by (auto dest: order_trans)
qed

lemma brackets_quotient:
  assumes "0 \<le> a" "a < 10 ^ 23" "0 < b" "0 < c"
  shows "brackets (of_int c / 10000) (of_int a / of_int b) (round28 (of_int a / of_int b))"
  unfolding brackets_def
  using ctx28.rounded_quotient_ceiling [OF assms order_refl] ctx28.rnd_le by blast

lemma brackets_amount:
  assumes "amount x" "0 < c" shows "brackets (of_int c / 10000) x x"
proof -
  obtain k where k: "x = of_int k / of_int 10000" "0 \<le> k" "k < 10 ^ 15"
    using assms(1) unfolding amount_def by auto
  have "brackets (of_int c / 10000) (of_int k / of_int 10000) (round28 (of_int k / of_int 10000))"
    using k assms(2) by (intro brackets_quotient) simp_all
  moreover have "round28 x = x" using amount_fixed4 [OF assms(1)] by (rule fixed4_round) simp
  ultimately show ?thesis using k(1) by metis
qed

lemma brackets_multiple:
  assumes "\<bar>M\<bar> < 10 ^ 28" "0 < inc" shows "brackets inc (of_int M * inc) (of_int M * inc)"
proof -
  have "round28 (of_int M) = of_int M" using assms(1) by (intro ctx28.rnd_exact representable_int)
  with assms(2) show ?thesis by (simp add: brackets_def)
qed

lemma up_to_fixed4:
  assumes "0 < c" "0 \<le> x" "x + of_int c / 10000 < of_int B"
  defines "inc \<equiv> of_int c / 10000"
  shows "fixed4 (B * 10000) (up_to x inc)" "\<bar>\<lceil>x / inc\<rceil>\<bar> \<le> B * 10000"
proof -
  let ?M = "\<lceil>x / inc\<rceil>"
  have inc: "0 < inc" using assms(1) by (simp add: inc_def)
  have M0: "0 \<le> ?M" using assms(2) inc by (metis ceiling_mono ceiling_zero divide_nonneg_pos)
  have "up_to x inc < of_int B" using up_to_less [OF inc, of x] assms(3) by (simp add: inc_def)
  then have "(of_int (?M * c) :: rat) < of_int (B * 10000)" by (simp add: up_to_def inc_def)
  then have lt: "?M * c < B * 10000" by (simp only: of_int_less_iff)
  have "up_to x inc = of_int (?M * c) / 10000" by (simp add: up_to_def inc_def)
  then show "fixed4 (B * 10000) (up_to x inc)"
    unfolding fixed4_def using lt M0 assms(1) by (intro exI [of _ "?M * c"]) (simp add: abs_mult)
  have "?M * 1 \<le> ?M * c" using M0 assms(1) by (intro mult_left_mono) simp_all
  with lt M0 show "\<bar>?M\<bar> \<le> B * 10000" by simp
qed

lemma round_up_exact:
  assumes c: "0 < c" and x: "0 \<le> x" "x + of_int c / 10000 < of_int B" "B < 10 ^ 24"
    and y: "brackets (of_int c / 10000) x y"
  shows "round_up y (of_int c / 10000) = Inr (up_to x (of_int c / 10000))"
proof -
  let ?inc = "of_int c / 10000 :: rat"
  let ?M = "\<lceil>x / ?inc\<rceil>"
  have inc: "0 < ?inc" using c by simp
  have fx: "fixed4 (B * 10000) (up_to x ?inc)" and M: "\<bar>?M\<bar> \<le> B * 10000"
    using up_to_fixed4 [OF c x(1,2)] by simp_all
  have rep: "representable (of_int ?M * ?inc)"
    using fixed4_representable [OF fx] x(3) by (simp add: up_to_def)
  have "x \<le> of_int ?M * ?inc" using up_to_ge [OF inc] by (simp add: up_to_def)
  with y rep have "y \<le> of_int ?M * ?inc" unfolding brackets_def by blast
  then have "y / ?inc \<le> of_int ?M" using inc by (simp only: pos_divide_le_eq)
  then have "round28 (y / ?inc) \<le> of_int ?M"
    by (rule ctx28.rnd_le [rotated]) (use M x(3) in \<open>simp add: representable_int\<close>)
  then have up: "\<lceil>round28 (y / ?inc)\<rceil> \<le> ?M" by (simp only: ceiling_le_iff)
  have "x \<le> of_int \<lceil>round28 (y / ?inc)\<rceil> * ?inc" using y unfolding brackets_def by (simp only: le_of_int_ceiling)
  then have "?M \<le> \<lceil>round28 (y / ?inc)\<rceil>" using inc by (simp only: ceiling_le_iff pos_divide_le_eq)
  with up have "\<lceil>round28 (y / ?inc)\<rceil> = ?M" by (rule order_antisym)
  then have "round_up y ?inc = Inr (round28 (up_to x ?inc))"
    using inc c by (simp add: round_up_def dec_div_def dec_mul_def integral_ceiling_def up_to_def)
  then show ?thesis using fixed4_round [OF fx] x(3) by simp
qed

section \<open>The calculation\<close>

lemma total_cost_decimal:
  assumes "pricing_amounts inputs rules"
  shows "dec_add (dec_add (landed_cost inputs) (marketplace_fees inputs)) (fulfilment_costs inputs) =
      total_cost inputs"
    and "fixed4 (3 * 10 ^ 15) (total_cost inputs)"
proof -
  have a: "fixed4 (10 ^ 15) (landed_cost inputs)" "fixed4 (10 ^ 15) (marketplace_fees inputs)"
    "fixed4 (10 ^ 15) (fulfilment_costs inputs)"
    using assms by (auto simp only: pricing_amounts_def intro!: amount_fixed4)
  have two: "fixed4 (10 ^ 15 + 10 ^ 15) (landed_cost inputs + marketplace_fees inputs)"
    using a by (intro fixed4_add)
  have three: "fixed4 (10 ^ 15 + 10 ^ 15 + 10 ^ 15) (total_cost inputs)"
    unfolding total_cost_def using two a(3) by (rule fixed4_add)
  show "fixed4 (3 * 10 ^ 15) (total_cost inputs)" using three by (rule fixed4_mono) simp
  show "dec_add (dec_add (landed_cost inputs) (marketplace_fees inputs)) (fulfilment_costs inputs) =
      total_cost inputs"
    using fixed4_round [OF two] fixed4_round [OF three] by (simp add: dec_add_def total_cost_def)
qed

lemma total_cost_nonneg: "valid_pricing inputs rules \<Longrightarrow> 0 \<le> total_cost inputs"
  by (simp add: valid_pricing_def total_cost_def)

lemma total_cost_fraction:
  assumes "pricing_amounts inputs rules" "valid_pricing inputs rules"
  obtains t where "total_cost inputs = of_int t / 10000" "0 \<le> t" "t \<le> 3 * 10 ^ 15"
proof -
  obtain t where t: "total_cost inputs = of_int t / 10000" "\<bar>t\<bar> \<le> 3 * 10 ^ 15"
    using total_cost_decimal(2) [OF assms(1)] by (auto simp: fixed4_def)
  moreover have "0 \<le> t" using total_cost_nonneg [OF assms(2)] by (simp add: t(1))
  ultimately show thesis using that [of t] by simp
qed

text \<open>The price that a margin asks for: the decimal quotient brackets the exact one.\<close>

lemma margin_price:
  assumes "pricing_amounts inputs rules" "valid_pricing inputs rules" "margin4 m" "0 < c"
  shows "\<exists>y. dec_div (total_cost inputs) (dec_sub 1 m) = Inr y \<and>
      brackets (of_int c / 10000) (total_cost inputs / (1 - m)) y"
    and "0 \<le> total_cost inputs / (1 - m)" "total_cost inputs / (1 - m) \<le> 3 * 10 ^ 15"
proof -
  obtain b where b: "dec_sub 1 m = of_int b / 10000" "1 - m = of_int b / 10000" "0 < b" "b \<le> 10000"
    using margin_rest [OF assms(3)] .
  obtain t where t: "total_cost inputs = of_int t / 10000" "0 \<le> t" "t \<le> 3 * 10 ^ 15"
    using total_cost_fraction [OF assms(1,2)] .
  have ds: "dec_sub 1 m = 1 - m" and nz: "1 - m \<noteq> 0" unfolding b(1,2) using b(3) by simp_all
  have q: "total_cost inputs / (1 - m) = of_int t / of_int b" unfolding b(2) by (simp add: t(1))
  have "brackets (of_int c / 10000) (of_int t / of_int b) (round28 (of_int t / of_int b))"
    using t b assms(4) by (intro brackets_quotient) simp_all
  then show "\<exists>y. dec_div (total_cost inputs) (dec_sub 1 m) = Inr y \<and>
      brackets (of_int c / 10000) (total_cost inputs / (1 - m)) y"
    unfolding dec_div_def ds using nz by (simp add: q)
  show "0 \<le> total_cost inputs / (1 - m)" using q t b by simp
  have "t \<le> 3 * 10 ^ 15 * b" using t(3) b(3) by simp
  then have "(of_int t :: rat) \<le> of_int (3 * 10 ^ 15 * b)" by (simp only: of_int_le_iff)
  then show "total_cost inputs / (1 - m) \<le> 3 * 10 ^ 15" using q b by (simp add: pos_divide_le_eq)
qed

lemma increment_amount:
  assumes "pricing_amounts inputs rules" "valid_pricing inputs rules"
  obtains c where "rounding_increment rules = of_int c / 10000" "0 < c" "c < 10 ^ 15"
  using assms by (auto simp: pricing_amounts_def valid_pricing_def amount_def)

lemma exact_bounds:
  assumes "pricing_amounts inputs rules" "valid_pricing inputs rules"
  shows "0 \<le> exact_minimum inputs rules" "exact_minimum inputs rules \<le> 3101 * 10 ^ 12"
    "exact_minimum inputs rules \<le> exact_price inputs rules" "exact_price inputs rules < 3102 * 10 ^ 12"
    "rule_minimum_price rules \<le> exact_minimum inputs rules"
    "total_cost inputs / (1 - minimum_margin inputs) \<le> exact_minimum inputs rules"
    "total_cost inputs / (1 - target_margin inputs) \<le> exact_price inputs rules"
proof -
  let ?inc = "rounding_increment rules"
  have inc: "0 < ?inc" "?inc < 10 ^ 11" "rule_minimum_price rules < 10 ^ 11" "0 \<le> rule_minimum_price rules"
    using assms amount_bound by (auto simp: pricing_amounts_def valid_pricing_def)
  have m: "margin4 (minimum_margin inputs)" "margin4 (target_margin inputs)"
    using assms by (simp_all add: pricing_amounts_def)
  note p = margin_price(2,3) [OF assms m(1), of 1] margin_price(2,3) [OF assms m(2), of 1]
  have min: "max (total_cost inputs / (1 - minimum_margin inputs)) (rule_minimum_price rules)
      \<le> exact_minimum inputs rules"
    "exact_minimum inputs rules <
      max (total_cost inputs / (1 - minimum_margin inputs)) (rule_minimum_price rules) + ?inc"
    unfolding exact_minimum_def using up_to_ge [OF inc(1)] up_to_less [OF inc(1)] by blast+
  have pri: "max (total_cost inputs / (1 - target_margin inputs)) (exact_minimum inputs rules)
      \<le> exact_price inputs rules"
    "exact_price inputs rules <
      max (total_cost inputs / (1 - target_margin inputs)) (exact_minimum inputs rules) + ?inc"
    unfolding exact_price_def using up_to_ge [OF inc(1)] up_to_less [OF inc(1)] by blast+
  show "rule_minimum_price rules \<le> exact_minimum inputs rules"
    "total_cost inputs / (1 - minimum_margin inputs) \<le> exact_minimum inputs rules" using min(1) by simp_all
  show "exact_minimum inputs rules \<le> exact_price inputs rules"
    "total_cost inputs / (1 - target_margin inputs) \<le> exact_price inputs rules" using pri(1) by simp_all
  show "0 \<le> exact_minimum inputs rules" using min(1) inc(4) by simp
  show min_le: "exact_minimum inputs rules \<le> 3101 * 10 ^ 12" using min(2) inc(2,3) p by (simp add: max_def split: if_splits)
  show "exact_price inputs rules < 3102 * 10 ^ 12"
    using pri(2) inc(2) p min_le by (simp add: max_def split: if_splits)
qed

lemma calculate_price_exact:
  assumes "pricing_amounts inputs rules" "valid_pricing inputs rules"
  shows "calculate_price inputs rules = price_report inputs rules (total_cost inputs)
      (exact_minimum inputs rules) (exact_price inputs rules)"
proof -
  obtain c where c: "rounding_increment rules = of_int c / 10000" "0 < c" "c < 10 ^ 15"
    using increment_amount [OF assms] .
  let ?inc = "of_int c / 10000 :: rat"
  let ?floor = "max (total_cost inputs / (1 - minimum_margin inputs)) (rule_minimum_price rules)"
  let ?target = "max (total_cost inputs / (1 - target_margin inputs)) (exact_minimum inputs rules)"
  have m: "margin4 (minimum_margin inputs)" "margin4 (target_margin inputs)"
    and mp: "amount (rule_minimum_price rules)"
    using assms by (simp_all add: pricing_amounts_def)
  have inc: "0 < ?inc" "?inc < 10 ^ 11"
    using c(2) amount_bound [of ?inc] assms(1) by (simp_all add: pricing_amounts_def c(1))
  obtain y1 where y1: "dec_div (total_cost inputs) (dec_sub 1 (minimum_margin inputs)) = Inr y1"
      "brackets ?inc (total_cost inputs / (1 - minimum_margin inputs)) y1"
    using margin_price(1) [OF assms m(1) c(2)] by blast
  obtain y2 where y2: "dec_div (total_cost inputs) (dec_sub 1 (target_margin inputs)) = Inr y2"
      "brackets ?inc (total_cost inputs / (1 - target_margin inputs)) y2"
    using margin_price(1) [OF assms m(2) c(2)] by blast
  note p = margin_price(2,3) [OF assms m(1), of 1] margin_price(2,3) [OF assms m(2), of 1]
  note e = exact_bounds [OF assms]
  have floor: "0 \<le> ?floor" "?floor + ?inc < of_int (3102 * 10 ^ 12)"
    using p inc(2) amount_bound [OF mp] by (auto simp: max_def)
  have r1: "round_up (max y1 (rule_minimum_price rules)) ?inc = Inr (exact_minimum inputs rules)"
    unfolding exact_minimum_def c(1)
    by (rule round_up_exact [OF c(2) floor _ brackets_max [OF inc(1) y1(2) brackets_amount [OF mp c(2)]]])
      simp
  have M: "\<bar>\<lceil>?floor / ?inc\<rceil>\<bar> \<le> 3102 * 10 ^ 12 * 10000"
    using up_to_fixed4(2) [OF c(2) floor] .
  then have "brackets ?inc (exact_minimum inputs rules) (exact_minimum inputs rules)"
    unfolding exact_minimum_def up_to_def c(1) by (intro brackets_multiple inc(1)) simp
  then have b2: "brackets ?inc ?target (max y2 (exact_minimum inputs rules))"
    using y2(2) by (intro brackets_max inc(1))
  have target: "0 \<le> ?target" "?target + ?inc < of_int (3102 * 10 ^ 12)"
    using p e(1,2) inc(2) by (auto simp: max_def)
  have r2: "round_up (max y2 (exact_minimum inputs rules)) ?inc = Inr (exact_price inputs rules)"
    unfolding exact_price_def c(1) by (rule round_up_exact [OF c(2) target _ b2]) simp
  have "validate_pricing inputs rules = Inr ()" using assms(2) by (simp add: validate_pricing_iff)
  then show ?thesis
    using r1 r2
    by (simp add: calculate_price_def total_cost_decimal(1) [OF assms(1)] y1(1) y2(1) c(1))
qed

section \<open>The report\<close>

lemma round28_abs:
  assumes "\<bar>x\<bar> \<le> of_int B" "\<bar>B\<bar> < 10 ^ 28" shows "\<bar>round28 x\<bar> \<le> of_int B"
proof -
  have "x \<le> of_int B" "of_int (- B) \<le> x" using assms(1) unfolding abs_le_iff by simp_all
  then have "round28 x \<le> of_int B" "of_int (- B) \<le> round28 x"
    using assms(2) by (auto intro!: ctx28.rnd_le ctx28.rnd_ge representable_int simp del: of_int_minus)
  then show ?thesis unfolding abs_le_iff by simp
qed

lemma percentage_total:
  assumes "0 < b" "\<bar>a\<bar> \<le> 10 ^ 20 * b"
  shows "\<exists>p. percentage a b = Inr p \<and> \<bar>p\<bar> \<le> 10 ^ 22"
proof -
  have "\<bar>a / b\<bar> \<le> of_int (10 ^ 20)" using assms by (simp add: abs_divide pos_divide_le_eq)
  then have "\<bar>round28 (a / b)\<bar> \<le> of_int (10 ^ 20)" by (rule round28_abs) simp
  then have "\<bar>round28 (a / b) * 100\<bar> \<le> of_int (10 ^ 22)" by (simp add: abs_mult)
  then have "\<bar>dec_mul (round28 (a / b)) 100\<bar> \<le> of_int (10 ^ 22)"
    unfolding dec_mul_def by (rule round28_abs) simp
  then show ?thesis using assms(1) by (simp add: percentage_def dec_div_def)
qed

lemma quantize4_total: "\<bar>p\<bar> \<le> 10 ^ 22 \<Longrightarrow> \<exists>q. quantize4 p = Inr q"
proof -
  assume "\<bar>p\<bar> \<le> 10 ^ 22"
  then have "p * 10000 \<le> of_int (10 ^ 26)" "of_int (- (10 ^ 26)) \<le> p * 10000" by (simp_all add: abs_le_iff)
  then have "round_half_even (p * 10000) \<le> 10 ^ 26" "- (10 ^ 26) \<le> round_half_even (p * 10000)"
    using round_half_even_mono round_half_even_int by (metis, metis)
  then have "\<not> 10 ^ 28 \<le> \<bar>round_half_even (p * 10000)\<bar>" by simp
  then show ?thesis unfolding quantize4_def Let_def by (simp only: if_False) blast
qed

lemma quantize4_optional: "(\<And>p. x = Some p \<Longrightarrow> \<bar>p\<bar> \<le> 10 ^ 22) \<Longrightarrow> \<exists>q. optional quantize4 x = Inr q"
  using quantize4_total by (cases x) (force simp: optional_def)+

lemma report_percentages:
  assumes "pricing_amounts inputs rules" "valid_pricing inputs rules" "0 < exact_price inputs rules"
  defines "p \<equiv> exact_price inputs rules"
  shows "0 \<le> p - total_cost inputs" "1 / 10000 \<le> p"
    "\<exists>m. percentage (p - total_cost inputs) p = Inr m \<and> \<bar>m\<bar> \<le> 10 ^ 22"
    "0 < landed_cost inputs \<Longrightarrow> \<exists>m. percentage (p - total_cost inputs) (landed_cost inputs) = Inr m \<and> \<bar>m\<bar> \<le> 10 ^ 22"
    "current_selling_price inputs = Some c \<Longrightarrow> \<exists>m. percentage (p - c) c = Inr m \<and> \<bar>m\<bar> \<le> 10 ^ 22"
proof -
  obtain c' where c': "rounding_increment rules = of_int c' / 10000" "0 < c'" "c' < 10 ^ 15"
    using increment_amount [OF assms(1,2)] .
  have m: "0 \<le> target_margin inputs" "target_margin inputs < 1"
    using assms(2) by (auto simp: valid_pricing_def)
  have t0: "0 \<le> total_cost inputs" using total_cost_nonneg [OF assms(2)] .
  have "total_cost inputs * (1 - target_margin inputs) \<le> total_cost inputs * 1"
    using m t0 by (intro mult_left_mono) simp_all
  then have "total_cost inputs \<le> total_cost inputs / (1 - target_margin inputs)"
    using m by (simp add: pos_le_divide_eq)
  from order_trans [OF this exact_bounds(7) [OF assms(1,2)]]
  have t1: "total_cost inputs \<le> p" unfolding p_def .
  then show nonneg: "0 \<le> p - total_cost inputs" by simp
  obtain k where "p = of_int k * (of_int c' / 10000)" "0 < p"
    using assms(3) by (auto simp: p_def exact_price_def up_to_def c'(1))
  then have k: "p = of_int (k * c') / 10000" "0 < of_int (k * c') / (10000::rat)" by simp_all
  from k(2) have "0 < (of_int (k * c') :: rat)" by (simp only: zero_less_divide_iff) simp
  then have "1 \<le> k * c'" by (simp only: of_int_0_less_iff)
  then have "1 \<le> (of_int (k * c') :: rat)" by (simp only: of_int_1_le_iff)
  then show small: "1 / 10000 \<le> p" unfolding k(1) by simp
  have big: "p < 3102 * 10 ^ 12" using exact_bounds(4) [OF assms(1,2)] by (simp add: p_def)
  have q: "\<exists>m. percentage a b = Inr m \<and> \<bar>m\<bar> \<le> 10 ^ 22" if "1 / 10000 \<le> b" "\<bar>a\<bar> \<le> 10 ^ 16" for a b :: rat
  proof (rule percentage_total)
    show "0 < b" using that by simp
    have "10 ^ 20 * (1 / 10000) \<le> 10 ^ 20 * b" using that(1) by (intro mult_left_mono) simp_all
    with that(2) show "\<bar>a\<bar> \<le> 10 ^ 20 * b" by simp
  qed
  have a: "\<bar>p - total_cost inputs\<bar> \<le> 10 ^ 16" using nonneg t0 big by simp
  show "\<exists>m. percentage (p - total_cost inputs) p = Inr m \<and> \<bar>m\<bar> \<le> 10 ^ 22" using small a by (rule q)
  show "\<exists>m. percentage (p - total_cost inputs) (landed_cost inputs) = Inr m \<and> \<bar>m\<bar> \<le> 10 ^ 22"
    if "0 < landed_cost inputs"
    using amount_pos [of "landed_cost inputs"] that assms(1) a by (intro q) (simp_all add: pricing_amounts_def)
  show "\<exists>m. percentage (p - c) c = Inr m \<and> \<bar>m\<bar> \<le> 10 ^ 22" if "current_selling_price inputs = Some c"
  proof -
    have c: "amount c" "0 < c" using that assms(1,2) by (simp_all add: pricing_amounts_def valid_pricing_def)
    with amount_bound [of c] amount_pos [of c] small big have "\<bar>p - c\<bar> \<le> 10 ^ 16" by (simp add: abs_if)
    with amount_pos [OF c] show ?thesis by (rule q)
  qed
qed

lemma price_report_total:
  assumes "pricing_amounts inputs rules" "valid_pricing inputs rules" "0 < exact_price inputs rules"
    and "\<forall>m. maximum_price rules = Some m \<longrightarrow> exact_price inputs rules \<le> m"
  shows "\<exists>calc. price_report inputs rules (total_cost inputs) (exact_minimum inputs rules)
        (exact_price inputs rules) = Inr calc \<and>
      minimum_selling_price calc = exact_minimum inputs rules \<and>
      recommended_selling_price calc = exact_price inputs rules \<and>
      gross_profit calc = exact_price inputs rules - landed_cost inputs \<and>
      contribution_profit calc = exact_price inputs rules - total_cost inputs"
proof -
  let ?p = "exact_price inputs rules"
  note r = report_percentages [OF assms(1-3)]
  obtain c where c: "rounding_increment rules = of_int c / 10000" "0 < c" "c < 10 ^ 15"
    using increment_amount [OF assms(1,2)] .
  have fixed: "fixed4 (10 ^ 20) ?p" "fixed4 (10 ^ 20) (exact_minimum inputs rules)"
  proof -
    let ?floor = "max (total_cost inputs / (1 - minimum_margin inputs)) (rule_minimum_price rules)"
    let ?target = "max (total_cost inputs / (1 - target_margin inputs)) (exact_minimum inputs rules)"
    have m: "margin4 (minimum_margin inputs)" "margin4 (target_margin inputs)"
      and mp: "amount (rule_minimum_price rules)" and i: "amount (rounding_increment rules)"
      using assms(1) by (simp_all add: pricing_amounts_def)
    note p = margin_price(2,3) [OF assms(1,2) m(1), of 1] margin_price(2,3) [OF assms(1,2) m(2), of 1]
    have "0 \<le> ?floor" "?floor + of_int c / 10000 < of_int (10 ^ 16)"
      "0 \<le> ?target" "?target + of_int c / 10000 < of_int (10 ^ 16)"
      using p exact_bounds(1,2) [OF assms(1,2)] amount_bound [OF mp] amount_bound [OF i]
      unfolding c(1) max_def by (auto split: if_splits)
    then have "fixed4 (10 ^ 16 * 10000) ?p" "fixed4 (10 ^ 16 * 10000) (exact_minimum inputs rules)"
      using up_to_fixed4(1) [OF c(2)] unfolding exact_price_def exact_minimum_def c(1) by blast+
    then show "fixed4 (10 ^ 20) ?p" "fixed4 (10 ^ 20) (exact_minimum inputs rules)" by simp_all
  qed
  have diff: "fixed4 (3 * 10 ^ 15) y \<Longrightarrow> fixed4 (10 ^ 21) (?p - y)" for y
    by (rule fixed4_mono [OF fixed4_diff [OF fixed(1), of "3 * 10 ^ 15"]]) simp_all
  have diffs: "fixed4 (10 ^ 21) (?p - landed_cost inputs)" "fixed4 (10 ^ 21) (?p - total_cost inputs)"
    "\<And>q. current_selling_price inputs = Some q \<Longrightarrow> fixed4 (10 ^ 21) (?p - q)"
    using assms(1) total_cost_decimal(2) [OF assms(1)]
    by (auto simp only: pricing_amounts_def intro!: diff fixed4_mono [OF amount_fixed4]) simp_all
  then have sub: "dec_sub ?p (landed_cost inputs) = ?p - landed_cost inputs"
    "dec_sub ?p (total_cost inputs) = ?p - total_cost inputs"
    "\<And>q. current_selling_price inputs = Some q \<Longrightarrow> dec_sub ?p q = ?p - q"
    unfolding dec_sub_def by (auto intro: fixed4_round)
  have quant: "quantize4 (?p - landed_cost inputs) = Inr (?p - landed_cost inputs)"
    "quantize4 (?p - total_cost inputs) = Inr (?p - total_cost inputs)"
    "quantize4 ?p = Inr ?p" "quantize4 (exact_minimum inputs rules) = Inr (exact_minimum inputs rules)"
    using diffs(1,2) fixed by (auto intro: fixed4_quantize)
  obtain m mq where m: "percentage (?p - total_cost inputs) ?p = Inr m" "quantize4 m = Inr mq"
    using r(3) quantize4_total by blast
  obtain roi roiq where roi: "optional (percentage (?p - total_cost inputs))
        (if 0 < landed_cost inputs then Some (landed_cost inputs) else None) = Inr roi"
      "optional quantize4 roi = Inr roiq"
    using r(4) quantize4_total by (cases "0 < landed_cost inputs") (fastforce simp: optional_def)+
  obtain ch chq where ch: "optional (\<lambda>c. percentage (dec_sub ?p c) c) (current_selling_price inputs) = Inr ch"
      "optional quantize4 ch = Inr chq"
    using r(5) sub(3) quantize4_total
    by (cases "current_selling_price inputs") (fastforce simp: optional_def)+
  have "\<not> (case maximum_price rules of None \<Rightarrow> False | Some m \<Rightarrow> m < ?p)"
    using assms(4) by (simp add: not_less split: option.splits)
  then show ?thesis by (simp add: price_report_def sub quant m roi ch)
qed

text \<open>A result means valid inputs and a price between zero and the configured maximum.\<close>

lemma calculate_price_InrD:
  assumes "calculate_price inputs rules = Inr calc" "pricing_amounts inputs rules"
  shows "valid_pricing inputs rules" "0 < exact_price inputs rules"
    "\<forall>m. maximum_price rules = Some m \<longrightarrow> exact_price inputs rules \<le> m"
proof -
  show valid: "valid_pricing inputs rules"
    using assms(1) by (auto simp: calculate_price_def rbind_Inr_iff validate_pricing_iff)
  have rep: "price_report inputs rules (total_cost inputs) (exact_minimum inputs rules)
      (exact_price inputs rules) = Inr calc"
    using assms(1) calculate_price_exact [OF assms(2) valid] by simp
  then show "\<forall>m. maximum_price rules = Some m \<longrightarrow> exact_price inputs rules \<le> m"
    by (auto simp: price_report_def rbind_Inr_iff Let_def not_less)
  have "percentage a 0 \<noteq> Inr m" for a m by (simp add: percentage_def dec_div_def)
  with rep have "exact_price inputs rules \<noteq> 0"
    by (auto simp: price_report_def rbind_Inr_iff Let_def)
  with exact_bounds(1,3) [OF assms(2) valid] show "0 < exact_price inputs rules" by simp
qed

lemma calculate_price_result:
  assumes "pricing_amounts inputs rules" "valid_pricing inputs rules"
    and "0 < exact_price inputs rules"
    and "\<forall>m. maximum_price rules = Some m \<longrightarrow> exact_price inputs rules \<le> m"
  shows "\<exists>calc. calculate_price inputs rules = Inr calc \<and>
      minimum_selling_price calc = exact_minimum inputs rules \<and>
      recommended_selling_price calc = exact_price inputs rules \<and>
      gross_profit calc = exact_price inputs rules - landed_cost inputs \<and>
      contribution_profit calc = exact_price inputs rules - total_cost inputs"
  unfolding calculate_price_exact [OF assms(1,2)] using assms by (rule price_report_total)

lemma calculate_price_InrE:
  assumes "calculate_price inputs rules = Inr calc" "pricing_amounts inputs rules"
  shows "minimum_selling_price calc = exact_minimum inputs rules"
    "recommended_selling_price calc = exact_price inputs rules"
    "contribution_profit calc = exact_price inputs rules - total_cost inputs"
  using calculate_price_result [OF assms(2) calculate_price_InrD [OF assms]] assms(1) by auto

section \<open>Properties\<close>

text \<open>
  C7: for amounts of money the 28-digit decimal calculation gives the prices of exact arithmetic.
  The minimum price is the least multiple of the increment that covers both the price at the
  minimum margin and the configured minimum, the recommended price is the least multiple that
  covers the price at the target margin and the minimum, and the profits are the exact differences;
  no intermediate rounding moves a price by an increment.
\<close>

theorem calculate_price_correct:
  assumes "pricing_amounts inputs rules" "valid_pricing inputs rules"
    and "0 < exact_price inputs rules"
    and "\<forall>m. maximum_price rules = Some m \<longrightarrow> exact_price inputs rules \<le> m"
  shows "\<exists>calc. calculate_price inputs rules = Inr calc \<and>
      minimum_selling_price calc = exact_minimum inputs rules \<and>
      recommended_selling_price calc = exact_price inputs rules \<and>
      gross_profit calc = exact_price inputs rules - landed_cost inputs \<and>
      contribution_profit calc = exact_price inputs rules - total_cost inputs"
  using assms by (rule calculate_price_result)

definition sample_inputs :: PricingInputs where
  "sample_inputs = \<lparr>landed_cost = 10, marketplace_fees = 2, fulfilment_costs = 1,
     target_margin = 3 / 10, minimum_margin = 1 / 10, current_selling_price = Some 18\<rparr>"

definition sample_rules :: CommercialPricingRules where
  "sample_rules = \<lparr>rule_minimum_price = 5, maximum_price = Some 100, rounding_increment = 1 / 100,
     maximum_automatic_change_percent = 10\<rparr>"

lemma amount_fraction: "0 \<le> k \<Longrightarrow> k < 10 ^ 15 \<Longrightarrow> amount (of_int k / 10000)"
  unfolding amount_def by blast

lemma sample_amounts: "pricing_amounts sample_inputs sample_rules"
proof -
  have m: "0 \<le> k \<Longrightarrow> k < 10000 \<Longrightarrow> margin4 (of_int k / 10000)" for k
    unfolding margin4_def by blast
  show ?thesis
    using amount_fraction [of 100000] amount_fraction [of 20000] amount_fraction [of 10000]
      amount_fraction [of 50000] amount_fraction [of 100] amount_fraction [of 180000]
      m [of 3000] m [of 1000]
    by (simp add: pricing_amounts_def sample_inputs_def sample_rules_def)
qed

lemma sample_valid: "valid_pricing sample_inputs sample_rules"
  by (simp add: valid_pricing_def sample_inputs_def sample_rules_def)

lemma sample_price: "exact_price sample_inputs sample_rules = 1858 / 100"
  "exact_minimum sample_inputs sample_rules = 1445 / 100" "total_cost sample_inputs = 13"
proof -
  have c: "\<lceil>13000 / 9 :: rat\<rceil> = 1445" "\<lceil>13000 / 7 :: rat\<rceil> = 1858" by (simp_all add: ceiling_eq_iff)
  show "exact_price sample_inputs sample_rules = 1858 / 100"
    "exact_minimum sample_inputs sample_rules = 1445 / 100" "total_cost sample_inputs = 13"
    by (simp_all add: exact_price_def exact_minimum_def up_to_def total_cost_def sample_inputs_def
        sample_rules_def max_def c)
qed

lemma sample_limit: "0 < exact_price sample_inputs sample_rules"
    "\<forall>m. maximum_price sample_rules = Some m \<longrightarrow> exact_price sample_inputs sample_rules \<le> m"
  by (simp_all add: sample_price) (simp add: sample_rules_def)

theorem calculate_price_correct_witness:
  "\<exists>calc. calculate_price sample_inputs sample_rules = Inr calc \<and>
      minimum_selling_price calc = 1445 / 100 \<and> recommended_selling_price calc = 1858 / 100 \<and>
      gross_profit calc = 858 / 100 \<and> contribution_profit calc = 558 / 100"
  using calculate_price_correct [OF sample_amounts sample_valid sample_limit]
  by (simp only: sample_price) (simp add: sample_inputs_def)

text \<open>
  C32: what every returned price guarantees the seller, exactly: it is a multiple of the increment,
  not below the returned minimum nor above the configured maximum; the minimum is not below the
  configured minimum and earns the minimum margin; the recommended price earns the target margin
  of itself, and the next lower multiple would miss the target margin or the minimum price.
\<close>

theorem calculate_price_guarantees:
  assumes "calculate_price inputs rules = Inr calc" "pricing_amounts inputs rules"
  defines "p \<equiv> recommended_selling_price calc"
  shows "(\<exists>n. p = of_int n * rounding_increment rules) \<and>
    rule_minimum_price rules \<le> minimum_selling_price calc \<and> minimum_selling_price calc \<le> p \<and>
    (\<forall>m. maximum_price rules = Some m \<longrightarrow> p \<le> m) \<and>
    minimum_margin inputs * minimum_selling_price calc \<le> minimum_selling_price calc - total_cost inputs \<and>
    target_margin inputs * p \<le> contribution_profit calc \<and>
    (p - rounding_increment rules < minimum_selling_price calc \<or>
     (p - rounding_increment rules) - total_cost inputs < target_margin inputs * (p - rounding_increment rules))"
proof -
  note d = calculate_price_InrD [OF assms(1,2)]
  have c: "minimum_selling_price calc = exact_minimum inputs rules" "p = exact_price inputs rules"
    "contribution_profit calc = p - total_cost inputs"
    using calculate_price_InrE [OF assms(1,2)] by (simp_all add: p_def)
  note e = exact_bounds [OF assms(2) d(1)]
  have m: "minimum_margin inputs < 1" "target_margin inputs < 1" and inc: "0 < rounding_increment rules"
    using d(1) by (auto simp: valid_pricing_def)
  have cover: "m * x \<le> x - t" if "t / (1 - m) \<le> x" "m < 1" for m x t :: rat
    using that by (simp add: pos_divide_le_eq algebra_simps)
  have miss: "x - t < m * x" if "x < t / (1 - m)" "m < 1" for m x t :: rat
    using that by (simp add: pos_less_divide_eq algebra_simps)
  have "p - rounding_increment rules <
      max (total_cost inputs / (1 - target_margin inputs)) (exact_minimum inputs rules)"
    unfolding c(2) exact_price_def less_diff_eq diff_less_eq by (rule up_to_less [OF inc])
  then have "p - rounding_increment rules < exact_minimum inputs rules \<or>
      (p - rounding_increment rules) - total_cost inputs < target_margin inputs * (p - rounding_increment rules)"
    using miss [OF _ m(2)] by (simp add: less_max_iff_disj) blast
  moreover have "\<exists>n. p = of_int n * rounding_increment rules"
    by (auto simp: c(2) exact_price_def up_to_def)
  ultimately show ?thesis
    using e d(3) cover [OF e(6) m(1)] cover [OF e(7) m(2)] unfolding c by blast
qed

theorem calculate_price_guarantees_witness:
  "\<exists>calc. calculate_price sample_inputs sample_rules = Inr calc \<and>
     5 \<le> minimum_selling_price calc \<and> 3 / 10 * recommended_selling_price calc \<le> contribution_profit calc"
proof -
  obtain calc where c: "calculate_price sample_inputs sample_rules = Inr calc"
    using calculate_price_result [OF sample_amounts sample_valid sample_limit] by blast
  show ?thesis
    using calculate_price_guarantees [OF c sample_amounts] c by (simp add: sample_inputs_def sample_rules_def)
qed

text \<open>With the same rules, higher costs or higher margins never give a lower price.\<close>

theorem calculate_price_monotone:
  assumes "calculate_price a rules = Inr x" "calculate_price b rules = Inr y"
    and "pricing_amounts a rules" "pricing_amounts b rules"
    and "total_cost a \<le> total_cost b" "minimum_margin a \<le> minimum_margin b" "target_margin a \<le> target_margin b"
  shows "minimum_selling_price x \<le> minimum_selling_price y \<and>
    recommended_selling_price x \<le> recommended_selling_price y"
proof -
  have va: "valid_pricing a rules" and vb: "valid_pricing b rules"
    using calculate_price_InrD(1) assms by blast+
  have inc: "0 < rounding_increment rules" using va by (simp add: valid_pricing_def)
  have margins: "total_cost a / (1 - minimum_margin a) \<le> total_cost b / (1 - minimum_margin b)"
    "total_cost a / (1 - target_margin a) \<le> total_cost b / (1 - target_margin b)"
    using assms(5-) va vb total_cost_nonneg [OF va] total_cost_nonneg [OF vb]
    by (auto simp: valid_pricing_def intro!: frac_le)
  have min: "exact_minimum a rules \<le> exact_minimum b rules"
    unfolding exact_minimum_def using margins(1) by (intro up_to_mono inc max.mono) simp_all
  have "exact_price a rules \<le> exact_price b rules"
    unfolding exact_price_def using margins(2) min by (intro up_to_mono inc max.mono) simp_all
  with min show ?thesis
    using calculate_price_InrE [OF assms(1,3)] calculate_price_InrE [OF assms(2,4)] by simp
qed

theorem calculate_price_monotone_witness:
  "\<exists>x. calculate_price sample_inputs sample_rules = Inr x \<and>
     recommended_selling_price x \<le> recommended_selling_price x"
proof -
  obtain x where x: "calculate_price sample_inputs sample_rules = Inr x"
    using calculate_price_result [OF sample_amounts sample_valid sample_limit] by blast
  show ?thesis
    using calculate_price_monotone [OF x x sample_amounts sample_amounts] x by auto
qed

text \<open>
  C40: a product without any cost and without a configured minimum price passes validation, but the
  margin of the price zero is the undefined quotient 0 / 0: the calculation raises
  \<open>decimal.InvalidOperation\<close>, which is not the \<open>PricingValidationError\<close> of every other refusal.
\<close>

theorem zero_cost_price_undefined:
  assumes "landed_cost inputs = 0" "marketplace_fees inputs = 0" "fulfilment_costs inputs = 0"
    and "rule_minimum_price rules = 0" "valid_pricing inputs rules"
  shows "exn_class (projl (calculate_price inputs rules)) = InvalidOperation \<and>
    isl (calculate_price inputs rules)"
proof -
  have m: "dec_div 0 (dec_sub 1 m) = Inr 0" if "m < 1" "0 \<le> m" for m
  proof -
    have "0 < round28 (1 - m)" using less_le_trans [OF powi_pos(1) round28_decade(2) [of "1 - m"]] that by simp
    then show ?thesis by (simp add: dec_div_def dec_sub_def round28_def)
  qed
  have z: "round28 0 = 0" by (simp add: round28_def)
  have t: "dec_add 0 0 = 0" "dec_sub 0 0 = 0" by (simp_all add: dec_add_def dec_sub_def z)
  have p: "percentage 0 0 = Inl (Exn InvalidOperation ''division undefined'')"
    by (simp add: percentage_def dec_div_def)
  have v: "validate_pricing inputs rules = Inr ()" using assms(5) by (simp add: validate_pricing_iff)
  have r: "round_up 0 (rounding_increment rules) = Inr 0"
    using assms(5) by (simp add: round_up_def dec_div_def dec_mul_def integral_ceiling_def z valid_pricing_def)
  have "0 \<le> minimum_margin inputs" "minimum_margin inputs < 1" "0 \<le> target_margin inputs"
    "target_margin inputs < 1" "\<And>p. maximum_price rules = Some p \<Longrightarrow> \<not> p < 0"
    using assms(4,5) by (auto simp: valid_pricing_def)
  then show ?thesis
    by (simp add: calculate_price_def v assms(1-4) t m r price_report_def p split: option.splits)
qed

definition zero_cost_inputs :: PricingInputs where
  "zero_cost_inputs = \<lparr>landed_cost = 0, marketplace_fees = 0, fulfilment_costs = 0,
     target_margin = 3 / 10, minimum_margin = 1 / 10, current_selling_price = None\<rparr>"

definition default_rules :: CommercialPricingRules where
  "default_rules = \<lparr>rule_minimum_price = 0, maximum_price = None, rounding_increment = 1 / 100,
     maximum_automatic_change_percent = 10\<rparr>"

theorem zero_cost_price_undefined_witness:
  "exn_class (projl (calculate_price zero_cost_inputs default_rules)) = InvalidOperation"
  using zero_cost_price_undefined [of zero_cost_inputs default_rules]
  by (simp add: zero_cost_inputs_def default_rules_def valid_pricing_def)

end
