(* ===== verification/Pricing_Service.thy ===== *)
theory Pricing_Service
  imports Approval_Requests Pricing_Model
begin

text \<open>
  \<open>application/pricing.py\<close>: a pricing decision from the cost basis of an inventory item, the policy that lets it take effect
  or asks a human, and the handler of the granted approval.
\<close>

section \<open>Definitions\<close>

record CreatePricingDecision =
  pc_inventory_item_id :: uuid
  pc_marketplace_fees :: rat
  pc_fulfilment_costs :: rat
  pc_target_margin :: rat
  pc_minimum_margin :: rat
  pc_current_selling_price :: "rat option"
  pc_currency :: string
  pc_reason :: string
  pc_requester :: string
  pc_landed_cost :: "rat option"
  pc_rules :: CommercialPricingRules

text \<open>\<open>{key: str(value) if value is not None else None for key, value in asdict(rules).items()}\<close>\<close>

definition rules_document :: "CommercialPricingRules \<Rightarrow> dict" where
  "rules_document rules =
     [(''minimum_price'', JDec (rule_minimum_price rules)), (''maximum_price'', j_opt JDec (maximum_price rules)),
      (''rounding_increment'', JDec (rounding_increment rules)),
      (''maximum_automatic_change_percent'', JDec (maximum_automatic_change_percent rules))]"

definition landed_cost_of :: "CreatePricingDecision \<Rightarrow> InventoryItem \<Rightarrow> rat" where
  "landed_cost_of command inventory = (case pc_landed_cost command of Some c \<Rightarrow> c | None \<Rightarrow> ii_cost_basis inventory)"

definition pricing_inputs :: "CreatePricingDecision \<Rightarrow> InventoryItem \<Rightarrow> PricingInputs" where
  "pricing_inputs command inventory =
     \<lparr>landed_cost = landed_cost_of command inventory, marketplace_fees = pc_marketplace_fees command,
      fulfilment_costs = pc_fulfilment_costs command, target_margin = pc_target_margin command,
      minimum_margin = pc_minimum_margin command, current_selling_price = pc_current_selling_price command\<rparr>"

definition formula_version :: int where
  "formula_version = 1"

definition new_decision ::
  "CreatePricingDecision \<Rightarrow> InventoryItem \<Rightarrow> PricingCalculation \<Rightarrow> uuid \<Rightarrow> datetime \<Rightarrow> PricingDecision" where
  "new_decision command inventory result decision_id created =
     \<lparr>row_id = decision_id, row_created_at = created, pg_inventory_item_id = row_id inventory, pg_listing_id = None,
      pg_approval_id = None, pg_landed_cost = landed_cost_of command inventory,
      pg_marketplace_fees = pc_marketplace_fees command, pg_fulfilment_costs = pc_fulfilment_costs command,
      pg_target_margin = pc_target_margin command, pg_minimum_margin = pc_minimum_margin command,
      pg_minimum_price = minimum_selling_price result, pg_current_price = pc_current_selling_price command,
      pg_proposed_price = recommended_selling_price result, pg_contribution_margin = contribution_profit result,
      pg_gross_profit = gross_profit result, pg_contribution_profit = contribution_profit result,
      pg_margin_percentage = margin_percentage result, pg_roi_percentage = roi_percentage result,
      pg_recommended_price = recommended_selling_price result,
      pg_price_change_percentage = price_change_percentage result,
      pg_landed_cost_source = (if pc_landed_cost command \<noteq> None then ''estimated'' else ''actual_inventory''),
      pg_commercial_rules = rules_document (pc_rules command), pg_currency = str_upper (pc_currency command),
      pg_reason = pc_reason command, pg_policy_result = ''pending'', pg_formula_version = formula_version,
      pg_effective_at = None\<rparr>"

definition price_context :: "rat option \<Rightarrow> ApprovalContext" where
  "price_context change = (approval_context PRICE_CHANGE)\<lparr>ctx_price_change_percent := change\<rparr>"

text \<open>What a human is asked to approve.\<close>

definition price_action :: "PricingDecision \<Rightarrow> dict" where
  "price_action d =
     [(''current_price'', j_opt JDec (pg_current_price d)), (''recommended_price'', JDec (pg_recommended_price d)),
      (''minimum_price'', JDec (pg_minimum_price d)), (''currency'', JStr (pg_currency d))]"

definition price_request :: "CreatePricingDecision \<Rightarrow> PricingDecision \<Rightarrow> ApprovalRequest" where
  "price_request command d =
     \<lparr>rq_action_type = action_type_value PRICE_CHANGE, rq_resource_type = ''pricing_decision'',
      rq_resource_id = row_id d, rq_requested_action = price_action d, rq_reason = pc_reason command,
      rq_requester = pc_requester command, rq_risk_level = ''financial'', rq_workflow_run_id = None,
      rq_expires_at = None\<rparr>"

definition set_pricing :: "uuid \<Rightarrow> (PricingDecision \<Rightarrow> PricingDecision) \<Rightarrow> unit op" where
  "set_pricing = set_row pricing_decisions pricing_decisions_update"

definition audit_pricing :: "uuid \<Rightarrow> string \<Rightarrow> unit op" where
  "audit_pricing decision_id actor =
     bind (reload pricing_decisions decision_id) (\<lambda>d.
     write_audit ''user'' actor ''pricing.decision_created'' ''pricing_decision'' decision_id
       (Some [(''recommended_price'', JDec (pg_recommended_price d)), (''minimum_price'', JDec (pg_minimum_price d)),
              (''policy_result'', JStr (pg_policy_result d))])
       (Some (pg_reason d)) decision_id)"

text \<open>The policy's answer, written to the decision.\<close>

definition apply_policy :: "uuid \<Rightarrow> Approval option \<Rightarrow> unit op" where
  "apply_policy decision_id approval = (case approval of
       None \<Rightarrow> bind now_utc (\<lambda>now.
         set_pricing decision_id (\<lambda>d. d\<lparr>pg_policy_result := ''allowed'', pg_effective_at := Some now\<rparr>))
     | Some a \<Rightarrow>
         set_pricing decision_id (\<lambda>d. d\<lparr>pg_policy_result := ''approval_required'', pg_approval_id := Some (row_id a)\<rparr>))"

definition create_decision :: "ApprovalEngine \<Rightarrow> CreatePricingDecision \<Rightarrow> PricingDecision op" where
  "create_decision E command =
     bind (scalar inventory_items (\<lambda>i. row_id i = pc_inventory_item_id command)) (\<lambda>found.
     bind (the_or (Exn PricingInventoryNotFoundError (uuid_str (pc_inventory_item_id command))) found) (\<lambda>inventory.
     bind (of_result (calculate_price (pricing_inputs command inventory) (pc_rules command))) (\<lambda>result.
     bind new_uuid (\<lambda>decision_id.
     bind now_utc (\<lambda>created.
     let d = new_decision command inventory result decision_id created in
     andthen (add_row pricing_decisions_update d)
     (andthen flush
     (bind (request_if_required E (price_context (price_change_percentage result)) (price_request command d)) (\<lambda>approval.
      andthen (apply_policy decision_id approval)
      (andthen (audit_pricing decision_id (pc_requester command))
      (andthen flush
      (reload pricing_decisions decision_id)))))))))))"

definition approve_price_change :: "Approval \<Rightarrow> unit op" where
  "approve_price_change approval =
     andthen (raise_if (ap_resource_type approval \<noteq> ''pricing_decision'')
       (Exn PricingApprovalError ''Price approval references the wrong entity type''))
     (bind (scalar pricing_decisions (\<lambda>d. row_id d = ap_resource_id approval)) (\<lambda>found.
     bind (the_or (Exn PricingApprovalError ''Pricing decision was not found'') found) (\<lambda>d.
     andthen (raise_if (pg_approval_id d \<noteq> Some (row_id approval) \<or> pg_policy_result d \<noteq> ''approval_required'')
       (Exn PricingApprovalError ''Pricing decision is not awaiting this approval''))
     (andthen (raise_if (pg_proposed_price d < pg_minimum_price d)
       (Exn PricingApprovalError ''Approved price would breach the profitability floor''))
     (bind now_utc (\<lambda>now.
      set_pricing (row_id d) (\<lambda>d. d\<lparr>pg_policy_result := ''approved'', pg_effective_at := Some now\<rparr>)))))))"

definition register_pricing_approval_handler :: "ApprovalActionRegistry \<Rightarrow> exn + ApprovalActionRegistry" where
  "register_pricing_approval_handler reg = register_action (action_type_value PRICE_CHANGE) approve_price_change reg"

section \<open>Every effective price was permitted\<close>

text \<open>
  A decision in effect was let through by the policy, or carries the identifier of an approved approval of exactly its prices;
  one that waits carries the identifier of its approval and is not in effect.
\<close>

definition price_justified :: "ApprovalEngine \<Rightarrow> Approval list \<Rightarrow> PricingDecision \<Rightarrow> bool" where
  "price_justified E aps d \<longleftrightarrow>
     (if pg_policy_result d = ''allowed''
      then pg_effective_at d \<noteq> None \<and> pg_approval_id d = None \<and>
        decision (evaluate (engine_policy E) (price_context (pg_price_change_percentage d))) = ALLOW
      else
        pg_policy_result d \<in> {''approval_required'', ''approved''} \<and>
        decision (evaluate (engine_policy E) (price_context (pg_price_change_percentage d))) = REQUIRE_APPROVAL \<and>
        (\<exists>i a. pg_approval_id d = Some i \<and> row aps i = Some a \<and> ap_resource_type a = ''pricing_decision'' \<and>
           ap_resource_id a = row_id d \<and> ap_requested_payload a = price_action d \<and>
           (pg_policy_result d = ''approved'' \<longrightarrow>
              ap_status a = Approval_APPROVED \<and> pg_minimum_price d \<le> pg_proposed_price d)) \<and>
        (pg_effective_at d \<noteq> None \<longleftrightarrow> pg_policy_result d = ''approved''))"

text \<open>Approvals name resources that exist: their identifiers were drawn.\<close>

definition prices_ok :: "ApprovalEngine \<Rightarrow> db \<Rightarrow> bool" where
  "prices_ok E s \<longleftrightarrow> ids_ok (next_id s) (pricing_decisions s) \<and> ids_ok (next_id s) (approvals s) \<and>
     (\<forall>a \<in> set (approvals s). ap_resource_id a < next_id s) \<and>
     (\<forall>d \<in> set (pricing_decisions s). price_justified E (approvals s) d)"

lemma row_append_old: "ids_ok n xs \<Longrightarrow> n \<le> row_id a \<Longrightarrow> row xs i = Some b \<Longrightarrow> row (xs @ [a]) i = Some b"
  by (simp add: row_append)

lemma justified_append: "price_justified E aps d \<Longrightarrow> price_justified E (aps @ [a]) d"
  unfolding price_justified_def by (auto simp: row_append split: if_splits)

lemma justified_moves:
  assumes "list_all2 approval_moves aps bps" "price_justified E aps d" shows "price_justified E bps d"
proof (cases "pg_policy_result d = ''allowed''")
  case True
  with assms(2) show ?thesis by (simp add: price_justified_def)
next
  case False
  then obtain i a where a: "pg_approval_id d = Some i" "row aps i = Some a" "ap_resource_type a = ''pricing_decision''"
      "ap_resource_id a = row_id d" "ap_requested_payload a = price_action d"
      "pg_policy_result d = ''approved'' \<Longrightarrow> ap_status a = Approval_APPROVED \<and> pg_minimum_price d \<le> pg_proposed_price d"
    using assms(2) by (auto simp: price_justified_def)
  obtain b where b: "row bps i = Some b" "approval_moves a b" using moves_row [OF assms(1) a(2)] by blast
  then have "request_part b = request_part a" by (simp add: approval_moves_def)
  then have "ap_resource_type b = ''pricing_decision''" "ap_resource_id b = row_id d" "ap_requested_payload b = price_action d"
    using request_part_eqD [of b a] a by simp_all
  moreover have "ap_status b = Approval_APPROVED" if "pg_policy_result d = ''approved''"
    using a(6) [OF that] b(2) by (auto simp: approval_moves_def)
  ultimately show ?thesis using False assms(2) a b(1) unfolding price_justified_def by auto
qed

lemma prices_decision:
  assumes "prices_ok E s" "but_decisions t = but_decisions s" "next_id s \<le> next_id t"
    and m: "list_all2 approval_moves (approvals s) (approvals t)"
  shows "prices_ok E t"
proof -
  have ids: "\<forall>b \<in> set (approvals t). ap_resource_id b < next_id s"
    by (rule moves_all [OF m]) (use assms(1) in \<open>auto simp: prices_ok_def approval_moves_def dest: request_part_eqD\<close>)
  then show ?thesis
    using assms moves_ids_ok [OF m, of "next_id s" "next_id t"] justified_moves [OF m] but_decisionsD(2) [OF assms(2)]
    by (auto simp: prices_ok_def intro: ids_ok_mono)
qed

interpretation prices: approval_invariant "prices_ok E" for E
proof
  show "prices_ok E t" if "prices_ok E s" "tables_of t = tables_of s" "next_id s \<le> next_id t" for s t
    using that tables_ofD [OF that(2)] by (auto simp: prices_ok_def intro: ids_ok_mono)
  show "ids_ok (next_id s) (approvals s)" if "prices_ok E s" for s
    using that by (simp add: prices_ok_def)
qed (rule prices_decision)

lemma set_pricing_ok:
  assumes "prices_ok E s" "\<And>d. row_id (f d) = row_id d"
    and "\<And>d. row (pricing_decisions s) i = Some d \<Longrightarrow> price_justified E (approvals s) (f d)"
  shows "wp (set_pricing i f) (\<lambda>_ t. prices_ok E t) X s"
proof -
  have "price_justified E (approvals s) d" if d: "d \<in> set (update_rows i f (pricing_decisions s))" for d
  proof -
    obtain e where e: "e \<in> set (pricing_decisions s)" "d = (if row_id e = i then f e else e)"
      using d unfolding set_update_rows by blast
    then have "row (pricing_decisions s) (row_id e) = Some e"
      using assms(1) row_in_set [OF ids_ok_distinct] unfolding prices_ok_def by blast
    then show ?thesis using e assms(1,3) by (auto simp: prices_ok_def)
  qed
  then show ?thesis
    using assms(1,2) by (auto simp: set_pricing_def wp_set_row prices_ok_def intro: ids_ok_update)
qed

text \<open>The handler: the approval it is given is in its table, and approved.\<close>

lemma approve_price_change_keeps:
  assumes "prices_ok E s" "row (approvals s) (row_id a) = Some a" "ap_status a = Approval_APPROVED"
  shows "wp (approve_price_change a) (\<lambda>_ t. prices_ok E t) (\<lambda>e _. exn_class e \<noteq> ApprovalExpiredError) s"
proof (cases "row (pricing_decisions s) (ap_resource_id a)")
  case None
  then show ?thesis by (simp add: approve_price_change_def wp_simps find_row)
next
  case (Some d)
  have j: "price_justified E (approvals s) d"
    using assms(1) row_Some_iff [OF Some] by (simp add: prices_ok_def)
  have "wp (set_pricing (row_id d) (\<lambda>d. d\<lparr>pg_policy_result := ''approved'', pg_effective_at := Some now\<rparr>))
      (\<lambda>_ t. prices_ok E t) X (flush_db s)"
    if p: "pg_approval_id d = Some (row_id a)" "pg_policy_result d = ''approval_required''" "\<not> pg_proposed_price d < pg_minimum_price d"
    for X now
  proof (rule set_pricing_ok [OF prices.flushed [OF assms(1)]])
    fix d'
    assume "row (pricing_decisions (flush_db s)) (row_id d) = Some d'"
    then have "d' = d" using Some row_id_of [OF Some] by simp
    then show "price_justified E (approvals (flush_db s)) (d'\<lparr>pg_policy_result := ''approved'', pg_effective_at := Some now\<rparr>)"
      using j p assms(2,3) by (auto simp: price_justified_def price_action_def)
  qed simp
  then show ?thesis using Some
    by (simp add: approve_price_change_def wp_simps find_row)
qed

lemma new_decision_fields [simp]:
  "row_id (new_decision c i r u n) = u" "pg_price_change_percentage (new_decision c i r u n) = price_change_percentage r"
  by (simp_all add: new_decision_def)

lemma update_last: "ids_ok n xs \<Longrightarrow> n \<le> row_id r \<Longrightarrow> update_rows (row_id r) f (xs @ [r]) = xs @ [f r]"
  using ids_ok_fresh [of n xs "row_id r"] by (simp add: update_rows_idem update_rows_Cons)

lemma prices_add:
  assumes "prices_ok E s" "next_id s \<le> row_id d" "row_id d < next_id t" "next_id s \<le> next_id t"
    and "pricing_decisions t = pricing_decisions s @ [d]" "price_justified E (approvals t) d"
    and "approvals t = approvals s \<or> (\<exists>a. approvals t = approvals s @ [a] \<and> next_id s \<le> row_id a \<and> row_id a < next_id t \<and> ap_resource_id a < next_id t)"
  shows "prices_ok E t"
  using assms(7)
proof (elim disjE exE conjE)
  assume "approvals t = approvals s"
  then show ?thesis using assms(1-6)
    by (auto simp: prices_ok_def intro: ids_ok_mono ids_ok_append dest: order_less_le_trans)
next
  fix a assume "approvals t = approvals s @ [a]" "next_id s \<le> row_id a" "row_id a < next_id t" "ap_resource_id a < next_id t"
  then show ?thesis using assms(1-6)
    by (auto simp: prices_ok_def justified_append intro: ids_ok_append dest: order_less_le_trans)
qed

lemma apply_policy_wp:
  assumes req: "requested E (price_context (pg_price_change_percentage d)) (price_request command d) u r t"
    and s: "prices_ok E s" "approvals u = approvals s" "pricing_decisions u = pricing_decisions s @ [d]"
      "next_id s \<le> row_id d" "row_id d < next_id u" "next_id s \<le> next_id u"
    and d: "pg_effective_at d = None" "pg_approval_id d = None"
  shows "wp (apply_policy (row_id d) r) (\<lambda>_ t'. prices_ok E t') (\<lambda>_ _. False) t"
proof -
  have "but_decisions t = but_decisions u" by (rule but_decisions_part) (use req in \<open>simp add: requested_def\<close>)
  then have t: "pricing_decisions t = pricing_decisions s @ [d]" "next_id u \<le> next_id t"
    using but_decisionsD(2) [of t u] req s(3) by (simp_all add: requested_def)
  have ids: "ids_ok (next_id s) (pricing_decisions s)" "ids_ok (next_id s) (approvals s)" using s(1) by (auto simp: prices_ok_def)
  note last = update_last [OF ids(1) s(4)]
  show ?thesis
  proof (cases r)
    case None
    then have a: "approvals t = approvals s"
        "decision (evaluate (engine_policy E) (price_context (pg_price_change_percentage d))) = ALLOW"
      using req s(2) by (auto simp: requested_def)
    have "prices_ok E (dirty_rows_update g (pricing_decisions_update (update_rows (row_id d)
        (\<lambda>d. d\<lparr>pg_policy_result := ''allowed'', pg_effective_at := Some now\<rparr>)) t))" for g now
      by (rule prices_add [OF s(1), where d = "d\<lparr>pg_policy_result := ''allowed'', pg_effective_at := Some now\<rparr>"])
        (use s(4-6) t d(2) last a in \<open>simp_all add: price_justified_def\<close>)
    then show ?thesis unfolding None
      by (simp add: apply_policy_def wp_bind wp_now_utc set_pricing_def wp_set_row)
  next
    case (Some a)
    then have a: "approvals t = approvals s @ [a]" "next_id s \<le> row_id a" "row_id a < next_id t"
        "decision (evaluate (engine_policy E) (price_context (pg_price_change_percentage d))) = REQUIRE_APPROVAL"
        "ap_resource_type a = ''pricing_decision''" "ap_resource_id a = row_id d" "ap_requested_payload a = price_action d"
      using req s(2,6) by (auto simp: requested_def price_request_def)
    have row: "row (approvals s @ [a]) (row_id a) = Some a"
      using ids_ok_fresh [OF ids(2) a(2)] by (simp add: row_append row_Cons)
    have "prices_ok E (dirty_rows_update g (pricing_decisions_update (update_rows (row_id d)
        (\<lambda>d. d\<lparr>pg_policy_result := ''approval_required'', pg_approval_id := Some (row_id a)\<rparr>)) t))" for g
      by (rule prices_add [OF s(1), where d = "d\<lparr>pg_policy_result := ''approval_required'', pg_approval_id := Some (row_id a)\<rparr>"])
        (use s(4-6) t d(1) last a row in \<open>simp_all add: price_justified_def price_action_def\<close>)
    then show ?thesis unfolding Some
      by (simp add: apply_policy_def set_pricing_def wp_set_row)
  qed
qed

lemma create_decision_keeps:
  assumes "prices_ok E s"
  shows "wp (create_decision E command) (\<lambda>_ t. prices_ok E t) (\<lambda>_ _. True) s"
proof -
  have rest: "wp (andthen (audit_pricing i who) (andthen flush (reload pricing_decisions i))) (\<lambda>_ t. prices_ok E t) (\<lambda>_ _. True) t"
    if "prices_ok E t" for t i who
  proof -
    have "wp (audit_pricing i who) (\<lambda>_ u. prices_ok E u) (\<lambda>_ _. True) t"
      by (simp add: audit_pricing_def write_audit_def wp_simps wp_reload split: option.split)
        (intro allI impI; rule prices.decision [OF that]; simp add: moves_refl)
    then show ?thesis
      by (simp only: wp_andthen) (rule wp_mono, assumption, auto simp: wp_simps wp_reload prices.flushed split: option.split)
  qed
  show ?thesis
  proof (cases "row (inventory_items s) (pc_inventory_item_id command)")
    case None
    then show ?thesis by (simp add: create_decision_def wp_simps find_row)
  next
    case (Some inventory)
    show ?thesis
    proof (cases "calculate_price (pricing_inputs command inventory) (pc_rules command)")
      case (Inl e)
      with Some show ?thesis by (simp add: create_decision_def wp_simps find_row)
    next
      case (Inr result)
      let ?d = "new_decision command inventory result (next_id s) (clock s)"
      let ?u = "flush_db (pending_rows_update (\<lambda>ps. next_id s # ps)
        (pricing_decisions_update (\<lambda>rs. rs @ [?d]) (flush_db s\<lparr>next_id := next_id s + 1\<rparr>)))"
      have "\<forall>a \<in> set (approvals ?u). ap_resource_id a \<noteq> next_id s"
        using assms by (auto simp: prices_ok_def)
      then have "wp (request_if_required E (price_context (price_change_percentage result)) (price_request command ?d))
          (\<lambda>r t. requested E (price_context (price_change_percentage result)) (price_request command ?d) ?u r t) (\<lambda>_ _. False) ?u"
        by (intro request_new_wp) (simp add: price_request_def)
      moreover have "wp (andthen (apply_policy (next_id s) r) (andthen (audit_pricing (next_id s) (pc_requester command))
            (andthen flush (reload pricing_decisions (next_id s))))) (\<lambda>_ t. prices_ok E t) (\<lambda>_ _. True) t"
        if "requested E (price_context (price_change_percentage result)) (price_request command ?d) ?u r t" for r t
      proof -
        have "wp (apply_policy (next_id s) r) (\<lambda>_ t'. prices_ok E t') (\<lambda>_ _. False) t"
          using apply_policy_wp [of E ?d command ?u r t s] that assms by (simp add: new_decision_def)
        then show ?thesis
          unfolding wp_andthen [of "apply_policy i r" for i] by (rule wp_mono) (simp_all add: rest)
      qed
      ultimately have "wp (bind (request_if_required E (price_context (price_change_percentage result)) (price_request command ?d))
          (\<lambda>r. andthen (apply_policy (next_id s) r) (andthen (audit_pricing (next_id s) (pc_requester command))
            (andthen flush (reload pricing_decisions (next_id s)))))) (\<lambda>_ t. prices_ok E t) (\<lambda>_ _. True) ?u"
        unfolding wp_bind by (rule wp_mono) simp_all
      then show ?thesis
        using Some Inr by (simp add: create_decision_def wp_bind wp_scalar wp_the_or wp_of_result wp_new_uuid wp_now_utc find_row
            Let_def wp_andthen [of "add_row a b" for a b] wp_andthen [of flush] wp_add_row wp_flush)
    qed
  qed
qed

section \<open>Runs\<close>

lemma expire_due_keeps:
  assumes "prices_ok E s" shows "prices_ok E (snd (expire_due at_time s))"
proof -
  let ?now = "decision_time at_time s"
  have "distinct (map row_id (approvals s))" using prices.ids [OF assms] by (rule ids_ok_distinct)
  then obtain t where t: "snd (expire_due at_time s) = t" "but_approvals t = but_approvals s" "next_id s \<le> next_id t"
      "approvals t = map (\<lambda>a. if ap_status a = Approval_PENDING \<and> past_expiry ?now a then expired_by_system ?now a else a) (approvals s)"
    using expire_due_apply [of s at_time] by (metis snd_conv)
  have "list_all2 approval_moves (approvals s) (approvals t)"
    unfolding t(4) list.rel_map by (rule list.rel_refl) (simp add: approval_moves_def expired_by_system_def)
  then show ?thesis unfolding t(1) by (rule prices.decision [OF assms but_decisions_part [OF t(2)] t(3)])
qed

text \<open>An engine whose handler of price changes is this one; the other handlers leave prices and approvals alone.\<close>

definition prices_engine :: "ApprovalEngine \<Rightarrow> bool" where
  "prices_engine E \<longleftrightarrow> get_action (engine_registry E) (action_type_value PRICE_CHANGE) = Some approve_price_change \<and>
     (\<forall>ty h a. ty \<noteq> action_type_value PRICE_CHANGE \<longrightarrow> get_action (engine_registry E) ty = Some h \<longrightarrow>
        keeps pricing_decisions (h a) \<and> keeps approvals (h a) \<and> advances (h a) \<and>
        (\<forall>s e. fst (h a s) = Inl e \<longrightarrow> exn_class e \<noteq> ApprovalExpiredError))"

lemma prices_engine_keeps:
  assumes "prices_engine E" shows "handlers_keep (prices_ok E) E"
  unfolding handlers_keep_def
proof (intro allI impI)
  fix ty h a u
  assume h: "get_action (engine_registry E) ty = Some h" and u: "prices_ok E u" "row (approvals u) (row_id a) = Some a"
    "ap_action_type a = ty" "ap_status a = Approval_APPROVED"
  show "wp (h a) (\<lambda>_. prices_ok E) (\<lambda>e _. exn_class e \<noteq> ApprovalExpiredError) u"
  proof (cases "ty = action_type_value PRICE_CHANGE")
    case True
    then have "h = approve_price_change" using assms h by (simp add: prices_engine_def)
    then show ?thesis using approve_price_change_keeps [OF u(1,2,4)] by simp
  next
    case False
    then have k: "keeps pricing_decisions (h a)" "keeps approvals (h a)" "advances (h a)"
      "\<And>s e. fst (h a s) = Inl e \<Longrightarrow> exn_class e \<noteq> ApprovalExpiredError"
      using assms h unfolding prices_engine_def by blast+
    have "prices_ok E (snd (h a u))"
      using u(1) keeps_snd [OF k(1), of u] keeps_snd [OF k(2), of u] k(3)
      by (auto simp: prices_ok_def advances_def intro: ids_ok_mono dest: order_less_le_trans)
    then show ?thesis using k(4) by (auto simp: wp_def split: sum.split)
  qed
qed

datatype pricing_call =
    SetPrice CreatePricingDecision
  | DecideApprove string uuid string string
  | DecideReject string uuid string string
  | ExpireApprovals

fun run_pricing_call :: "ApprovalEngine \<Rightarrow> pricing_call \<Rightarrow> db \<Rightarrow> db" where
  "run_pricing_call E (SetPrice command) s = snd (transaction (create_decision E command) s)"
| "run_pricing_call E (DecideApprove who i approver why) s = snd (approve_endpoint E who i approver why s)"
| "run_pricing_call E (DecideReject who i approver why) s = snd (reject_endpoint who i approver why s)"
| "run_pricing_call E ExpireApprovals s = snd (transaction (expire_due None) s)"

fun run_pricing :: "ApprovalEngine \<Rightarrow> pricing_call list \<Rightarrow> db \<Rightarrow> db" where
  "run_pricing E [] s = s"
| "run_pricing E (c # cs) s = run_pricing E cs (run_pricing_call E c s)"

lemma run_pricing_call_keeps:
  assumes "prices_engine E" "prices_ok E s" shows "prices_ok E (run_pricing_call E c s)"
proof (cases c)
  case (SetPrice command)
  have "prices_ok E (snd (transaction (create_decision E command) s))"
    by (rule prices.transaction_keeps [OF assms(2)]) (rule wp_InrD [OF create_decision_keeps [OF assms(2)]])
  with SetPrice show ?thesis by simp
next
  case ExpireApprovals
  have "prices_ok E (snd (transaction (expire_due None) s))"
    by (rule prices.transaction_keeps [OF assms(2)]) (metis expire_due_keeps [OF assms(2)] snd_conv)
  with ExpireApprovals show ?thesis by simp
qed (use prices.endpoints_keep [OF assms(2)] prices_engine_keeps [OF assms(1)] in simp_all)

lemma run_pricing_keeps: "prices_engine E \<Longrightarrow> prices_ok E s \<Longrightarrow> prices_ok E (run_pricing E cs s)"
  by (induction cs arbitrary: s) (simp_all add: run_pricing_call_keeps)

text \<open>
  C4: over any sequence of pricing requests, decisions of humans and expiries, a price is in effect only if the policy lets its
  change pass without a human, or the decision carries the identifier of an approved approval that asked for exactly this
  decision and its prices, and the price is not below its profitability floor.
\<close>

theorem effective_price_permitted:
  assumes "prices_ok E s" and "prices_engine E"
    and "d \<in> set (pricing_decisions (run_pricing E cs s))" and "pg_effective_at d \<noteq> None"
  shows "decision (evaluate (engine_policy E) (price_context (pg_price_change_percentage d))) = ALLOW \<and> pg_approval_id d = None \<or>
    (\<exists>i a. pg_approval_id d = Some i \<and> row (approvals (run_pricing E cs s)) i = Some a \<and> ap_status a = Approval_APPROVED \<and>
       ap_resource_id a = row_id d \<and> ap_requested_payload a = price_action d \<and> pg_minimum_price d \<le> pg_proposed_price d)"
proof -
  have "price_justified E (approvals (run_pricing E cs s)) d"
    using run_pricing_keeps [OF assms(2,1), of cs] assms(3) by (simp add: prices_ok_def)
  then show ?thesis using assms(4) by (auto simp: price_justified_def split: if_splits)
qed

definition sample_command :: CreatePricingDecision where
  "sample_command = \<lparr>pc_inventory_item_id = 1, pc_marketplace_fees = 2, pc_fulfilment_costs = 1, pc_target_margin = 1 / 2,
     pc_minimum_margin = 1 / 5, pc_current_selling_price = Some 10, pc_currency = ''gbp'', pc_reason = ''restock'',
     pc_requester = ''ann'', pc_landed_cost = None, pc_rules = \<lparr>rule_minimum_price = 3, maximum_price = None,
       rounding_increment = 1, maximum_automatic_change_percent = 10\<rparr>\<rparr>"

definition stocked_item :: InventoryItem where
  "stocked_item = \<lparr>row_id = 1, row_created_at = 0, ii_product_id = 2, ii_sku = ''s'', ii_storage_location = ''a'',
     ii_quantity_on_hand = 5, ii_reserved_quantity = 0, ii_cost_basis = 5, ii_currency = ''GBP'', ii_low_stock_threshold = 1\<rparr>"

lemma round28_places: "\<bar>k\<bar> < 10 ^ 28 \<Longrightarrow> round28 (of_int k / 10000) = of_int k / 10000"
  by (rule fixed4_round [of "\<bar>k\<bar>"]) (auto simp: fixed4_def)

lemma quantize4_places: "\<bar>k\<bar> < 10 ^ 28 \<Longrightarrow> quantize4 (of_int k / 10000) = Inr (of_int k / 10000)"
  by (rule fixed4_quantize [of "\<bar>k\<bar>"]) (auto simp: fixed4_def)

lemma sample_rounding:
  "round28 7 = 7" "round28 8 = 8" "round28 10 = 10" "round28 16 = 16" "round28 11 = 11" "round28 50 = 50" "round28 160 = 160"
  "round28 6 = 6" "round28 60 = 60" "round28 (4 / 5) = 4 / 5" "round28 (1 / 2) = 1 / 2" "round28 (8 / 5) = 8 / 5" "round28 (3 / 5) = 3 / 5"
  "quantize4 11 = Inr 11" "quantize4 8 = Inr 8" "quantize4 50 = Inr 50" "quantize4 160 = Inr 160" "quantize4 10 = Inr 10"
  "quantize4 16 = Inr 16" "quantize4 60 = Inr 60"
  using round28_places [of 70000] round28_places [of 80000] round28_places [of 100000] round28_places [of 160000] round28_places [of 110000]
    round28_places [of 500000] round28_places [of 1600000] round28_places [of 60000] round28_places [of 600000] round28_places [of 8000]
    round28_places [of 5000] round28_places [of 16000] round28_places [of 6000]
    quantize4_places [of 110000] quantize4_places [of 80000] quantize4_places [of 500000] quantize4_places [of 1600000]
    quantize4_places [of 100000] quantize4_places [of 160000] quantize4_places [of 600000]
  by simp_all

lemma sample_calculation: "calculate_price (pricing_inputs sample_command stocked_item) (pc_rules sample_command) = Inr
   \<lparr>gross_profit = 11, contribution_profit = 8, margin_percentage = 50, roi_percentage = Some 160,
    minimum_selling_price = 10, recommended_selling_price = 16, price_change_percentage = Some 60,
    within_automatic_boundary = False\<rparr>"
  by (simp add: calculate_price_def validate_pricing_def pricing_inputs_def sample_command_def stocked_item_def landed_cost_of_def
      dec_add_def dec_sub_def dec_mul_def dec_div_def round_up_def price_report_def percentage_def optional_def integral_ceiling_def
      sample_rounding Let_def max_def)

definition pricing_engine :: ApprovalEngine where
  "pricing_engine = \<lparr>engine_policy = policy_from_settings 5 50, default_expiry_hours = 24,
     engine_registry = [(''price_change'', approve_price_change)], digest = (\<lambda>_. ''h'')\<rparr>"

definition pricing_db :: db where
  "pricing_db = (empty_db 7)\<lparr>next_id := 5, inventory_items := [stocked_item]\<rparr>"

lemma pricing_engine_ok: "prices_engine pricing_engine" "prices_ok pricing_engine pricing_db"
  by (simp_all add: prices_engine_def pricing_engine_def get_action_def prices_ok_def pricing_db_def empty_db_def)

lemma sample_priced:
  "\<exists>a. approvals (run_pricing_call pricing_engine (SetPrice sample_command) pricing_db) = [a] \<and> row_id a = 6 \<and>
     ap_status a = Approval_PENDING \<and> ap_expires_at a = Some (7 + hours 24) \<and> ap_action_type a = ''price_change'' \<and>
     ap_resource_type a = ''pricing_decision'' \<and> ap_resource_id a = 5 \<and> ap_workflow_run_id a = None \<and>
   clock (run_pricing_call pricing_engine (SetPrice sample_command) pricing_db) = 7 \<and>
   (\<exists>d. pricing_decisions (run_pricing_call pricing_engine (SetPrice sample_command) pricing_db) = [d] \<and> row_id d = 5 \<and>
     pg_approval_id d = Some 6 \<and> pg_policy_result d = ''approval_required'' \<and> pg_proposed_price d = 16 \<and> pg_minimum_price d = 10 \<and>
     pg_price_change_percentage d = Some 60)"
proof -
  let ?result = "\<lparr>gross_profit = 11, contribution_profit = 8, margin_percentage = 50, roi_percentage = Some 160,
    minimum_selling_price = 10, recommended_selling_price = 16, price_change_percentage = Some 60, within_automatic_boundary = False\<rparr>"
  let ?d = "new_decision sample_command stocked_item ?result 5 7"
  have d: "pg_proposed_price ?d = 16" "pg_minimum_price ?d = 10" by (simp_all add: new_decision_def)
  have c: "pc_inventory_item_id sample_command = 1" "row_id stocked_item = 1" by (simp_all add: sample_command_def stocked_item_def)
  show ?thesis
    using sample_calculation d c
    by (simp add: pricing_db_def empty_db_def run_simps create_decision_def transaction_def Let_def price_request_def
        request_if_required_def create_request_def price_context_def approval_context_def pricing_engine_def policy_from_settings_def
        sample_rounding audit_approval_def apply_policy_def set_pricing_def audit_pricing_def write_audit_def row_Cons update_rows_Cons)
qed

text \<open>The change by 60 percent waits, a human approves it, and it is in effect at its approved price.\<close>

theorem effective_price_permitted_witness:
  "\<exists>d a. d \<in> set (pricing_decisions (run_pricing pricing_engine
       [SetPrice sample_command, DecideApprove ''anonymous'' 6 ''bob'' ''ok''] pricing_db)) \<and>
     pg_effective_at d \<noteq> None \<and> pg_proposed_price d = 16 \<and>
     row (approvals (run_pricing pricing_engine [SetPrice sample_command, DecideApprove ''anonymous'' 6 ''bob'' ''ok''] pricing_db)) 6 =
       Some a \<and> ap_status a = Approval_APPROVED \<and> ap_requested_payload a = price_action d"
proof -
  let ?cs = "[SetPrice sample_command, DecideApprove ''anonymous'' 6 ''bob'' ''ok'']"
  obtain a d where s: "approvals (run_pricing_call pricing_engine (SetPrice sample_command) pricing_db) = [a]" "row_id a = 6"
      "ap_status a = Approval_PENDING" "ap_expires_at a = Some (7 + hours 24)" "ap_action_type a = ''price_change''"
      "ap_resource_type a = ''pricing_decision''" "ap_resource_id a = 5" "ap_workflow_run_id a = None"
      "clock (run_pricing_call pricing_engine (SetPrice sample_command) pricing_db) = 7"
      "pricing_decisions (run_pricing_call pricing_engine (SetPrice sample_command) pricing_db) = [d]" "row_id d = 5"
      "pg_approval_id d = Some 6" "pg_policy_result d = ''approval_required''" "pg_proposed_price d = 16" "pg_minimum_price d = 10"
    using sample_priced by blast
  have e: "pricing_decisions (run_pricing pricing_engine ?cs pricing_db) =
      [d\<lparr>pg_policy_result := ''approved'', pg_effective_at := Some 7\<rparr>]"
    using s by (simp del: run_pricing_call.simps(1) add: approve_endpoint_def decision_response_def authenticated_actor_def approve_def
        run_simps get_approval_apply row_Cons require_pending_def past_expiry_def hours_def seconds_def Let_def set_approval_def
        resume_action_def pricing_engine_def get_action_def approve_price_change_def set_pricing_def update_rows_Cons
        audit_approval_def decided_def)
  let ?d = "d\<lparr>pg_policy_result := ''approved'', pg_effective_at := Some 7\<rparr>"
  have "pg_approval_id ?d = Some 6" "pg_proposed_price ?d = 16" "pg_effective_at ?d \<noteq> None" using s by simp_all
  with effective_price_permitted [OF pricing_engine_ok(2,1), of ?d ?cs] show ?thesis unfolding e by auto
qed

section \<open>The decision that is made\<close>

definition outcome_of :: "ApprovalEngine \<Rightarrow> PricingDecision \<Rightarrow> datetime \<Rightarrow> PricingDecision \<Rightarrow> bool" where
  "outcome_of E d now r \<longleftrightarrow>
     (if decision (evaluate (engine_policy E) (price_context (pg_price_change_percentage d))) = ALLOW
      then r = d\<lparr>pg_policy_result := ''allowed'', pg_effective_at := Some now\<rparr>
      else \<exists>i. r = d\<lparr>pg_policy_result := ''approval_required'', pg_approval_id := Some i\<rparr>)"

lemma apply_policy_outcome:
  assumes req: "requested E (price_context (pg_price_change_percentage d)) req u r t"
    and u: "ids_ok n xs" "pricing_decisions u = xs @ [d]" "n \<le> row_id d"
  shows "wp (apply_policy (row_id d) r) (\<lambda>_ t'. \<exists>e. pricing_decisions t' = xs @ [e] \<and> row_id e = row_id d \<and> outcome_of E d (clock u) e)
    (\<lambda>_ _. False) t"
proof -
  have "but_decisions t = but_decisions u" by (rule but_decisions_part) (use req in \<open>simp add: requested_def\<close>)
  then have t: "pricing_decisions t = xs @ [d]" "clock t = clock u"
    using but_decisionsD(1,2) [of t u] u(2) by simp_all
  show ?thesis
    using req by (cases r) (auto simp: apply_policy_def wp_bind wp_now_utc set_pricing_def wp_set_row t update_last [OF u(1,3)]
        outcome_of_def requested_def simp del: update_rows_append)
qed

lemma create_decision_wp:
  assumes ok: "prices_ok E s" and inventory: "row (inventory_items s) (pc_inventory_item_id command) = Some inventory"
    and result: "calculate_price (pricing_inputs command inventory) (pc_rules command) = Inr result"
  shows "wp (create_decision E command) (\<lambda>r t. pricing_decisions t = pricing_decisions s @ [r] \<and>
     outcome_of E (new_decision command inventory result (next_id s) (clock s)) (clock s) r) (\<lambda>_ _. False) s"
proof -
  let ?d = "new_decision command inventory result (next_id s) (clock s)"
  let ?u = "flush_db (pending_rows_update (\<lambda>ps. next_id s # ps)
    (pricing_decisions_update (\<lambda>rs. rs @ [?d]) (flush_db s\<lparr>next_id := next_id s + 1\<rparr>)))"
  have ids: "ids_ok (next_id s) (pricing_decisions s)" using ok by (simp add: prices_ok_def)
  have "\<forall>a \<in> set (approvals ?u). ap_resource_id a \<noteq> next_id s" using ok by (auto simp: prices_ok_def)
  then have req: "wp (request_if_required E (price_context (price_change_percentage result)) (price_request command ?d))
      (\<lambda>r t. requested E (price_context (price_change_percentage result)) (price_request command ?d) ?u r t) (\<lambda>_ _. False) ?u"
    by (intro request_new_wp) (simp add: price_request_def)
  have fin: "wp (andthen (audit_pricing (next_id s) who) (andthen flush (reload pricing_decisions (next_id s))))
      (\<lambda>r t. pricing_decisions t = pricing_decisions s @ [r] \<and> outcome_of E ?d (clock s) r) (\<lambda>_ _. False) t"
    if "pricing_decisions t = pricing_decisions s @ [e]" "row_id e = next_id s" "outcome_of E ?d (clock s) e" for t e who
    using that ids_ok_fresh [OF ids, of "next_id s"]
    by (simp add: wp_andthen audit_pricing_def wp_bind wp_reload write_audit_def wp_simps row_append row_Cons)
  have policy: "wp (andthen (apply_policy (next_id s) r) (andthen (audit_pricing (next_id s) (pc_requester command))
        (andthen flush (reload pricing_decisions (next_id s)))))
      (\<lambda>r t. pricing_decisions t = pricing_decisions s @ [r] \<and> outcome_of E ?d (clock s) r) (\<lambda>_ _. False) t"
    if "requested E (price_context (price_change_percentage result)) (price_request command ?d) ?u r t" for r t
  proof -
    have "wp (apply_policy (next_id s) r) (\<lambda>_ t'. \<exists>e. pricing_decisions t' = pricing_decisions s @ [e] \<and> row_id e = next_id s \<and>
        outcome_of E ?d (clock s) e) (\<lambda>_ _. False) t"
      using apply_policy_outcome [of E ?d _ ?u r t "next_id s" "pricing_decisions s"] that ids by simp
    then show ?thesis
      unfolding wp_andthen [of "apply_policy i r" for i] by (rule wp_mono) (auto simp: fin)
  qed
  have "wp (bind (request_if_required E (price_context (price_change_percentage result)) (price_request command ?d))
      (\<lambda>r. andthen (apply_policy (next_id s) r) (andthen (audit_pricing (next_id s) (pc_requester command))
        (andthen flush (reload pricing_decisions (next_id s))))))
      (\<lambda>r t. pricing_decisions t = pricing_decisions s @ [r] \<and> outcome_of E ?d (clock s) r) (\<lambda>_ _. False) ?u"
    unfolding wp_bind by (rule wp_mono [OF req]) (simp_all add: policy)
  then show ?thesis
    using inventory result by (simp add: create_decision_def wp_bind wp_scalar wp_the_or wp_of_result wp_new_uuid wp_now_utc find_row
        Let_def wp_andthen [of "add_row a b" for a b] wp_andthen [of flush] wp_add_row wp_flush)
qed

text \<open>
  For amounts of money a decision is made at the exact price and minimum of the pricing model, satisfies the constraints of its
  table, and is the only change of its table. It takes effect at once exactly if the current price is unknown or the price changes
  by less than the configured percentage; otherwise it waits for an approval.
\<close>

theorem decision_made_exact:
  assumes "prices_ok E s" and "engine_policy E = policy_from_settings percent threshold"
    and "row (inventory_items s) (pc_inventory_item_id command) = Some inventory"
    and "pricing_amounts (pricing_inputs command inventory) (pc_rules command)"
    and "calculate_price (pricing_inputs command inventory) (pc_rules command) = Inr result"
  shows "\<exists>d t. create_decision E command s = (Inr d, t) \<and> pricing_decisions t = pricing_decisions s @ [d] \<and>
    pg_recommended_price d = exact_price (pricing_inputs command inventory) (pc_rules command) \<and>
    pg_minimum_price d = exact_minimum (pricing_inputs command inventory) (pc_rules command) \<and>
    pricing_decision_checks d \<and>
    (pg_effective_at d \<noteq> None \<longleftrightarrow> (case pg_price_change_percentage d of None \<Rightarrow> True | Some p \<Rightarrow> round28 \<bar>p\<bar> < percent)) \<and>
    (pg_effective_at d = None \<longleftrightarrow> pg_approval_id d \<noteq> None)"
proof -
  let ?d = "new_decision command inventory result (next_id s) (clock s)"
  obtain d t where d: "create_decision E command s = (Inr d, t)" "pricing_decisions t = pricing_decisions s @ [d]"
      "outcome_of E ?d (clock s) d"
    using create_decision_wp [OF assms(1,3,5)] by (auto simp: wp_def split: sum.splits) (metis prod.collapse)
  have v: "valid_pricing (pricing_inputs command inventory) (pc_rules command)"
    and p: "minimum_selling_price result = exact_minimum (pricing_inputs command inventory) (pc_rules command)"
      "recommended_selling_price result = exact_price (pricing_inputs command inventory) (pc_rules command)"
    using calculate_price_InrD(1) [OF assms(5,4)] calculate_price_InrE [OF assms(5,4)] by blast+
  have allow: "decision (evaluate (engine_policy E) (price_context c)) = ALLOW \<longleftrightarrow>
      (case c of None \<Rightarrow> True | Some p \<Rightarrow> round28 \<bar>p\<bar> < percent)" for c
    unfolding assms(2) by (simp add: policy_from_settings_def price_context_def approval_context_def split: option.split)
  have same: "pg_recommended_price d = recommended_selling_price result" "pg_minimum_price d = minimum_selling_price result"
      "pg_price_change_percentage d = price_change_percentage result" "pricing_decision_checks d = pricing_decision_checks ?d"
      "(pg_effective_at d \<noteq> None) = (decision (evaluate (engine_policy E) (price_context (price_change_percentage result))) = ALLOW)"
      "(pg_effective_at d = None) = (pg_approval_id d \<noteq> None)"
    using d(3) by (auto simp: outcome_of_def new_decision_def pricing_decision_checks_def split: if_splits)
  have "pricing_decision_checks ?d"
    using v p exact_bounds [OF assms(4) v]
    by (auto simp: pricing_decision_checks_def new_decision_def valid_pricing_def pricing_inputs_def)
  then show ?thesis using d(1,2) p allow unfolding same by (metis same)
qed

lemma sample_command_amounts: "pricing_amounts (pricing_inputs sample_command stocked_item) (pc_rules sample_command)"
proof -
  have m: "0 \<le> k \<Longrightarrow> k < 10000 \<Longrightarrow> margin4 (of_int k / 10000)" for k
    unfolding margin4_def by blast
  show ?thesis
    using amount_fraction [of 50000] amount_fraction [of 20000] amount_fraction [of 10000] amount_fraction [of 30000]
      amount_fraction [of 100000] m [of 5000] m [of 2000]
    by (simp add: pricing_amounts_def pricing_inputs_def sample_command_def stocked_item_def landed_cost_of_def)
qed

theorem decision_made_exact_witness:
  "\<exists>d t. create_decision pricing_engine sample_command pricing_db = (Inr d, t) \<and>
     pg_recommended_price d = exact_price (pricing_inputs sample_command stocked_item) (pc_rules sample_command) \<and>
     pricing_decision_checks d \<and> (pg_effective_at d = None \<longleftrightarrow> pg_approval_id d \<noteq> None)"
proof -
  have p: "engine_policy pricing_engine = policy_from_settings 5 50" by (simp add: pricing_engine_def)
  have r: "row (inventory_items pricing_db) (pc_inventory_item_id sample_command) = Some stocked_item"
    by (simp add: pricing_db_def sample_command_def stocked_item_def row_Cons)
  obtain d t where "create_decision pricing_engine sample_command pricing_db = (Inr d, t)"
      "pg_recommended_price d = exact_price (pricing_inputs sample_command stocked_item) (pc_rules sample_command)"
      "pricing_decision_checks d" "pg_effective_at d = None \<longleftrightarrow> pg_approval_id d \<noteq> None"
    using decision_made_exact [OF pricing_engine_ok(2) p r sample_command_amounts sample_calculation] by (elim exE conjE)
  then show ?thesis by (intro exI conjI)
qed

end
