(* ===== verification/Refund_Service.thy ===== *)
theory Refund_Service
  imports Approval_Requests
begin

text \<open>
  \<open>application/refunds.py\<close>: a proposed refund is approved at once when the policy lets its amount pass, otherwise by the handler
  of an approval that names the refund and its amount.
\<close>

section \<open>Definitions\<close>

definition refund_context :: "rat \<Rightarrow> ApprovalContext" where
  "refund_context amt = (approval_context REFUND_ACTION)\<lparr>ctx_amount := Some amt\<rparr>"

definition refund_action :: "Refund \<Rightarrow> dict" where
  "refund_action r = [(''refund_id'', j_uuid (row_id r)), (''amount'', JDec (rf_amount r))]"

definition refund_request :: "Refund \<Rightarrow> string \<Rightarrow> string \<Rightarrow> ApprovalRequest" where
  "refund_request r requester reason =
     \<lparr>rq_action_type = action_type_value REFUND_ACTION, rq_resource_type = ''refund'', rq_resource_id = row_id r,
      rq_requested_action = refund_action r, rq_reason = reason, rq_requester = requester, rq_risk_level = ''financial'',
      rq_workflow_run_id = None, rq_expires_at = None\<rparr>"

definition set_refund :: "uuid \<Rightarrow> (Refund \<Rightarrow> Refund) \<Rightarrow> unit op" where
  "set_refund = set_row refunds refunds_update"

definition approved_state :: "dict option" where
  "approved_state = Some [(''status'', JStr (refund_value Refund_APPROVED))]"

definition request_approval :: "ApprovalEngine \<Rightarrow> uuid \<Rightarrow> string \<Rightarrow> string \<Rightarrow> Approval option op" where
  "request_approval E refund_id requester reason =
     bind (get_row refunds refund_id) (\<lambda>found.
     bind (the_or (Exn RefundApprovalError ''Only a proposed refund may request approval'')
       (case found of None \<Rightarrow> None | Some r \<Rightarrow> if rf_status r \<noteq> Refund_PROPOSED then None else Some r)) (\<lambda>refund.
     bind (request_if_required E (refund_context (rf_amount refund)) (refund_request refund requester reason)) (\<lambda>approval.
     andthen (case approval of
         None \<Rightarrow>
           andthen (set_refund refund_id (\<lambda>r. r\<lparr>rf_status := Refund_APPROVED\<rparr>))
           (write_audit ''system'' ''refund-policy'' ''refund.auto_approved'' ''refund'' refund_id approved_state
             (Some ''Refund was within the configured approval threshold'') (rf_order_id refund))
       | Some a \<Rightarrow> set_refund refund_id (\<lambda>r. r\<lparr>rf_approval_id := Some (row_id a)\<rparr>))
     (ret approval))))"

text \<open>\<open>Decimal(requested_amount)\<close> of a JSON value; a string that spells a number is a \<open>JDec\<close>.\<close>

fun to_decimal :: "json option \<Rightarrow> exn + rat" where
  "to_decimal (Some (JDec d)) = Inr d"
| "to_decimal (Some (JInt i)) = Inr (of_int i)"
| "to_decimal (Some (JBool b)) = Inr (if b then 1 else 0)"
| "to_decimal (Some (JStr _)) = Inl (Exn InvalidOperation ''[<class 'decimal.ConversionSyntax'>]'')"
| "to_decimal (Some (JList _)) = Inl (Exn ValueError ''Invalid tuple size in creation of Decimal from list or tuple.  The list or tuple should have exactly three elements.'')"
| "to_decimal (Some (JObj _)) = Inl (Exn TypeError ''conversion from dict to Decimal is not supported'')"
| "to_decimal (Some JNull) = Inl (Exn TypeError ''conversion from NoneType to Decimal is not supported'')"
| "to_decimal None = Inl (Exn TypeError ''conversion from NoneType to Decimal is not supported'')"

text \<open>\<open>requested_id != str(refund.id) or Decimal(requested_amount) != refund.amount\<close>; the amount is read only for a matching id.\<close>

definition payload_differs :: "dict \<Rightarrow> Refund \<Rightarrow> exn + bool" where
  "payload_differs payload r =
     (if dict_get payload ''refund_id'' \<noteq> Some (JStr (uuid_str (row_id r))) then Inr True
      else rbind (to_decimal (dict_get payload ''amount'')) (\<lambda>amt. Inr (amt \<noteq> rf_amount r)))"

definition approve_refund :: "Approval \<Rightarrow> unit op" where
  "approve_refund approval =
     bind (get_row refunds (ap_resource_id approval)) (\<lambda>found.
     bind (the_or (Exn RefundApprovalError ''Refund approval references missing data'')
       (if ap_resource_type approval \<noteq> ''refund'' then None else found)) (\<lambda>refund.
     andthen (raise_if (rf_status refund \<noteq> Refund_PROPOSED) (Exn RefundApprovalError ''Refund is no longer proposed''))
     (bind (of_result (payload_differs (ap_requested_payload approval) refund)) (\<lambda>differs.
      andthen (raise_if differs (Exn RefundApprovalError ''Refund approval payload does not match the refund''))
      (andthen (set_refund (row_id refund) (\<lambda>r. r\<lparr>rf_status := Refund_APPROVED\<rparr>))
      (write_audit ''human''
        (case ap_decided_by approval of Some who \<Rightarrow> if who = [] then ''unknown'' else who | None \<Rightarrow> ''unknown'')
        ''refund.approved'' ''refund'' (row_id refund) approved_state (ap_rationale approval) (rf_order_id refund)))))))"

definition register_refund_approval_handler :: "ApprovalActionRegistry \<Rightarrow> exn + ApprovalActionRegistry" where
  "register_refund_approval_handler reg = register_action (action_type_value REFUND_ACTION) approve_refund reg"

section \<open>Every approved refund was permitted\<close>

definition refund_approved_by :: "Approval list \<Rightarrow> Refund \<Rightarrow> bool" where
  "refund_approved_by aps r \<longleftrightarrow> (\<exists>a \<in> set aps. ap_status a = Approval_APPROVED \<and> ap_resource_type a = ''refund'' \<and>
     ap_resource_id a = row_id r \<and> payload_differs (ap_requested_payload a) r = Inr False)"

definition refund_justified :: "ApprovalEngine \<Rightarrow> Approval list \<Rightarrow> Refund \<Rightarrow> bool" where
  "refund_justified E aps r \<longleftrightarrow> (rf_status r = Refund_APPROVED \<longrightarrow>
     decision (evaluate (engine_policy E) (refund_context (rf_amount r))) = ALLOW \<or> refund_approved_by aps r)"

definition refunds_ok :: "ApprovalEngine \<Rightarrow> db \<Rightarrow> bool" where
  "refunds_ok E s \<longleftrightarrow> ids_ok (next_id s) (refunds s) \<and> ids_ok (next_id s) (approvals s) \<and>
     (\<forall>r \<in> set (refunds s). refund_justified E (approvals s) r)"

lemma payload_differs_part [simp]:
  "payload_differs p (r\<lparr>rf_approval_id := x\<rparr>) = payload_differs p r" "payload_differs p (r\<lparr>rf_status := st\<rparr>) = payload_differs p r"
  by (simp_all add: payload_differs_def)

lemma justified_part [simp]: "refund_justified E aps (r\<lparr>rf_approval_id := x\<rparr>) = refund_justified E aps r"
  by (simp add: refund_justified_def refund_approved_by_def)

lemma list_all2_in: "list_all2 P xs ys \<Longrightarrow> x \<in> set xs \<Longrightarrow> \<exists>y \<in> set ys. P x y"
  by (induction rule: list_all2_induct) auto

lemma approved_by_moves:
  assumes "list_all2 approval_moves aps bps" "refund_approved_by aps r" shows "refund_approved_by bps r"
  using assms(2) assms(1) unfolding refund_approved_by_def
proof (elim bexE conjE)
  fix a assume a: "a \<in> set aps" "ap_status a = Approval_APPROVED" "ap_resource_type a = ''refund''" "ap_resource_id a = row_id r"
    "payload_differs (ap_requested_payload a) r = Inr False"
  obtain b where b: "b \<in> set bps" "approval_moves a b"
    using list_all2_in [OF assms(1) a(1)] by blast
  then show "\<exists>b\<in>set bps. ap_status b = Approval_APPROVED \<and> ap_resource_type b = ''refund'' \<and> ap_resource_id b = row_id r \<and>
      payload_differs (ap_requested_payload b) r = Inr False"
    using a request_part_eqD [of b a] by (intro bexI [of _ b]) (auto simp: approval_moves_def)
qed

lemma approved_by_append: "refund_approved_by aps r \<Longrightarrow> refund_approved_by (aps @ [a]) r"
  by (auto simp: refund_approved_by_def)

lemma refunds_decision:
  assumes "refunds_ok E s" "but_decisions t = but_decisions s" "next_id s \<le> next_id t"
    and m: "list_all2 approval_moves (approvals s) (approvals t)"
  shows "refunds_ok E t"
  using assms moves_ids_ok [OF m, of "next_id s" "next_id t"] approved_by_moves [OF m] but_decisionsD(3) [OF assms(2)]
  by (auto simp: refunds_ok_def refund_justified_def intro: ids_ok_mono)

interpretation refunds: approval_invariant "refunds_ok E" for E
proof
  show "refunds_ok E t" if "refunds_ok E s" "tables_of t = tables_of s" "next_id s \<le> next_id t" for s t
    using that tables_ofD [OF that(2)] by (auto simp: refunds_ok_def intro: ids_ok_mono)
  show "ids_ok (next_id s) (approvals s)" if "refunds_ok E s" for s
    using that by (simp add: refunds_ok_def)
qed (rule refunds_decision)

lemma set_refund_ok:
  assumes "refunds_ok E s" "\<And>r. row_id (f r) = row_id r"
    and "\<And>r. row (refunds s) i = Some r \<Longrightarrow> refund_justified E (approvals s) (f r)"
  shows "wp (set_refund i f) (\<lambda>_ t. refunds_ok E t) X s"
proof -
  have "refund_justified E (approvals s) r" if r: "r \<in> set (update_rows i f (refunds s))" for r
  proof -
    obtain e where e: "e \<in> set (refunds s)" "r = (if row_id e = i then f e else e)"
      using r unfolding set_update_rows by blast
    then have "row (refunds s) (row_id e) = Some e"
      using assms(1) row_in_set [OF ids_ok_distinct] unfolding refunds_ok_def by blast
    then show ?thesis using e assms(1,3) by (auto simp: refunds_ok_def)
  qed
  then show ?thesis
    using assms(1,2) by (auto simp: set_refund_def wp_set_row refunds_ok_def intro: ids_ok_update)
qed

lemma write_audit_ok:
  assumes "refunds_ok E s" shows "wp (write_audit ty a b c d e g h) (\<lambda>_ t. refunds_ok E t) X s"
  by (simp add: write_audit_def wp_simps) (rule refunds.decision [OF assms], simp_all add: moves_refl)

text \<open>A request adds at most a row to the approvals.\<close>

lemma request_refund_wp:
  assumes "refunds_ok E s"
  shows "wp (request_if_required E ctx req) (\<lambda>r t. refunds_ok E t \<and> refunds t = refunds s \<and>
     (r = None \<longrightarrow> decision (evaluate (engine_policy E) ctx) = ALLOW)) (\<lambda>_ _. False) s"
proof (cases rule: evaluate_cases [of "engine_policy E" ctx])
  case allow
  then show ?thesis using assms by (simp add: request_if_required_def wp_def run_simps)
next
  case (ask r)
  obtain x t where c: "create_request E req (rule_name r) (rule_version r) s = (x, t)" by force
  then have "\<exists>a. x = Inr a \<and> refunds_ok E t \<and> refunds t = refunds s"
  proof (cases rule: create_request_cases)
    case (existing a)
    then show ?thesis using refunds.flushed [OF assms] by simp
  next
    case (new a)
    have "but_decisions t = but_decisions s" by (rule but_decisions_part) (rule new)
    note same = but_decisionsD(3) [OF this]
    have "refunds_ok E t"
      using assms new(3,5,9) same unfolding refunds_ok_def refund_justified_def
      by (auto intro: ids_ok_mono ids_ok_append approved_by_append)
    with same new(2) show ?thesis by blast
  qed
  then show ?thesis using ask c by (auto simp: request_if_required_def wp_def run_simps)
qed

lemma request_approval_keeps:
  assumes "refunds_ok E s" shows "wp (request_approval E i who why) (\<lambda>_ t. refunds_ok E t) (\<lambda>_ _. True) s"
proof (cases "row (refunds s) i")
  case None
  then show ?thesis by (simp add: request_approval_def wp_simps)
next
  case (Some r)
  have fin: "wp (andthen (case x of
         None \<Rightarrow>
           andthen (set_refund i (\<lambda>r. r\<lparr>rf_status := Refund_APPROVED\<rparr>))
           (write_audit ''system'' ''refund-policy'' ''refund.auto_approved'' ''refund'' i approved_state
             (Some ''Refund was within the configured approval threshold'') (rf_order_id r))
       | Some a \<Rightarrow> set_refund i (\<lambda>r. r\<lparr>rf_approval_id := Some (row_id a)\<rparr>)) (ret x)) (\<lambda>_ t. refunds_ok E t) (\<lambda>_ _. True) t"
    if t: "refunds_ok E t" "refunds t = refunds s"
      and x: "x = None \<longrightarrow> decision (evaluate (engine_policy E) (refund_context (rf_amount r))) = ALLOW" for x t
  proof (cases x)
    case None
    have set: "wp (set_refund i (\<lambda>r. r\<lparr>rf_status := Refund_APPROVED\<rparr>)) (\<lambda>_ t. refunds_ok E t) (\<lambda>_ _. True) t"
      by (rule set_refund_ok [OF t(1)]) (use t(2) Some x None in \<open>simp_all add: refund_justified_def\<close>)
    show ?thesis unfolding None option.case wp_andthen
      by (rule wp_mono [OF set], rule wp_mono [OF write_audit_ok [where X = "\<lambda>_ _. False"]], assumption) (auto simp: wp_ret)
  next
    case (Some a)
    have "refund_justified E (approvals t) r'" if "row (refunds t) i = Some r'" for r'
      using t(1) row_Some_iff [OF that] by (simp add: refunds_ok_def)
    then have set: "wp (set_refund i (\<lambda>r. r\<lparr>rf_approval_id := Some (row_id a)\<rparr>)) (\<lambda>_ t. refunds_ok E t) (\<lambda>_ _. True) t"
      by (intro set_refund_ok [OF t(1)]) simp_all
    show ?thesis unfolding Some option.case wp_andthen by (rule wp_mono [OF set]) (simp_all add: wp_ret)
  qed
  show ?thesis
  proof (cases "rf_status r = Refund_PROPOSED")
    case True
    show ?thesis
      unfolding request_approval_def wp_bind wp_get_row Some
      by (simp only: wp_the_or option.case if_False True not_True_eq_False simp_thms)
        (rule wp_mono [OF request_refund_wp [OF assms]], auto intro: fin)
  next
    case False
    then show ?thesis using Some by (simp add: request_approval_def wp_simps)
  qed
qed

lemma to_decimal_class: "to_decimal v = Inl e \<Longrightarrow> exn_class e \<noteq> ApprovalExpiredError"
  by (cases v rule: to_decimal.cases) auto

lemma payload_differs_class: "payload_differs p r = Inl e \<Longrightarrow> exn_class e \<noteq> ApprovalExpiredError"
  by (auto simp: payload_differs_def rbind_def dest: to_decimal_class split: if_splits sum.splits)

lemma approve_refund_keeps:
  assumes "refunds_ok E s" "row (approvals s) (row_id a) = Some a" "ap_status a = Approval_APPROVED"
  shows "wp (approve_refund a) (\<lambda>_ t. refunds_ok E t) (\<lambda>e _. exn_class e \<noteq> ApprovalExpiredError) s"
proof (cases "ap_resource_type a = ''refund'' \<and> row (refunds s) (ap_resource_id a) \<noteq> None")
  case False
  then show ?thesis by (auto simp: approve_refund_def wp_simps split: option.split)
next
  case True
  then obtain r where r: "row (refunds s) (ap_resource_id a) = Some r" by auto
  then have id: "row_id r = ap_resource_id a" by blast
  show ?thesis
  proof (cases "rf_status r = Refund_PROPOSED \<and> payload_differs (ap_requested_payload a) r = Inr False")
    case ok: True
    have "refund_approved_by (approvals s) (r\<lparr>rf_status := Refund_APPROVED\<rparr>)"
      unfolding refund_approved_by_def
      by (rule bexI [of _ a]) (use assms(2,3) ok True id in \<open>auto dest: row_Some_iff\<close>)
    then have set: "wp (set_refund (row_id r) (\<lambda>r. r\<lparr>rf_status := Refund_APPROVED\<rparr>)) (\<lambda>_ t. refunds_ok E t) (\<lambda>_ _. False) s"
      by (intro set_refund_ok [OF assms(1)]) (use r id in \<open>auto simp: refund_justified_def\<close>)
    show ?thesis using True ok r
      by (simp add: approve_refund_def wp_bind wp_get_row wp_the_or wp_andthen wp_raise_if wp_of_result)
        (rule wp_mono [OF set], rule write_audit_ok, simp_all)
  next
    case False
    then show ?thesis using True r
      by (auto simp: approve_refund_def wp_simps payload_differs_class split: sum.split)
  qed
qed

section \<open>Runs\<close>

text \<open>An engine whose handler of refunds is this one; the other handlers leave refunds and approvals alone.\<close>

definition refunds_engine :: "ApprovalEngine \<Rightarrow> bool" where
  "refunds_engine E \<longleftrightarrow> get_action (engine_registry E) (action_type_value REFUND_ACTION) = Some approve_refund \<and>
     (\<forall>ty h a. ty \<noteq> action_type_value REFUND_ACTION \<longrightarrow> get_action (engine_registry E) ty = Some h \<longrightarrow>
        keeps refunds (h a) \<and> keeps approvals (h a) \<and> advances (h a) \<and>
        (\<forall>s e. fst (h a s) = Inl e \<longrightarrow> exn_class e \<noteq> ApprovalExpiredError))"

lemma refunds_engine_keeps:
  assumes "refunds_engine E" shows "handlers_keep (refunds_ok E) E"
  unfolding handlers_keep_def
proof (intro allI impI)
  fix ty h a u
  assume h: "get_action (engine_registry E) ty = Some h" and u: "refunds_ok E u" "row (approvals u) (row_id a) = Some a"
    "ap_action_type a = ty" "ap_status a = Approval_APPROVED"
  show "wp (h a) (\<lambda>_. refunds_ok E) (\<lambda>e _. exn_class e \<noteq> ApprovalExpiredError) u"
  proof (cases "ty = action_type_value REFUND_ACTION")
    case True
    then have "h = approve_refund" using assms h by (simp add: refunds_engine_def)
    then show ?thesis using approve_refund_keeps [OF u(1,2,4)] by simp
  next
    case False
    then have k: "keeps refunds (h a)" "keeps approvals (h a)" "advances (h a)"
      "\<And>s e. fst (h a s) = Inl e \<Longrightarrow> exn_class e \<noteq> ApprovalExpiredError"
      using assms h unfolding refunds_engine_def by blast+
    have "refunds_ok E (snd (h a u))"
      using u(1) keeps_snd [OF k(1), of u] keeps_snd [OF k(2), of u] k(3)
      by (auto simp: refunds_ok_def advances_def intro: ids_ok_mono)
    then show ?thesis using k(4) by (auto simp: wp_def split: sum.split)
  qed
qed

datatype refund_call =
    RequestRefund uuid string string
  | ApproveRefund string uuid string string
  | RejectRefund string uuid string string

fun run_refund_call :: "ApprovalEngine \<Rightarrow> refund_call \<Rightarrow> db \<Rightarrow> db" where
  "run_refund_call E (RequestRefund i who why) s = snd (transaction (request_approval E i who why) s)"
| "run_refund_call E (ApproveRefund p i who why) s = snd (approve_endpoint E p i who why s)"
| "run_refund_call E (RejectRefund p i who why) s = snd (reject_endpoint p i who why s)"

fun run_refunds :: "ApprovalEngine \<Rightarrow> refund_call list \<Rightarrow> db \<Rightarrow> db" where
  "run_refunds E [] s = s"
| "run_refunds E (c # cs) s = run_refunds E cs (run_refund_call E c s)"

lemma run_refund_call_keeps:
  assumes "refunds_engine E" "refunds_ok E s" shows "refunds_ok E (run_refund_call E c s)"
proof (cases c)
  case (RequestRefund i who why)
  have "refunds_ok E (snd (transaction (request_approval E i who why) s))"
    by (rule refunds.transaction_keeps [OF assms(2)]) (rule wp_InrD [OF request_approval_keeps [OF assms(2)]])
  with RequestRefund show ?thesis by simp
qed (use refunds.endpoints_keep [OF assms(2)] refunds_engine_keeps [OF assms(1)] in simp_all)

lemma run_refunds_keeps: "refunds_engine E \<Longrightarrow> refunds_ok E s \<Longrightarrow> refunds_ok E (run_refunds E cs s)"
  by (induction cs arbitrary: s) (simp_all add: run_refund_call_keeps)

text \<open>
  C8: over any sequence of requests and decisions, a refund is approved only if the policy lets its amount pass without a human, or
  a human approved an approval of this refund whose payload names the refund and its amount.
\<close>

theorem approved_refund_permitted:
  assumes "refunds_ok E s" and "refunds_engine E"
    and "r \<in> set (refunds (run_refunds E cs s))" and "rf_status r = Refund_APPROVED"
  shows "decision (evaluate (engine_policy E) (refund_context (rf_amount r))) = ALLOW \<or>
    (\<exists>a \<in> set (approvals (run_refunds E cs s)). ap_status a = Approval_APPROVED \<and> ap_resource_id a = row_id r \<and>
       dict_get (ap_requested_payload a) ''refund_id'' = Some (JStr (uuid_str (row_id r))) \<and>
       to_decimal (dict_get (ap_requested_payload a) ''amount'') = Inr (rf_amount r))"
proof -
  have "refund_justified E (approvals (run_refunds E cs s)) r"
    using run_refunds_keeps [OF assms(2,1), of cs] assms(3) by (simp add: refunds_ok_def)
  then show ?thesis using assms(4)
    by (auto simp: refund_justified_def refund_approved_by_def payload_differs_def rbind_Inr_iff split: if_splits)
qed

definition sample_refund :: Refund where
  "sample_refund = \<lparr>row_id = 3, row_created_at = 0, rf_order_id = 2, rf_return_id = None, rf_approval_id = None,
     rf_marketplace = ''ebay'', rf_marketplace_account_id = ''acct'', rf_external_refund_id = None, rf_amount = 80,
     rf_currency = ''GBP'', rf_reason = ''damaged'', rf_status = Refund_PROPOSED\<rparr>"

definition refund_engine :: ApprovalEngine where
  "refund_engine = \<lparr>engine_policy = policy_from_settings 10 50, default_expiry_hours = 72,
     engine_registry = [(''refund'', approve_refund)], digest = (\<lambda>_. ''h'')\<rparr>"

definition refund_db :: db where
  "refund_db = (empty_db 7)\<lparr>next_id := 5, refunds := [sample_refund]\<rparr>"

lemma refund_engine_ok: "refunds_engine refund_engine" "refunds_ok refund_engine refund_db"
  by (simp_all add: refunds_engine_def refund_engine_def get_action_def refunds_ok_def refund_db_def empty_db_def
      ids_ok_def refund_justified_def sample_refund_def)

lemma sample_requested:
  "\<exists>a. approvals (run_refund_call refund_engine (RequestRefund 3 ''ann'' ''damaged'') refund_db) = [a] \<and> row_id a = 5 \<and>
     ap_status a = Approval_PENDING \<and> ap_expires_at a = Some (7 + hours 72) \<and> ap_action_type a = ''refund'' \<and>
     ap_resource_type a = ''refund'' \<and> ap_resource_id a = 3 \<and> ap_workflow_run_id a = None \<and>
     ap_requested_payload a = refund_action sample_refund \<and>
   clock (run_refund_call refund_engine (RequestRefund 3 ''ann'' ''damaged'') refund_db) = 7 \<and>
   refunds (run_refund_call refund_engine (RequestRefund 3 ''ann'' ''damaged'') refund_db) = [sample_refund\<lparr>rf_approval_id := Some 5\<rparr>]"
proof -
  have r: "row_id sample_refund = 3" "rf_amount sample_refund = 80" "rf_status sample_refund = Refund_PROPOSED"
    by (simp_all add: sample_refund_def)
  show ?thesis
    using r by (simp add: refund_db_def empty_db_def run_simps request_approval_def transaction_def Let_def refund_request_def
      request_if_required_def create_request_def refund_context_def approval_context_def refund_engine_def policy_from_settings_def
      audit_approval_def set_refund_def row_Cons update_rows_Cons)
qed

text \<open>A refund of 80 waits for a human, who approves it.\<close>

theorem approved_refund_permitted_witness:
  "\<exists>r (a :: Approval). r \<in> set (refunds (run_refunds refund_engine [RequestRefund 3 ''ann'' ''damaged'', ApproveRefund ''anonymous'' 5 ''bob'' ''ok'']
       refund_db)) \<and> rf_status r = Refund_APPROVED \<and>
     a \<in> set (approvals (run_refunds refund_engine [RequestRefund 3 ''ann'' ''damaged'', ApproveRefund ''anonymous'' 5 ''bob'' ''ok'']
       refund_db)) \<and> ap_status a = Approval_APPROVED \<and> ap_resource_id a = row_id r \<and>
     to_decimal (dict_get (ap_requested_payload a) ''amount'') = Inr (rf_amount r)"
proof -
  let ?cs = "[RequestRefund 3 ''ann'' ''damaged'', ApproveRefund ''anonymous'' 5 ''bob'' ''ok'']"
  let ?r = "sample_refund\<lparr>rf_approval_id := Some 5, rf_status := Refund_APPROVED\<rparr>"
  have r: "row_id sample_refund = 3" "rf_amount sample_refund = 80" "rf_status sample_refund = Refund_PROPOSED"
    by (simp_all add: sample_refund_def)
  obtain a where s: "approvals (run_refund_call refund_engine (RequestRefund 3 ''ann'' ''damaged'') refund_db) = [a]" "row_id a = 5"
      "ap_status a = Approval_PENDING" "ap_expires_at a = Some (7 + hours 72)" "ap_action_type a = ''refund''"
      "ap_resource_type a = ''refund''" "ap_resource_id a = 3" "ap_workflow_run_id a = None"
      "ap_requested_payload a = refund_action sample_refund"
      "clock (run_refund_call refund_engine (RequestRefund 3 ''ann'' ''damaged'') refund_db) = 7"
      "refunds (run_refund_call refund_engine (RequestRefund 3 ''ann'' ''damaged'') refund_db) = [sample_refund\<lparr>rf_approval_id := Some 5\<rparr>]"
    using sample_requested by blast
  have e: "refunds (run_refunds refund_engine ?cs refund_db) = [?r]"
    using s r by (simp del: run_refund_call.simps(1) add: approve_endpoint_def decision_response_def authenticated_actor_def approve_def
        run_simps get_approval_apply row_Cons require_pending_def past_expiry_def hours_def seconds_def Let_def set_approval_def
        resume_action_def refund_engine_def get_action_def approve_refund_def set_refund_def update_rows_Cons
        audit_approval_def decided_def payload_differs_def refund_action_def dict_get_def j_uuid_def write_audit_def)
  have "decision (evaluate (engine_policy refund_engine) (refund_context (rf_amount ?r))) \<noteq> ALLOW"
    using r by (simp add: refund_engine_def policy_from_settings_def refund_context_def approval_context_def)
  moreover have m: "?r \<in> set (refunds (run_refunds refund_engine ?cs refund_db))" "rf_status ?r = Refund_APPROVED"
    unfolding e by simp_all
  ultimately obtain a :: Approval where "a \<in> set (approvals (run_refunds refund_engine ?cs refund_db))" "ap_status a = Approval_APPROVED" "ap_resource_id a = row_id ?r"
      "to_decimal (dict_get (ap_requested_payload a) ''amount'') = Inr (rf_amount ?r)"
    using approved_refund_permitted [OF refund_engine_ok(2,1) m] by blast
  then show ?thesis using m by (intro exI [of _ ?r] exI [of _ a] conjI)
qed

end
