(* ===== verification/Stock_Ledger.thy ===== *)
theory Stock_Ledger
  imports Audit_Trail Inventory_Model
begin

text \<open>
  The stock ledger: the rows of \<open>inventory_movements\<close> account for every unit of every inventory item.
  The abstract view of an item is its pair of totals, computed from the movements alone; the columns
  \<open>quantity_on_hand\<close> and \<open>reserved_quantity\<close> are a cache of it. \<open>stock_tables_ok\<close> says so, together
  with the unique and check constraints of the two tables; \<open>stock_tables_ok_post\<close> is the one step
  that every operation on stock takes.
\<close>

section \<open>Totals of the movements\<close>

text \<open>What a movement adds to the stock on hand and to the reserved stock.\<close>

fun on_hand_effect :: "InventoryMovementType \<Rightarrow> int \<Rightarrow> int" where
  "on_hand_effect Move_RESERVATION d = 0"
| "on_hand_effect Move_RELEASE d = 0"
| "on_hand_effect _ d = d"

fun reserved_effect :: "InventoryMovementType \<Rightarrow> int \<Rightarrow> int" where
  "reserved_effect Move_RESERVATION d = d"
| "reserved_effect Move_RELEASE d = d"
| "reserved_effect Move_SHIPMENT d = d"
| "reserved_effect _ d = 0"

definition ledger_on_hand :: "InventoryMovement list \<Rightarrow> uuid \<Rightarrow> int" where
  "ledger_on_hand ms i = sum_list (map (\<lambda>m. if im_inventory_item_id m = i
     then on_hand_effect (im_movement_type m) (im_quantity_delta m) else 0) ms)"

definition ledger_reserved :: "InventoryMovement list \<Rightarrow> uuid \<Rightarrow> int" where
  "ledger_reserved ms i = sum_list (map (\<lambda>m. if im_inventory_item_id m = i
     then reserved_effect (im_movement_type m) (im_quantity_delta m) else 0) ms)"

lemma ledger_snoc:
  "ledger_on_hand (ms @ [m]) i = ledger_on_hand ms i +
     (if im_inventory_item_id m = i then on_hand_effect (im_movement_type m) (im_quantity_delta m) else 0)"
  "ledger_reserved (ms @ [m]) i = ledger_reserved ms i +
     (if im_inventory_item_id m = i then reserved_effect (im_movement_type m) (im_quantity_delta m) else 0)"
  by (simp_all add: ledger_on_hand_def ledger_reserved_def)

lemma ledger_none:
  assumes "i \<notin> im_inventory_item_id ` set ms"
  shows "ledger_on_hand ms i = 0" "ledger_reserved ms i = 0"
proof -
  have "im_inventory_item_id m \<noteq> i" if "m \<in> set ms" for m using assms that by blast
  then show "ledger_on_hand ms i = 0" "ledger_reserved ms i = 0"
    by (simp_all add: ledger_on_hand_def ledger_reserved_def cong: map_cong)
qed

section \<open>The invariant\<close>

definition stock_key :: "InventoryItem \<Rightarrow> string \<times> string" where
  "stock_key i = (ii_sku i, ii_storage_location i)"

definition stock_tables_ok :: "uuid \<Rightarrow> InventoryItem list \<Rightarrow> InventoryMovement list \<Rightarrow> bool" where
  "stock_tables_ok n items ms \<longleftrightarrow> ids_ok n items \<and> ids_ok n ms \<and> distinct (map stock_key items) \<and>
     distinct (map im_idempotency_key ms) \<and> (\<forall>m \<in> set ms. inventory_movement_checks m \<and> im_inventory_item_id m \<in> row_id ` set items) \<and>
     (\<forall>i \<in> set items. inventory_item_checks i \<and> ii_quantity_on_hand i = ledger_on_hand ms (row_id i) \<and>
        ii_reserved_quantity i = ledger_reserved ms (row_id i))"

lemma stock_tables_ok_mono: "stock_tables_ok n items ms \<Longrightarrow> n \<le> m \<Longrightarrow> stock_tables_ok m items ms"
  by (auto simp: stock_tables_ok_def intro: ids_ok_mono)

lemma stock_tables_ok_Nil [simp]: "stock_tables_ok n [] []"
  by (simp add: stock_tables_ok_def)

text \<open>A new item starts with nothing.\<close>

lemma stock_tables_ok_new:
  assumes ok: "stock_tables_ok n items ms" and i: "n \<le> row_id i" "row_id i < m" "stock_key i \<notin> stock_key ` set items"
    "inventory_item_checks i" "ii_quantity_on_hand i = 0" "ii_reserved_quantity i = 0"
  shows "stock_tables_ok m (items @ [i]) ms"
proof -
  have "row_id i \<notin> row_id ` set items" using ok i(1) by (auto simp: stock_tables_ok_def ids_ok_def)
  then have "row_id i \<notin> im_inventory_item_id ` set ms" using ok by (auto simp: stock_tables_ok_def)
  then have "ledger_on_hand ms (row_id i) = 0" "ledger_reserved ms (row_id i) = 0" by (simp_all add: ledger_none)
  moreover have "ids_ok m (items @ [i])" "ids_ok m ms"
    using ok i by (auto simp: stock_tables_ok_def intro!: ids_ok_append intro: ids_ok_mono)
  ultimately show ?thesis using ok i by (auto simp: stock_tables_ok_def)
qed

text \<open>A change of an item is posted to the ledger.\<close>

definition posts :: "InventoryItem \<Rightarrow> (InventoryItem \<Rightarrow> InventoryItem) \<Rightarrow> InventoryMovement \<Rightarrow> bool" where
  "posts r f m \<longleftrightarrow> im_inventory_item_id m = row_id r \<and> inventory_movement_checks m \<and>
     (\<forall>q. row_id (f q) = row_id q \<and> stock_key (f q) = stock_key q) \<and>
     ii_quantity_on_hand (f r) = ii_quantity_on_hand r + on_hand_effect (im_movement_type m) (im_quantity_delta m) \<and>
     ii_reserved_quantity (f r) = ii_reserved_quantity r + reserved_effect (im_movement_type m) (im_quantity_delta m)"

lemma stock_tables_ok_post:
  assumes ok: "stock_tables_ok n items ms" and r: "row items i = Some r"
    and p: "posts r f m" and checks: "inventory_item_checks (f r)"
    and fresh: "im_idempotency_key m \<notin> im_idempotency_key ` set ms" and id: "n \<le> row_id m" "row_id m < k"
  shows "stock_tables_ok k (update_rows i f items) (ms @ [m])"
proof -
  have f: "\<And>r. row_id (f r) = row_id r" "\<And>r. stock_key (f r) = stock_key r" using p by (auto simp: posts_def)
  have ri: "r \<in> set items" "row_id r = i" using r by (auto dest: row_Some_iff)
  have ids: "ids_ok k (update_rows i f items)" "ids_ok k (ms @ [m])"
    using ok id f by (auto simp: stock_tables_ok_def intro!: ids_ok_update ids_ok_append intro: ids_ok_mono)
  have keys: "map stock_key (update_rows i f items) = map stock_key items"
    using f(2) by (simp add: update_rows_def)
  have items: "row_id ` set (update_rows i f items) = row_id ` set items"
    by (metis f(1) map_id_update_rows set_map)
  have unique: "q = r" if "q \<in> set items" "row_id q = i" for q
    using ok r that ids_ok_row [of n items q] by (auto simp: stock_tables_ok_def)
  have "\<forall>q \<in> set (update_rows i f items). inventory_item_checks q \<and>
      ii_quantity_on_hand q = ledger_on_hand (ms @ [m]) (row_id q) \<and>
      ii_reserved_quantity q = ledger_reserved (ms @ [m]) (row_id q)"
  proof
    fix q assume "q \<in> set (update_rows i f items)"
    then obtain q0 where q0: "q0 \<in> set items" "q = (if row_id q0 = i then f q0 else q0)"
      by (auto simp: set_update_rows)
    have cache: "inventory_item_checks q0" "ii_quantity_on_hand q0 = ledger_on_hand ms (row_id q0)"
      "ii_reserved_quantity q0 = ledger_reserved ms (row_id q0)"
      using ok q0(1) by (auto simp: stock_tables_ok_def)
    show "inventory_item_checks q \<and> ii_quantity_on_hand q = ledger_on_hand (ms @ [m]) (row_id q) \<and>
      ii_reserved_quantity q = ledger_reserved (ms @ [m]) (row_id q)"
    proof (cases "row_id q0 = i")
      case True
      then have "q0 = r" using unique q0(1) by blast
      with True q0(2) cache p checks ri show ?thesis by (simp add: posts_def ledger_snoc)
    next
      case False
      with q0(2) cache p ri show ?thesis by (simp add: posts_def ledger_snoc)
    qed
  qed
  moreover have "i \<in> row_id ` set items" using r by (auto dest: row_Some_iff)
  moreover have "distinct (map im_idempotency_key (ms @ [m]))" using ok fresh by (simp add: stock_tables_ok_def)
  moreover have "\<forall>x \<in> set (ms @ [m]). inventory_movement_checks x \<and> im_inventory_item_id x \<in> row_id ` set items"
    using ok p ri by (auto simp: stock_tables_ok_def posts_def)
  ultimately show ?thesis using ok ids keys items unfolding stock_tables_ok_def by simp
qed

definition stock_part :: "db \<Rightarrow> InventoryItem list \<times> InventoryMovement list" where
  "stock_part s = (inventory_items s, inventory_movements s)"

definition stock_ok :: "db \<Rightarrow> bool" where
  "stock_ok s \<longleftrightarrow> stock_tables_ok (next_id s) (inventory_items s) (inventory_movements s)"

interpretation stock: unit_of_work stock_ok
proof
  fix s t :: db
  assume "stock_ok s" "tables_of t = tables_of s" "next_id s \<le> next_id t"
  then show "stock_ok t"
    by (auto simp: stock_ok_def tables_ofD [of t s] intro: stock_tables_ok_mono)
qed

end
