(* ===== verification/Procurement_Service.thy ===== *)
theory Procurement_Service
  imports Audit_Trail Approval_Engine Lifecycles
begin

text \<open>
  \<open>application/procurement.py\<close>: a procurement request from its submission for approval to the receipt
  of the goods, and its purchase order.

  A service function that the code calls with an object (\<open>request\<close>, \<open>approval\<close>) takes the row of that
  object as it is at the call; attributes that change meanwhile are read from the session again.
\<close>

section \<open>Definitions\<close>

definition list_procurements :: "nat \<Rightarrow> ProcurementRequest list op" where
  "list_procurements limit =
     bind (scalars procurement_requests (\<lambda>_. True)) (\<lambda>rows.
     ret (take limit (rev (sort_key row_created_at (rev rows)))))"

definition get_procurement :: "uuid \<Rightarrow> ProcurementRequest op" where
  "get_procurement procurement_id =
     bind (scalar procurement_requests (\<lambda>r. row_id r = procurement_id)) (\<lambda>found.
     the_or (Exn ProcurementNotFoundError (uuid_str procurement_id)) found)"

definition purchase_total :: "SupplierQuote \<Rightarrow> int \<Rightarrow> rat" where
  "purchase_total quote quantity =
     dec_add (dec_mul (sq_unit_cost quote) (of_int quantity)) (sq_shipping_cost quote)"

definition procurement_workflow :: "ProcurementRequest \<Rightarrow> WorkflowRun op" where
  "procurement_workflow request =
     bind (get_opt_row workflow_runs (pr_workflow_run_id request)) (\<lambda>found.
     the_or (Exn ProcurementNotFoundError ''Procurement workflow is missing'') found)"

definition purchase_order_of :: "uuid \<Rightarrow> PurchaseOrder op" where
  "purchase_order_of procurement_id =
     bind (scalar purchase_orders (\<lambda>p. po_procurement_request_id p = procurement_id)) (\<lambda>found.
     the_or (Exn PurchaseOrderNotFoundError (uuid_str procurement_id)) found)"

definition set_request :: "uuid \<Rightarrow> (ProcurementRequest \<Rightarrow> ProcurementRequest) \<Rightarrow> unit op" where
  "set_request = set_row procurement_requests procurement_requests_update"

definition set_purchase_order :: "uuid \<Rightarrow> (PurchaseOrder \<Rightarrow> PurchaseOrder) \<Rightarrow> unit op" where
  "set_purchase_order = set_row purchase_orders purchase_orders_update"

definition apply_transition :: "ProcurementRequest \<Rightarrow> ProcurementStatus \<Rightarrow> string \<Rightarrow> string \<Rightarrow> unit op" where
  "apply_transition request target actor reason =
     bind (of_result (transition (pr_status request) target)) (\<lambda>change.
     andthen (set_request (row_id request) (\<lambda>r. r\<lparr>pr_status := target\<rparr>))
     (andthen flush
     (bind (procurement_workflow request) (\<lambda>workflow.
      andthen (add_audit actor ''procurement.status_changed'' ''procurement_request'' (row_id request)
        (Some [(''status'', JStr (procurement_value (pt_previous change)))])
        (Some [(''status'', JStr (procurement_value (pt_current change)))])
        (Some reason) (wf_correlation_id workflow))
     (bind (version_of (row_id request)) (\<lambda>request_version.
      bind (emit (ProcurementStatusChangedPayload (row_id request)
                    (procurement_value (pt_previous change)) (procurement_value (pt_current change)) actor)
             ''procurement_request'' (row_id request) request_version
             (''procurement-status:'' @ uuid_str (row_id request) @ '':'' @ procurement_value target)
             (Some (wf_correlation_id workflow)) (Some (row_id workflow)) None) (\<lambda>_. ret ())))))))"

text \<open>The action that the approval is bound to.\<close>

definition purchase_action :: "SupplierQuote \<Rightarrow> int \<Rightarrow> dict" where
  "purchase_action quote quantity =
     [(''operation'', JStr ''create_purchase_order''), (''supplier_id'', j_uuid (sq_supplier_id quote)),
      (''quote_id'', j_uuid (row_id quote)), (''quantity'', JInt quantity),
      (''unit_cost'', JDec (sq_unit_cost quote)), (''shipping_cost'', JDec (sq_shipping_cost quote)),
      (''total_amount'', JDec (purchase_total quote quantity)), (''currency'', JStr (sq_currency quote))]"

definition submit_for_approval :: "ApprovalEngine \<Rightarrow> uuid \<Rightarrow> string \<Rightarrow> string \<Rightarrow> Approval op" where
  "submit_for_approval E procurement_id requester reason =
     bind (get_procurement procurement_id) (\<lambda>request.
     bind (get_row supplier_quotes (pr_selected_quote_id request)) (\<lambda>found.
     bind (the_or (Exn ProcurementNotFoundError ''Selected supplier quote is missing'') found) (\<lambda>quote.
     andthen (raise_if (pr_requested_quantity request < sq_moq quote)
       (Exn ProcurementValidationError (''Requested quantity '' @ int_str (pr_requested_quantity request) @
          '' is below MOQ '' @ int_str (sq_moq quote))))
     (andthen (apply_transition request Procurement_AWAITING_APPROVAL requester reason)
     (bind (request_if_required E
              ((approval_context SUPPLIER_PURCHASE)
                 \<lparr>ctx_amount := Some (purchase_total quote (pr_requested_quantity request)),
                  ctx_risk_level := ''financial''\<rparr>)
              \<lparr>rq_action_type = action_type_value SUPPLIER_PURCHASE,
               rq_resource_type = ''procurement_request'', rq_resource_id = row_id request,
               rq_requested_action = purchase_action quote (pr_requested_quantity request),
               rq_reason = reason, rq_requester = requester, rq_risk_level = ''financial'',
               rq_workflow_run_id = pr_workflow_run_id request, rq_expires_at = None\<rparr>) (\<lambda>requested.
      bind (the_or (Exn RuntimeError ''Supplier purchase policy unexpectedly allowed the purchase'') requested)
        (\<lambda>approval.
      bind (procurement_workflow request) (\<lambda>workflow.
      bind (version_of (row_id request)) (\<lambda>request_version.
      bind (emit (ProcurementRequestedPayload (row_id request) (pr_product_id request) (pr_requested_quantity request))
             ''procurement_request'' (row_id request) request_version
             (''procurement-requested:'' @ uuid_str (row_id request))
             (Some (wf_correlation_id workflow)) (Some (row_id workflow)) None) (\<lambda>_.
      andthen (set_workflow (row_id workflow)
        (\<lambda>w. w\<lparr>wf_current_step := Some ''awaiting_purchase_approval''\<rparr>))
      (ret approval)))))))))))"

text \<open>\<open>f"PO-{request.id.hex[:12].upper()}"\<close>\<close>

definition upper_hex :: "char \<Rightarrow> char" where
  "upper_hex c = (if c = CHR ''a'' then CHR ''A'' else if c = CHR ''b'' then CHR ''B''
     else if c = CHR ''c'' then CHR ''C'' else if c = CHR ''d'' then CHR ''D''
     else if c = CHR ''e'' then CHR ''E'' else if c = CHR ''f'' then CHR ''F'' else c)"

definition po_number_of :: "uuid \<Rightarrow> string" where
  "po_number_of i = ''PO-'' @ map upper_hex (take 12 (uuid_hex i))"

definition create_purchase_order :: "ProcurementRequest \<Rightarrow> Approval \<Rightarrow> PurchaseOrder op" where
  "create_purchase_order request approval =
     bind (scalar purchase_orders (\<lambda>p. po_procurement_request_id p = row_id request)) (\<lambda>existing.
     case existing of Some p \<Rightarrow> ret p
     | None \<Rightarrow>
       bind (get_row supplier_quotes (pr_selected_quote_id request)) (\<lambda>found.
       bind (the_or (Exn ProcurementNotFoundError ''Selected supplier quote is missing'') found) (\<lambda>quote.
       bind (gets purchase_orders) (\<lambda>stored.
       bind new_uuid (\<lambda>order_id.
       bind now_utc (\<lambda>now.
       let purchase_order = \<lparr>row_id = order_id, row_created_at = now,
             po_procurement_request_id = row_id request, po_supplier_id = sq_supplier_id quote,
             po_po_number = po_number_of (row_id request), po_quantity = pr_requested_quantity request,
             po_received_quantity = 0,
             po_total_amount = purchase_total quote (pr_requested_quantity request),
             po_actual_landed_cost = None, po_currency = sq_currency quote,
             po_terms = [(''approval_id'', j_uuid (row_id approval))], po_external_reference = None,
             po_status = PO_APPROVED, po_ordered_at = None, po_shipped_at = None, po_received_at = None,
             po_expected_arrival_at = pr_expected_arrival_at request\<rparr> in
       andthen (raise_if (\<exists>p \<in> set stored. po_po_number p = po_number_of (row_id request))
         (Exn IntegrityError ''uq_purchase_orders_po_number''))
       (andthen (add_row purchase_orders_update purchase_order)
       (andthen flush
       (bind (procurement_workflow request) (\<lambda>workflow.
        bind (version_of order_id) (\<lambda>order_version.
        bind (emit (PurchaseOrderCreatedPayload order_id (row_id request) (po_number_of (row_id request)))
               ''purchase_order'' order_id order_version
               (''purchase-order-created:'' @ uuid_str (row_id request))
               (Some (wf_correlation_id workflow)) (Some (row_id workflow)) None) (\<lambda>_.
        ret purchase_order))))))))))))"

definition approve_purchase :: "Approval \<Rightarrow> unit op" where
  "approve_purchase approval =
     andthen (raise_if (ap_resource_type approval \<noteq> ''procurement_request'')
       (Exn RuntimeError ''Supplier purchase approval references the wrong entity type''))
     (bind (get_procurement (ap_resource_id approval)) (\<lambda>request.
      andthen (apply_transition request Procurement_APPROVED
        (case ap_decided_by approval of Some a \<Rightarrow> if a = [] then ''approval-engine'' else a
           | None \<Rightarrow> ''approval-engine'')
        (case ap_rationale approval of Some r \<Rightarrow> if r = [] then ''Purchase approved'' else r
           | None \<Rightarrow> ''Purchase approved''))
      (bind (procurement_workflow request) (\<lambda>workflow.
       bind (version_of (row_id request)) (\<lambda>request_version.
       bind (emit (PurchaseApprovedPayload (row_id request) (row_id approval))
              ''procurement_request'' (row_id request) request_version
              (''purchase-approved:'' @ uuid_str (row_id request))
              (Some (wf_correlation_id workflow)) (Some (row_id workflow)) None) (\<lambda>_.
       bind (create_purchase_order request approval) (\<lambda>_.
       set_workflow (row_id workflow) (\<lambda>w. w\<lparr>wf_current_step := Some ''purchase_order_created''\<rparr>))))))))"

text \<open>\<open>now or datetime.now(UTC)\<close>\<close>

definition mark_ordered :: "uuid \<Rightarrow> string \<Rightarrow> string \<Rightarrow> string option \<Rightarrow> datetime option \<Rightarrow> ProcurementRequest op"
  where
  "mark_ordered procurement_id actor reason external_reference at_time =
     bind (get_procurement procurement_id) (\<lambda>request.
     bind (purchase_order_of (row_id request)) (\<lambda>purchase_order.
     bind (time_or_now at_time) (\<lambda>now.
     andthen (apply_transition request Procurement_ORDERED actor reason)
     (andthen (set_purchase_order (row_id purchase_order)
        (\<lambda>p. p\<lparr>po_status := PO_SUBMITTED, po_ordered_at := Some now,
               po_external_reference := external_reference\<rparr>))
     (reload procurement_requests procurement_id)))))"

definition mark_shipped :: "uuid \<Rightarrow> string \<Rightarrow> string \<Rightarrow> datetime option \<Rightarrow> datetime option \<Rightarrow> ProcurementRequest op"
  where
  "mark_shipped procurement_id actor reason expected_arrival_at at_time =
     bind (get_procurement procurement_id) (\<lambda>request.
     bind (purchase_order_of (row_id request)) (\<lambda>purchase_order.
     bind (time_or_now at_time) (\<lambda>now.
     andthen (apply_transition request Procurement_SHIPPED actor reason)
     (andthen (set_purchase_order (row_id purchase_order)
        (\<lambda>p. p\<lparr>po_status := PO_SHIPPED, po_shipped_at := Some now\<rparr>))
     (andthen (case expected_arrival_at of None \<Rightarrow> ret ()
        | Some e \<Rightarrow>
            andthen (set_request (row_id request) (\<lambda>r. r\<lparr>pr_expected_arrival_at := Some e\<rparr>))
            (set_purchase_order (row_id purchase_order) (\<lambda>p. p\<lparr>po_expected_arrival_at := Some e\<rparr>)))
     (reload procurement_requests procurement_id))))))"

definition mark_received :: "uuid \<Rightarrow> string \<Rightarrow> string \<Rightarrow> datetime option \<Rightarrow> ProcurementRequest op" where
  "mark_received procurement_id actor reason at_time =
     bind (get_procurement procurement_id) (\<lambda>request.
     bind (purchase_order_of (row_id request)) (\<lambda>purchase_order.
     bind (time_or_now at_time) (\<lambda>now.
     andthen (apply_transition request Procurement_RECEIVED actor reason)
     (andthen (set_purchase_order (row_id purchase_order)
        (\<lambda>p. p\<lparr>po_status := PO_RECEIVED, po_received_at := Some now\<rparr>))
     (bind (procurement_workflow request) (\<lambda>workflow.
      andthen (set_workflow (row_id workflow)
        (\<lambda>w. w\<lparr>wf_status := Run_SUCCEEDED, wf_current_step := Some ''goods_received''\<rparr>))
     (reload procurement_requests procurement_id)))))))"

definition cancel_procurement :: "uuid \<Rightarrow> string \<Rightarrow> string \<Rightarrow> ProcurementRequest op" where
  "cancel_procurement procurement_id actor reason =
     bind (get_procurement procurement_id) (\<lambda>request.
     andthen (apply_transition request Procurement_CANCELLED actor reason)
     (bind (scalar purchase_orders (\<lambda>p. po_procurement_request_id p = procurement_id)) (\<lambda>found.
      andthen (case found of None \<Rightarrow> ret ()
        | Some p \<Rightarrow> set_purchase_order (row_id p) (\<lambda>p. p\<lparr>po_status := PO_CANCELLED\<rparr>))
      (bind (procurement_workflow request) (\<lambda>workflow.
       andthen (set_workflow (row_id workflow)
         (\<lambda>w. w\<lparr>wf_status := Run_CANCELLED, wf_current_step := Some ''cancelled''\<rparr>))
       (reload procurement_requests procurement_id))))))"

definition register_procurement_approval_handler ::
  "ApprovalActionRegistry \<Rightarrow> exn + ApprovalActionRegistry" where
  "register_procurement_approval_handler reg =
     register_action (action_type_value SUPPLIER_PURCHASE) approve_purchase reg"

section \<open>Frames\<close>

lemma keeps_procurement_workflow [keeps_intros]: "keeps f (procurement_workflow r)"
  unfolding procurement_workflow_def by (intro keeps_intros)


lemma get_procurement_apply [run_simps]: "get_procurement i s =
    (case row (procurement_requests s) i of None \<Rightarrow> Inl (Exn ProcurementNotFoundError (uuid_str i)) | Some r \<Rightarrow> Inr r,
     flush_db s)"
  by (simp add: get_procurement_def run_simps find_row split: option.split)

lemma wp_get_procurement [wp_simps]: "wp (get_procurement i) Q E s =
    (case row (procurement_requests s) i of None \<Rightarrow> E (Exn ProcurementNotFoundError (uuid_str i)) (flush_db s)
     | Some r \<Rightarrow> Q r (flush_db s))"
  by (simp add: wp_def run_simps split: option.split)

lemma wp_purchase_order_of [wp_simps]: "wp (purchase_order_of i) Q E s =
    (case find (\<lambda>p. po_procurement_request_id p = i) (purchase_orders s) of
       None \<Rightarrow> E (Exn PurchaseOrderNotFoundError (uuid_str i)) (flush_db s)
     | Some p \<Rightarrow> Q p (flush_db s))"
  by (simp add: purchase_order_of_def wp_simps split: option.split)

lemma advances_setters [simp]:
  "advances (set_request i f)" "advances (set_purchase_order i g)" "advances (set_workflow i h)"
  by (simp_all add: set_request_def set_purchase_order_def set_workflow_def advances_writes)

lemma advances_readers [simp]:
  "advances (get_procurement i)" "advances (procurement_workflow r)" "advances (purchase_order_of i)"
  "advances (time_or_now t)"
  by (auto simp: get_procurement_def procurement_workflow_def purchase_order_of_def time_or_now_def intro!: advances_intros)

lemma advances_apply_transition [simp]: "advances (apply_transition r st a b)"
  by (auto simp: apply_transition_def intro!: advances_intros)

lemma advances_engine [simp]: "advances (create_request E req n v)" "advances (request_if_required E c req)"
  by (auto simp: create_request_def request_if_required_def audit_approval_def Let_def
      intro!: advances_intros advances_writes)

lemma advances_procurement [simp]:
  "advances (submit_for_approval E i a b)" "advances (create_purchase_order r ap)" "advances (approve_purchase ap)"
  "advances (mark_ordered i a b e n)" "advances (mark_shipped i a b x n)" "advances (mark_received i a b n)"
  "advances (cancel_procurement i a b)"
  by (auto simp: submit_for_approval_def create_purchase_order_def approve_purchase_def mark_ordered_def
      mark_shipped_def mark_received_def cancel_procurement_def Let_def intro!: advances_intros advances_writes)

text \<open>The part of the database that procurement decides on.\<close>

definition orders_part :: "db \<Rightarrow> ProcurementRequest list \<times> PurchaseOrder list" where
  "orders_part s = (procurement_requests s, purchase_orders s)"

lemma orders_part_simps [simp]:
  "orders_part (flush_db s) = orders_part s" "orders_part (next_id_update n s) = orders_part s"
  "orders_part (pending_rows_update p s) = orders_part s" "orders_part (dirty_rows_update d s) = orders_part s"
  "orders_part (versions_update v s) = orders_part s" "orders_part (domain_events_update e s) = orders_part s"
  "orders_part (audit_events_update a s) = orders_part s" "orders_part (approvals_update ap s) = orders_part s"
  "orders_part (workflow_runs_update w s) = orders_part s"
  by (simp_all add: orders_part_def)

lemma keeps_orders_part [simp]:
  "keeps orders_part (add_audit a b c d e f g h)" "keeps orders_part (emit pl aty ai av k cc w ca)"
  "keeps orders_part (request_if_required E ctx req)"
  "keeps orders_part (set_workflow i ww)"
  by (auto simp: set_workflow_def intro!: keeps_intros)

lemmas orders_step = wp_keeps [where f = orders_part]
lemmas orders_steps = wp_keeps_advances [where f = orders_part]

lemma apply_transition_wp:
  assumes "\<And>u t. procurement_step (pr_status r) target \<Longrightarrow>
      orders_part t = (update_rows (row_id r) (\<lambda>r. r\<lparr>pr_status := target\<rparr>) (procurement_requests s), purchase_orders s) \<Longrightarrow>
      next_id s \<le> next_id t \<Longrightarrow> Q u t"
  shows "wp (apply_transition r target a why) Q (\<lambda>_ _. True) s"
  unfolding apply_transition_def
  apply (simp add: wp_simps transition_cases set_request_def)
  apply (intro impI)
  apply (rule orders_steps, rule keeps_procurement_workflow, simp)
   apply (rule orders_steps, (intro keeps_intros; simp), (intro advances_intros; simp))
   apply (rule assms)
     apply (simp_all add: orders_part_def)
  done

section \<open>The invariant\<close>

text \<open>How a purchase order stands to its request.\<close>

definition po_matches :: "ProcurementRequest \<Rightarrow> PurchaseOrder \<Rightarrow> bool" where
  "po_matches r p \<longleftrightarrow> po_quantity p = pr_requested_quantity r \<and> 0 \<le> po_received_quantity p \<and>
     po_received_quantity p \<le> po_quantity p \<and>
     (case pr_status r of
        Procurement_PROPOSED \<Rightarrow> False
      | Procurement_AWAITING_APPROVAL \<Rightarrow> False
      | Procurement_APPROVED \<Rightarrow> po_status p = PO_APPROVED \<and> po_received_quantity p = 0
      | Procurement_ORDERED \<Rightarrow> po_status p = PO_SUBMITTED \<and> po_received_quantity p = 0
      | Procurement_SHIPPED \<Rightarrow> po_status p = PO_SHIPPED
      | Procurement_RECEIVED \<Rightarrow> po_status p = PO_RECEIVED \<and> po_received_quantity p = po_quantity p
      | Procurement_CANCELLED \<Rightarrow> po_status p = PO_CANCELLED \<and> po_received_quantity p = 0)"

text \<open>Requests that were approved and not cancelled have a purchase order.\<close>

definition needs_po :: "ProcurementRequest \<Rightarrow> bool" where
  "needs_po r \<longleftrightarrow> pr_status r \<in> {Procurement_APPROVED, Procurement_ORDERED, Procurement_SHIPPED, Procurement_RECEIVED}"

definition procurement_tables_ok :: "uuid \<Rightarrow> ProcurementRequest list \<Rightarrow> PurchaseOrder list \<Rightarrow> bool" where
  "procurement_tables_ok n rs ps \<longleftrightarrow> ids_ok n rs \<and> ids_ok n ps \<and>
     distinct (map po_procurement_request_id ps) \<and>
     (\<forall>r \<in> set rs. 0 < pr_requested_quantity r) \<and>
     (\<forall>p \<in> set ps. \<exists>r. row rs (po_procurement_request_id p) = Some r \<and> po_matches r p) \<and>
     (\<forall>r \<in> set rs. needs_po r \<longrightarrow> (\<exists>p \<in> set ps. po_procurement_request_id p = row_id r))"

definition procurement_ok :: "db \<Rightarrow> bool" where
  "procurement_ok s \<longleftrightarrow> procurement_tables_ok (next_id s) (procurement_requests s) (purchase_orders s)"

definition of_request :: "uuid \<Rightarrow> (PurchaseOrder \<Rightarrow> PurchaseOrder) \<Rightarrow> PurchaseOrder list \<Rightarrow> PurchaseOrder list" where
  "of_request i g ps = map (\<lambda>p. if po_procurement_request_id p = i then g p else p) ps"

lemma of_request_update:
  assumes "find (\<lambda>p. po_procurement_request_id p = i) ps = Some p" "ids_ok n ps"
    "distinct (map po_procurement_request_id ps)"
  shows "update_rows (row_id p) g ps = of_request i g ps"
  unfolding update_rows_def of_request_def
proof (rule map_cong [OF refl])
  fix q assume q: "q \<in> set ps"
  have p: "p \<in> set ps" "po_procurement_request_id p = i" using find_SomeD [OF assms(1)] by auto
  have "row_id q = row_id p \<longleftrightarrow> q = p" "po_procurement_request_id q = i \<longleftrightarrow> q = p"
    using assms(2,3) p q by (auto simp: ids_ok_def distinct_map dest: inj_onD)
  then show "(if row_id q = row_id p then g q else q) = (if po_procurement_request_id q = i then g q else q)"
    by simp
qed

lemma of_request_None: "find (\<lambda>p. po_procurement_request_id p = i) ps = None \<Longrightarrow> of_request i g ps = ps"
  by (auto simp: of_request_def find_None_iff intro!: map_idI)

lemma procurement_tables_ok_mono: "procurement_tables_ok n rs ps \<Longrightarrow> n \<le> m \<Longrightarrow> procurement_tables_ok m rs ps"
  by (auto simp: procurement_tables_ok_def intro: ids_ok_mono)

lemma procurement_tables_ok_move:
  assumes ok: "procurement_tables_ok n rs ps" and r: "row rs i = Some r"
    and f: "\<And>r. row_id (f r) = row_id r" "\<And>r. pr_requested_quantity (f r) = pr_requested_quantity r"
    and g: "\<And>p. row_id (g p) = row_id p" "\<And>p. po_procurement_request_id (g p) = po_procurement_request_id p"
    and match: "\<And>p. p \<in> set ps \<Longrightarrow> po_procurement_request_id p = i \<Longrightarrow> po_matches r p \<Longrightarrow> po_matches (f r) (g p)"
    and needs: "needs_po (f r) \<Longrightarrow> needs_po r"
  shows "procurement_tables_ok n (update_rows i f rs) (of_request i g ps)"
proof -
  have ids: "ids_ok n (update_rows i f rs)" "ids_ok n (of_request i g ps)"
    "distinct (map po_procurement_request_id (of_request i g ps))"
  proof -
    show "ids_ok n (update_rows i f rs)" using ok f by (auto simp: procurement_tables_ok_def intro: ids_ok_update)
    have "map row_id (of_request i g ps) = map row_id ps"
      "map po_procurement_request_id (of_request i g ps) = map po_procurement_request_id ps"
      using g by (simp_all add: of_request_def)
    then show "ids_ok n (of_request i g ps)" "distinct (map po_procurement_request_id (of_request i g ps))"
      using ok by (simp_all add: procurement_tables_ok_def ids_ok_def) (metis (no_types, lifting) imageE image_eqI set_map)
  qed
  have pos: "\<forall>p \<in> set (of_request i g ps). \<exists>r. row (update_rows i f rs) (po_procurement_request_id p) = Some r \<and> po_matches r p"
  proof
    fix q assume "q \<in> set (of_request i g ps)"
    then obtain p where p: "p \<in> set ps" "q = (if po_procurement_request_id p = i then g p else p)"
      by (auto simp: of_request_def)
    then obtain r' where r': "row rs (po_procurement_request_id p) = Some r'" "po_matches r' p"
      using ok by (auto simp: procurement_tables_ok_def)
    show "\<exists>r. row (update_rows i f rs) (po_procurement_request_id q) = Some r \<and> po_matches r q"
      using p r' r match g(2) by (auto simp: row_update_rows f(1))
  qed
  have req: "\<exists>p \<in> set (of_request i g ps). po_procurement_request_id p = row_id r'"
    if r': "r' \<in> set rs" "needs_po r'" for r'
  proof -
    obtain p where "p \<in> set ps" "po_procurement_request_id p = row_id r'"
      using ok r' by (auto simp: procurement_tables_ok_def)
    moreover from this have "(if po_procurement_request_id p = i then g p else p) \<in> set (of_request i g ps)"
      unfolding of_request_def set_map by blast
    ultimately show ?thesis using g(2) by (metis (full_types))
  qed
  have "\<exists>p \<in> set (of_request i g ps). po_procurement_request_id p = row_id r'"
    if r': "r' \<in> set (update_rows i f rs)" and n: "needs_po r'" for r'
  proof -
    obtain r0 where r0: "r0 \<in> set rs" "r' = (if row_id r0 = i then f r0 else r0)"
      using r' by (auto simp: set_update_rows)
    have "row_id r0 = i \<Longrightarrow> r0 = r"
      using r r0(1) ok ids_ok_row [of n rs r0] by (auto simp: procurement_tables_ok_def)
    then have "needs_po r0" "row_id r' = row_id r0" using r0(2) n needs f(1) by (auto split: if_splits)
    with req [OF r0(1)] show ?thesis by simp
  qed
  moreover have "\<forall>r \<in> set (update_rows i f rs). 0 < pr_requested_quantity r"
    using ok f(2) by (auto simp: procurement_tables_ok_def set_update_rows)
  ultimately show ?thesis using ids pos by (auto simp: procurement_tables_ok_def)
qed

lemma procurement_tables_ok_approve:
  assumes ok: "procurement_tables_ok n rs ps" and r: "row rs i = Some r"
    and await: "pr_status r = Procurement_AWAITING_APPROVAL"
    and p: "po_procurement_request_id p = i" "po_quantity p = pr_requested_quantity r" "po_received_quantity p = 0"
      "po_status p = PO_APPROVED" "n \<le> row_id p" "row_id p < m"
  shows "procurement_tables_ok m (update_rows i (\<lambda>r. r\<lparr>pr_status := Procurement_APPROVED\<rparr>) rs) (ps @ [p])"
proof -
  let ?f = "\<lambda>r :: ProcurementRequest. r\<lparr>pr_status := Procurement_APPROVED\<rparr>"
  have none: "po_procurement_request_id q \<noteq> i" if "q \<in> set ps" for q
    using ok r await that by (auto simp: procurement_tables_ok_def po_matches_def)
  then have fresh: "i \<notin> po_procurement_request_id ` set ps" by blast
  have pos: "0 < pr_requested_quantity r" using ok r by (auto simp: procurement_tables_ok_def dest: row_Some_iff)
  have rows: "row (update_rows i ?f rs) j = (if i = j then map_option ?f (row rs i) else row rs j)" for j
    by (rule row_update_rows) simp
  have "ids_ok m (update_rows i ?f rs)" "ids_ok m (ps @ [p])" "distinct (map po_procurement_request_id (ps @ [p]))"
    using ok p fresh by (auto simp: procurement_tables_ok_def intro!: ids_ok_update ids_ok_append dest: ids_ok_mono [where m = m])
  moreover have "\<forall>q \<in> set (ps @ [p]). \<exists>r. row (update_rows i ?f rs) (po_procurement_request_id q) = Some r \<and> po_matches r q"
  proof
    fix q assume "q \<in> set (ps @ [p])"
    then consider "q = p" | "q \<in> set ps" "po_procurement_request_id q \<noteq> i" using none by auto
    then show "\<exists>r. row (update_rows i ?f rs) (po_procurement_request_id q) = Some r \<and> po_matches r q"
    proof cases
      case 1
      with r p pos show ?thesis by (simp add: rows po_matches_def)
    next
      case 2
      with ok show ?thesis by (auto simp: rows procurement_tables_ok_def)
    qed
  qed
  moreover have "\<forall>r' \<in> set (update_rows i ?f rs). needs_po r' \<longrightarrow> (\<exists>q \<in> set (ps @ [p]). po_procurement_request_id q = row_id r')"
    using ok p(1) by (auto simp: procurement_tables_ok_def set_update_rows)
  moreover have "\<forall>r \<in> set (update_rows i ?f rs). 0 < pr_requested_quantity r"
    using ok by (auto simp: procurement_tables_ok_def set_update_rows)
  ultimately show ?thesis by (simp add: procurement_tables_ok_def)
qed

section \<open>What the operations do to the two tables\<close>

lemma update_rows_comp: "(\<And>r. row_id (g r) = row_id r) \<Longrightarrow> update_rows i f (update_rows i g rs) = update_rows i (f \<circ> g) rs"
  by (auto simp: update_rows_def)

lemma update_rows_o: "(\<And>r. row_id (g r) = row_id r) \<Longrightarrow> update_rows i f \<circ> update_rows i g = update_rows i (f \<circ> g)"
  by (rule ext) (simp add: update_rows_comp)

lemma wp_set_request [wp_simps]: "wp (set_request i f) Q E s = Q () (dirty_rows_update
     (\<lambda>ds. if list_ex (\<lambda>r. row_id r = i \<and> f r \<noteq> r) (procurement_requests s) then i # ds else ds)
     (procurement_requests_update (update_rows i f) s))"
  by (simp add: set_request_def wp_simps)

lemma wp_set_purchase_order [wp_simps]: "wp (set_purchase_order i f) Q E s = Q () (dirty_rows_update
     (\<lambda>ds. if list_ex (\<lambda>r. row_id r = i \<and> f r \<noteq> r) (purchase_orders s) then i # ds else ds)
     (purchase_orders_update (update_rows i f) s))"
  by (simp add: set_purchase_order_def wp_simps)

lemma decision_time_flush [simp]: "decision_time n (flush_db s) = decision_time n s"
  by (simp add: decision_time_def split: option.split)

lemma wp_time_or_now [wp_simps]: "wp (time_or_now n) Q E s = Q (decision_time n s) s"
  by (simp add: time_or_now_def decision_time_def wp_simps split: option.split)

lemma orders_partD: "orders_part t = (rs, ps) \<Longrightarrow> procurement_requests t = rs \<and> purchase_orders t = ps"
  by (simp add: orders_part_def)

text \<open>A request that moves to a status, and its order with it.\<close>

definition po_change :: "PurchaseOrderStatus option \<Rightarrow> (PurchaseOrder \<Rightarrow> PurchaseOrder) \<Rightarrow> bool" where
  "po_change st g \<longleftrightarrow> (\<forall>p. row_id (g p) = row_id p \<and> po_procurement_request_id (g p) = po_procurement_request_id p \<and>
     po_quantity (g p) = po_quantity p \<and> po_received_quantity (g p) = po_received_quantity p \<and>
     po_status (g p) = (case st of None \<Rightarrow> po_status p | Some x \<Rightarrow> x))"

definition request_change :: "ProcurementStatus \<Rightarrow> (ProcurementRequest \<Rightarrow> ProcurementRequest) \<Rightarrow> bool" where
  "request_change target f \<longleftrightarrow> (\<forall>r. row_id (f r) = row_id r \<and>
     pr_requested_quantity (f r) = pr_requested_quantity r \<and> pr_status (f r) = target)"

definition moved :: "uuid \<Rightarrow> ProcurementStatus \<Rightarrow> PurchaseOrderStatus option \<Rightarrow> db \<Rightarrow> db \<Rightarrow> bool" where
  "moved i target st s t \<longleftrightarrow> (\<exists>r f g. row (procurement_requests s) i = Some r \<and>
     procurement_step (pr_status r) target \<and> request_change target f \<and> po_change st g \<and>
     procurement_requests t = update_rows i f (procurement_requests s) \<and>
     purchase_orders t = of_request i g (purchase_orders s))"

lemma movedI:
  "row (procurement_requests s) i = Some r \<Longrightarrow> procurement_step (pr_status r) target \<Longrightarrow>
   orders_part t = (update_rows i f (procurement_requests s), of_request i g (purchase_orders s)) \<Longrightarrow>
   request_change target f \<Longrightarrow> po_change st g \<Longrightarrow> moved i target st s t"
  unfolding moved_def orders_part_def by blast

lemma of_request_id: "of_request i id ps = ps"
  by (auto simp: of_request_def intro!: map_idI)

lemma request_change_status [simp]:
  "request_change target (\<lambda>r. r\<lparr>pr_status := target\<rparr>)"
  "request_change target ((\<lambda>r. r\<lparr>pr_expected_arrival_at := e\<rparr>) \<circ> (\<lambda>r. r\<lparr>pr_status := target\<rparr>))"
  by (simp_all add: request_change_def)

lemma po_change_simps [simp]:
  "po_change None id"
  "po_change (Some PO_SUBMITTED) (\<lambda>p. p\<lparr>po_status := PO_SUBMITTED, po_ordered_at := a, po_external_reference := b\<rparr>)"
  "po_change (Some PO_SHIPPED) (\<lambda>p. p\<lparr>po_status := PO_SHIPPED, po_shipped_at := a\<rparr>)"
  "po_change (Some PO_SHIPPED) ((\<lambda>p. p\<lparr>po_expected_arrival_at := e\<rparr>) \<circ> (\<lambda>p. p\<lparr>po_status := PO_SHIPPED, po_shipped_at := a\<rparr>))"
  "po_change (Some PO_RECEIVED) (\<lambda>p. p\<lparr>po_status := PO_RECEIVED, po_received_at := a\<rparr>)"
  "po_change (Some PO_CANCELLED) (\<lambda>p. p\<lparr>po_status := PO_CANCELLED\<rparr>)"
  by (simp_all add: po_change_def)

lemma po_found:
  "procurement_ok s \<Longrightarrow> find (\<lambda>p. po_procurement_request_id p = i) (purchase_orders s) = Some p \<Longrightarrow>
   update_rows (row_id p) g (purchase_orders s) = of_request i g (purchase_orders s)"
  using of_request_update by (auto simp: procurement_ok_def procurement_tables_ok_def)

lemma submit_wp:
  "wp (submit_for_approval E i who why) (\<lambda>_ t. moved i Procurement_AWAITING_APPROVAL None s t) (\<lambda>_ _. True) s"
  unfolding submit_for_approval_def
  apply (simp add: wp_simps split: option.split)
  apply (intro allI impI)
  apply (rule apply_transition_wp)
  apply (rule orders_step, (intro keeps_intros; simp))
   apply (rule movedI [where f = "\<lambda>r. r\<lparr>pr_status := Procurement_AWAITING_APPROVAL\<rparr>" and g = id])
       apply (auto simp: of_request_id dest: row_id_of)
  done

lemma mark_ordered_wp:
  assumes "procurement_ok s"
  shows "wp (mark_ordered i who why ref at_time) (\<lambda>_ t. moved i Procurement_ORDERED (Some PO_SUBMITTED) s t) (\<lambda>_ _. True) s"
  unfolding mark_ordered_def
  apply (simp add: wp_simps split: option.split)
  apply (intro allI impI)
  apply (rule apply_transition_wp)
  apply (simp add: wp_simps split: option.split)
  apply (intro allI impI)
  apply (rule movedI [where f = "\<lambda>r. r\<lparr>pr_status := Procurement_ORDERED\<rparr>" and
       g = "\<lambda>p. p\<lparr>po_status := PO_SUBMITTED, po_ordered_at := Some (decision_time at_time s), po_external_reference := ref\<rparr>"])
      apply (auto simp: po_found [OF assms] orders_part_def dest!: row_id_of)
  done

lemma mark_received_wp:
  assumes "procurement_ok s"
  shows "wp (mark_received i who why at_time) (\<lambda>_ t. moved i Procurement_RECEIVED (Some PO_RECEIVED) s t) (\<lambda>_ _. True) s"
  unfolding mark_received_def
  apply (simp add: wp_simps split: option.split)
  apply (intro allI impI)
  apply (rule apply_transition_wp)
  apply (simp add: wp_simps)
  apply (rule orders_step, rule keeps_procurement_workflow)
   apply (rule orders_step, (intro keeps_intros; simp))
    apply (rule movedI [where f = "\<lambda>r. r\<lparr>pr_status := Procurement_RECEIVED\<rparr>" and
       g = "\<lambda>p. p\<lparr>po_status := PO_RECEIVED, po_received_at := Some (decision_time at_time s)\<rparr>"])
        apply (auto simp: po_found [OF assms] orders_part_def dest!: row_id_of)
  done

lemma mark_shipped_wp:
  assumes "procurement_ok s"
  shows "wp (mark_shipped i who why arrival at_time) (\<lambda>_ t. moved i Procurement_SHIPPED (Some PO_SHIPPED) s t) (\<lambda>_ _. True) s"
proof -
  let ?f = "\<lambda>r. r\<lparr>pr_status := Procurement_SHIPPED\<rparr>"
  let ?g = "\<lambda>p. p\<lparr>po_status := PO_SHIPPED, po_shipped_at := Some (decision_time at_time s)\<rparr>"
  show ?thesis
  proof (cases arrival)
    case None
    show ?thesis
      unfolding mark_shipped_def None
      apply (simp add: wp_simps split: option.split)
      apply (intro allI impI)
      apply (rule apply_transition_wp)
      apply (simp add: wp_simps split: option.split)
      apply (intro allI impI)
      apply (rule movedI [where f = ?f and g = ?g])
          apply (auto simp: po_found [OF assms] orders_part_def dest!: row_id_of)
      done
  next
    case (Some e)
    show ?thesis
      unfolding mark_shipped_def Some
      apply (simp add: wp_simps split: option.split)
      apply (intro allI impI)
      apply (rule apply_transition_wp)
      apply (simp add: wp_simps split: option.split)
      apply (intro allI impI)
      apply (rule movedI [where f = "(\<lambda>r. r\<lparr>pr_expected_arrival_at := Some e\<rparr>) \<circ> ?f" and
         g = "(\<lambda>p. p\<lparr>po_expected_arrival_at := Some e\<rparr>) \<circ> ?g"])
          apply (auto simp: po_found [OF assms, symmetric] orders_part_def update_rows_comp update_rows_o simp del: o_apply dest!: row_id_of)
      done
  qed
qed

lemma cancel_wp:
  assumes "procurement_ok s"
  shows "wp (cancel_procurement i who why) (\<lambda>_ t. moved i Procurement_CANCELLED (Some PO_CANCELLED) s t) (\<lambda>_ _. True) s"
  unfolding cancel_procurement_def
  apply (simp add: wp_simps split: option.split)
  apply (intro allI impI)
  apply (rule apply_transition_wp)
  apply (simp add: wp_simps split: option.split)
  apply (intro conjI allI impI)
   apply (rule orders_step, rule keeps_procurement_workflow)
    apply (rule orders_step, (intro keeps_intros; simp))
     apply (rule movedI [where f = "\<lambda>r. r\<lparr>pr_status := Procurement_CANCELLED\<rparr>" and g = "\<lambda>p. p\<lparr>po_status := PO_CANCELLED\<rparr>"])
         apply (auto simp: orders_part_def of_request_None dest!: row_id_of) [5]
    apply simp_all
  apply (rule orders_step, rule keeps_procurement_workflow)
   apply (rule orders_step, (intro keeps_intros; simp))
    apply (rule movedI [where f = "\<lambda>r. r\<lparr>pr_status := Procurement_CANCELLED\<rparr>" and g = "\<lambda>p. p\<lparr>po_status := PO_CANCELLED\<rparr>"])
        apply (auto simp: po_found [OF assms] orders_part_def dest!: row_id_of)
  done

text \<open>The purchase order that an approval creates.\<close>

definition order_added :: "uuid \<Rightarrow> int \<Rightarrow> db \<Rightarrow> db \<Rightarrow> bool" where
  "order_added i n s t \<longleftrightarrow> (\<exists>p. orders_part t = (procurement_requests s, purchase_orders s @ [p]) \<and>
     po_procurement_request_id p = i \<and> po_quantity p = n \<and> po_received_quantity p = 0 \<and>
     po_status p = PO_APPROVED \<and> next_id s \<le> row_id p \<and> row_id p < next_id t)"

lemma order_added_step:
  assumes "order_added i n s t" "orders_part t' = orders_part t" "next_id t \<le> next_id t'"
  shows "order_added i n s t'"
proof -
  from assms(1) obtain p where p: "orders_part t = (procurement_requests s, purchase_orders s @ [p])"
    "po_procurement_request_id p = i" "po_quantity p = n" "po_received_quantity p = 0"
    "po_status p = PO_APPROVED" "next_id s \<le> row_id p" "row_id p < next_id t"
    unfolding order_added_def by blast
  have "row_id p < next_id t'" using p(7) assms(3) by simp
  with p assms(2) show ?thesis unfolding order_added_def by metis
qed

lemma create_purchase_order_wp:
  assumes "find (\<lambda>p. po_procurement_request_id p = row_id r) (purchase_orders s) = None"
  shows "wp (create_purchase_order r a) (\<lambda>_ t. order_added (row_id r) (pr_requested_quantity r) s t) (\<lambda>_ _. True) s"
  unfolding create_purchase_order_def
  apply (simp add: wp_simps assms Let_def split: option.split)
  apply (intro allI impI conjI)
  apply (rule orders_steps, rule keeps_procurement_workflow, simp)
   apply (rule orders_steps, (intro keeps_intros; simp), (intro advances_intros; simp))
    apply (simp_all add: order_added_def orders_part_def)
  done

definition purchase_approved :: "uuid \<Rightarrow> db \<Rightarrow> db \<Rightarrow> bool" where
  "purchase_approved i s t \<longleftrightarrow> (\<exists>r p. row (procurement_requests s) i = Some r \<and>
     pr_status r = Procurement_AWAITING_APPROVAL \<and>
     procurement_requests t = update_rows i (\<lambda>r. r\<lparr>pr_status := Procurement_APPROVED\<rparr>) (procurement_requests s) \<and>
     purchase_orders t = purchase_orders s @ [p] \<and>
     po_procurement_request_id p = i \<and> po_quantity p = pr_requested_quantity r \<and> po_received_quantity p = 0 \<and>
     po_status p = PO_APPROVED \<and> next_id s \<le> row_id p \<and> row_id p < next_id t)"

lemma no_order_yet:
  assumes "procurement_ok s" "row (procurement_requests s) i = Some r" "pr_status r = Procurement_AWAITING_APPROVAL"
  shows "find (\<lambda>p. po_procurement_request_id p = i) (purchase_orders s) = None"
  using assms by (auto simp: procurement_ok_def procurement_tables_ok_def po_matches_def find_None_iff)


lemma order_added_approved:
  assumes "row (procurement_requests s) i = Some r" "pr_status r = Procurement_AWAITING_APPROVAL"
    "orders_part u = (update_rows i (\<lambda>r. r\<lparr>pr_status := Procurement_APPROVED\<rparr>) (procurement_requests s), purchase_orders s)"
    "next_id s \<le> next_id u" "order_added i (pr_requested_quantity r) u t"
  shows "purchase_approved i s t"
  using assms unfolding order_added_def purchase_approved_def orders_part_def
  by (auto intro!: exI [where x = r] intro: order_trans)

lemma step_to_approved: "procurement_step a Procurement_APPROVED \<Longrightarrow> a = Procurement_AWAITING_APPROVAL"
  by (cases a) (simp_all add: procurement_step_iff)

lemma approve_tail_wp:
  assumes ok: "procurement_ok s" and r: "row (procurement_requests s) i = Some r" "i = row_id r"
    and step: "procurement_step (pr_status r) Procurement_APPROVED"
    and u: "orders_part u = (update_rows i (\<lambda>r. r\<lparr>pr_status := Procurement_APPROVED\<rparr>) (procurement_requests s), purchase_orders s)"
      "next_id s \<le> next_id u"
  shows "wp (bind (create_purchase_order r a) (\<lambda>_. set_workflow j f)) (\<lambda>_. purchase_approved i s) (\<lambda>_ _. True) u"
proof -
  have await: "pr_status r = Procurement_AWAITING_APPROVAL" using step by (rule step_to_approved)
  have none: "find (\<lambda>p. po_procurement_request_id p = row_id r) (purchase_orders u) = None"
    using no_order_yet [OF ok r(1) await] u(1) r(2) by (simp add: orders_part_def)
  have finished: "purchase_approved i s t" if "order_added i (pr_requested_quantity r) u t" for t
    using order_added_approved [OF r(1) await u that] .
  show ?thesis
    unfolding wp_bind
    apply (rule wp_mono, rule create_purchase_order_wp [OF none])
     apply (rule orders_steps, simp, simp)
      apply (rule finished, rule order_added_step)
        apply (simp_all add: r(2))
    done
qed

lemma approve_purchase_wp:
  assumes ok: "procurement_ok s"
  shows "wp (approve_purchase a) (\<lambda>_ t. purchase_approved (ap_resource_id a) s t) (\<lambda>_ _. True) s"
proof (cases "row (procurement_requests s) (ap_resource_id a)")
  case None
  then show ?thesis by (simp add: approve_purchase_def wp_simps)
next
  case (Some r)
  then have i: "row_id r = ap_resource_id a" by blast
  show ?thesis
    unfolding approve_purchase_def
    apply (simp add: wp_simps Some)
    apply (intro impI)
    apply (rule apply_transition_wp)
    apply (simp add: wp_simps)
    apply (rule orders_steps, rule keeps_procurement_workflow, simp)
     apply (simp add: wp_simps)
     apply (rule orders_steps, (intro keeps_intros; simp), simp)
      apply (rule approve_tail_wp [OF ok Some])
         apply (simp_all add: i)
    done
qed

section \<open>Operations keep the invariant\<close>

lemma moved_keeps_ok:
  assumes ok: "procurement_ok s" and m: "moved i target st s t" and n: "next_id s \<le> next_id t"
    and st: "(target, st) \<in> {(Procurement_AWAITING_APPROVAL, None), (Procurement_ORDERED, Some PO_SUBMITTED),
      (Procurement_SHIPPED, Some PO_SHIPPED), (Procurement_CANCELLED, Some PO_CANCELLED)} \<or>
      (target, st) = (Procurement_RECEIVED, Some PO_RECEIVED) \<and>
      (\<forall>p \<in> set (purchase_orders s). po_procurement_request_id p = i \<longrightarrow> po_received_quantity p = po_quantity p)"
  shows "procurement_ok t"
proof -
  obtain r f g where r: "row (procurement_requests s) i = Some r" "procurement_step (pr_status r) target"
    and f: "\<And>r. row_id (f r) = row_id r" "\<And>r. pr_requested_quantity (f r) = pr_requested_quantity r"
      "\<And>r. pr_status (f r) = target"
    and g: "\<And>p. row_id (g p) = row_id p" "\<And>p. po_procurement_request_id (g p) = po_procurement_request_id p"
      "\<And>p. po_quantity (g p) = po_quantity p" "\<And>p. po_received_quantity (g p) = po_received_quantity p"
      "\<And>p. po_status (g p) = (case st of None \<Rightarrow> po_status p | Some x \<Rightarrow> x)"
    and t: "procurement_requests t = update_rows i f (procurement_requests s)"
      "purchase_orders t = of_request i g (purchase_orders s)"
    using m unfolding moved_def request_change_def po_change_def by blast
  have "po_matches (f r) (g p)"
    if "p \<in> set (purchase_orders s)" "po_procurement_request_id p = i" "po_matches r p" for p
    using that st r(2) by (cases "pr_status r") (auto simp: po_matches_def f g procurement_step_iff)
  moreover have "needs_po (f r) \<Longrightarrow> needs_po r"
    using st r(2) by (cases "pr_status r") (auto simp: needs_po_def f procurement_step_iff)
  ultimately have "procurement_tables_ok (next_id s) (procurement_requests t) (purchase_orders t)"
    unfolding t using ok f g by (intro procurement_tables_ok_move [OF _ r(1)]) (auto simp: procurement_ok_def)
  then show ?thesis unfolding procurement_ok_def using n by (rule procurement_tables_ok_mono)
qed

lemma approved_keeps_ok:
  "procurement_ok s \<Longrightarrow> purchase_approved i s t \<Longrightarrow> procurement_ok t"
  unfolding purchase_approved_def procurement_ok_def by (auto intro: procurement_tables_ok_approve)

interpretation procurement: unit_of_work procurement_ok
proof
  fix s t :: db
  assume "procurement_ok s" "tables_of t = tables_of s" "next_id s \<le> next_id t"
  then show "procurement_ok t"
    by (auto simp: procurement_ok_def tables_ofD [of t s] intro: procurement_tables_ok_mono)
qed

section \<open>Calls\<close>

text \<open>A call of the service by a client, in a transaction of its own.\<close>

datatype procurement_call =
    Submit uuid string string
  | Approve_Purchase Approval
  | Order uuid string string "string option" "datetime option"
  | Ship uuid string string "datetime option" "datetime option"
  | Receive uuid string string "datetime option"
  | Cancel uuid string string

fun run_call :: "ApprovalEngine \<Rightarrow> procurement_call \<Rightarrow> unit op" where
  "run_call E (Submit i who why) = bind (submit_for_approval E i who why) (\<lambda>_. ret ())"
| "run_call E (Approve_Purchase a) = approve_purchase a"
| "run_call E (Order i who why ref n) = bind (mark_ordered i who why ref n) (\<lambda>_. ret ())"
| "run_call E (Ship i who why arrival n) = bind (mark_shipped i who why arrival n) (\<lambda>_. ret ())"
| "run_call E (Receive i who why n) = bind (mark_received i who why n) (\<lambda>_. ret ())"
| "run_call E (Cancel i who why) = bind (cancel_procurement i who why) (\<lambda>_. ret ())"

fun call_request :: "procurement_call \<Rightarrow> uuid" where
  "call_request (Submit i _ _) = i"
| "call_request (Approve_Purchase a) = ap_resource_id a"
| "call_request (Order i _ _ _ _) = i"
| "call_request (Ship i _ _ _ _) = i"
| "call_request (Receive i _ _ _) = i"
| "call_request (Cancel i _ _) = i"

fun call_target :: "procurement_call \<Rightarrow> ProcurementStatus" where
  "call_target (Submit _ _ _) = Procurement_AWAITING_APPROVAL"
| "call_target (Approve_Purchase _) = Procurement_APPROVED"
| "call_target (Order _ _ _ _ _) = Procurement_ORDERED"
| "call_target (Ship _ _ _ _ _) = Procurement_SHIPPED"
| "call_target (Receive _ _ _ _) = Procurement_RECEIVED"
| "call_target (Cancel _ _ _) = Procurement_CANCELLED"

text \<open>
  \<open>mark_received\<close> trusts its caller: \<open>InventoryService.receive\<close> calls it once the whole quantity has
  been received.
\<close>

fun call_justified :: "procurement_call \<Rightarrow> db \<Rightarrow> bool" where
  "call_justified (Receive i _ _ _) s = (\<forall>p \<in> set (purchase_orders s).
     po_procurement_request_id p = i \<longrightarrow> po_received_quantity p = po_quantity p)"
| "call_justified _ s = True"

lemma advances_run_call: "advances (run_call E c)"
  by (cases c) (auto intro!: advances_intros)

lemma wp_Inr: "wp m Q E s \<Longrightarrow> m s = (Inr x, t) \<Longrightarrow> Q x t"
  by (simp add: wp_def)

lemma run_call_effect:
  assumes ok: "procurement_ok s" and run: "run_call E c s = (Inr u, t)"
  shows "\<exists>st. moved (call_request c) (call_target c) st s t \<and>
      ((call_target c, st) \<in> {(Procurement_AWAITING_APPROVAL, None), (Procurement_ORDERED, Some PO_SUBMITTED),
         (Procurement_SHIPPED, Some PO_SHIPPED), (Procurement_CANCELLED, Some PO_CANCELLED)} \<or>
       (call_target c, st) = (Procurement_RECEIVED, Some PO_RECEIVED))
    \<or> call_target c = Procurement_APPROVED \<and> purchase_approved (call_request c) s t"
proof -
  have effect: "wp (bind m (\<lambda>_. ret ())) (\<lambda>_. P) (\<lambda>_ _. True) s" if "wp m (\<lambda>_. P) (\<lambda>_ _. True) s"
    for m :: "'a op" and P using that by (auto simp: wp_simps intro: wp_mono)
  show ?thesis
    using run wp_Inr [OF effect [OF submit_wp]] wp_Inr [OF approve_purchase_wp [OF ok]]
      wp_Inr [OF effect [OF mark_ordered_wp [OF ok]]] wp_Inr [OF effect [OF mark_shipped_wp [OF ok]]]
      wp_Inr [OF effect [OF mark_received_wp [OF ok]]] wp_Inr [OF effect [OF cancel_wp [OF ok]]]
    by (cases c) fastforce+
qed

lemma run_call_keeps_ok:
  assumes ok: "procurement_ok s" and just: "call_justified c s" and run: "run_call E c s = (Inr u, t)"
  shows "procurement_ok t"
proof -
  have n: "next_id s \<le> next_id t" using advances_run_call run by (rule advancesD)
  have full: "call_target c = Procurement_RECEIVED \<Longrightarrow> \<forall>p \<in> set (purchase_orders s).
      po_procurement_request_id p = call_request c \<longrightarrow> po_received_quantity p = po_quantity p"
    using just by (cases c) auto
  from run_call_effect [OF ok run] show ?thesis
    by (elim disjE exE conjE) (auto intro: approved_keeps_ok [OF ok] moved_keeps_ok [OF ok _ n] dest: full)
qed

lemma run_call_status:
  assumes ok: "procurement_ok s" and run: "run_call E c s = (Inr u, t)"
  shows "\<exists>r. row (procurement_requests s) (call_request c) = Some r \<and> procurement_step (pr_status r) (call_target c) \<and>
    map_option pr_status (row (procurement_requests t) (call_request c)) = Some (call_target c) \<and>
    (\<forall>j. j \<noteq> call_request c \<longrightarrow> row (procurement_requests t) j = row (procurement_requests s) j)"
  using run_call_effect [OF ok run]
  by (auto simp: moved_def request_change_def purchase_approved_def row_update_rows procurement_step_iff)

fun run_calls :: "ApprovalEngine \<Rightarrow> procurement_call list \<Rightarrow> db \<Rightarrow> db" where
  "run_calls E [] s = s"
| "run_calls E (c # cs) s = run_calls E cs (snd (transaction (run_call E c) s))"

fun calls_justified :: "ApprovalEngine \<Rightarrow> procurement_call list \<Rightarrow> db \<Rightarrow> bool" where
  "calls_justified E [] s = True"
| "calls_justified E (c # cs) s \<longleftrightarrow> call_justified c s \<and> calls_justified E cs (snd (transaction (run_call E c) s))"

definition request_status :: "uuid \<Rightarrow> db \<Rightarrow> ProcurementStatus option" where
  "request_status i s = map_option pr_status (row (procurement_requests s) i)"

lemma request_status_simps [simp]:
  "request_status i (flush_db u) = request_status i u"
  "request_status i (rollback_to s u) = request_status i s"
  by (simp_all add: request_status_def)

lemma call_step:
  assumes ok: "procurement_ok s" and t: "t = snd (transaction (run_call E c) s)"
  shows "request_status i t = request_status i s \<or>
    i = call_request c \<and> (\<exists>a. request_status i s = Some a \<and> procurement_step a (call_target c) \<and>
      request_status i t = Some (call_target c))"
proof (cases rule: transaction_cases [of "run_call E c" s])
  case (ok x u)
  then have "request_status i t = request_status i u" by (simp add: t)
  moreover note run_call_status [OF \<open>procurement_ok s\<close> ok(1)]
  ultimately show ?thesis by (cases "i = call_request c") (auto simp: request_status_def)
next
  case (failed e u)
  then show ?thesis by (simp add: t)
qed

lemma call_keeps_ok:
  assumes "procurement_ok s" "call_justified c s"
  shows "procurement_ok (snd (transaction (run_call E c) s))"
  using assms(1) run_call_keeps_ok [OF assms] by (rule procurement.transaction_keeps)

lemma run_calls_keep_ok: "procurement_ok s \<Longrightarrow> calls_justified E cs s \<Longrightarrow> procurement_ok (run_calls E cs s)"
  by (induction cs arbitrary: s) (auto intro: call_keeps_ok)

lemma run_calls_lifecycle:
  "procurement_ok s \<Longrightarrow> calls_justified E cs s \<Longrightarrow> request_status i s = Some a \<Longrightarrow>
   \<exists>b. request_status i (run_calls E cs s) = Some b \<and> procurement_step\<^sup>*\<^sup>* a b"
proof (induction cs arbitrary: s a)
  case Nil
  then show ?case by simp
next
  case (Cons c cs)
  let ?t = "snd (transaction (run_call E c) s)"
  have t: "procurement_ok ?t" "calls_justified E cs ?t" using Cons.prems by (auto intro: call_keeps_ok)
  have "\<exists>b. request_status i ?t = Some b \<and> procurement_step\<^sup>*\<^sup>* a b"
    using call_step [OF Cons.prems(1) refl, of i E c] Cons.prems(3) by auto
  then obtain b where b: "request_status i ?t = Some b" "procurement_step\<^sup>*\<^sup>* a b" by blast
  from Cons.IH [OF t b(1)] b(2) show ?case by (auto intro: rtranclp_trans)
qed

lemma step_needs_approval:
  assumes "procurement_step\<^sup>*\<^sup>* a b" "b \<in> {Procurement_APPROVED, Procurement_ORDERED, Procurement_SHIPPED, Procurement_RECEIVED}"
  shows "a \<noteq> Procurement_CANCELLED"
  using assms by (cases rule: converse_rtranclpE) (auto simp: procurement_step_iff)

section \<open>A purchase awaiting approval\<close>

definition sample_quote :: SupplierQuote where
  "sample_quote = \<lparr>row_id = 2, row_created_at = 0, sq_product_id = 1, sq_supplier_id = 1, sq_external_quote_id = ''q'',
     sq_currency = ''GBP'', sq_moq = 1, sq_quantity = 10, sq_unit_cost = 3, sq_shipping_cost = 5,
     sq_lead_time_days = 4, sq_valid_until = None, sq_source_reference = None\<rparr>"

definition sample_proposal :: ProcurementRequest where
  "sample_proposal = \<lparr>row_id = 3, row_created_at = 0, pr_product_id = 1, pr_selected_quote_id = 2,
     pr_workflow_run_id = Some 4, pr_requested_quantity = 10, pr_estimated_landed_cost = 35,
     pr_currency = ''GBP'', pr_recommendation_context = [], pr_expected_arrival_at = None,
     pr_status = Procurement_AWAITING_APPROVAL\<rparr>"

definition sample_workflow :: WorkflowRun where
  "sample_workflow = \<lparr>row_id = 4, row_created_at = 0, wf_workflow_name = ''w'', wf_workflow_version = 1,
     wf_correlation_id = 5, wf_source_event_id = None, wf_idempotency_key = None, wf_status = Run_RUNNING,
     wf_current_step = None, wf_attempts = 0, wf_next_retry_at = None, wf_error = None, wf_checkpoints = [],
     wf_max_attempts = 1, wf_timeout_seconds = 300, wf_started_at = None, wf_deadline_at = None,
     wf_completed_at = None, wf_waiting_approval_id = None, wf_cost_amount = 0, wf_cost_currency = None\<rparr>"

definition sample_db :: db where
  "sample_db = (empty_db 0)\<lparr>next_id := 10, supplier_quotes := [sample_quote],
     procurement_requests := [sample_proposal], workflow_runs := [sample_workflow]\<rparr>"

definition sample_approval :: Approval where
  "sample_approval = \<lparr>row_id = 6, row_created_at = 0, ap_action_type = ''supplier_purchase'',
     ap_resource_type = ''procurement_request'', ap_resource_id = 3, ap_requested_payload = [],
     ap_action_hash = [], ap_risk_level = ''financial'', ap_rule_name = ''r'', ap_rule_version = 1,
     ap_status = Approval_APPROVED, ap_requested_by = ''ann'', ap_requested_reason = ''stock'',
     ap_decided_by = Some ''bob'', ap_rationale = Some ''ok'', ap_workflow_run_id = Some 4,
     ap_expires_at = None, ap_decided_at = None, ap_resumed_at = None\<rparr>"

lemma sample_db_ok: "procurement_ok sample_db"
  by (simp add: procurement_ok_def procurement_tables_ok_def sample_db_def sample_proposal_def ids_ok_def needs_po_def
      empty_db_def)

lemma sample_purchase:
  "\<exists>t. approve_purchase sample_approval sample_db = (Inr (), t) \<and> request_status 3 t = Some Procurement_APPROVED"
  unfolding approve_purchase_def apply_transition_def create_purchase_order_def emit_def create_event_def
    create_event_by_def publish_def
  by (simp add: run_simps sample_db_def sample_approval_def sample_proposal_def sample_workflow_def
      sample_quote_def empty_db_def request_status_def add_audit_def set_request_def set_workflow_def
      procurement_workflow_def row_def update_rows_def transition_def Let_def flush_db_def version_of_def
      aggregate_key_def event_record_def)






end
