(* ===== verification/Inventory_Service.thy ===== *)
theory Inventory_Service
  imports Stock_Ledger Procurement_Service
begin

text \<open>
  \<open>application/inventory.py\<close>: receipt of ordered stock, manual adjustment, and the events and audit
  rows of a change. Both operations are idempotent in the caller's key.
\<close>

section \<open>Definitions\<close>

record InventoryChangeResult =
  icr_inventory_item :: InventoryItem
  icr_movement :: InventoryMovement
  icr_duplicate :: bool

definition inventory_lookup :: "string \<Rightarrow> InventoryItem list op" where
  "inventory_lookup sku =
     bind (scalars inventory_items (\<lambda>i. ii_sku i = sku)) (\<lambda>rows.
     ret (sort_key ii_storage_location rows))"

definition get_inventory :: "uuid \<Rightarrow> InventoryItem op" where
  "get_inventory inventory_item_id =
     bind (scalar inventory_items (\<lambda>i. row_id i = inventory_item_id)) (\<lambda>found.
     the_or (Exn InventoryNotFoundError (uuid_str inventory_item_id)) found)"

definition inventory_history :: "uuid \<Rightarrow> nat \<Rightarrow> InventoryMovement list op" where
  "inventory_history inventory_item_id limit =
     bind (get_inventory inventory_item_id) (\<lambda>_.
     bind (scalars inventory_movements (\<lambda>m. im_inventory_item_id m = inventory_item_id)) (\<lambda>rows.
     ret (take limit (rev (sort_key row_created_at (rev rows))))))"

definition existing_movement :: "string \<Rightarrow> InventoryMovement option op" where
  "existing_movement idempotency_key =
     scalar inventory_movements (\<lambda>m. im_idempotency_key m = idempotency_key)"

definition receipt_workflow :: "ProcurementRequest \<Rightarrow> WorkflowRun op" where
  "receipt_workflow procurement =
     bind (get_opt_row workflow_runs (pr_workflow_run_id procurement)) (\<lambda>found.
     the_or (Exn PurchaseOrderNotReceivableError ''Procurement workflow is missing'') found)"

definition set_item :: "uuid \<Rightarrow> (InventoryItem \<Rightarrow> InventoryItem) \<Rightarrow> unit op" where
  "set_item = set_row inventory_items inventory_items_update"

text \<open>
  \<open>session.add(movement); session.flush()\<close>: the database refuses a second movement under a key and a
  movement of nothing.
\<close>

definition add_movement :: "InventoryMovement \<Rightarrow> unit op" where
  "add_movement movement =
     bind (gets inventory_movements) (\<lambda>stored.
     andthen (raise_if (\<exists>m \<in> set stored. im_idempotency_key m = im_idempotency_key movement)
       (Exn IntegrityError ''uq_inventory_movements_idempotency_key''))
     (andthen (raise_if (\<not> inventory_movement_checks movement)
       (Exn IntegrityError ''ck_inventory_movements_nonzero_quantity_delta''))
     (andthen (add_row inventory_movements_update movement) flush)))"

definition low_stock_payload :: "InventoryItem \<Rightarrow> EventPayload" where
  "low_stock_payload item =
     LowStockPayload (row_id item) (ii_sku item) (available_quantity item) (ii_low_stock_threshold item)"

definition record_change ::
  "uuid \<Rightarrow> InventoryMovement \<Rightarrow> string \<Rightarrow> int \<Rightarrow> bool \<Rightarrow> WorkflowRun option \<Rightarrow> unit op" where
  "record_change item_id movement actor previous_available stock_received workflow =
     andthen flush
     (bind (case workflow of Some w \<Rightarrow> ret (wf_correlation_id w) | None \<Rightarrow> new_uuid) (\<lambda>correlation.
      bind (reload inventory_items item_id) (\<lambda>item.
      andthen (add_audit actor
        (if stock_received then ''inventory.stock_received'' else ''inventory.adjusted'')
        ''inventory_item'' (row_id item)
        (Some [(''available_quantity'', JInt previous_available)])
        (Some [(''quantity_on_hand'', JInt (ii_quantity_on_hand item)),
               (''reserved_quantity'', JInt (ii_reserved_quantity item)),
               (''available_quantity'', JInt (available_quantity item))])
        (Some (im_reason movement)) correlation)
      (bind (version_of (row_id item)) (\<lambda>item_version.
       let publish_change = (\<lambda>payload key. bind (emit payload ''inventory_item'' (row_id item) item_version
             (key @ uuid_str (row_id movement)) (Some correlation) (map_option row_id workflow) None) (\<lambda>_. ret ())) in
       andthen (publish_change (InventoryChangedPayload (row_id item) (im_quantity_delta movement)
             (ii_quantity_on_hand item) (ii_reserved_quantity item)) ''inventory-changed:'')
       (andthen (whenM stock_received
         (bind (the_or (Exn AssertionError []) (im_purchase_order_id movement)) (\<lambda>order_id.
          publish_change (StockReceivedPayload (row_id item) order_id (im_quantity_delta movement))
            ''stock-received:'')))
       (whenM (ii_low_stock_threshold item < previous_available \<and>
               available_quantity item \<le> ii_low_stock_threshold item)
         (publish_change (low_stock_payload item) ''low-stock:''))))))))"

text \<open>The item a receipt goes to: the row of its SKU and location, a new empty one if there is none.\<close>

definition receiving_item ::
  "ProcurementRequest \<Rightarrow> PurchaseOrder \<Rightarrow> string \<Rightarrow> string \<Rightarrow> int \<Rightarrow> InventoryItem op" where
  "receiving_item procurement purchase_order sku storage_location low_stock_threshold =
     bind (scalar inventory_items (\<lambda>i. ii_sku i = sku \<and> ii_storage_location i = storage_location)) (\<lambda>found.
     case found of
       None \<Rightarrow>
         bind new_uuid (\<lambda>item_id.
         bind now_utc (\<lambda>now.
         let item = \<lparr>row_id = item_id, row_created_at = now, ii_product_id = pr_product_id procurement,
               ii_sku = sku, ii_storage_location = storage_location, ii_quantity_on_hand = 0,
               ii_reserved_quantity = 0, ii_cost_basis = 0, ii_currency = po_currency purchase_order,
               ii_low_stock_threshold = low_stock_threshold\<rparr> in
         andthen (raise_if (\<not> inventory_item_checks item)
           (Exn IntegrityError ''ck_inventory_items_nonnegative_low_stock_threshold''))
         (andthen (add_row inventory_items_update item)
         (andthen flush (ret item)))))
     | Some item \<Rightarrow>
         andthen (raise_if (ii_product_id item \<noteq> pr_product_id procurement)
           (Exn InventoryIdempotencyConflict ''SKU and storage location already belong to another product''))
         (andthen (raise_if (ii_currency item \<noteq> po_currency purchase_order)
           (Exn InventoryIdempotencyConflict ''Inventory and purchase-order currencies differ''))
         (ret item)))"

text \<open>\<open>InventoryChangeResult(existing.inventory_item, existing, True)\<close>, after the check of the request.\<close>

definition replay_movement :: "bool \<Rightarrow> string \<Rightarrow> InventoryMovement \<Rightarrow> InventoryChangeResult op" where
  "replay_movement differs message existing =
     andthen (raise_if differs (Exn InventoryIdempotencyConflict message))
     (bind (reload inventory_items (im_inventory_item_id existing)) (\<lambda>item.
      ret \<lparr>icr_inventory_item = item, icr_movement = existing, icr_duplicate = True\<rparr>))"

text \<open>From \<open>self._record_change\<close> on; \<open>item\<close> is the item before the receipt.\<close>

definition finish_receipt ::
  "PurchaseOrder \<Rightarrow> ProcurementRequest \<Rightarrow> InventoryItem \<Rightarrow> InventoryMovement \<Rightarrow> string \<Rightarrow> datetime option \<Rightarrow>
   InventoryChangeResult op" where
  "finish_receipt purchase_order procurement item movement actor received_at =
     bind (receipt_workflow procurement) (\<lambda>workflow.
       andthen (record_change (row_id item) movement actor (available_quantity item) True (Some workflow))
       (bind (reload purchase_orders (row_id purchase_order)) (\<lambda>received.
        andthen (whenM (po_received_quantity received = po_quantity received)
          (bind (time_or_now received_at) (\<lambda>at_time.
           bind (mark_received (row_id procurement) actor ''Purchase order fully received'' (Some at_time))
             (\<lambda>_. ret ()))))
        (bind (reload inventory_items (row_id item)) (\<lambda>changed.
         ret \<lparr>icr_inventory_item = changed, icr_movement = movement, icr_duplicate = False\<rparr>)))))"

definition post_receipt ::
  "PurchaseOrder \<Rightarrow> ProcurementRequest \<Rightarrow> InventoryItem \<Rightarrow> int \<Rightarrow> rat \<Rightarrow> string \<Rightarrow> string \<Rightarrow> string \<Rightarrow>
   datetime option \<Rightarrow> InventoryChangeResult op" where
  "post_receipt purchase_order procurement item quantity_received unit_cost actor reason idempotency_key received_at =
     bind (of_result (weighted_cost_basis (ii_quantity_on_hand item) (ii_cost_basis item) quantity_received unit_cost))
       (\<lambda>new_cost_basis.
     bind (of_result (apply_quantity_change (ii_quantity_on_hand item) (ii_reserved_quantity item) quantity_received))
       (\<lambda>balance.
     andthen (set_item (row_id item)
       (\<lambda>i. i\<lparr>ii_quantity_on_hand := quantity_on_hand balance, ii_cost_basis := new_cost_basis\<rparr>))
     (andthen (set_purchase_order (row_id purchase_order)
       (\<lambda>p. p\<lparr>po_received_quantity := po_received_quantity p + quantity_received,
              po_actual_landed_cost := Some (dec_add (case po_actual_landed_cost p of None \<Rightarrow> 0 | Some c \<Rightarrow> c)
                                                (dec_mul unit_cost (of_int quantity_received)))\<rparr>))
     (bind new_uuid (\<lambda>movement_id.
      bind now_utc (\<lambda>now.
      let movement = \<lparr>row_id = movement_id, row_created_at = now, im_inventory_item_id = row_id item,
            im_purchase_order_id = Some (row_id purchase_order), im_movement_type = Move_RECEIPT,
            im_quantity_delta = quantity_received, im_unit_cost = Some unit_cost, im_reason = reason,
            im_source_type = ''purchase_order'', im_source_id = uuid_str (row_id purchase_order),
            im_idempotency_key = idempotency_key\<rparr> in
      andthen (add_movement movement)
      (finish_receipt purchase_order procurement item movement actor received_at)))))))"

definition receive_stock ::
  "uuid \<Rightarrow> string \<Rightarrow> string \<Rightarrow> int \<Rightarrow> rat option \<Rightarrow> int \<Rightarrow> string \<Rightarrow> string \<Rightarrow> string \<Rightarrow> datetime option \<Rightarrow>
   InventoryChangeResult op" where
  "receive_stock purchase_order_id sku storage_location quantity_received landed_unit_cost low_stock_threshold
     actor reason idempotency_key received_at =
     bind (existing_movement idempotency_key) (\<lambda>existing.
     case existing of
       Some m \<Rightarrow> replay_movement
         (im_purchase_order_id m \<noteq> Some purchase_order_id \<or> im_quantity_delta m \<noteq> quantity_received \<or>
          im_movement_type m \<noteq> Move_RECEIPT)
         ''Receipt idempotency key was reused for different stock'' m
     | None \<Rightarrow>
         bind (scalar purchase_orders (\<lambda>p. row_id p = purchase_order_id)) (\<lambda>found.
         bind (the_or (Exn PurchaseOrderReceiptNotFoundError ''Purchase order was not found'') found)
           (\<lambda>purchase_order.
         andthen (raise_if (po_status purchase_order \<noteq> PO_SHIPPED)
           (Exn PurchaseOrderNotReceivableError
             (''Purchase order must be shipped, not '' @ purchase_order_value (po_status purchase_order))))
         (let remaining = po_quantity purchase_order - po_received_quantity purchase_order in
         andthen (raise_if (quantity_received \<le> 0)
           (Exn InvalidInventoryChange ''Received quantity must be positive''))
         (andthen (raise_if (remaining < quantity_received)
           (Exn InvalidInventoryChange (''Received quantity '' @ int_str quantity_received @
              '' exceeds remaining quantity '' @ int_str remaining)))
         (bind (get_row procurement_requests (po_procurement_request_id purchase_order)) (\<lambda>request.
          bind (the_or (Exn PurchaseOrderNotReceivableError ''Procurement request is missing'') request)
            (\<lambda>procurement.
          bind (get_row supplier_quotes (pr_selected_quote_id procurement)) (\<lambda>offer.
          bind (the_or (Exn PurchaseOrderNotReceivableError ''Supplier quote is missing'') offer) (\<lambda>quote.
          bind (receiving_item procurement purchase_order sku storage_location low_stock_threshold) (\<lambda>item.
          post_receipt purchase_order procurement item quantity_received
            (case landed_unit_cost of Some c \<Rightarrow> c | None \<Rightarrow> sq_unit_cost quote)
            actor reason idempotency_key received_at)))))))))))"

definition adjusted_cost_basis :: "InventoryItem \<Rightarrow> int \<Rightarrow> rat option \<Rightarrow> exn + rat" where
  "adjusted_cost_basis item quantity_delta unit_cost =
     (case unit_cost of None \<Rightarrow> Inr (ii_cost_basis item)
      | Some c \<Rightarrow> if 0 < quantity_delta
          then weighted_cost_basis (ii_quantity_on_hand item) (ii_cost_basis item) quantity_delta c
          else Inr (ii_cost_basis item))"

definition adjust_stock ::
  "uuid \<Rightarrow> int \<Rightarrow> string \<Rightarrow> string \<Rightarrow> string \<Rightarrow> rat option \<Rightarrow> InventoryChangeResult op" where
  "adjust_stock inventory_item_id quantity_delta reason actor idempotency_key unit_cost =
     bind (existing_movement idempotency_key) (\<lambda>existing.
     case existing of
       Some m \<Rightarrow> replay_movement
         (im_inventory_item_id m \<noteq> inventory_item_id \<or> im_quantity_delta m \<noteq> quantity_delta \<or>
          im_movement_type m \<noteq> Move_ADJUSTMENT)
         ''Adjustment idempotency key was reused for a different change'' m
     | None \<Rightarrow>
         bind (get_inventory inventory_item_id) (\<lambda>item.
         bind (of_result (apply_quantity_change (ii_quantity_on_hand item) (ii_reserved_quantity item)
                 quantity_delta)) (\<lambda>balance.
         bind (of_result (adjusted_cost_basis item quantity_delta unit_cost)) (\<lambda>basis.
         andthen (set_item (row_id item)
           (\<lambda>i. i\<lparr>ii_cost_basis := basis, ii_quantity_on_hand := quantity_on_hand balance\<rparr>))
         (bind new_uuid (\<lambda>movement_id.
          bind now_utc (\<lambda>now.
          let movement = \<lparr>row_id = movement_id, row_created_at = now, im_inventory_item_id = row_id item,
                im_purchase_order_id = None, im_movement_type = Move_ADJUSTMENT,
                im_quantity_delta = quantity_delta, im_unit_cost = unit_cost, im_reason = reason,
                im_source_type = ''manual_adjustment'', im_source_id = uuid_str (row_id item),
                im_idempotency_key = idempotency_key\<rparr> in
          andthen (add_movement movement)
          (andthen (record_change (row_id item) movement actor (available_quantity item) False None)
          (bind (reload inventory_items (row_id item)) (\<lambda>changed.
           ret \<lparr>icr_inventory_item = changed, icr_movement = movement, icr_duplicate = False\<rparr>))))))))))"

section \<open>Frames\<close>

definition supply_part :: "db \<Rightarrow> ProcurementRequest list \<times> PurchaseOrder list \<times> InventoryItem list \<times> InventoryMovement list" where
  "supply_part s = (procurement_requests s, purchase_orders s, inventory_items s, inventory_movements s)"

lemma supply_part_simps [simp]:
  "supply_part (flush_db s) = supply_part s" "supply_part (next_id_update n s) = supply_part s"
  "supply_part (pending_rows_update p s) = supply_part s" "supply_part (dirty_rows_update d s) = supply_part s"
  "supply_part (versions_update v s) = supply_part s" "supply_part (domain_events_update e s) = supply_part s"
  "supply_part (audit_events_update a s) = supply_part s" "supply_part (approvals_update ap s) = supply_part s"
  "supply_part (workflow_runs_update w s) = supply_part s"
  by (simp_all add: supply_part_def)

lemma stock_part_simps [simp]:
  "stock_part (flush_db s) = stock_part s" "stock_part (next_id_update n s) = stock_part s"
  "stock_part (pending_rows_update p s) = stock_part s" "stock_part (dirty_rows_update d s) = stock_part s"
  "stock_part (versions_update v s) = stock_part s" "stock_part (domain_events_update e s) = stock_part s"
  "stock_part (audit_events_update a s) = stock_part s" "stock_part (approvals_update ap s) = stock_part s"
  "stock_part (workflow_runs_update w s) = stock_part s" "stock_part (procurement_requests_update r s) = stock_part s"
  "stock_part (purchase_orders_update q s) = stock_part s"
  by (simp_all add: stock_part_def)

lemma keeps_record_change [keeps_intros]:
  assumes "\<And>s. f (flush_db s) = f s" "\<And>s n. f (s\<lparr>next_id := n\<rparr>) = f s"
    "\<And>s g h. f (pending_rows_update g (domain_events_update h s)) = f s"
    "\<And>s g h. f (pending_rows_update g (audit_events_update h s)) = f s"
  shows "keeps f (record_change i m a p r w)"
  unfolding record_change_def Let_def by (intro keeps_intros assms)

lemma advances_inventory [simp]:
  "advances (record_change i m a prev flag w)" "advances (add_movement m)" "advances (set_item i ff)"
  "advances (receipt_workflow req)" "advances (existing_movement k)" "advances (get_inventory i)"
  "advances (receiving_item req po sku loc th)" "advances (replay_movement c msg m)"
  by (auto simp: record_change_def Let_def add_movement_def set_item_def receipt_workflow_def
      existing_movement_def get_inventory_def receiving_item_def replay_movement_def
      intro!: advances_intros advances_writes split: option.split)

lemma advances_post_receipt [simp]: "advances (post_receipt po r i q c a why k at_time)"
  by (auto simp: post_receipt_def finish_receipt_def Let_def intro!: advances_intros)

lemma advances_stock [simp]:
  "advances (receive_stock po sku loc q c th a why k at_time)" "advances (adjust_stock i q a b k c)"
  by (auto simp: receive_stock_def adjust_stock_def Let_def intro!: advances_intros)

lemmas supply_steps = wp_keeps_advances [where f = supply_part]

text \<open>Procurement leaves the stock alone.\<close>

lemma keeps_stock_transition [keeps_intros]: "keeps stock_part (apply_transition r st a b)"
  unfolding apply_transition_def set_request_def by (intro keeps_intros; simp)

lemma keeps_stock_mark [simp]:
  "keeps stock_part (mark_received i a b n)" "keeps stock_part (mark_ordered i a b e n)"
  "keeps stock_part (mark_shipped i a b x n)" "keeps stock_part (cancel_procurement i a b)"
  unfolding mark_received_def mark_ordered_def mark_shipped_def cancel_procurement_def get_procurement_def
    purchase_order_of_def set_purchase_order_def set_request_def set_workflow_def
  by (intro keeps_intros; simp)+

lemma keeps_stock_approve [simp]:
  "keeps stock_part (submit_for_approval E i a b)" "keeps stock_part (approve_purchase ap)"
  unfolding submit_for_approval_def approve_purchase_def create_purchase_order_def get_procurement_def
    set_workflow_def Let_def
  by (intro keeps_intros; simp)+

lemma keeps_stock_call: "keeps stock_part (run_call E c)"
  by (cases c) (auto intro!: keeps_intros)

section \<open>Receipts and purchase orders\<close>

text \<open>What was received on a purchase order, by the ledger.\<close>

definition received_on :: "InventoryMovement list \<Rightarrow> uuid \<Rightarrow> int" where
  "received_on ms p = sum_list (map (\<lambda>m. if im_purchase_order_id m = Some p then im_quantity_delta m else 0) ms)"

definition receipts_ok :: "PurchaseOrder list \<Rightarrow> InventoryMovement list \<Rightarrow> bool" where
  "receipts_ok ps ms \<longleftrightarrow> (\<forall>p \<in> set ps. po_received_quantity p = received_on ms (row_id p)) \<and>
     (\<forall>m \<in> set ms. \<forall>p. im_purchase_order_id m = Some p \<longrightarrow> p \<in> row_id ` set ps)"

definition supply_ok :: "db \<Rightarrow> bool" where
  "supply_ok s \<longleftrightarrow> procurement_ok s \<and> stock_ok s \<and> receipts_ok (purchase_orders s) (inventory_movements s)"

interpretation supply_inv: unit_of_work supply_ok
proof
  fix s t :: db
  assume "supply_ok s" "tables_of t = tables_of s" "next_id s \<le> next_id t"
  then show "supply_ok t"
    using procurement.tables [of s t] stock.tables [of s t] by (simp add: supply_ok_def tables_ofD [of t s])
qed

lemma supply_ok_part: "supply_ok s \<Longrightarrow> supply_part t = supply_part s \<Longrightarrow> next_id s \<le> next_id t \<Longrightarrow> supply_ok t"
  by (auto simp: supply_ok_def supply_part_def procurement_ok_def stock_ok_def
      intro: procurement_tables_ok_mono stock_tables_ok_mono)

lemma received_on_none: "p \<notin> row_id ` set ps \<Longrightarrow> receipts_ok ps ms \<Longrightarrow> received_on ms p = 0"
proof -
  assume p: "p \<notin> row_id ` set ps" and ok: "receipts_ok ps ms"
  have "im_purchase_order_id m \<noteq> Some p" if "m \<in> set ms" for m
    using ok p that by (auto simp: receipts_ok_def)
  then show ?thesis by (simp add: received_on_def cong: map_cong)
qed

lemma receipts_ok_move:
  assumes "receipts_ok ps ms" "po_change st g"
  shows "receipts_ok (of_request i g ps) ms"
proof -
  have g: "\<And>p. row_id (g p) = row_id p" "\<And>p. po_received_quantity (g p) = po_received_quantity p"
    using assms(2) by (auto simp: po_change_def)
  have "map row_id (of_request i g ps) = map row_id ps"
    by (simp add: of_request_def g)
  then have "row_id ` set (of_request i g ps) = row_id ` set ps" by (metis set_map)
  then show ?thesis using assms(1) g by (auto simp: receipts_ok_def of_request_def)
qed

lemma receipts_ok_append:
  assumes "receipts_ok ps ms" "row_id p \<notin> row_id ` set ps" "po_received_quantity p = 0"
  shows "receipts_ok (ps @ [p]) ms"
  using assms received_on_none [OF assms(2,1)] by (auto simp: receipts_ok_def)

lemma receipts_ok_receive:
  assumes ok: "receipts_ok ps ms" and id: "\<And>p. row_id (g p) = row_id p"
    and m: "im_purchase_order_id m = Some i" "i \<in> row_id ` set ps"
    and g: "\<And>p. po_received_quantity (g p) = po_received_quantity p + im_quantity_delta m"
  shows "receipts_ok (update_rows i g ps) (ms @ [m])"
proof -
  have "row_id ` set (update_rows i g ps) = row_id ` set ps"
    by (metis id map_id_update_rows set_map)
  moreover have "po_received_quantity p = received_on (ms @ [m]) (row_id p)" if mem: "p \<in> set (update_rows i g ps)" for p
  proof -
    obtain q where q: "q \<in> set ps" "p = (if row_id q = i then g q else q)" using mem unfolding set_update_rows by blast
    then have "po_received_quantity q = received_on ms (row_id q)" using ok by (simp add: receipts_ok_def)
    with q(2) m(1) g id show ?thesis by (simp add: received_on_def)
  qed
  ultimately show ?thesis using ok m by (auto simp: receipts_ok_def)
qed

lemma receipts_ok_other:
  "receipts_ok ps ms \<Longrightarrow> im_purchase_order_id m = None \<Longrightarrow> receipts_ok ps (ms @ [m])"
  by (auto simp: receipts_ok_def received_on_def)

lemma moved_keeps_receipts:
  assumes "moved i target st s t" "receipts_ok (purchase_orders s) ms"
  shows "receipts_ok (purchase_orders t) ms"
  using assms by (auto simp: moved_def intro: receipts_ok_move)

lemma run_call_keeps_supply:
  assumes ok: "supply_ok s" and just: "call_justified c s" and run: "run_call E c s = (Inr u, t)"
  shows "supply_ok t"
proof -
  have p: "procurement_ok s" using ok by (simp add: supply_ok_def)
  have n: "next_id s \<le> next_id t" using advances_run_call run by (rule advancesD)
  have part: "stock_part t = stock_part s" using keeps_stock_call run by (rule keepsD)
  have "receipts_ok (purchase_orders t) (inventory_movements s)"
    using run_call_effect [OF p run]
  proof (elim disjE exE conjE)
    assume "purchase_approved (call_request c) s t"
    then obtain q where q: "purchase_orders t = purchase_orders s @ [q]" "po_received_quantity q = 0" "next_id s \<le> row_id q"
      by (auto simp: purchase_approved_def)
    moreover have "row_id q \<notin> row_id ` set (purchase_orders s)"
      using p q(3) by (auto simp: procurement_ok_def procurement_tables_ok_def ids_ok_def)
    ultimately show ?thesis using ok receipts_ok_append [of "purchase_orders s" _ q] by (simp add: supply_ok_def)
  qed (use ok in \<open>auto simp: supply_ok_def intro: moved_keeps_receipts\<close>)
  then show ?thesis
    using run_call_keeps_ok [OF p just run] ok part n
    by (auto simp: supply_ok_def stock_ok_def stock_part_def intro: stock_tables_ok_mono)
qed

section \<open>The operations keep the invariant\<close>

lemma weighted_cost_basis_nonneg:
  assumes w: "weighted_cost_basis q c a u = Inr w" and "0 \<le> c" "0 \<le> q" shows "0 \<le> w"
proof -
  have rep: "representable 0" using representable_places [of 0] by simp
  have a: "0 < a" "0 \<le> u" using w by (auto simp: weighted_cost_basis_def split: if_splits)
  have pos: "0 \<le> x \<Longrightarrow> 0 \<le> round28 x" for x using ctx28.rnd_ge [OF rep] by blast
  have "w = round28 (round28 (round28 (c * of_int q) + round28 (u * of_int a)) / of_int (q + a))"
    using w a assms by (auto simp: weighted_cost_basis_def dec_div_def dec_add_def dec_mul_def split: if_splits)
  moreover have "0 \<le> round28 (c * of_int q)" "0 \<le> round28 (u * of_int a)"
    using a assms by (auto intro!: pos)
  ultimately show ?thesis using a assms by (auto intro!: pos divide_nonneg_nonneg)
qed

lemma supply_ok_post:
  assumes ok: "supply_ok s" and r: "row (inventory_items s) i = Some r" and p: "posts r f m"
    and checks: "inventory_item_checks (f r)"
    and fresh: "find (\<lambda>x. im_idempotency_key x = im_idempotency_key m) (inventory_movements s) = None"
    and none: "im_purchase_order_id m = None" and id: "next_id s \<le> row_id m" "row_id m < next_id t"
    and t: "supply_part t = (procurement_requests s, purchase_orders s, update_rows i f (inventory_items s), inventory_movements s @ [m])"
  shows "supply_ok t"
proof -
  have "im_idempotency_key m \<notin> im_idempotency_key ` set (inventory_movements s)"
    using fresh by (auto simp: find_None_iff)
  then have "stock_ok t"
    using stock_tables_ok_post [OF _ r p checks _ id] ok t by (simp add: supply_ok_def stock_ok_def supply_part_def)
  moreover have "receipts_ok (purchase_orders t) (inventory_movements t)"
    using ok t none by (simp add: supply_ok_def supply_part_def receipts_ok_other)
  moreover have "next_id s \<le> next_id t" using id by simp
  then have "procurement_ok t"
    using ok t by (auto simp: supply_ok_def supply_part_def procurement_ok_def intro: procurement_tables_ok_mono)
  ultimately show ?thesis by (simp add: supply_ok_def)
qed

lemma wp_existing_movement [wp_simps]: "wp (existing_movement k) Q E s =
    Q (find (\<lambda>m. im_idempotency_key m = k) (inventory_movements s)) (flush_db s)"
  by (simp add: existing_movement_def wp_simps)

lemma wp_get_inventory [wp_simps]: "wp (get_inventory i) Q E s =
    (case row (inventory_items s) i of None \<Rightarrow> E (Exn InventoryNotFoundError (uuid_str i)) (flush_db s)
     | Some r \<Rightarrow> Q r (flush_db s))"
  by (simp add: get_inventory_def wp_simps row_def split: option.split)

lemma replay_wp:
  "supply_ok s \<Longrightarrow> wp (replay_movement c msg m) (\<lambda>_. supply_ok) (\<lambda>_ _. True) s"
  unfolding replay_movement_def by (simp add: wp_simps split: option.split)

lemma item_checks: "stock_ok s \<Longrightarrow> row (inventory_items s) i = Some r \<Longrightarrow> inventory_item_checks r"
  by (auto simp: stock_ok_def stock_tables_ok_def dest: row_Some_iff)

lemma record_change_wp:
  assumes "supply_ok s"
  shows "wp (record_change i m a p b w) (\<lambda>_. supply_ok) (\<lambda>_ _. True) s"
  by (rule supply_steps, (intro keeps_intros; simp), simp) (use supply_ok_part [OF assms] in simp_all)

lemma adjusted_cost_basis_nonneg:
  "adjusted_cost_basis r d c = Inr b \<Longrightarrow> inventory_item_checks r \<Longrightarrow> 0 \<le> b"
  by (auto simp: adjusted_cost_basis_def inventory_item_checks_def intro: weighted_cost_basis_nonneg
      split: option.splits if_splits)

lemma adjust_wp:
  assumes ok: "supply_ok s"
  shows "wp (adjust_stock i d why who k c) (\<lambda>_. supply_ok) (\<lambda>_ _. True) s"
proof (cases "find (\<lambda>m. im_idempotency_key m = k) (inventory_movements s)")
  case (Some m)
  show ?thesis unfolding adjust_stock_def
    by (simp add: wp_simps Some) (rule replay_wp, rule supply_inv.flushed, rule ok)
next
  case None
  show ?thesis
  proof (cases "row (inventory_items s) i")
    case Some': (Some r)
    note i = row_id_of [OF Some']
    have checks: "inventory_item_checks r" using ok item_checks [OF _ Some'] by (simp add: supply_ok_def)
    show ?thesis
      unfolding adjust_stock_def
      apply (simp add: wp_simps None Some' Let_def add_movement_def set_item_def split: sum.split)
      apply (intro conjI allI impI)
      apply (rule wp_mono, rule record_change_wp)
        apply (rule_tac f = "\<lambda>i. i\<lparr>ii_cost_basis := x2a, ii_quantity_on_hand := quantity_on_hand x2\<rparr>" in supply_ok_post [OF ok Some'])
      using adjusted_cost_basis_nonneg [OF _ checks] None i checks
      apply (auto simp: posts_def stock_key_def inventory_movement_checks_def inventory_item_checks_def apply_quantity_change_Inr
        supply_part_def wp_simps split: option.split)
      done
  qed (simp add: adjust_stock_def wp_simps None)
qed

text \<open>A receipt on a shipped purchase order.\<close>

definition receives :: "int \<Rightarrow> (PurchaseOrder \<Rightarrow> PurchaseOrder) \<Rightarrow> bool" where
  "receives q g \<longleftrightarrow> (\<forall>p. row_id (g p) = row_id p \<and> po_procurement_request_id (g p) = po_procurement_request_id p \<and>
     po_quantity (g p) = po_quantity p \<and> po_status (g p) = po_status p \<and>
     po_received_quantity (g p) = po_received_quantity p + q)"

lemma procurement_tables_ok_receive:
  assumes ok: "procurement_tables_ok n rs ps" and p: "row ps i = Some p" and ship: "po_status p = PO_SHIPPED"
    and g: "receives q g" and q: "0 < q" "po_received_quantity p + q \<le> po_quantity p"
  shows "procurement_tables_ok n rs (update_rows i g ps)"
proof -
  have g': "\<And>p. row_id (g p) = row_id p" "\<And>p. po_procurement_request_id (g p) = po_procurement_request_id p"
    using g by (auto simp: receives_def)
  have pi: "p \<in> set ps" "row_id p = i" using p by (auto dest: row_Some_iff)
  have maps: "map row_id (update_rows i g ps) = map row_id ps"
    "map po_procurement_request_id (update_rows i g ps) = map po_procurement_request_id ps"
    using g' by (simp_all add: update_rows_def)
  have "\<exists>r. row rs (po_procurement_request_id x) = Some r \<and> po_matches r x" if mem: "x \<in> set (update_rows i g ps)" for x
  proof -
    obtain y where y: "y \<in> set ps" "x = (if row_id y = i then g y else y)"
      using mem unfolding set_update_rows by blast
    then obtain r where r: "row rs (po_procurement_request_id y) = Some r" "po_matches r y"
      using ok by (auto simp: procurement_tables_ok_def)
    show ?thesis
    proof (cases "row_id y = i")
      case True
      then have "y = p" using ok y(1) p ids_ok_row [of n ps y] by (auto simp: procurement_tables_ok_def)
      then have "po_matches r (g p)"
        using r(2) ship q g by (auto simp: po_matches_def receives_def split: ProcurementStatus.splits)
      with True y r g' \<open>y = p\<close> show ?thesis by auto
    next
      case False
      with y r show ?thesis by auto
    qed
  qed
  moreover have "\<exists>x \<in> set (update_rows i g ps). po_procurement_request_id x = row_id r"
    if "r \<in> set rs" "needs_po r" for r
  proof -
    have "row_id r \<in> set (map po_procurement_request_id ps)" using ok that by (force simp: procurement_tables_ok_def)
    then have "row_id r \<in> po_procurement_request_id ` set (update_rows i g ps)" by (metis maps(2) set_map)
    then show ?thesis by force
  qed
  ultimately show ?thesis
    using ok g' maps ids_ok_update [of n ps g i] by (auto simp: procurement_tables_ok_def)
qed

lemma supply_ok_receipt:
  assumes ok: "supply_ok s" and r: "row (inventory_items s) i = Some r" and po: "posts r f m"
    and checks: "inventory_item_checks (f r)"
    and fresh: "find (\<lambda>x. im_idempotency_key x = im_idempotency_key m) (inventory_movements s) = None"
    and p: "row (purchase_orders s) j = Some p" "po_status p = PO_SHIPPED"
    and m: "im_purchase_order_id m = Some j" "im_quantity_delta m = q" and g: "receives q g"
    and q: "0 < q" "po_received_quantity p + q \<le> po_quantity p"
    and id: "next_id s \<le> row_id m" "row_id m < next_id t"
    and t: "supply_part t = (procurement_requests s, update_rows j g (purchase_orders s),
      update_rows i f (inventory_items s), inventory_movements s @ [m])"
  shows "supply_ok t"
proof -
  have n: "next_id s \<le> next_id t" using id by simp
  have "im_idempotency_key m \<notin> im_idempotency_key ` set (inventory_movements s)"
    using fresh by (auto simp: find_None_iff)
  then have "stock_ok t"
    using stock_tables_ok_post [OF _ r po checks _ id] ok t by (simp add: supply_ok_def stock_ok_def supply_part_def)
  moreover have "receipts_ok (purchase_orders t) (inventory_movements t)"
  proof -
    have "j \<in> row_id ` set (purchase_orders s)" using p(1) by (auto dest: row_Some_iff)
    then show ?thesis
      using receipts_ok_receive [of "purchase_orders s" "inventory_movements s" g m j] ok t m g
      by (simp add: supply_ok_def supply_part_def receives_def)
  qed
  moreover have "procurement_ok t"
    using procurement_tables_ok_mono [OF procurement_tables_ok_receive [OF _ p g q] n] ok t
    by (simp add: supply_ok_def supply_part_def procurement_ok_def)
  ultimately show ?thesis by (simp add: supply_ok_def)
qed

lemma mark_received_supply:
  assumes ok: "supply_ok s" and full: "\<forall>p \<in> set (purchase_orders s).
     po_procurement_request_id p = i \<longrightarrow> po_received_quantity p = po_quantity p"
  shows "wp (mark_received i who why n) (\<lambda>_. supply_ok) (\<lambda>_ _. True) s"
proof (rule wp_eqI)
  fix x t assume "mark_received i who why n s = (Inr x, t)"
  then have "run_call E (Receive i who why n) s = (Inr (), t)" for E by (simp add: run_simps)
  then show "supply_ok t" using run_call_keeps_supply [OF ok] full by (metis call_justified.simps(1))
qed simp

definition receiving :: "db \<Rightarrow> InventoryItem \<Rightarrow> db \<Rightarrow> bool" where
  "receiving s r t \<longleftrightarrow> supply_ok t \<and> row (inventory_items t) (row_id r) = Some r \<and>
     procurement_requests t = procurement_requests s \<and> purchase_orders t = purchase_orders s \<and>
     inventory_movements t = inventory_movements s"

lemma receiving_item_wp:
  assumes ok: "supply_ok s"
  shows "wp (receiving_item req po sku loc th) (receiving s) (\<lambda>_ _. True) s"
proof (cases "find (\<lambda>i. ii_sku i = sku \<and> ii_storage_location i = loc) (inventory_items s)")
  case (Some r)
  have "r \<in> set (inventory_items s)" using Some by (auto dest: find_SomeD)
  then have "row (inventory_items s) (row_id r) = Some r"
    using ok ids_ok_row by (auto simp: supply_ok_def stock_ok_def stock_tables_ok_def)
  then show ?thesis
    using supply_inv.flushed [OF ok] by (simp add: receiving_item_def wp_simps Some receiving_def)
next
  case None
  let ?r = "\<lparr>row_id = next_id s, row_created_at = clock s, ii_product_id = pr_product_id req, ii_sku = sku,
      ii_storage_location = loc, ii_quantity_on_hand = 0, ii_reserved_quantity = 0, ii_cost_basis = 0,
      ii_currency = po_currency po, ii_low_stock_threshold = th\<rparr>"
  have new: "stock_tables_ok (Suc (next_id s)) (inventory_items s @ [?r]) (inventory_movements s)"
    if "inventory_item_checks ?r"
    by (rule stock_tables_ok_new [where n = "next_id s"])
      (use ok that None in \<open>auto simp: supply_ok_def stock_ok_def stock_key_def find_None_iff\<close>)
  have fresh: "row (inventory_items s) (next_id s) = None"
    using ok ids_ok_fresh [of "next_id s" "inventory_items s" "next_id s"]
    by (simp add: supply_ok_def stock_ok_def stock_tables_ok_def)
  show ?thesis
    using ok new fresh
    by (auto simp: receiving_item_def wp_simps None Let_def receiving_def supply_ok_def stock_ok_def procurement_ok_def
        row_append row_Cons intro: procurement_tables_ok_mono)
qed

lemma only_order:
  assumes ok: "supply_ok s" and p: "row (purchase_orders s) j = Some p" and full: "po_received_quantity p = po_quantity p"
  shows "\<forall>x \<in> set (purchase_orders s). po_procurement_request_id x = po_procurement_request_id p \<longrightarrow>
     po_received_quantity x = po_quantity x"
proof (intro ballI impI)
  fix x assume "x \<in> set (purchase_orders s)" "po_procurement_request_id x = po_procurement_request_id p"
  moreover have "p \<in> set (purchase_orders s)" using p by (auto dest: row_Some_iff)
  moreover have "distinct (map po_procurement_request_id (purchase_orders s))"
    using ok by (simp add: supply_ok_def procurement_ok_def procurement_tables_ok_def)
  ultimately have "x = p" by (auto simp: distinct_map dest: inj_onD)
  then show "po_received_quantity x = po_quantity x" using full by simp
qed

lemma keeps_receipt_workflow [keeps_intros]: "keeps f (receipt_workflow r)"
  unfolding receipt_workflow_def by (intro keeps_intros)

lemma finish_receipt_wp:
  assumes ok: "supply_ok s" and p: "row (purchase_orders s) (row_id p) = Some p'" "po_procurement_request_id p' = row_id req"
  shows "wp (finish_receipt p req r m who at_time) (\<lambda>_. supply_ok) (\<lambda>_ _. True) s"
proof -
  have mark: "wp (mark_received (row_id req) who why n) (\<lambda>_. supply_ok) (\<lambda>_ _. True) t"
    if t: "supply_part t = supply_part s" "next_id s \<le> next_id t" and full: "po_received_quantity p' = po_quantity p'" for t why n
  proof -
    have "supply_ok t" by (rule supply_ok_part [OF ok t])
    then show ?thesis
      using only_order [of t "row_id p" p'] p full t(1) by (intro mark_received_supply) (auto simp: supply_part_def)
  qed
  show ?thesis
    unfolding finish_receipt_def
    apply (simp add: wp_simps)
    apply (rule supply_steps, rule keeps_receipt_workflow, simp)
     apply (simp add: wp_simps)
     apply (rule supply_steps, (rule keeps_record_change; simp), simp)
      apply (simp add: wp_simps split: option.split)
      apply (intro conjI allI impI)
         apply (rule wp_mono, rule mark)
             apply (auto simp: supply_part_def p wp_simps intro: supply_ok_part [OF ok] split: option.split)
       apply (rule wp_mono, rule mark)
           apply (auto simp: supply_part_def p wp_simps intro: supply_ok_part [OF ok] split: option.split)
    done
qed

lemma post_receipt_wp:
  assumes ok: "supply_ok s" and r: "row (inventory_items s) (row_id r) = Some r"
    and p: "row (purchase_orders s) (row_id p) = Some p" "po_status p = PO_SHIPPED"
    and q: "0 < q" "po_received_quantity p + q \<le> po_quantity p"
    and fresh: "find (\<lambda>x. im_idempotency_key x = k) (inventory_movements s) = None"
    and req: "po_procurement_request_id p = row_id req"
  shows "wp (post_receipt p req r q c who why k at_time) (\<lambda>_. supply_ok) (\<lambda>_ _. True) s"
proof -
  have checks: "inventory_item_checks r" using ok item_checks [OF _ r] by (simp add: supply_ok_def)
  let ?g = "\<lambda>p. p\<lparr>po_received_quantity := po_received_quantity p + q,
      po_actual_landed_cost := Some (dec_add (case po_actual_landed_cost p of None \<Rightarrow> 0 | Some c \<Rightarrow> c) (dec_mul c (of_int q)))\<rparr>"
  have g: "receives q ?g" by (simp add: receives_def)
  have basis: "0 \<le> w" if "weighted_cost_basis (ii_quantity_on_hand r) (ii_cost_basis r) q c = Inr w" for w
    using weighted_cost_basis_nonneg [OF that] checks by (simp add: inventory_item_checks_def)
  show ?thesis
    unfolding post_receipt_def
    apply (simp add: wp_simps Let_def add_movement_def set_item_def split: sum.split)
    apply (intro conjI allI impI)
    apply (rule_tac p' = "?g p" in finish_receipt_wp)
      apply (rule_tac f = "\<lambda>i. i\<lparr>ii_quantity_on_hand := quantity_on_hand x2a, ii_cost_basis := x2\<rparr>" in
          supply_ok_receipt [OF ok r _ _ _ p _ _ g q])
    using fresh checks basis q(1)
    apply (auto simp: posts_def stock_key_def inventory_movement_checks_def inventory_item_checks_def
        apply_quantity_change_Inr supply_part_def row_update_rows p(1) req)
    done
qed

lemma receive_wp:
  assumes ok: "supply_ok s"
  shows "wp (receive_stock i sku loc q c th who why k at_time) (\<lambda>_. supply_ok) (\<lambda>_ _. True) s"
proof (cases "find (\<lambda>m. im_idempotency_key m = k) (inventory_movements s)")
  case (Some m)
  show ?thesis unfolding receive_stock_def
    by (simp add: wp_simps Some) (rule replay_wp, rule supply_inv.flushed, rule ok)
next
  case None
  have item: "wp (bind (receiving_item req p sku loc th) (\<lambda>r. post_receipt p req r q u who why k at_time))
      (\<lambda>_. supply_ok) (\<lambda>_ _. True) (flush_db s)"
    if p: "row (purchase_orders s) i = Some p" "po_status p = PO_SHIPPED" "0 < q" "q \<le> po_quantity p - po_received_quantity p"
      and req: "row (procurement_requests s) (po_procurement_request_id p) = Some req" for p req u
    unfolding wp_bind
    apply (rule wp_mono, rule receiving_item_wp, rule supply_inv.flushed, rule ok)
     apply (rule post_receipt_wp)
    using p req None by (auto simp: receiving_def)
  show ?thesis
    unfolding receive_stock_def
    by (simp add: wp_simps None Let_def row_def [symmetric] split: option.split) (auto intro: item [unfolded wp_bind])
qed

section \<open>Replaying a request\<close>

text \<open>What a change leaves behind for a later request under the same key.\<close>

definition recorded :: "string \<Rightarrow> InventoryMovement \<Rightarrow> db \<Rightarrow> bool" where
  "recorded k m t \<longleftrightarrow> find (\<lambda>x. im_idempotency_key x = k) (inventory_movements t) = Some m \<and>
     row (inventory_items t) (im_inventory_item_id m) \<noteq> None"

lemma recorded_flush [simp]: "recorded k m (flush_db t) = recorded k m t"
  by (simp add: recorded_def)

lemma recorded_stock: "recorded k m s \<Longrightarrow> stock_part t = stock_part s \<Longrightarrow> recorded k m t"
  by (simp add: recorded_def stock_part_def)

lemma keeps_stock_finish: "keeps stock_part (finish_receipt p req r m who n)"
  unfolding finish_receipt_def
  by (intro keeps_intros; simp)

lemma finish_receipt_movement:
  assumes "recorded k m s"
  shows "wp (finish_receipt p req r m who n) (\<lambda>res t. recorded k (icr_movement res) t \<and> icr_movement res = m) (\<lambda>_ _. True) s"
proof -
  have "wp (finish_receipt p req r m who n) (\<lambda>res t. icr_movement res = m) (\<lambda>_ _. True) s"
    unfolding finish_receipt_def
    apply (simp add: wp_simps)
    apply (rule wp_keeps [where f = "\<lambda>_. ()"], (simp add: keeps_def))
     apply (simp add: wp_simps)
     apply (rule wp_keeps [where f = "\<lambda>_. ()"], (simp add: keeps_def))
      apply (simp add: wp_simps split: option.split)
      apply (intro conjI allI impI)
         apply (rule wp_keeps [where f = "\<lambda>_. ()"], (simp add: keeps_def))
          apply (simp_all add: wp_simps split: option.split)
    apply (rule wp_keeps [where f = "\<lambda>_. ()"], (simp add: keeps_def))
     apply (simp_all add: wp_simps split: option.split)
    done
  from wp_conj [OF this keeps_wp [OF keeps_stock_finish]] show ?thesis
    by (rule wp_mono) (use assms in \<open>auto intro: recorded_stock\<close>)
qed


lemma find_fresh_snoc: "find P ms = None \<Longrightarrow> P m \<Longrightarrow> find P (ms @ [m]) = Some m"
  by (simp add: find_append)

text \<open>What a successful receipt under a key records.\<close>

definition receipt_for :: "uuid \<Rightarrow> int \<Rightarrow> InventoryMovement \<Rightarrow> bool" where
  "receipt_for i q m \<longleftrightarrow> im_purchase_order_id m = Some i \<and> im_quantity_delta m = q \<and> im_movement_type m = Move_RECEIPT"

lemma post_receipt_movement:
  assumes "find (\<lambda>x. im_idempotency_key x = k) (inventory_movements s) = None"
    and r: "row (inventory_items s) (row_id r) = Some r"
  shows "wp (post_receipt p req r q c who why k n)
    (\<lambda>res t. recorded k (icr_movement res) t \<and> receipt_for (row_id p) q (icr_movement res)) (\<lambda>_ _. True) s"
  unfolding post_receipt_def
  apply (simp add: wp_simps Let_def add_movement_def set_item_def split: sum.split)
  apply (intro conjI allI impI)
  apply (rule wp_mono, rule finish_receipt_movement [where k = k])
    apply (use assms in \<open>auto simp: recorded_def receipt_for_def row_update_rows find_fresh_snoc\<close>)
  done

lemma receiving_item_frame:
  "wp (receiving_item req po sku loc th) (\<lambda>r t. inventory_movements t = inventory_movements s \<and> row (inventory_items t) (row_id r) = Some r) (\<lambda>_ _. True) s"
  if "ids_ok (next_id s) (inventory_items s)"
proof (cases "find (\<lambda>i. ii_sku i = sku \<and> ii_storage_location i = loc) (inventory_items s)")
  case (Some r)
  then have "r \<in> set (inventory_items s)" by (auto dest: find_SomeD)
  then show ?thesis using ids_ok_row [OF that] by (simp add: receiving_item_def wp_simps Some)
next
  case None
  then show ?thesis using ids_ok_fresh [OF that order_refl]
    by (simp add: receiving_item_def wp_simps None Let_def row_append row_Cons)
qed

lemma receive_movement:
  assumes ok: "supply_ok s"
  shows "wp (receive_stock i sku loc q c th who why k n)
    (\<lambda>res t. recorded k (icr_movement res) t \<and> receipt_for i q (icr_movement res)) (\<lambda>_ _. True) s"
proof (cases "find (\<lambda>m. im_idempotency_key m = k) (inventory_movements s)")
  case (Some m)
  then show ?thesis unfolding receive_stock_def replay_movement_def
    by (simp add: wp_simps Some recorded_def receipt_for_def split: option.split)
next
  case None
  have ids: "ids_ok (next_id (flush_db s)) (inventory_items (flush_db s))"
    using ok by (simp add: supply_ok_def stock_ok_def stock_tables_ok_def)
  have item: "wp (bind (receiving_item req p sku loc th) (\<lambda>r. post_receipt p req r q u who why k n))
      (\<lambda>res t. recorded k (icr_movement res) t \<and> receipt_for i q (icr_movement res)) (\<lambda>_ _. True) (flush_db s)"
    if "row_id p = i" for p req u
    unfolding wp_bind
    apply (rule wp_mono, rule receiving_item_frame, rule ids)
     apply (rule wp_mono, rule post_receipt_movement)
        apply (use None that in auto)
    done
  show ?thesis
    unfolding receive_stock_def
    by (simp add: wp_simps None Let_def row_def [symmetric] split: option.split) (auto intro: item [unfolded wp_bind])
qed

lemma receive_again:
  assumes "recorded k m t" "receipt_for i q m"
  shows "\<exists>r. row (inventory_items t) (im_inventory_item_id m) = Some r \<and>
    receive_stock i sku loc q c th who why k n t = (Inr \<lparr>icr_inventory_item = r, icr_movement = m, icr_duplicate = True\<rparr>, flush_db t)"
  using assms by (auto simp: recorded_def receipt_for_def receive_stock_def existing_movement_def replay_movement_def run_simps)

lemma receive_conflict:
  assumes "recorded k m t" "receipt_for i q m" "(i', q') \<noteq> (i, q)"
  shows "receive_stock i' sku loc q' c th who why k n t =
    (Inl (Exn InventoryIdempotencyConflict ''Receipt idempotency key was reused for different stock''), flush_db t)"
  using assms by (auto simp: recorded_def receipt_for_def receive_stock_def existing_movement_def replay_movement_def run_simps)

section \<open>Sequences of requests\<close>

text \<open>
  What a client can ask of procurement and inventory, each request in a transaction of its own.
  \<open>mark_received\<close> is not among them: only \<open>receive_stock\<close> calls it.
\<close>

datatype supply_call =
    Procure procurement_call
  | Receive_Stock uuid string string int "rat option" int string string string "datetime option"
  | Adjust_Stock uuid int string string string "rat option"

fun client_call :: "supply_call \<Rightarrow> bool" where
  "client_call (Procure (Receive _ _ _ _)) = False"
| "client_call _ = True"

fun run_supply_call :: "ApprovalEngine \<Rightarrow> supply_call \<Rightarrow> unit op" where
  "run_supply_call E (Procure c) = run_call E c"
| "run_supply_call E (Receive_Stock i sku loc q c th who why k n) =
     bind (receive_stock i sku loc q c th who why k n) (\<lambda>_. ret ())"
| "run_supply_call E (Adjust_Stock i d why who k c) = bind (adjust_stock i d why who k c) (\<lambda>_. ret ())"

lemma run_supply_call_keeps:
  assumes ok: "supply_ok s" and c: "client_call c" and run: "run_supply_call E c s = (Inr u, t)"
  shows "supply_ok t"
proof -
  have effect: "wp (bind m (\<lambda>_. ret ())) (\<lambda>_. P) (\<lambda>_ _. True) s" if "wp m (\<lambda>_. P) (\<lambda>_ _. True) s"
    for m :: "'a op" and P using that by (auto simp: wp_simps intro: wp_mono)
  show ?thesis
  proof (cases c)
    case (Procure d)
    then have "call_justified d s" using c by (cases d) auto
    with run_call_keeps_supply [OF ok _] run Procure show ?thesis by auto
  qed (use run wp_InrD [OF effect [OF receive_wp [OF ok]]] wp_InrD [OF effect [OF adjust_wp [OF ok]]] in auto)
qed

text \<open>
  Receiving is idempotent in its key. After a successful receipt the same request, repeated with
  whatever other arguments, answers with the recorded movement as a duplicate and changes no table;
  a request under the key for another purchase order or quantity is refused, and changes none either.
\<close>
theorem receive_idempotent:
  assumes "supply_ok s" and "receive_stock i sku loc q c th who why k n s = (Inr res, t)"
  shows "\<exists>r. row (inventory_items t) (im_inventory_item_id (icr_movement res)) = Some r \<and>
      receive_stock i sku' loc' q c' th' who' why' k n' t =
        (Inr \<lparr>icr_inventory_item = r, icr_movement = icr_movement res, icr_duplicate = True\<rparr>, flush_db t) \<and>
      ((i', q') \<noteq> (i, q) \<longrightarrow> receive_stock i' sku' loc' q' c' th' who' why' k n' t =
        (Inl (Exn InventoryIdempotencyConflict ''Receipt idempotency key was reused for different stock''), flush_db t))"
proof -
  have "recorded k (icr_movement res) t" "receipt_for i q (icr_movement res)"
    using wp_InrD [OF receive_movement [OF assms(1)] assms(2)] by auto
  note finished = this
  obtain r where "row (inventory_items t) (im_inventory_item_id (icr_movement res)) = Some r"
    "receive_stock i sku' loc' q c' th' who' why' k n' t =
      (Inr \<lparr>icr_inventory_item = r, icr_movement = icr_movement res, icr_duplicate = True\<rparr>, flush_db t)"
    using receive_again [OF finished] by blast
  then show ?thesis using receive_conflict [OF finished, of i' q'] by blast
qed


section \<open>A shipped purchase\<close>

definition shipped_db :: db where
  "shipped_db = (empty_db 0)\<lparr>next_id := 10, supplier_quotes := [sample_quote],
     procurement_requests := [sample_proposal\<lparr>pr_status := Procurement_SHIPPED\<rparr>], workflow_runs := [sample_workflow],
     purchase_orders := [\<lparr>row_id = 7, row_created_at = 0, po_procurement_request_id = 3, po_supplier_id = 1, po_po_number = ''PO-1'',
       po_quantity = 10, po_received_quantity = 0, po_total_amount = 35, po_actual_landed_cost = None, po_currency = ''GBP'',
       po_terms = [], po_external_reference = None, po_status = PO_SHIPPED, po_ordered_at = Some 0, po_shipped_at = Some 0,
       po_received_at = None, po_expected_arrival_at = None\<rparr>]\<rparr>"

lemma shipped_ok: "supply_ok shipped_db"
  by (simp add: supply_ok_def procurement_ok_def procurement_tables_ok_def stock_ok_def receipts_ok_def received_on_def
      shipped_db_def sample_proposal_def ids_ok_def needs_po_def po_matches_def empty_db_def row_def)

lemma receive_sample:
  "\<exists>res t. receive_stock 7 ''s'' ''l'' 4 (Some 3) 2 ''bob'' ''r'' ''k'' None shipped_db = (Inr res, t) \<and> ii_quantity_on_hand (icr_inventory_item res) = 4"
  unfolding receive_stock_def post_receipt_def finish_receipt_def record_change_def emit_def create_event_def
    create_event_by_def publish_def receiving_item_def existing_movement_def
  by (simp add: run_simps shipped_db_def sample_proposal_def sample_workflow_def
      sample_quote_def empty_db_def add_audit_def set_item_def set_purchase_order_def add_movement_def
      receipt_workflow_def row_def update_rows_def Let_def flush_db_def version_of_def
      aggregate_key_def event_record_def weighted_cost_basis_def apply_quantity_change_def inventory_item_checks_def
      inventory_movement_checks_def available_quantity_def dec_div_def)

theorem receive_idempotent_witness:
  "\<exists>res t r. receive_stock 7 ''s'' ''l'' 4 (Some 3) 2 ''bob'' ''r'' ''k'' None shipped_db = (Inr res, t) \<and>
     ii_quantity_on_hand (icr_inventory_item res) = 4 \<and>
     receive_stock 7 ''s'' ''l'' 4 None 0 ''eve'' ''again'' ''k'' None t =
       (Inr \<lparr>icr_inventory_item = r, icr_movement = icr_movement res, icr_duplicate = True\<rparr>, flush_db t) \<and>
     receive_stock 7 ''s'' ''l'' 5 None 0 ''eve'' ''again'' ''k'' None t =
       (Inl (Exn InventoryIdempotencyConflict ''Receipt idempotency key was reused for different stock''), flush_db t)"
proof -
  obtain res t where r: "receive_stock 7 ''s'' ''l'' 4 (Some 3) 2 ''bob'' ''r'' ''k'' None shipped_db = (Inr res, t)"
    "ii_quantity_on_hand (icr_inventory_item res) = 4"
    using receive_sample by blast
  show ?thesis
    using receive_idempotent [OF shipped_ok r(1), where sku' = "''s''" and loc' = "''l''" and c' = None and th' = 0 and
      who' = "''eve''" and why' = "''again''" and n' = None and i' = 7 and q' = 5] r by auto
qed

text \<open>
  C13: The supply invariant. Whatever requests are made of procurement and inventory, in whatever order,
  succeeding or failing: the stock of every item is what its movements add up to and never below the
  reserved stock, a purchase order has received exactly what the receipts on it add up to and never more than
  was ordered, it is received when all of it was, and the statuses of orders and requests agree.
\<close>
theorem supply_invariant:
  assumes "supply_ok s" and "\<forall>c \<in> set cs. client_call c"
  shows "supply_ok (supply_inv.run_all (map (run_supply_call E) cs) s)"
  by (rule supply_inv.run_all_keeps [OF assms(1)])
    (use assms(2) run_supply_call_keeps in \<open>auto\<close>)

theorem supply_invariant_witness:
  "supply_ok (supply_inv.run_all (map (run_supply_call sample_engine)
     [Receive_Stock 7 ''s'' ''l'' 4 (Some 3) 2 ''bob'' ''r'' ''k'' None, Adjust_Stock 10 (- 1) ''bob'' ''lost'' ''k2'' None]) shipped_db)"
  by (rule supply_invariant [OF shipped_ok]) simp

end
