(* ===== verification/Order_Service.thy ===== *)
theory Order_Service
  imports Inventory_Service
begin

text \<open>
  \<open>application/orders.py\<close> and \<open>integrations/marketplaces/orders.py\<close>: a marketplace order reserves stock
  when it is ingested, gives it back when it is cancelled and takes it out of the stock when it is dispatched.

  The service is its SHA-256 digest of a JSON document and \<open>uuid5(NAMESPACE_URL, _)\<close>, both from outside the
  repository. \<open>order.items\<close> are the rows of \<open>order_items\<close> of the order in insertion order; candidates with
  equal available stock come in insertion order too, where the query leaves the order to the database.
\<close>

section \<open>Definitions\<close>

record NormalizedOrderItem =
  ni_external_line_id :: string
  ni_sku :: string
  ni_quantity :: int
  ni_unit_price :: rat
  ni_tax_amount :: rat
  ni_discount_amount :: rat

record NormalizedMarketplaceOrder =
  no_contract_version :: int
  no_marketplace :: string
  no_marketplace_account_id :: string
  no_external_order_id :: string
  no_source_event_id :: string
  no_status :: OrderStatus
  no_currency :: string
  no_total_amount :: rat
  no_customer_reference :: "string option"
  no_shipping_details :: dict
  no_ordered_at :: datetime
  no_items :: "NormalizedOrderItem list"

text \<open>The bounds that pydantic puts on a command: a command of this type has passed them.\<close>

definition text_within :: "nat \<Rightarrow> nat \<Rightarrow> string \<Rightarrow> bool" where
  "text_within lo hi s \<longleftrightarrow> lo \<le> length s \<and> length s \<le> hi"

definition four_places :: "rat \<Rightarrow> bool" where
  "four_places x \<longleftrightarrow> of_int \<lfloor>x * 10000\<rfloor> = x * 10000"

definition normalized_item_valid :: "NormalizedOrderItem \<Rightarrow> bool" where
  "normalized_item_valid l \<longleftrightarrow> text_within 1 255 (ni_external_line_id l) \<and> text_within 1 100 (ni_sku l) \<and>
     0 < ni_quantity l \<and> 0 \<le> ni_unit_price l \<and> four_places (ni_unit_price l) \<and>
     0 \<le> ni_tax_amount l \<and> four_places (ni_tax_amount l) \<and>
     0 \<le> ni_discount_amount l \<and> four_places (ni_discount_amount l)"

definition normalized_order_valid :: "NormalizedMarketplaceOrder \<Rightarrow> bool" where
  "normalized_order_valid c \<longleftrightarrow> 1 \<le> no_contract_version c \<and> text_within 1 100 (no_marketplace c) \<and>
     text_within 1 255 (no_marketplace_account_id c) \<and> text_within 1 255 (no_external_order_id c) \<and>
     text_within 1 255 (no_source_event_id c) \<and> text_within 3 3 (no_currency c) \<and>
     0 \<le> no_total_amount c \<and> four_places (no_total_amount c) \<and>
     (case no_customer_reference c of None \<Rightarrow> True | Some r \<Rightarrow> text_within 0 255 r) \<and>
     no_items c \<noteq> [] \<and> (\<forall>l \<in> set (no_items c). normalized_item_valid l)"

record OrderService =
  order_digest :: "json \<Rightarrow> string"
  order_uuid5 :: "string \<Rightarrow> uuid"

record OrderIngestionResult =
  oir_order :: Order
  oir_duplicate :: bool

definition order_line_document :: "NormalizedOrderItem \<Rightarrow> json" where
  "order_line_document l = JObj [(''external_line_id'', JStr (ni_external_line_id l)), (''sku'', JStr (ni_sku l)),
     (''quantity'', JInt (ni_quantity l)), (''unit_price'', JDec (ni_unit_price l)),
     (''tax_amount'', JDec (ni_tax_amount l)), (''discount_amount'', JDec (ni_discount_amount l))]"

text \<open>\<open>command.model_dump(mode="json", exclude={"source_event_id"})\<close>; an instant is its number of microseconds.\<close>

definition order_document :: "NormalizedMarketplaceOrder \<Rightarrow> json" where
  "order_document c = JObj [(''contract_version'', JInt (no_contract_version c)),
     (''marketplace'', JStr (no_marketplace c)), (''marketplace_account_id'', JStr (no_marketplace_account_id c)),
     (''external_order_id'', JStr (no_external_order_id c)), (''status'', JStr (order_value (no_status c))),
     (''currency'', JStr (no_currency c)), (''total_amount'', JDec (no_total_amount c)),
     (''customer_reference'', j_opt JStr (no_customer_reference c)),
     (''shipping_details'', JObj (no_shipping_details c)), (''ordered_at'', JInt (no_ordered_at c)),
     (''items'', JList (map order_line_document (no_items c)))]"

definition order_payload_hash :: "OrderService \<Rightarrow> NormalizedMarketplaceOrder \<Rightarrow> string" where
  "order_payload_hash S command = order_digest S (canonical (order_document command))"

definition validate_order :: "NormalizedMarketplaceOrder \<Rightarrow> exn + unit" where
  "validate_order command =
     rbind (check (no_status command \<noteq> Order_PENDING \<and> no_status command \<noteq> Order_PAID)
       (Exn OrderValidationError ''New orders must be pending or paid'')) (\<lambda>_.
     rbind (check (\<not> distinct (map ni_external_line_id (no_items command)))
       (Exn OrderValidationError ''External line IDs must be unique within an order'')) (\<lambda>_.
     check (\<exists>l \<in> set (no_items command).
         dec_add (dec_mul (ni_unit_price l) (of_int (ni_quantity l))) (ni_tax_amount l) < ni_discount_amount l)
       (Exn OrderValidationError ''Line discount cannot exceed the line value'')))"

definition get_order :: "uuid \<Rightarrow> Order op" where
  "get_order order_id =
     bind (scalar orders (\<lambda>r. row_id r = order_id)) (\<lambda>found.
     the_or (Exn OrderNotFoundError (uuid_str order_id)) found)"

definition list_orders :: "nat \<Rightarrow> Order list op" where
  "list_orders limit =
     bind (scalars orders (\<lambda>_. True)) (\<lambda>rows. ret (take limit (rev (sort_key or_ordered_at (rev rows)))))"

definition items_of_order :: "uuid \<Rightarrow> OrderItem list op" where
  "items_of_order order_id = gets (\<lambda>s. filter (\<lambda>l. oi_order_id l = order_id) (order_items s))"

definition set_order :: "uuid \<Rightarrow> (Order \<Rightarrow> Order) \<Rightarrow> unit op" where
  "set_order = set_row orders orders_update"

definition inventory_events ::
  "InventoryItem \<Rightarrow> InventoryMovement \<Rightarrow> uuid \<Rightarrow> int \<Rightarrow> int \<Rightarrow> unit op" where
  "inventory_events item movement correlation previous_available quantity_delta =
     bind (version_of (row_id item)) (\<lambda>item_version.
     andthen (bind (emit (InventoryChangedPayload (row_id item) quantity_delta (ii_quantity_on_hand item)
                            (ii_reserved_quantity item)) ''inventory_item'' (row_id item) item_version
                    (''inventory-changed:'' @ uuid_str (row_id movement)) (Some correlation) None None)
               (\<lambda>_. ret ()))
     (whenM (ii_low_stock_threshold item < previous_available \<and>
             available_quantity item \<le> ii_low_stock_threshold item)
       (bind (emit (low_stock_payload item) ''inventory_item'' (row_id item) item_version
               (''low-stock:'' @ uuid_str (row_id movement)) (Some correlation) None None) (\<lambda>_. ret ()))))"

text \<open>A conditional update of the stock, and the movement that records it.\<close>

definition order_movement ::
  "uuid \<Rightarrow> datetime \<Rightarrow> uuid \<Rightarrow> InventoryMovementType \<Rightarrow> int \<Rightarrow> string \<Rightarrow> uuid \<Rightarrow> string \<Rightarrow> InventoryMovement" where
  "order_movement movement_id now item_id movement_type quantity_delta reason order_id line_id =
     \<lparr>row_id = movement_id, row_created_at = now, im_inventory_item_id = item_id, im_purchase_order_id = None,
      im_movement_type = movement_type, im_quantity_delta = quantity_delta, im_unit_cost = None,
      im_reason = reason, im_source_type = ''order'', im_source_id = uuid_str order_id,
      im_idempotency_key = ''order-'' @ movement_value movement_type @ '':'' @ uuid_str order_id @ '':'' @ line_id\<rparr>"

fun reserve_from ::
  "uuid list \<Rightarrow> string \<Rightarrow> int \<Rightarrow> uuid \<Rightarrow> string \<Rightarrow> uuid \<Rightarrow> InventoryItem op" where
  "reserve_from [] sku quantity order_id line_id correlation =
     throw (Exn InsufficientInventoryError (''Insufficient available inventory for SKU '' @ sku))"
| "reserve_from (inventory_id # candidates) sku quantity order_id line_id correlation =
     bind (get_row inventory_items inventory_id) (\<lambda>before.
     let previous_available = (case before of None \<Rightarrow> 0 | Some b \<Rightarrow> available_quantity b) in
     bind (update_where inventory_items inventory_items_update inventory_id
             (\<lambda>i. quantity \<le> ii_quantity_on_hand i - ii_reserved_quantity i)
             (\<lambda>i. i\<lparr>ii_reserved_quantity := ii_reserved_quantity i + quantity\<rparr>)) (\<lambda>reserved.
     case reserved of
       None \<Rightarrow> reserve_from candidates sku quantity order_id line_id correlation
     | Some _ \<Rightarrow>
         bind (reload inventory_items inventory_id) (\<lambda>item.
         bind new_uuid (\<lambda>movement_id.
         bind now_utc (\<lambda>now.
         let movement = order_movement movement_id now (row_id item) Move_RESERVATION quantity
               ''Reserved for marketplace order'' order_id line_id in
         andthen (add_movement movement)
         (andthen (inventory_events item movement correlation previous_available 0)
         (ret item)))))))"

definition reserve :: "string \<Rightarrow> int \<Rightarrow> uuid \<Rightarrow> string \<Rightarrow> uuid \<Rightarrow> InventoryItem op" where
  "reserve sku quantity order_id line_id correlation =
     bind (scalars inventory_items (\<lambda>i. ii_sku i = sku)) (\<lambda>rows.
     reserve_from (map row_id (sort_key (\<lambda>i. - (ii_quantity_on_hand i - ii_reserved_quantity i)) rows))
       sku quantity order_id line_id correlation)"

definition audit_order ::
  "uuid \<Rightarrow> string \<Rightarrow> string \<Rightarrow> string option \<Rightarrow> string \<Rightarrow> string \<Rightarrow> unit op" where
  "audit_order order_id action actor before after reason =
     bind (reload orders order_id) (\<lambda>order.
     bind (get_opt_row workflow_runs (or_workflow_run_id order)) (\<lambda>found.
     bind (the_or (Exn AttributeError ''NoneType object has no attribute correlation_id'') found) (\<lambda>workflow.
     bind new_uuid (\<lambda>audit_id.
     bind now_utc (\<lambda>now.
     add_row audit_events_update
       \<lparr>row_id = audit_id, row_created_at = now,
        au_actor_type = (if actor = ''marketplace'' then ''system'' else ''user''), au_actor_id = actor,
        au_action = action, au_resource_type = ''order'', au_resource_id = order_id,
        au_before_state = map_option (\<lambda>b. [(''status'', JStr b)]) before,
        au_after_state = Some [(''status'', JStr after)], au_reason = Some reason,
        au_request_id = None, au_correlation_id = wf_correlation_id workflow\<rparr>)))))"

text \<open>One line of the command: its stock is reserved, then its row is appended to \<open>order.items\<close>.\<close>

definition ingest_line :: "uuid \<Rightarrow> uuid \<Rightarrow> NormalizedOrderItem \<Rightarrow> unit op" where
  "ingest_line order_id correlation line =
     bind (reserve (ni_sku line) (ni_quantity line) order_id (ni_external_line_id line) correlation) (\<lambda>inventory.
     bind new_uuid (\<lambda>line_id.
     bind now_utc (\<lambda>now.
     add_row order_items_update
       \<lparr>row_id = line_id, row_created_at = now, oi_order_id = order_id,
        oi_inventory_item_id = row_id inventory, oi_external_line_id = ni_external_line_id line,
        oi_sku = ni_sku line, oi_quantity = ni_quantity line, oi_unit_price = ni_unit_price line,
        oi_tax_amount = ni_tax_amount line, oi_discount_amount = ni_discount_amount line,
        oi_reservation_reference =
          Some (''order:'' @ uuid_str order_id @ '':'' @ ni_external_line_id line)\<rparr>)))"

definition new_order ::
  "OrderService \<Rightarrow> NormalizedMarketplaceOrder \<Rightarrow> uuid \<Rightarrow> uuid \<Rightarrow> datetime \<Rightarrow> Order" where
  "new_order S command order_id workflow_id now =
     \<lparr>row_id = order_id, row_created_at = now, or_marketplace = no_marketplace command,
      or_workflow_run_id = Some workflow_id,
      or_marketplace_account_id = no_marketplace_account_id command,
      or_external_order_id = no_external_order_id command,
      or_source_event_id = no_source_event_id command,
      or_source_payload_hash = order_payload_hash S command, or_status = no_status command,
      or_currency = str_upper (no_currency command), or_total_amount = no_total_amount command,
      or_customer_reference = no_customer_reference command,
      or_shipping_details = no_shipping_details command, or_ordered_at = no_ordered_at command,
      or_paid_at = (if no_status command = Order_PAID then Some now else None),
      or_dispatched_at = None, or_delivered_at = None\<rparr>"

definition fulfilment_run :: "NormalizedMarketplaceOrder \<Rightarrow> uuid \<Rightarrow> datetime \<Rightarrow> uuid \<Rightarrow> WorkflowRun" where
  "fulfilment_run command workflow_id now correlation =
     new_workflow workflow_id now ''marketplace-order-fulfilment'' correlation Run_RUNNING
       (if no_status command = Order_PAID then ''paid'' else ''awaiting_payment'')
       [(''external_order_id'', JStr (no_external_order_id command))]"

definition add_order :: "OrderService \<Rightarrow> NormalizedMarketplaceOrder \<Rightarrow> uuid \<Rightarrow> uuid op" where
  "add_order S command correlation =
     bind new_uuid (\<lambda>workflow_id.
     bind now_utc (\<lambda>now.
     andthen (add_workflow (fulfilment_run command workflow_id now correlation))
     (bind new_uuid (\<lambda>order_id.
      andthen (add_row orders_update (new_order S command order_id workflow_id now))
      (andthen flush (ret order_id))))))"

text \<open>The end of \<open>ingest\<close>: the order is announced and audited.\<close>

definition announce_order :: "uuid \<Rightarrow> uuid \<Rightarrow> OrderIngestionResult op" where
  "announce_order order_id correlation =
     bind (reload orders order_id) (\<lambda>order.
     bind (version_of order_id) (\<lambda>order_version.
     bind (emit (OrderReceivedPayload order_id (or_marketplace order) (or_external_order_id order))
            ''order'' order_id order_version (''order-received:'' @ uuid_str order_id)
            (Some correlation) (or_workflow_run_id order) None) (\<lambda>_.
     andthen (audit_order order_id ''order.received'' ''marketplace'' None (order_value (or_status order))
               ''Marketplace order ingestion'')
     (ret \<lparr>oir_order = order, oir_duplicate = False\<rparr>))))"

text \<open>\<open>ingest\<close> after the validation.\<close>

definition store_order :: "OrderService \<Rightarrow> NormalizedMarketplaceOrder \<Rightarrow> uuid \<Rightarrow> OrderIngestionResult op" where
  "store_order S command correlation =
     bind (add_order S command correlation) (\<lambda>order_id.
     andthen (for_each (no_items command) (ingest_line order_id correlation))
     (andthen flush (announce_order order_id correlation)))"

definition ingest_order :: "OrderService \<Rightarrow> NormalizedMarketplaceOrder \<Rightarrow> OrderIngestionResult op" where
  "ingest_order S command =
     bind (scalar orders (\<lambda>r. or_marketplace r = no_marketplace command \<and>
             or_marketplace_account_id r = no_marketplace_account_id command \<and>
             or_external_order_id r = no_external_order_id command)) (\<lambda>existing.
     case existing of
       Some r \<Rightarrow>
         andthen (raise_if (or_source_payload_hash r \<noteq> order_payload_hash S command)
           (Exn OrderIdempotencyConflict ''Marketplace order was redelivered with different business data''))
         (ret \<lparr>oir_order = r, oir_duplicate = True\<rparr>)
     | None \<Rightarrow>
         bind (scalar orders (\<lambda>r. or_marketplace r = no_marketplace command \<and>
             or_marketplace_account_id r = no_marketplace_account_id command \<and>
             or_source_event_id r = no_source_event_id command)) (\<lambda>event_order.
         andthen (raise_if (event_order \<noteq> None)
           (Exn OrderIdempotencyConflict ''Marketplace event ID was reused for another order''))
         (andthen (of_result (validate_order command))
         (store_order S command (order_uuid5 S (''order:'' @ no_marketplace command @ '':'' @
              no_marketplace_account_id command @ '':'' @ no_external_order_id command))))))"

definition release_line :: "uuid \<Rightarrow> OrderItem \<Rightarrow> unit op" where
  "release_line order_id line =
     bind (get_row inventory_items (oi_inventory_item_id line)) (\<lambda>found.
     bind (the_or (Exn AssertionError []) found) (\<lambda>item.
     bind (update_where inventory_items inventory_items_update (row_id item)
             (\<lambda>i. oi_quantity line \<le> ii_reserved_quantity i)
             (\<lambda>i. i\<lparr>ii_reserved_quantity := ii_reserved_quantity i - oi_quantity line\<rparr>)) (\<lambda>result.
     andthen (raise_if (result = None) (Exn OrderValidationError ''Order reservation is missing''))
     (bind new_uuid (\<lambda>movement_id.
      bind now_utc (\<lambda>now.
      let movement = order_movement movement_id now (oi_inventory_item_id line) Move_RELEASE (- oi_quantity line)
            ''Order release'' order_id (oi_external_line_id line) in
      andthen (add_movement movement)
      (bind (reload inventory_items (row_id item)) (\<lambda>changed.
       inventory_events changed movement order_id (available_quantity item) 0))))))))"

definition ship_line :: "uuid \<Rightarrow> OrderItem \<Rightarrow> unit op" where
  "ship_line order_id line =
     bind (get_row inventory_items (oi_inventory_item_id line)) (\<lambda>found.
     bind (the_or (Exn AssertionError []) found) (\<lambda>item.
     bind (update_where inventory_items inventory_items_update (row_id item)
             (\<lambda>i. oi_quantity line \<le> ii_reserved_quantity i \<and> oi_quantity line \<le> ii_quantity_on_hand i)
             (\<lambda>i. i\<lparr>ii_quantity_on_hand := ii_quantity_on_hand i - oi_quantity line,
                   ii_reserved_quantity := ii_reserved_quantity i - oi_quantity line\<rparr>)) (\<lambda>result.
     andthen (raise_if (result = None) (Exn OrderValidationError ''Reserved inventory cannot be dispatched''))
     (bind new_uuid (\<lambda>movement_id.
      bind now_utc (\<lambda>now.
      let movement = order_movement movement_id now (oi_inventory_item_id line) Move_SHIPMENT (- oi_quantity line)
            ''Order shipment'' order_id (oi_external_line_id line) in
      andthen (add_movement movement)
      (bind (reload inventory_items (row_id item)) (\<lambda>changed.
       inventory_events changed movement order_id (available_quantity item) (- oi_quantity line)))))))))"

definition stamp_status :: "OrderStatus \<Rightarrow> datetime \<Rightarrow> Order \<Rightarrow> Order" where
  "stamp_status target now r =
     (let r' = r\<lparr>or_status := target\<rparr> in
      if target = Order_PAID then r'\<lparr>or_paid_at := Some now\<rparr>
      else if target = Order_DISPATCHED then r'\<lparr>or_dispatched_at := Some now\<rparr>
      else if target = Order_DELIVERED then r'\<lparr>or_delivered_at := Some now\<rparr>
      else r')"

definition fulfilment_status :: "OrderStatus \<Rightarrow> WorkflowRun \<Rightarrow> WorkflowRun" where
  "fulfilment_status target w =
     (let w' = w\<lparr>wf_current_step := Some (order_value target)\<rparr> in
      if target = Order_CANCELLED then w'\<lparr>wf_status := Run_CANCELLED\<rparr>
      else if target = Order_DELIVERED \<or> target = Order_REFUNDED then w'\<lparr>wf_status := Run_SUCCEEDED\<rparr>
      else w')"

text \<open>\<open>update_status\<close> from \<open>now = datetime.now(UTC)\<close> on; \<open>order\<close> is the order before the change.\<close>

definition record_order_status :: "Order \<Rightarrow> OrderStatus \<Rightarrow> string \<Rightarrow> string \<Rightarrow> Order op" where
  "record_order_status order target actor reason =
     bind now_utc (\<lambda>now.
     andthen (set_order (row_id order) (stamp_status target now))
     (bind (get_opt_row workflow_runs (or_workflow_run_id order)) (\<lambda>workflow.
      andthen (case workflow of None \<Rightarrow> ret ()
        | Some w \<Rightarrow> set_workflow (row_id w) (fulfilment_status target))
      (andthen (whenM (target = Order_CANCELLED)
        (bind (version_of (row_id order)) (\<lambda>order_version.
         bind (emit (OrderCancelledPayload (row_id order) (Some reason)) ''order'' (row_id order) order_version
                (''order-cancelled:'' @ uuid_str (row_id order))
                (Some (case workflow of Some w \<Rightarrow> wf_correlation_id w | None \<Rightarrow> row_id order))
                (map_option row_id workflow) None) (\<lambda>_. ret ()))))
      (andthen (audit_order (row_id order) ''order.status_changed'' actor (Some (order_value (or_status order)))
                  (order_value target) reason)
      (andthen flush (reload orders (row_id order))))))))"

definition update_order_status :: "uuid \<Rightarrow> OrderStatus \<Rightarrow> string \<Rightarrow> string \<Rightarrow> Order op" where
  "update_order_status order_id target actor reason =
     bind (get_order order_id) (\<lambda>order.
     bind (of_result (transition_order (or_status order) target)) (\<lambda>_.
     if target = or_status order then ret order
     else
       andthen (if target = Order_CANCELLED
           then bind (items_of_order order_id) (\<lambda>lines. for_each lines (release_line order_id))
         else if target = Order_DISPATCHED
           then bind (items_of_order order_id) (\<lambda>lines. for_each lines (ship_line order_id))
         else ret ())
       (record_order_status order target actor reason)))"

section \<open>Frames\<close>

definition order_part :: "db \<Rightarrow> Order list \<times> OrderItem list" where
  "order_part s = (orders s, order_items s)"

lemma order_part_simps [simp]:
  "order_part (flush_db s) = order_part s" "order_part (next_id_update n s) = order_part s"
  "order_part (pending_rows_update p s) = order_part s" "order_part (dirty_rows_update d s) = order_part s"
  "order_part (versions_update v s) = order_part s" "order_part (domain_events_update e s) = order_part s"
  "order_part (audit_events_update a s) = order_part s" "order_part (approvals_update ap s) = order_part s"
  "order_part (workflow_runs_update w s) = order_part s" "order_part (procurement_requests_update r s) = order_part s"
  "order_part (purchase_orders_update q s) = order_part s" "order_part (inventory_items_update i s) = order_part s"
  "order_part (inventory_movements_update m s) = order_part s"
  by (simp_all add: order_part_def)

lemma supply_part_orders [simp]:
  "supply_part (orders_update r s) = supply_part s" "supply_part (order_items_update l s) = supply_part s"
  by (simp_all add: supply_part_def)

text \<open>The reserved stock of an item.\<close>

definition reserved_of :: "db \<Rightarrow> uuid \<Rightarrow> int" where
  "reserved_of s i = (case row (inventory_items s) i of None \<Rightarrow> 0 | Some r \<Rightarrow> ii_reserved_quantity r)"

definition stocked :: "db \<Rightarrow> uuid set" where
  "stocked s = row_id ` set (inventory_items s)"

lemma reserved_of_part: "inventory_items t = inventory_items s \<Longrightarrow> reserved_of t = reserved_of s"
  by (simp add: reserved_of_def fun_eq_iff)

lemma reserved_of_simps [simp]:
  "reserved_of (flush_db s) = reserved_of s" "reserved_of (next_id_update n s) = reserved_of s"
  "reserved_of (pending_rows_update p s) = reserved_of s" "reserved_of (dirty_rows_update d s) = reserved_of s"
  "reserved_of (versions_update v s) = reserved_of s" "reserved_of (domain_events_update e s) = reserved_of s"
  "reserved_of (audit_events_update a s) = reserved_of s" "reserved_of (approvals_update ap s) = reserved_of s"
  "reserved_of (workflow_runs_update w s) = reserved_of s" "reserved_of (procurement_requests_update r s) = reserved_of s"
  "reserved_of (purchase_orders_update q s) = reserved_of s" "reserved_of (inventory_movements_update m s) = reserved_of s"
  "reserved_of (orders_update ors s) = reserved_of s" "reserved_of (order_items_update ois s) = reserved_of s"
  by (rule reserved_of_part, simp)+

lemma reserved_of_supply: "supply_part t = supply_part s \<Longrightarrow> reserved_of t = reserved_of s"
  by (rule reserved_of_part) (simp add: supply_part_def)

text \<open>What procurement and inventory leave alone: orders, their lines and the reservations.\<close>

definition sales_part :: "db \<Rightarrow> Order list \<times> OrderItem list \<times> (uuid \<Rightarrow> int)" where
  "sales_part s = (orders s, order_items s, reserved_of s)"

lemma sales_part_simps [simp]:
  "sales_part (flush_db s) = sales_part s" "sales_part (next_id_update n s) = sales_part s"
  "sales_part (pending_rows_update p s) = sales_part s" "sales_part (dirty_rows_update d s) = sales_part s"
  "sales_part (versions_update v s) = sales_part s" "sales_part (domain_events_update e s) = sales_part s"
  "sales_part (audit_events_update a s) = sales_part s" "sales_part (approvals_update ap s) = sales_part s"
  "sales_part (workflow_runs_update w s) = sales_part s" "sales_part (procurement_requests_update r s) = sales_part s"
  "sales_part (purchase_orders_update q s) = sales_part s" "sales_part (inventory_movements_update m s) = sales_part s"
  by (simp_all add: sales_part_def)

lemma keeps_sales_set_item:
  "(\<And>r. row_id (f r) = row_id r) \<Longrightarrow> (\<And>r. ii_reserved_quantity (f r) = ii_reserved_quantity r) \<Longrightarrow>
   keeps sales_part (set_item i f)"
  by (auto simp: keeps_def set_item_def run_simps sales_part_def reserved_of_def fun_eq_iff row_update_rows
      split: option.split)

lemma keeps_sales_new_item: "ii_reserved_quantity r = 0 \<Longrightarrow> keeps sales_part (add_row inventory_items_update r)"
  by (auto simp: keeps_def run_simps sales_part_def reserved_of_def fun_eq_iff row_append row_Cons split: option.split)

lemma keeps_sales_setters [keeps_intros]:
  "keeps sales_part (set_request i f)" "keeps sales_part (set_purchase_order j g)"
  "keeps sales_part (set_workflow k h)"
  unfolding set_request_def set_purchase_order_def set_workflow_def by (intro keeps_intros; simp)+

lemma keeps_sales_readers [keeps_intros]:
  "keeps sales_part (get_procurement i)" "keeps sales_part (purchase_order_of j)" "keeps sales_part (get_inventory k)"
  "keeps sales_part (existing_movement key)" "keeps sales_part (add_movement m)"
  unfolding get_procurement_def purchase_order_of_def get_inventory_def existing_movement_def add_movement_def
  by (intro keeps_intros; simp)+

lemma keeps_sales_transition [keeps_intros]: "keeps sales_part (apply_transition r st a b)"
  unfolding apply_transition_def by (intro keeps_intros; simp)

lemma keeps_sales_procurement [keeps_intros]:
  "keeps sales_part (submit_for_approval E i a b)" "keeps sales_part (approve_purchase ap)"
  "keeps sales_part (mark_ordered i a b e n)" "keeps sales_part (mark_shipped i a b x n)"
  "keeps sales_part (mark_received i a b n)" "keeps sales_part (cancel_procurement i a b)"
  unfolding submit_for_approval_def approve_purchase_def create_purchase_order_def mark_ordered_def
    mark_shipped_def mark_received_def cancel_procurement_def Let_def
  by (intro keeps_intros; simp)+

lemma keeps_sales_stock [keeps_intros]:
  "keeps sales_part (receive_stock po sku loc q c th a why k n)" "keeps sales_part (adjust_stock i q' a' b k' c')"
  unfolding receive_stock_def adjust_stock_def post_receipt_def finish_receipt_def receiving_item_def
    replay_movement_def Let_def
  by (intro keeps_intros keeps_sales_set_item keeps_sales_new_item; simp)+

lemma keeps_sales_call: "keeps sales_part (run_supply_call E c)"
proof (cases c)
  case (Procure d)
  then show ?thesis by (cases d) (simp_all, (intro keeps_intros)+)
qed (simp_all, (intro keeps_intros)+)

section \<open>Stock steps of an order\<close>

text \<open>
  One line of an order moves the reservation of one item by \<open>d\<close>; orders are left alone and the supply invariant holds again.
\<close>

definition reservation_moved :: "uuid \<Rightarrow> int \<Rightarrow> db \<Rightarrow> db \<Rightarrow> bool" where
  "reservation_moved i d s t \<longleftrightarrow> supply_ok t \<and> i \<in> stocked s \<and> stocked t = stocked s \<and>
     reserved_of t = (reserved_of s)(i := reserved_of s i + d) \<and> order_part t = order_part s \<and> next_id s \<le> next_id t"

lemma row_stocked: "row (inventory_items s) i = Some r \<Longrightarrow> i \<in> stocked s"
  by (auto simp: stocked_def dest: row_Some_iff)

lemma stocked_row: "i \<in> stocked s \<Longrightarrow> \<exists>r. row (inventory_items s) i = Some r"
  using row_None_iff [of "inventory_items s" i] by (cases "row (inventory_items s) i") (auto simp: stocked_def)

lemma reservation_moved_post:
  assumes ok: "supply_ok s" and r: "row (inventory_items s) i = Some r" and p: "posts r f m"
    and checks: "inventory_item_checks (f r)"
    and fresh: "find (\<lambda>x. im_idempotency_key x = im_idempotency_key m) (inventory_movements s) = None"
    and none: "im_purchase_order_id m = None" and id: "next_id s \<le> row_id m" "row_id m < next_id t"
    and t: "supply_part t = (procurement_requests s, purchase_orders s, update_rows i f (inventory_items s), inventory_movements s @ [m])"
    and d: "reserved_effect (im_movement_type m) (im_quantity_delta m) = d" and part: "order_part t = order_part s"
  shows "reservation_moved i d s t"
proof -
  have f: "\<And>q. row_id (f q) = row_id q" using p by (simp add: posts_def)
  have items: "inventory_items t = update_rows i f (inventory_items s)" using t by (simp add: supply_part_def)
  have "stocked t = stocked s" unfolding stocked_def items by (metis f map_id_update_rows set_map)
  moreover have "reserved_of t = (reserved_of s)(i := reserved_of s i + d)"
    using r p d by (auto simp: reserved_of_def items row_update_rows f posts_def fun_eq_iff)
  ultimately show ?thesis
    using supply_ok_post [OF ok r p checks fresh none id t] row_stocked [OF r] part id
    by (simp add: reservation_moved_def)
qed

lemma reservation_moved_part:
  assumes m: "reservation_moved i d s t" and p: "supply_part t' = supply_part t" "order_part t' = order_part t"
    and n: "next_id t \<le> next_id t'"
  shows "reservation_moved i d s t'"
  using m p n supply_ok_part [OF _ p(1) n] reserved_of_supply [OF p(1)]
  by (auto simp: reservation_moved_def stocked_def supply_part_def)

definition same_trade :: "db \<Rightarrow> db \<Rightarrow> bool" where
  "same_trade s t \<longleftrightarrow> supply_part t = supply_part s \<and> order_part t = order_part s \<and> next_id s \<le> next_id t"

lemma emit_wp: "wp (emit pl aty ai av k c w ca) (\<lambda>_. same_trade s) (\<lambda>e _. event_failure e) s"
proof (rule wp_eqI)
  fix x t assume run: "emit pl aty ai av k c w ca s = (Inr x, t)"
  have "keeps supply_part (emit pl aty ai av k c w ca)" "keeps order_part (emit pl aty ai av k c w ca)"
    by (intro keeps_intros; simp)+
  then show "same_trade s t"
    using run advancesD [OF advances_emit run] unfolding same_trade_def by (auto dest: keepsD)
next
  fix e t assume "emit pl aty ai av k c w ca s = (Inl e, t)"
  then show "event_failure e" using emit_failure by (rule wp_InlD [rotated])
qed

lemma same_trade_trans: "same_trade s t \<Longrightarrow> same_trade t u \<Longrightarrow> same_trade s u"
  by (auto simp: same_trade_def)

lemma same_trade_refl [simp]: "same_trade s s"
  by (simp add: same_trade_def)

lemma inventory_events_wp: "wp (inventory_events r m c p d) (\<lambda>_. same_trade s) (\<lambda>e _. event_failure e) s"
  unfolding inventory_events_def
  apply (simp add: wp_simps)
  apply (rule wp_mono, rule emit_wp)
   apply (simp add: wp_simps)
   apply (intro conjI impI)
    apply (rule wp_mono, rule emit_wp)
     apply (auto intro: same_trade_trans simp: wp_simps)
  done

lemma reservation_moved_trade: "reservation_moved i d s t \<Longrightarrow> same_trade t t' \<Longrightarrow> reservation_moved i d s t'"
  unfolding same_trade_def by (auto intro: reservation_moved_part)

lemma located:
  assumes "supply_ok s" "row (inventory_items s) i = Some r"
  shows "(\<exists>x \<in> set (inventory_items s). row_id x = i \<and> P x) \<longleftrightarrow> P r"
proof -
  have "x = r" if "x \<in> set (inventory_items s)" "row_id x = i" for x
    using assms that ids_ok_row [of "next_id s" "inventory_items s" x]
    by (auto simp: supply_ok_def stock_ok_def stock_tables_ok_def)
  then show ?thesis using row_Some_iff [OF assms(2)] by blast
qed

lemma order_movement_simps [simp]:
  "row_id (order_movement i n it ty q why oid l) = i" "im_inventory_item_id (order_movement i n it ty q why oid l) = it"
  "im_movement_type (order_movement i n it ty q why oid l) = ty" "im_quantity_delta (order_movement i n it ty q why oid l) = q"
  "im_purchase_order_id (order_movement i n it ty q why oid l) = None"
  "inventory_movement_checks (order_movement i n it ty q why oid l) \<longleftrightarrow> q \<noteq> 0"
  by (simp_all add: order_movement_def inventory_movement_checks_def)

lemma events_after_move:
  assumes "reservation_moved i d s t" "\<And>e u. event_failure e \<Longrightarrow> E e u"
  shows "wp (inventory_events r m c p n) (\<lambda>_. reservation_moved i d s) E t"
  by (rule wp_mono, rule inventory_events_wp) (use assms in \<open>auto intro: reservation_moved_trade\<close>)

lemma release_line_wp:
  assumes ok: "supply_ok s" and q: "0 < oi_quantity l"
  shows "wp (release_line oid l) (\<lambda>_. reservation_moved (oi_inventory_item_id l) (- oi_quantity l) s)
    (\<lambda>e _. exn_class e = OrderValidationError \<longrightarrow> reserved_of s (oi_inventory_item_id l) < oi_quantity l) s"
proof (cases "row (inventory_items s) (oi_inventory_item_id l)")
  case None
  then show ?thesis by (simp add: release_line_def wp_simps)
next
  case (Some r)
  have i: "row_id r = oi_inventory_item_id l" using row_id_of [OF Some] by simp
  have checks: "inventory_item_checks r" using ok item_checks [OF _ Some] by (simp add: supply_ok_def)
  have held: "reserved_of s (oi_inventory_item_id l) = ii_reserved_quantity r" using Some by (simp add: reserved_of_def)
  show ?thesis
    unfolding release_line_def
    apply (simp add: wp_simps Some i Let_def add_movement_def row_update_rows located [OF ok Some] held not_le)
    apply (intro conjI impI)
    apply (rule events_after_move)
     apply (rule_tac m = "order_movement (next_id s) (clock s) (oi_inventory_item_id l) Move_RELEASE (- oi_quantity l)
         ''Order release'' oid (oi_external_line_id l)" in reservation_moved_post [OF ok Some])
    using q i checks
    apply (auto simp: posts_def stock_key_def inventory_item_checks_def supply_part_def order_part_def find_None_iff event_failure_def)
    done
qed

lemma ship_line_wp:
  assumes ok: "supply_ok s" and q: "0 < oi_quantity l"
  shows "wp (ship_line oid l) (\<lambda>_. reservation_moved (oi_inventory_item_id l) (- oi_quantity l) s)
    (\<lambda>e _. exn_class e = OrderValidationError \<longrightarrow> reserved_of s (oi_inventory_item_id l) < oi_quantity l) s"
proof (cases "row (inventory_items s) (oi_inventory_item_id l)")
  case None
  then show ?thesis by (simp add: ship_line_def wp_simps)
next
  case (Some r)
  have i: "row_id r = oi_inventory_item_id l" using row_id_of [OF Some] by simp
  have checks: "inventory_item_checks r" using ok item_checks [OF _ Some] by (simp add: supply_ok_def)
  have held: "reserved_of s (oi_inventory_item_id l) = ii_reserved_quantity r" using Some by (simp add: reserved_of_def)
  have enough: "oi_quantity l \<le> ii_reserved_quantity r \<and> oi_quantity l \<le> ii_quantity_on_hand r \<longleftrightarrow>
      oi_quantity l \<le> ii_reserved_quantity r"
    using checks by (auto simp: inventory_item_checks_def)
  show ?thesis
    unfolding ship_line_def
    apply (simp add: wp_simps Some i Let_def add_movement_def row_update_rows located [OF ok Some] held enough not_le)
    apply (intro conjI impI)
    apply (rule events_after_move)
     apply (rule_tac m = "order_movement (next_id s) (clock s) (oi_inventory_item_id l) Move_SHIPMENT (- oi_quantity l)
         ''Order shipment'' oid (oi_external_line_id l)" in reservation_moved_post [OF ok Some])
    using q i checks
    apply (auto simp: posts_def stock_key_def inventory_item_checks_def supply_part_def order_part_def find_None_iff event_failure_def)
    done
qed

lemma reservation_moved_flushed: "reservation_moved i d (flush_db s) t \<Longrightarrow> reservation_moved i d s t"
  by (simp add: reservation_moved_def stocked_def)

lemma reserve_from_wp:
  assumes "supply_ok s" and "0 < q"
  shows "wp (reserve_from cands sku q oid line c) (\<lambda>item. reservation_moved (row_id item) q s)
    (\<lambda>e _. exn_class e = InsufficientInventoryError \<longrightarrow>
       (\<forall>j \<in> set cands. \<forall>r. row (inventory_items s) j = Some r \<longrightarrow> available_quantity r < q)) s"
  using assms(1)
proof (induction cands arbitrary: s)
  case Nil
  then show ?case by (simp add: wp_simps)
next
  case (Cons j cands)
  note ok = Cons.prems and IH = Cons.IH [OF supply_inv.flushed [OF Cons.prems]]
  show ?case
  proof (cases "row (inventory_items s) j")
    case None
    then have "\<not> (\<exists>x \<in> set (inventory_items s). row_id x = j \<and> P x)" for P
      by (auto simp: row_None_iff)
    then show ?thesis
      using IH None by (auto simp: wp_simps Let_def intro: wp_mono reservation_moved_flushed)
  next
    case (Some r)
    have i: "row_id r = j" using row_id_of [OF Some] by simp
    have checks: "inventory_item_checks r" using ok item_checks [OF _ Some] by (simp add: supply_ok_def)
    show ?thesis
    proof (cases "q \<le> ii_quantity_on_hand r - ii_reserved_quantity r")
      case False
      then show ?thesis
        using IH Some located [OF ok Some, of "\<lambda>i. q \<le> ii_quantity_on_hand i - ii_reserved_quantity i"]
        by (auto simp: wp_simps Let_def available_quantity_def intro: wp_mono reservation_moved_flushed)
    next
      case True
      then show ?thesis
        apply (simp add: wp_simps Some i Let_def add_movement_def row_update_rows located [OF ok Some])
        apply (intro conjI impI)
         apply (rule wp_mono, rule events_after_move [where E = "\<lambda>e _. event_failure e"])
          apply (rule_tac m = "order_movement (next_id s) (clock s) j Move_RESERVATION q
             ''Reserved for marketplace order'' oid line" in reservation_moved_post [OF ok Some])
        using assms(2) i checks
        apply (auto simp: posts_def stock_key_def inventory_item_checks_def supply_part_def order_part_def find_None_iff
            event_failure_def wp_simps)
        done
    qed
  qed
qed

lemma reserve_wp:
  assumes "supply_ok s" "0 < q"
  shows "wp (reserve sku q oid line c) (\<lambda>item. reservation_moved (row_id item) q s)
    (\<lambda>e _. exn_class e = InsufficientInventoryError \<longrightarrow>
       (\<forall>r \<in> set (inventory_items s). ii_sku r = sku \<longrightarrow> available_quantity r < q)) s"
proof -
  have row: "row (inventory_items s) (row_id r) = Some r" if "r \<in> set (inventory_items s)" for r
    using assms(1) that by (auto simp: supply_ok_def stock_ok_def stock_tables_ok_def intro: ids_ok_row)
  show ?thesis
    unfolding reserve_def
    apply (simp add: wp_simps)
    apply (rule wp_mono, rule reserve_from_wp [OF supply_inv.flushed [OF assms(1)] assms(2)])
    using row by (auto intro: reservation_moved_flushed)
qed

section \<open>Reservations and open orders\<close>

definition open_status :: "OrderStatus \<Rightarrow> bool" where
  "open_status st \<longleftrightarrow> st \<in> {Order_PENDING, Order_PAID, Order_PROCESSING}"

definition open_lines :: "Order list \<Rightarrow> OrderItem list \<Rightarrow> OrderItem list" where
  "open_lines os ls = filter (\<lambda>l. \<exists>r. row os (oi_order_id l) = Some r \<and> open_status (or_status r)) ls"

text \<open>The units of every item that some lines ask for.\<close>

definition claimed :: "OrderItem list \<Rightarrow> uuid \<Rightarrow> int" where
  "claimed ls i = sum_list (map (\<lambda>l. if oi_inventory_item_id l = i then oi_quantity l else 0) ls)"

lemma claimed_simps [simp]:
  "claimed [] = (\<lambda>_. 0)"
  "claimed (l # ls) = (claimed ls)(oi_inventory_item_id l := claimed ls (oi_inventory_item_id l) + oi_quantity l)"
  "claimed (xs @ ys) i = claimed xs i + claimed ys i"
  by (simp_all add: claimed_def fun_eq_iff)

lemma claimed_nonneg: "\<forall>l \<in> set ls. 0 < oi_quantity l \<Longrightarrow> 0 \<le> claimed ls i"
  by (induction ls) auto

lemma claimed_split: "claimed (filter P ls) i + claimed (filter (\<lambda>l. \<not> P l) ls) i = claimed ls i"
  by (induction ls) auto

definition order_key :: "Order \<Rightarrow> string \<times> string \<times> string" where
  "order_key r = (or_marketplace r, or_marketplace_account_id r, or_external_order_id r)"

definition order_tables_ok :: "uuid \<Rightarrow> uuid set \<Rightarrow> Order list \<Rightarrow> OrderItem list \<Rightarrow> bool" where
  "order_tables_ok n items os ls \<longleftrightarrow> ids_ok n os \<and> ids_ok n ls \<and> distinct (map order_key os) \<and>
     (\<forall>l \<in> set ls. 0 < oi_quantity l \<and> oi_order_id l \<in> row_id ` set os \<and> oi_inventory_item_id l \<in> items)"

definition fulfilment_ok :: "db \<Rightarrow> bool" where
  "fulfilment_ok s \<longleftrightarrow> supply_ok s \<and> order_tables_ok (next_id s) (stocked s) (orders s) (order_items s) \<and>
     reserved_of s = claimed (open_lines (orders s) (order_items s))"

lemma order_tables_ok_mono: "order_tables_ok n I os ls \<Longrightarrow> n \<le> m \<Longrightarrow> I \<subseteq> J \<Longrightarrow> order_tables_ok m J os ls"
  by (auto simp: order_tables_ok_def intro: ids_ok_mono)

lemma fulfilment_ok_part:
  assumes ok: "fulfilment_ok s" and p: "supply_part t = supply_part s" "order_part t = order_part s" and n: "next_id s \<le> next_id t"
  shows "fulfilment_ok t"
  using ok p n supply_ok_part [OF _ p(1) n] reserved_of_supply [OF p(1)]
  by (auto simp: fulfilment_ok_def order_part_def supply_part_def stocked_def intro: order_tables_ok_mono)

interpretation fulfilment: unit_of_work fulfilment_ok
proof
  fix s t :: db
  assume s: "fulfilment_ok s" and t: "tables_of t = tables_of s" "next_id s \<le> next_id t"
  show "fulfilment_ok t"
    by (rule fulfilment_ok_part [OF s])
      (use t(2) in \<open>simp_all add: supply_part_def order_part_def tables_ofD [OF t(1)]\<close>)
qed

text \<open>Giving back or shipping the lines of an order, one after the other.\<close>

lemma lines_wp:
  assumes step: "\<And>l s. supply_ok s \<Longrightarrow> 0 < oi_quantity l \<Longrightarrow>
      wp (body l) (\<lambda>_. reservation_moved (oi_inventory_item_id l) (- oi_quantity l) s)
        (\<lambda>e _. exn_class e = OrderValidationError \<longrightarrow> reserved_of s (oi_inventory_item_id l) < oi_quantity l) s"
    and "supply_ok s" "\<forall>l \<in> set ls. 0 < oi_quantity l" "\<forall>i. reserved_of s i = base i + claimed ls i" "\<forall>i. 0 \<le> base i"
  shows "wp (for_each ls body) (\<lambda>_ t. supply_ok t \<and> order_part t = order_part s \<and> stocked t = stocked s \<and>
      reserved_of t = base \<and> next_id s \<le> next_id t) (\<lambda>e _. exn_class e \<noteq> OrderValidationError) s"
  using assms(2-)
proof (induction ls arbitrary: s)
  case Nil
  then show ?case by (auto simp: wp_simps)
next
  case (Cons l ls)
  have rest: "\<forall>l \<in> set ls. 0 < oi_quantity l" using Cons.prems by simp
  have enough: "\<not> reserved_of s (oi_inventory_item_id l) < oi_quantity l"
    using spec [OF Cons.prems(3), of "oi_inventory_item_id l"] spec [OF Cons.prems(4), of "oi_inventory_item_id l"]
      claimed_nonneg [OF rest, of "oi_inventory_item_id l"] by simp
  show ?case
    unfolding for_each.simps wp_andthen
  proof (rule wp_mono, rule step)
    show "supply_ok s" "0 < oi_quantity l" using Cons.prems by simp_all
    fix u t assume m: "reservation_moved (oi_inventory_item_id l) (- oi_quantity l) s t"
    then have "\<forall>i. reserved_of t i = base i + claimed ls i"
      using Cons.prems by (auto simp: reservation_moved_def)
    then have "wp (for_each ls body) (\<lambda>_ u. supply_ok u \<and> order_part u = order_part t \<and> stocked u = stocked t \<and>
      reserved_of u = base \<and> next_id t \<le> next_id u) (\<lambda>e _. exn_class e \<noteq> OrderValidationError) t"
      using m Cons.prems by (intro Cons.IH) (auto simp: reservation_moved_def)
    then show "wp (for_each ls body) (\<lambda>_ u. supply_ok u \<and> order_part u = order_part s \<and> stocked u = stocked s \<and>
      reserved_of u = base \<and> next_id s \<le> next_id u) (\<lambda>e _. exn_class e \<noteq> OrderValidationError) t"
      by (rule wp_mono) (use m in \<open>auto simp: reservation_moved_def\<close>)
  qed (use enough in auto)
qed

text \<open>What a change of the status of one order does to the open lines.\<close>

lemma open_lines_closed:
  assumes r: "row os i = Some r" "open_status (or_status r)" and f: "\<And>r. row_id (f r) = row_id r" "\<not> open_status (or_status (f r))"
  shows "open_lines (update_rows i f os) ls = filter (\<lambda>l. oi_order_id l \<noteq> i) (open_lines os ls)"
    "claimed (open_lines os ls) j = claimed (open_lines (update_rows i f os) ls) j + claimed (filter (\<lambda>l. oi_order_id l = i) ls) j"
proof -
  show closed: "open_lines (update_rows i f os) ls = filter (\<lambda>l. oi_order_id l \<noteq> i) (open_lines os ls)"
    unfolding open_lines_def filter_filter by (rule filter_cong) (use r f in \<open>auto simp: row_update_rows\<close>)
  have "filter (\<lambda>l. oi_order_id l = i) (open_lines os ls) = filter (\<lambda>l. oi_order_id l = i) ls"
    unfolding open_lines_def filter_filter by (rule filter_cong) (use r in auto)
  then show "claimed (open_lines os ls) j = claimed (open_lines (update_rows i f os) ls) j + claimed (filter (\<lambda>l. oi_order_id l = i) ls) j"
    using claimed_split [of "\<lambda>l. oi_order_id l = i" "open_lines os ls" j] by (simp add: closed)
qed

lemma open_lines_same:
  assumes "row os i = Some r" "\<And>r. row_id (f r) = row_id r" "open_status (or_status (f r)) = open_status (or_status r)"
  shows "open_lines (update_rows i f os) ls = open_lines os ls"
  unfolding open_lines_def by (rule filter_cong) (use assms in \<open>auto simp: row_update_rows\<close>)

lemma order_tables_ok_update:
  assumes ok: "order_tables_ok n I os ls" and f: "\<And>r. row_id (f r) = row_id r" "\<And>r. order_key (f r) = order_key r"
  shows "order_tables_ok n I (update_rows i f os) ls"
proof -
  have "map order_key (update_rows i f os) = map order_key os" using f(2) by (simp add: update_rows_def)
  moreover have "row_id ` set (update_rows i f os) = row_id ` set os" by (metis f(1) map_id_update_rows set_map)
  ultimately show ?thesis using ok f ids_ok_update [of n os f i] by (auto simp: order_tables_ok_def)
qed

lemma stamp_status_simps [simp]:
  "row_id (stamp_status target n r) = row_id r" "order_key (stamp_status target n r) = order_key r"
  "or_status (stamp_status target n r) = target" "or_workflow_run_id (stamp_status target n r) = or_workflow_run_id r"
  by (simp_all add: stamp_status_def order_key_def Let_def)

lemma keeps_supply_audit [keeps_intros]: "keeps supply_part (audit_order i a who b c why)"
  unfolding audit_order_def by (intro keeps_intros; simp)

lemma keeps_order_audit [keeps_intros]: "keeps order_part (audit_order i a who b c why)"
  unfolding audit_order_def by (intro keeps_intros; simp)

lemma advances_audit_order [simp]: "advances (audit_order i a who b c why)"
  by (auto simp: audit_order_def intro!: advances_intros advances_writes)

lemma same_trade_keeps:
  assumes "keeps supply_part m" "keeps order_part m" "advances m"
    and "\<And>x t. same_trade s t \<Longrightarrow> Q x t" "\<And>e t. same_trade s t \<Longrightarrow> E e t"
  shows "wp m Q E s"
proof -
  have "same_trade s (snd (m s))" using assms(1-3) by (simp add: same_trade_def keeps_snd advances_def)
  then show ?thesis by (intro wp_eqI) (auto intro: assms(4,5))
qed

lemma keeps_trade_workflow [keeps_intros]: "keeps supply_part (set_workflow i f)" "keeps order_part (set_workflow i f)"
  unfolding set_workflow_def by (intro keeps_intros; simp)+

text \<open>From the new status on.\<close>

definition restamped :: "uuid \<Rightarrow> OrderStatus \<Rightarrow> datetime \<Rightarrow> db \<Rightarrow> db \<Rightarrow> bool" where
  "restamped i target n s t \<longleftrightarrow> supply_part t = supply_part s \<and>
     order_part t = (update_rows i (stamp_status target n) (orders s), order_items s) \<and> next_id s \<le> next_id t"

lemma restamped_trade: "restamped i target n s t \<Longrightarrow> same_trade t u \<Longrightarrow> restamped i target n s u"
  by (auto simp: restamped_def same_trade_def)

lemma order_tables_ok_row: "order_tables_ok n I os ls \<Longrightarrow> ids_ok n os"
  by (simp add: order_tables_ok_def)

lemma record_order_status_wp:
  "wp (record_order_status r target who why) (\<lambda>_. restamped (row_id r) target (clock s) s)
     (\<lambda>e _. exn_class e \<noteq> OrderValidationError) s"
proof -
  have audit: "wp (audit_order i a who b c why) (\<lambda>_. same_trade t) (\<lambda>e _. exn_class e \<noteq> OrderValidationError) t"
    for i a b c t
  proof (rule wp_mono, rule wp_conj)
    show "wp (audit_order i a who b c why) (\<lambda>_. same_trade t) (\<lambda>_ _. True) t"
      by (rule same_trade_keeps) (simp_all add: keeps_intros)
    show "wp (audit_order i a who b c why) (\<lambda>_ _. True) (\<lambda>e _. exn_class e \<noteq> OrderValidationError) t"
      unfolding audit_order_def by (simp add: wp_simps split: option.split)
  qed auto
  have tail: "wp (andthen (audit_order i a who b c why) (andthen flush (reload orders i))) (\<lambda>_. restamped (row_id r) target (clock s) s)
      (\<lambda>e _. exn_class e \<noteq> OrderValidationError) t" if "restamped (row_id r) target (clock s) s t" for i a b c t
    unfolding wp_andthen
    by (rule wp_mono, rule audit)
      (use that in \<open>auto simp: wp_simps same_trade_def restamped_def split: option.split\<close>)
  have cancel: "wp (whenM z (bind (version_of i) (\<lambda>v. bind (emit (pl v) aty ai v k c w ca) (\<lambda>_. ret ()))))
      (\<lambda>_. same_trade t) (\<lambda>e _. exn_class e \<noteq> OrderValidationError) t" for z i pl aty ai k c w ca t
    by (simp add: wp_simps) (auto intro!: wp_mono [OF emit_wp] simp: event_failure_def wp_simps)
  have stamped: "wp (case x of None \<Rightarrow> ret () | Some w \<Rightarrow> set_workflow (row_id w) (f :: WorkflowRun \<Rightarrow> WorkflowRun)) (\<lambda>_. same_trade t) (\<lambda>_ _. False) t"
    for x f t
    by (cases x) (simp_all add: wp_simps set_workflow_def same_trade_def)
  show ?thesis
    unfolding record_order_status_def
    apply (simp add: wp_simps set_order_def del: wp_case_option)
    apply (rule wp_mono, rule stamped)
     apply (subst wp_andthen, rule wp_mono, rule cancel)
      apply (rule tail)
      apply (rule restamped_trade, rule restamped_trade)
        defer
        apply assumption
       apply assumption
    apply (auto simp: restamped_def order_part_def supply_part_def)
    done
qed

lemma transition_order_Inl: "transition_order a b = Inl e \<Longrightarrow> exn_class e = InvalidOrderTransition"
  by (auto simp: transition_order_def split: if_splits)

text \<open>A changed order leaves reservations and open orders in step.\<close>

lemma restamped_ok:
  assumes ok: "fulfilment_ok s" and u: "supply_ok u" "order_part u = order_part s" "stocked u = stocked s" "next_id s \<le> next_id u"
    and res: "reserved_of u = claimed (open_lines (update_rows i (stamp_status target n) (orders s)) (order_items s))"
    and t: "restamped i target n u t"
  shows "fulfilment_ok t"
proof -
  have part: "supply_part t = supply_part u" and n: "next_id u \<le> next_id t" using t by (simp_all add: restamped_def)
  have "supply_ok t" using supply_ok_part [OF u(1) part n] .
  moreover have "stocked t = stocked s" using part u(3) by (simp add: stocked_def supply_part_def)
  moreover have "orders t = update_rows i (stamp_status target n) (orders s)" "order_items t = order_items s"
    using t u(2) by (simp_all add: restamped_def order_part_def)
  moreover have "order_tables_ok (next_id t) (stocked s) (update_rows i (stamp_status target n) (orders s)) (order_items s)"
    using order_tables_ok_update [of "next_id s" "stocked s" "orders s" "order_items s" "stamp_status target n" i] ok u(4) n
    by (auto simp: fulfilment_ok_def intro: order_tables_ok_mono)
  ultimately show ?thesis using res reserved_of_supply [OF part] by (simp add: fulfilment_ok_def)
qed

lemma update_order_status_wp:
  assumes ok: "fulfilment_ok s"
  shows "wp (update_order_status i target who why) (\<lambda>_ t. fulfilment_ok t)
    (\<lambda>e _. exn_class e \<noteq> OrderValidationError) s"
proof (cases "row (orders s) i")
  case None
  then show ?thesis by (simp add: update_order_status_def get_order_def wp_simps row_def)
next
  case (Some r)
  have i: "row_id r = i" using row_id_of [OF Some] .
  have found: "find (\<lambda>r. row_id r = i) (orders s) = Some r" using Some by (simp add: row_def)
  let ?ls = "filter (\<lambda>l. oi_order_id l = i) (order_items s)"
  have stamp: "wp (record_order_status r target who why) (\<lambda>_ t. fulfilment_ok t) (\<lambda>e _. exn_class e \<noteq> OrderValidationError) u"
    if "supply_ok u" "order_part u = order_part s" "stocked u = stocked s" "next_id s \<le> next_id u"
      "\<And>n. reserved_of u = claimed (open_lines (update_rows i (stamp_status target n) (orders s)) (order_items s))" for u
    by (rule wp_mono, rule record_order_status_wp) (use restamped_ok [OF ok that(1-4) that(5)] i in auto)
  have loop: "wp (for_each ?ls body) (\<lambda>_. wp (record_order_status r target who why) (\<lambda>_ t. fulfilment_ok t)
        (\<lambda>e _. exn_class e \<noteq> OrderValidationError)) (\<lambda>e _. exn_class e \<noteq> OrderValidationError) (flush_db s)"
    if step: "\<And>l s. supply_ok s \<Longrightarrow> 0 < oi_quantity l \<Longrightarrow>
      wp (body l) (\<lambda>_. reservation_moved (oi_inventory_item_id l) (- oi_quantity l) s)
        (\<lambda>e _. exn_class e = OrderValidationError \<longrightarrow> reserved_of s (oi_inventory_item_id l) < oi_quantity l) s"
      and closes: "open_status (or_status r)" "\<not> open_status target" for body
  proof -
    let ?base = "claimed (filter (\<lambda>l. oi_order_id l \<noteq> i) (open_lines (orders s) (order_items s)))"
    have same: "open_lines (update_rows i (stamp_status target n) (orders s)) (order_items s) =
        filter (\<lambda>l. oi_order_id l \<noteq> i) (open_lines (orders s) (order_items s))" for n
      using open_lines_closed(1) [OF Some closes(1), of "stamp_status target n"] closes(2) by simp
    have pos: "\<forall>l \<in> set (order_items s). 0 < oi_quantity l" using ok by (simp add: fulfilment_ok_def order_tables_ok_def)
    have "0 \<le> ?base j" for j by (rule claimed_nonneg) (use pos in \<open>auto simp: open_lines_def\<close>)
    moreover have "reserved_of s j = ?base j + claimed ?ls j" for j
      using ok open_lines_closed(2) [OF Some closes(1), of "stamp_status target 0"] closes(2) same
      by (simp add: fulfilment_ok_def)
    ultimately show ?thesis
      using ok pos
      by (intro wp_mono [OF lines_wp [OF step, where base = ?base]] stamp)
        (auto simp: fulfilment_ok_def stocked_def same intro: supply_inv.flushed)
  qed
  have same: "reserved_of s = claimed (open_lines (update_rows i (stamp_status target n) (orders s)) (order_items s))"
    if "order_step (or_status r) target" "target \<noteq> Order_CANCELLED" "target \<noteq> Order_DISPATCHED" for n
    using open_lines_same [OF Some, of "stamp_status target n" "order_items s"] that ok
    by (cases "or_status r") (auto simp: order_step_iff open_status_def fulfilment_ok_def)
  have stay: "wp (record_order_status r target who why) (\<lambda>_ t. fulfilment_ok t) (\<lambda>e _. exn_class e \<noteq> OrderValidationError) (flush_db s)"
    if "order_step (or_status r) target" "target \<noteq> Order_CANCELLED" "target \<noteq> Order_DISPATCHED"
    by (rule stamp) (use ok that same in \<open>auto simp: fulfilment_ok_def stocked_def intro: supply_inv.flushed\<close>)
  have closes: "open_status (or_status r)" if "order_step (or_status r) target" "target = Order_CANCELLED \<or> target = Order_DISPATCHED"
    using that by (cases "or_status r") (auto simp: order_step_iff open_status_def)
  consider (same) "target = or_status r" | (step) "target \<noteq> or_status r" "order_step (or_status r) target"
    | (refused) e where "transition_order (or_status r) target = Inl e" "exn_class e \<noteq> OrderValidationError"
    using transition_order_Inl [of "or_status r" target] transition_order_Inr [of "or_status r" target]
    by (cases "transition_order (or_status r) target") auto
  then show ?thesis
  proof cases
    case same
    then show ?thesis using fulfilment.flushed [OF ok] by (simp add: update_order_status_def get_order_def wp_simps found)
  next
    case refused
    moreover from this have "target \<noteq> or_status r" by auto
    ultimately show ?thesis by (simp add: update_order_status_def get_order_def wp_simps found)
  next
    case step
    then have t: "transition_order (or_status r) target = Inr target" by (simp add: order_step_def)
    show ?thesis
      using step loop [OF release_line_wp closes] loop [OF ship_line_wp closes] stay
      by (auto simp: update_order_status_def get_order_def wp_simps found t items_of_order_def open_status_def)
  qed
qed

section \<open>Ingestion keeps the invariant\<close>

definition open_order :: "uuid \<Rightarrow> db \<Rightarrow> bool" where
  "open_order i s \<longleftrightarrow> (\<exists>r. row (orders s) i = Some r \<and> open_status (or_status r))"

lemma ingest_line_wp:
  assumes ok: "fulfilment_ok s" and r: "open_order oid s" and q: "0 < ni_quantity l"
  shows "wp (ingest_line oid c l) (\<lambda>_ t. fulfilment_ok t \<and> open_order oid t) (\<lambda>_ _. True) s"
  unfolding ingest_line_def
proof (subst wp_bind, rule wp_mono, rule reserve_wp)
  show "supply_ok s" "0 < ni_quantity l" using ok q by (simp_all add: fulfilment_ok_def)
  fix item t assume m: "reservation_moved (row_id item) (ni_quantity l) s t"
  then have t: "supply_ok t" "order_part t = order_part s" "stocked t = stocked s" "next_id s \<le> next_id t" "row_id item \<in> stocked s"
    "reserved_of t = (reserved_of s)(row_id item := reserved_of s (row_id item) + ni_quantity l)"
    by (simp_all add: reservation_moved_def)
  let ?line = "\<lparr>row_id = next_id t, row_created_at = clock t, oi_order_id = oid, oi_inventory_item_id = row_id item,
      oi_external_line_id = ni_external_line_id l, oi_sku = ni_sku l, oi_quantity = ni_quantity l, oi_unit_price = ni_unit_price l,
      oi_tax_amount = ni_tax_amount l, oi_discount_amount = ni_discount_amount l,
      oi_reservation_reference = Some (''order:'' @ uuid_str oid @ '':'' @ ni_external_line_id l)\<rparr>"
  let ?u = "pending_rows_update (Cons (next_id t)) (order_items_update (\<lambda>ls. ls @ [?line]) (t\<lparr>next_id := next_id t + 1\<rparr>))"
  have os: "orders t = orders s" "order_items t = order_items s" using t(2) by (simp_all add: order_part_def)
  have "oid \<in> row_id ` set (orders s)" using r by (auto simp: open_order_def dest: row_Some_iff)
  then have "order_tables_ok (next_id t + 1) (stocked s) (orders s) (order_items s @ [?line])"
    using ok t q by (auto simp: fulfilment_ok_def order_tables_ok_def intro!: ids_ok_append intro: ids_ok_mono)
  moreover have "open_lines (orders s) (order_items s @ [?line]) = open_lines (orders s) (order_items s) @ [?line]"
    using r by (auto simp: open_lines_def open_order_def)
  moreover have "supply_ok ?u" by (rule supply_ok_part [OF t(1)]) simp_all
  ultimately have "fulfilment_ok ?u \<and> open_order oid ?u"
    using ok t os r by (auto simp: fulfilment_ok_def fun_eq_iff open_order_def stocked_def)
  then show "wp (bind new_uuid (\<lambda>line_id. bind now_utc (\<lambda>now. add_row order_items_update
       \<lparr>row_id = line_id, row_created_at = now, oi_order_id = oid,
        oi_inventory_item_id = row_id item, oi_external_line_id = ni_external_line_id l,
        oi_sku = ni_sku l, oi_quantity = ni_quantity l, oi_unit_price = ni_unit_price l,
        oi_tax_amount = ni_tax_amount l, oi_discount_amount = ni_discount_amount l,
        oi_reservation_reference = Some (''order:'' @ uuid_str oid @ '':'' @ ni_external_line_id l)\<rparr>)))
     (\<lambda>_ t. fulfilment_ok t \<and> open_order oid t) (\<lambda>_ _. True) t"
    by (simp add: wp_simps)
qed simp

lemma keeps_add_workflow [keeps_intros]: "keeps supply_part (add_workflow w)" "keeps order_part (add_workflow w)"
  unfolding add_workflow_def by (intro keeps_intros; simp)+

lemma advances_add_workflow [simp]: "advances (add_workflow w)"
  by (auto simp: add_workflow_def intro!: advances_intros advances_writes)

lemma open_lines_new: "order_tables_ok n I os ls \<Longrightarrow> row_id r \<notin> row_id ` set os \<Longrightarrow> open_lines (os @ [r]) ls = open_lines os ls"
  unfolding open_lines_def
  by (rule filter_cong) (auto simp: order_tables_ok_def row_append row_Cons split: option.split)

definition order_written :: "OrderService \<Rightarrow> NormalizedMarketplaceOrder \<Rightarrow> uuid \<Rightarrow> db \<Rightarrow> bool" where
  "order_written S c i s \<longleftrightarrow> (\<exists>r. find (\<lambda>r. order_key r = (no_marketplace c, no_marketplace_account_id c, no_external_order_id c)) (orders s) = Some r \<and>
     row (orders s) i = Some r \<and> or_source_payload_hash r = order_payload_hash S c)"

lemma new_order_simps [simp]:
  "row_id (new_order S c i w n) = i" "or_status (new_order S c i w n) = no_status c"
  "or_source_payload_hash (new_order S c i w n) = order_payload_hash S c"
  "order_key (new_order S c i w n) = (no_marketplace c, no_marketplace_account_id c, no_external_order_id c)"
  by (simp_all add: new_order_def order_key_def)

lemma order_added:
  assumes ok: "fulfilment_ok s" and st: "open_status (no_status c)"
    and new: "find (\<lambda>r. order_key r = (no_marketplace c, no_marketplace_account_id c, no_external_order_id c)) (orders s) = None"
    and part: "supply_part t = supply_part s" "order_part t = (orders s @ [new_order S c i w n], order_items s)"
    and id: "next_id s \<le> i" "i < next_id t"
  shows "fulfilment_ok t \<and> open_order i t \<and> order_written S c i t"
proof -
  have tab: "order_tables_ok (next_id s) (stocked s) (orders s) (order_items s)" using ok by (simp add: fulfilment_ok_def)
  have fresh: "i \<notin> row_id ` set (orders s)" using tab id by (auto simp: order_tables_ok_def ids_ok_def)
  have os: "orders t = orders s @ [new_order S c i w n]" "order_items t = order_items s"
    "inventory_items t = inventory_items s"
    using part by (simp_all add: order_part_def supply_part_def)
  have row: "row (orders t) i = Some (new_order S c i w n)"
    using fresh by (simp add: os row_append row_Cons row_None_iff [THEN iffD2])
  have "(no_marketplace c, no_marketplace_account_id c, no_external_order_id c) \<notin> order_key ` set (orders s)"
    using new by (auto simp: find_None_iff)
  then have "order_tables_ok (next_id t) (stocked s) (orders t) (order_items s)"
    using tab id by (auto simp: os order_tables_ok_def intro!: ids_ok_append intro: ids_ok_mono)
  moreover have "supply_ok t" using supply_ok_part [OF _ part(1)] ok id by (simp add: fulfilment_ok_def)
  ultimately have "fulfilment_ok t"
    using ok os open_lines_new [OF tab, of "new_order S c i w n"] fresh
    by (simp add: fulfilment_ok_def stocked_def reserved_of_part [OF os(3)])
  then show ?thesis using row st new by (simp add: open_order_def order_written_def os(1) find_append)
qed

lemma add_order_wp:
  assumes ok: "fulfilment_ok s" and st: "open_status (no_status c)"
    and new: "find (\<lambda>r. order_key r = (no_marketplace c, no_marketplace_account_id c, no_external_order_id c)) (orders s) = None"
  shows "wp (add_order S c cor) (\<lambda>i t. fulfilment_ok t \<and> open_order i t \<and> order_written S c i t) (\<lambda>_ _. True) s"
  unfolding add_order_def
  apply (simp add: wp_simps)
  apply (rule same_trade_keeps, rule keeps_add_workflow, rule keeps_add_workflow, simp)
   apply (simp add: wp_simps)
   apply (rule order_added [OF ok st new])
      apply (auto simp: same_trade_def order_part_def supply_part_def)
  done

lemma validate_order_ok:
  "validate_order c = Inr u \<Longrightarrow> open_status (no_status c) \<and> distinct (map ni_external_line_id (no_items c))"
  by (auto simp: validate_order_def open_status_def rbind_Inr_iff)

text \<open>Reserving and adding lines does not touch the orders.\<close>

lemma keeps_orders_reserve_from: "keeps orders (reserve_from cands sku q oid line c)"
  by (induction cands)
    (auto simp: add_movement_def inventory_events_def Let_def intro!: keeps_intros)

lemma keeps_orders_line: "keeps orders (ingest_line oid c l)"
  unfolding ingest_line_def reserve_def by (intro keeps_intros keeps_orders_reserve_from; simp)

lemma order_written_orders: "order_written S c i s \<Longrightarrow> orders t = orders s \<Longrightarrow> order_written S c i t"
  by (simp add: order_written_def)

lemma ingest_lines_wp:
  assumes "fulfilment_ok s" "open_order i s" "order_written S c i s" "\<forall>l \<in> set ls. 0 < ni_quantity l"
  shows "wp (for_each ls (ingest_line i cor)) (\<lambda>_ t. fulfilment_ok t \<and> open_order i t \<and> order_written S c i t) (\<lambda>_ _. True) s"
proof (rule wp_for_each)
  fix l t assume "l \<in> set ls" and t: "fulfilment_ok t \<and> open_order i t \<and> order_written S c i t"
  then have l: "wp (ingest_line i cor l) (\<lambda>_ t. fulfilment_ok t \<and> open_order i t) (\<lambda>_ _. True) t"
    using assms(4) by (intro ingest_line_wp) auto
  from wp_conj [OF l keeps_wp [OF keeps_orders_line]]
  show "wp (ingest_line i cor l) (\<lambda>_ t. fulfilment_ok t \<and> open_order i t \<and> order_written S c i t) (\<lambda>_ _. True) t"
    by (rule wp_mono) (use t in \<open>auto intro: order_written_orders\<close>)
qed (use assms in simp)

text \<open>What a successful ingestion leaves behind for a redelivery.\<close>

definition order_known :: "OrderService \<Rightarrow> NormalizedMarketplaceOrder \<Rightarrow> Order \<Rightarrow> db \<Rightarrow> bool" where
  "order_known S c r s \<longleftrightarrow>
     find (\<lambda>r. order_key r = (no_marketplace c, no_marketplace_account_id c, no_external_order_id c)) (orders s) = Some r \<and>
     or_source_payload_hash r = order_payload_hash S c"

lemma order_key_eq:
  "(or_marketplace r = no_marketplace c \<and> or_marketplace_account_id r = no_marketplace_account_id c \<and>
    or_external_order_id r = no_external_order_id c) \<longleftrightarrow>
   order_key r = (no_marketplace c, no_marketplace_account_id c, no_external_order_id c)"
  by (simp add: order_key_def)

lemma announce_order_wp:
  assumes u: "fulfilment_ok u" "order_written S c i u"
  shows "wp (announce_order i cor) (\<lambda>res t. fulfilment_ok t \<and> order_known S c (oir_order res) t) (\<lambda>_ _. True) u"
proof -
  obtain r where r: "row (orders u) i = Some r" "order_known S c r u"
    using u(2) by (auto simp: order_written_def order_known_def)
  have same: "fulfilment_ok v \<and> order_known S c r v" if "same_trade u v" for v
    using that fulfilment_ok_part [OF u(1), of v] r(2) by (simp add: same_trade_def order_known_def order_part_def)
  show ?thesis
    unfolding announce_order_def
    apply (simp add: wp_simps r(1))
    apply (rule wp_mono, rule emit_wp)
     apply (subst wp_andthen, rule same_trade_keeps, rule keeps_supply_audit, rule keeps_order_audit, simp)
      apply (auto simp: wp_simps intro: same [THEN conjunct1] same [THEN conjunct2] dest: same_trade_trans)
    done
qed

lemma store_order_wp:
  assumes ok: "fulfilment_ok s" and st: "open_status (no_status c)" and pos: "\<forall>l \<in> set (no_items c). 0 < ni_quantity l"
    and new: "find (\<lambda>r. order_key r = (no_marketplace c, no_marketplace_account_id c, no_external_order_id c)) (orders s) = None"
  shows "wp (store_order S c cor) (\<lambda>res t. fulfilment_ok t \<and> order_known S c (oir_order res) t) (\<lambda>_ _. True) s"
  unfolding store_order_def
proof (subst wp_bind, rule wp_mono, rule add_order_wp [OF ok st new])
  fix i t assume t: "fulfilment_ok t \<and> open_order i t \<and> order_written S c i t"
  show "wp (andthen (for_each (no_items c) (ingest_line i cor)) (andthen flush (announce_order i cor)))
      (\<lambda>res t. fulfilment_ok t \<and> order_known S c (oir_order res) t) (\<lambda>_ _. True) t"
    unfolding wp_andthen wp_flush
    by (rule wp_mono, rule ingest_lines_wp)
      (use t pos in \<open>auto intro!: announce_order_wp fulfilment.flushed intro: order_written_orders [where t = "flush_db _"]\<close>)
qed simp

lemma ingest_order_wp:
  assumes ok: "fulfilment_ok s" and valid: "normalized_order_valid c"
  shows "wp (ingest_order S c) (\<lambda>res t. fulfilment_ok t \<and> order_known S c (oir_order res) t) (\<lambda>_ _. True) s"
proof (cases "find (\<lambda>r. order_key r = (no_marketplace c, no_marketplace_account_id c, no_external_order_id c)) (orders s)")
  case (Some r)
  then show ?thesis
    using fulfilment.flushed [OF ok]
    by (simp add: ingest_order_def wp_simps order_key_eq order_known_def cong: if_cong)
next
  case None
  have pos: "\<forall>l \<in> set (no_items c). 0 < ni_quantity l"
    using valid by (simp add: normalized_order_valid_def normalized_item_valid_def)
  show ?thesis
  proof (cases "validate_order c")
    case (Inl e)
    then show ?thesis using None by (simp add: ingest_order_def wp_simps order_key_eq)
  next
    case (Inr u)
    then show ?thesis
      using None store_order_wp [OF fulfilment.flushed [OF ok] _ pos] validate_order_ok [OF Inr]
      by (simp add: ingest_order_def wp_simps order_key_eq)
  qed
qed

section \<open>Sequences of requests\<close>

text \<open>
  What clients can ask of procurement, inventory and orders, each request in a transaction of its own. A
  command for \<open>ingest\<close> has passed pydantic's validation.
\<close>

datatype trade_call =
    Supply_Call supply_call
  | Ingest_Order NormalizedMarketplaceOrder
  | Update_Order uuid OrderStatus string string

fun trade_call_valid :: "trade_call \<Rightarrow> bool" where
  "trade_call_valid (Supply_Call c) = client_call c"
| "trade_call_valid (Ingest_Order c) = normalized_order_valid c"
| "trade_call_valid (Update_Order i target who why) = True"

fun run_trade_call :: "ApprovalEngine \<Rightarrow> OrderService \<Rightarrow> trade_call \<Rightarrow> unit op" where
  "run_trade_call E S (Supply_Call c) = run_supply_call E c"
| "run_trade_call E S (Ingest_Order c) = bind (ingest_order S c) (\<lambda>_. ret ())"
| "run_trade_call E S (Update_Order i target who why) = bind (update_order_status i target who why) (\<lambda>_. ret ())"

text \<open>Procurement and inventory add items and never take one away.\<close>

definition keeps_stocked :: "'a op \<Rightarrow> bool" where
  "keeps_stocked m \<longleftrightarrow> (\<forall>s. stocked s \<subseteq> stocked (snd (m s)))"

lemma keeps_stocked_frame: "keeps inventory_items m \<Longrightarrow> keeps_stocked m"
  by (simp add: keeps_stocked_def stocked_def keeps_snd)

lemma keeps_stocked_bind: "keeps_stocked m \<Longrightarrow> (\<And>x. keeps_stocked (f x)) \<Longrightarrow> keeps_stocked (bind m f)"
  by (auto simp: keeps_stocked_def bind_def split: sum.splits) (metis subset_eq)

lemma keeps_stocked_andthen: "keeps_stocked m \<Longrightarrow> keeps_stocked n \<Longrightarrow> keeps_stocked (andthen m n)"
  by (auto simp: andthen_def intro: keeps_stocked_bind)

lemma keeps_stocked_option: "keeps_stocked m \<Longrightarrow> (\<And>x. keeps_stocked (f x)) \<Longrightarrow>
    keeps_stocked (case k of None \<Rightarrow> m | Some x \<Rightarrow> f x)"
  by (simp split: option.split)

lemma keeps_stocked_if: "keeps_stocked m \<Longrightarrow> keeps_stocked n \<Longrightarrow> keeps_stocked (if b then m else n)"
  by simp

lemma keeps_stocked_items:
  "keeps_stocked (add_row inventory_items_update r)"
  "(\<And>r. row_id (f r) = row_id r) \<Longrightarrow> keeps_stocked (set_item i f)"
proof -
  show "keeps_stocked (add_row inventory_items_update r)" by (auto simp: keeps_stocked_def stocked_def run_simps)
  assume f: "\<And>r. row_id (f r) = row_id r"
  show "keeps_stocked (set_item i f)"
    using map_id_update_rows [where f = f, OF f]
    by (auto simp: keeps_stocked_def stocked_def run_simps set_item_def) (metis image_eqI set_map)
qed

lemmas keeps_stocked_intros = keeps_stocked_bind keeps_stocked_andthen keeps_stocked_option keeps_stocked_if keeps_stocked_items

lemma keeps_items_stock: "keeps stock_part m \<Longrightarrow> keeps inventory_items m"
  by (simp add: keeps_def stock_part_def)

lemma keeps_stocked_set_order [intro]: "keeps_stocked (set_purchase_order j g)"
  unfolding set_purchase_order_def by (intro keeps_stocked_frame keeps_intros; simp)

lemma keeps_stocked_leaves:
  "keeps_stocked (gets g)" "keeps_stocked (ret x)" "keeps_stocked (the_or e y)" "keeps_stocked new_uuid"
  "keeps_stocked now_utc" "keeps_stocked (add_movement m)" "keeps_stocked (raise_if b e)" "keeps_stocked (of_result res)"
  "keeps_stocked (get_row t i)" "keeps_stocked (scalar t' P)" "keeps_stocked (existing_movement key)"
  "keeps_stocked (reload t'' j)" "keeps_stocked (version_of v)" "keeps_stocked flush" "keeps_stocked (throw e)"
  "keeps_stocked (record_change k n who pa lc n')" "keeps_stocked (get_inventory k)"
  unfolding add_movement_def existing_movement_def get_inventory_def record_change_def Let_def
  by (intro keeps_stocked_frame keeps_intros; simp)+

lemma keeps_stocked_finish: "keeps_stocked (finish_receipt p req r m who n)"
  by (intro keeps_stocked_frame keeps_items_stock keeps_stock_finish)

lemma keeps_stocked_stock:
  "keeps_stocked (receive_stock po sku loc q c th a why k n)" "keeps_stocked (adjust_stock i q' a' b k' c')"
  unfolding receive_stock_def post_receipt_def receiving_item_def replay_movement_def adjust_stock_def Let_def
  by (intro keeps_stocked_intros keeps_stocked_leaves keeps_stocked_finish keeps_stocked_set_order; simp)+

lemma keeps_stocked_call: "keeps_stocked (run_supply_call E c)"
  using keeps_items_stock [OF keeps_stock_call, THEN keeps_stocked_frame]
  by (cases c) (auto intro!: keeps_stocked_bind keeps_stocked_stock keeps_stocked_leaves)

lemma advances_supply_call: "advances (run_supply_call E c)"
  by (cases c) (auto intro!: advances_intros advances_run_call)

lemma run_trade_call_keeps:
  assumes ok: "fulfilment_ok s" and c: "trade_call_valid c" and run: "run_trade_call E S c s = (Inr u, t)"
  shows "fulfilment_ok t"
proof (cases c)
  case (Supply_Call d)
  have supplied: "run_supply_call E d s = (Inr u, t)" and d: "client_call d" using run c Supply_Call by auto
  have t: "supply_ok t" using run_supply_call_keeps [OF _ d supplied] ok by (simp add: fulfilment_ok_def)
  have part: "sales_part t = sales_part s" using keepsD [OF keeps_sales_call supplied] .
  have "stocked s \<subseteq> stocked t" using keeps_stocked_call supplied by (auto simp: keeps_stocked_def) (metis snd_conv subsetD)
  moreover have "next_id s \<le> next_id t" using advancesD [OF advances_supply_call supplied] .
  ultimately show ?thesis using ok t part order_tables_ok_mono by (auto simp: fulfilment_ok_def sales_part_def)
next
  case (Ingest_Order d)
  then have "wp (bind (ingest_order S d) (\<lambda>_. ret ())) (\<lambda>_. fulfilment_ok) (\<lambda>_ _. True) s"
    using c ingest_order_wp [OF ok, of d S] by (auto simp: wp_simps intro: wp_mono)
  then show ?thesis using wp_InrD run Ingest_Order by fastforce
next
  case (Update_Order i target who why)
  then have "wp (bind (update_order_status i target who why) (\<lambda>_. ret ())) (\<lambda>_. fulfilment_ok) (\<lambda>_ _. True) s"
    using update_order_status_wp [OF ok, of i target who why] by (auto simp: wp_simps intro: wp_mono)
  then show ?thesis using wp_InrD run Update_Order by fastforce
qed

section \<open>Correctness\<close>

definition sample_item :: InventoryItem where
  "sample_item = \<lparr>row_id = 1, row_created_at = 0, ii_product_id = 2, ii_sku = ''s'', ii_storage_location = ''l'',
     ii_quantity_on_hand = 5, ii_reserved_quantity = 0, ii_cost_basis = 3, ii_currency = ''GBP'', ii_low_stock_threshold = 0\<rparr>"

definition sample_stock_db :: db where
  "sample_stock_db = (empty_db 0)\<lparr>next_id := 10, inventory_items := [sample_item],
     inventory_movements := [\<lparr>row_id = 3, row_created_at = 0, im_inventory_item_id = 1, im_purchase_order_id = None,
       im_movement_type = Move_ADJUSTMENT, im_quantity_delta = 5, im_unit_cost = None, im_reason = ''r'',
       im_source_type = ''manual_adjustment'', im_source_id = ''1'', im_idempotency_key = ''k''\<rparr>]\<rparr>"

definition sample_order :: NormalizedMarketplaceOrder where
  "sample_order = \<lparr>no_contract_version = 1, no_marketplace = ''m'', no_marketplace_account_id = ''a'', no_external_order_id = ''o'',
     no_source_event_id = ''e'', no_status = Order_PAID, no_currency = ''gbp'', no_total_amount = 10,
     no_customer_reference = None, no_shipping_details = [], no_ordered_at = 0,
     no_items = [\<lparr>ni_external_line_id = ''x'', ni_sku = ''s'', ni_quantity = 2, ni_unit_price = 5, ni_tax_amount = 0,
       ni_discount_amount = 0\<rparr>]\<rparr>"

definition sample_service :: OrderService where
  "sample_service = \<lparr>order_digest = (\<lambda>j. (case j of JObj kvs \<Rightarrow> (case map_of kvs ''currency'' of Some (JStr c) \<Rightarrow> c | _ \<Rightarrow> []) | _ \<Rightarrow> [])),
     order_uuid5 = (\<lambda>name. 99)\<rparr>"

lemma sample_stock_ok: "fulfilment_ok sample_stock_db"
  by (simp add: fulfilment_ok_def supply_ok_def procurement_ok_def procurement_tables_ok_def stock_ok_def receipts_ok_def received_on_def
      sample_stock_db_def sample_item_def ids_ok_def needs_po_def po_matches_def empty_db_def row_def order_tables_ok_def
      open_lines_def reserved_of_def fun_eq_iff stock_tables_ok_def inventory_item_checks_def stock_key_def posts_def
      ledger_on_hand_def ledger_reserved_def inventory_movement_checks_def)

lemma sample_order_valid: "normalized_order_valid sample_order"
  by (simp add: sample_order_def normalized_order_valid_def normalized_item_valid_def text_within_def four_places_def)

lemma sample_order_simps:
  "validate_order sample_order = Inr ()" "no_marketplace sample_order = ''m''" "no_marketplace_account_id sample_order = ''a''"
  "no_external_order_id sample_order = ''o''" "no_source_event_id sample_order = ''e''" "no_status sample_order = Order_PAID"
  "no_items sample_order = [\<lparr>ni_external_line_id = ''x'', ni_sku = ''s'', ni_quantity = 2, ni_unit_price = 5, ni_tax_amount = 0,
       ni_discount_amount = 0\<rparr>]" "order_uuid5 sample_service n = 99" "no_currency sample_order = ''gbp''"
  by (code_simp, simp_all add: sample_order_def sample_service_def)

lemma sample_order_hash:
  "order_payload_hash sample_service sample_order = ''gbp''"
  "order_payload_hash sample_service (sample_order\<lparr>no_currency := ''eur''\<rparr>) = ''eur''"
  by code_simp+

lemma ingest_sample:
  "\<exists>res t. ingest_order sample_service sample_order sample_stock_db = (Inr res, t) \<and> reserved_of t 1 = 2 \<and>
     inventory_items t = [sample_item\<lparr>ii_reserved_quantity := 2\<rparr>]"
  unfolding ingest_order_def store_order_def announce_order_def
    add_order_def ingest_line_def reserve_def
  by (simp add: run_simps sample_stock_db_def sample_item_def sample_order_simps empty_db_def new_order_def
      audit_order_def add_workflow_def fulfilment_run_def new_workflow_def order_movement_def
      inventory_events_def emit_run
      add_movement_def row_def update_rows_def Let_def flush_db_def version_of_def
      inventory_item_checks_def reserved_of_def sort_key_def low_stock_payload_def
      inventory_movement_checks_def available_quantity_def)

text \<open>
  C2: The fulfilment invariant. Whatever requests are made of procurement, inventory and orders, in whatever order, succeeding or
  failing: beside the supply invariant, the reserved stock of every item is exactly what the lines of the pending, paid
  and processing orders ask for, and no two orders share marketplace, account and external id.
\<close>
theorem fulfilment_invariant:
  assumes "fulfilment_ok s" and "\<forall>c \<in> set cs. trade_call_valid c"
  shows "fulfilment_ok (fulfilment.run_all (map (run_trade_call E S) cs) s)"
  by (rule fulfilment.run_all_keeps [OF assms(1)]) (use assms(2) run_trade_call_keeps in \<open>auto\<close>)

theorem fulfilment_invariant_witness:
  "fulfilment_ok (fulfilment.run_all (map (run_trade_call sample_engine sample_service)
     [Ingest_Order sample_order, Supply_Call (Adjust_Stock 1 (- 3) ''lost'' ''bob'' ''k2'' None),
      Update_Order 11 Order_CANCELLED ''bob'' ''r'']) sample_stock_db)"
  by (rule fulfilment_invariant [OF sample_stock_ok]) (simp add: sample_order_valid)

text \<open>
  C6: No overselling. After any sequence of requests the open orders together never ask for more units of an item than
  are on hand.
\<close>
theorem no_overselling:
  assumes "fulfilment_ok s" and "\<forall>c \<in> set cs. trade_call_valid c"
    and "t = fulfilment.run_all (map (run_trade_call E S) cs) s" and "r \<in> set (inventory_items t)"
  shows "claimed (open_lines (orders t) (order_items t)) (row_id r) \<le> ii_quantity_on_hand r"
proof -
  have t: "fulfilment_ok t"
    unfolding assms(3) by (rule fulfilment.run_all_keeps [OF assms(1)]) (use assms(2) run_trade_call_keeps in \<open>auto\<close>)
  then have row: "row (inventory_items t) (row_id r) = Some r"
    using assms(4) by (auto simp: fulfilment_ok_def supply_ok_def stock_ok_def stock_tables_ok_def intro: ids_ok_row)
  have "claimed (open_lines (orders t) (order_items t)) (row_id r) = ii_reserved_quantity r"
    using t row by (metis fulfilment_ok_def reserved_of_def option.simps(5))
  moreover have "inventory_item_checks r" using t item_checks [OF _ row] by (simp add: fulfilment_ok_def supply_ok_def)
  ultimately show ?thesis by (simp add: inventory_item_checks_def)
qed

theorem no_overselling_witness:
  "\<exists>t. t = fulfilment.run_all (map (run_trade_call sample_engine sample_service) [Ingest_Order sample_order]) sample_stock_db \<and>
     reserved_of t 1 = 2 \<and> claimed (open_lines (orders t) (order_items t)) 1 \<le> 5"
proof -
  obtain res u where r: "ingest_order sample_service sample_order sample_stock_db = (Inr res, u)" "reserved_of u 1 = 2"
    "inventory_items u = [sample_item\<lparr>ii_reserved_quantity := 2\<rparr>]"
    using ingest_sample by blast
  have "bind (ingest_order sample_service sample_order) (\<lambda>_. ret ()) sample_stock_db = (Inr (), u)"
    using r(1) by (simp add: bind_Inr run_simps)
  from transaction_Inr [where m = "bind (ingest_order sample_service sample_order) (\<lambda>_. ret ())" and s = sample_stock_db, OF this] show ?thesis
    using no_overselling [OF sample_stock_ok, where cs = "[Ingest_Order sample_order]" and E = sample_engine and S = sample_service
        and t = "flush_db u" and r = "sample_item\<lparr>ii_reserved_quantity := 2\<rparr>"] r(2,3)
    by (simp add: sample_order_valid) (simp add: sample_item_def)
qed

text \<open>
  C23: Ingestion is idempotent. After an order has been ingested, a redelivery of the same marketplace, account and order id
  answers with the stored order as a duplicate when its business data hash is the same and is refused when it is not; either
  way no table changes.
\<close>
theorem ingest_idempotent:
  assumes "fulfilment_ok s" and "normalized_order_valid c" and "ingest_order S c s = (Inr res, t)"
    and "(no_marketplace d, no_marketplace_account_id d, no_external_order_id d) =
      (no_marketplace c, no_marketplace_account_id c, no_external_order_id c)"
  shows "ingest_order S d t =
    (if order_payload_hash S d = order_payload_hash S c then Inr \<lparr>oir_order = oir_order res, oir_duplicate = True\<rparr>
     else Inl (Exn OrderIdempotencyConflict ''Marketplace order was redelivered with different business data''), flush_db t)"
proof -
  have "order_known S c (oir_order res) t" using wp_InrD [OF ingest_order_wp [OF assms(1,2)] assms(3)] by simp
  then show ?thesis using assms(4) by (auto simp: ingest_order_def run_simps order_key_eq order_known_def)
qed

theorem ingest_idempotent_witness:
  "\<exists>res t. ingest_order sample_service sample_order sample_stock_db = (Inr res, t) \<and> reserved_of t 1 = 2 \<and>
     ingest_order sample_service sample_order t = (Inr \<lparr>oir_order = oir_order res, oir_duplicate = True\<rparr>, flush_db t) \<and>
     ingest_order sample_service (sample_order\<lparr>no_currency := ''eur''\<rparr>) t =
       (Inl (Exn OrderIdempotencyConflict ''Marketplace order was redelivered with different business data''), flush_db t)"
proof -
  obtain res t where r: "ingest_order sample_service sample_order sample_stock_db = (Inr res, t)" "reserved_of t 1 = 2"
    using ingest_sample by auto
  show ?thesis
    using ingest_idempotent [OF sample_stock_ok sample_order_valid r(1), of sample_order]
      ingest_idempotent [OF sample_stock_ok sample_order_valid r(1), of "sample_order\<lparr>no_currency := ''eur''\<rparr>"] r
    by (simp add: sample_order_hash)
qed



text \<open>
  A reservation is refused only when the stock is short: \<open>InsufficientInventoryError\<close> means that no storage location of the
  SKU has that many units available, and a granted one takes them at a single location.
\<close>
theorem reserve_exact:
  assumes "supply_ok s" and "0 < q"
  shows "case reserve sku q oid line cor s of
      (Inr item, t) \<Rightarrow> reservation_moved (row_id item) q s t
    | (Inl e, t) \<Rightarrow> exn_class e = InsufficientInventoryError \<longrightarrow>
        (\<forall>r \<in> set (inventory_items s). ii_sku r = sku \<longrightarrow> available_quantity r < q)"
  using reserve_wp [OF assms, of sku oid line cor] by (auto simp: wp_def split: prod.splits sum.splits)

theorem reserve_exact_witness:
  "\<exists>e t. reserve ''s'' 6 1 ''x'' 2 sample_stock_db = (Inl e, t) \<and> exn_class e = InsufficientInventoryError \<and>
     available_quantity sample_item < 6"
proof -
  have run: "\<exists>msg t. reserve ''s'' 6 1 ''x'' 2 sample_stock_db = (Inl (Exn InsufficientInventoryError msg), t)"
    by (simp add: reserve_def run_simps sample_stock_db_def sample_item_def empty_db_def sort_key_def row_def Let_def)
  then obtain msg t where t: "reserve ''s'' 6 1 ''x'' 2 sample_stock_db = (Inl (Exn InsufficientInventoryError msg), t)" by blast
  have "supply_ok sample_stock_db" using sample_stock_ok by (simp add: fulfilment_ok_def)
  from reserve_exact [OF this, of 6 "''s''" 1 "''x''" 2] t
  show ?thesis by (auto simp: sample_stock_db_def sample_item_def)
qed

end
