(* ===== verification/Product_Ingestion.thy ===== *)
theory Product_Ingestion
  imports Order_Service Approval_Requests
begin

text \<open>
  \<open>integrations/repository_1\<close>: an approved product arrives with its supplier, quote and economics; it is stored once, with a
  proposed procurement request, its workflow and the event that announces it. \<open>api/approved_products.py\<close> is its endpoint.

  The service is its SHA-256 digest of a JSON document and \<open>uuid5(NAMESPACE_URL, _)\<close>, both from outside the repository.
\<close>

section \<open>The contract\<close>

record ProductInformationV1 =
  pi_name :: string
  pi_brand :: "string option"
  pi_identifiers :: "(string \<times> string option) list"
  pi_attributes :: dict

record SelectedSupplierV1 =
  ss_source_supplier_id :: string
  ss_name :: string
  ss_contact_details :: dict
  ss_terms :: dict

record SupplierQuoteV1 =
  qv_source_quote_id :: string
  qv_currency :: string
  qv_moq :: int
  qv_quantity :: int
  qv_unit_cost :: rat
  qv_shipping_cost :: rat
  qv_lead_time_days :: int
  qv_valid_until :: "datetime option"
  qv_source_reference :: "string option"

record EconomicsV1 =
  ec_estimated_landed_cost_per_unit :: rat
  ec_recommended_selling_price :: rat
  ec_expected_profit_per_unit :: rat
  ec_margin_percent :: rat
  ec_roi_percent :: rat

record RecommendationEvidenceV1 =
  re_type :: string
  re_reference :: string
  re_summary :: "string option"
  re_data :: dict

record RecommendationV1 =
  rc_evidence :: "RecommendationEvidenceV1 list"
  rc_decided_at :: datetime

record ApprovedProductRequestV1 =
  aq_schema_version :: int
  aq_source_system :: string
  aq_source_product_id :: string
  aq_source_workflow_run_id :: string
  aq_source_recommendation_id :: string
  aq_product :: ProductInformationV1
  aq_selected_supplier :: SelectedSupplierV1
  aq_supplier_quote :: SupplierQuoteV1
  aq_economics :: EconomicsV1
  aq_recommendation :: RecommendationV1

record ApprovedProductResponseV1 =
  ar_schema_version :: int
  ar_product_id :: uuid
  ar_procurement_request_id :: uuid
  ar_workflow_run_id :: uuid
  ar_event_id :: uuid
  ar_correlation_id :: uuid
  ar_procurement_status :: string
  ar_duplicate :: bool

text \<open>\<open>Field(max_digits=m + 4, decimal_places=4)\<close>: at most \<open>m\<close> digits before the point; \<open>Money\<close> is at least zero.\<close>

definition decimal_field :: "nat \<Rightarrow> rat \<Rightarrow> bool" where
  "decimal_field m x \<longleftrightarrow> four_places x \<and> \<bar>x\<bar> < 10 ^ m"

definition money_field :: "rat \<Rightarrow> bool" where
  "money_field x \<longleftrightarrow> 0 \<le> x \<and> decimal_field 15 x"

definition optional_text :: "nat \<Rightarrow> string option \<Rightarrow> bool" where
  "optional_text hi s \<longleftrightarrow> (case s of None \<Rightarrow> True | Some t \<Rightarrow> length t \<le> hi)"

definition product_information_valid :: "ProductInformationV1 \<Rightarrow> bool" where
  "product_information_valid p \<longleftrightarrow> text_within 1 500 (pi_name p) \<and> optional_text 255 (pi_brand p)"

definition supplier_valid :: "SelectedSupplierV1 \<Rightarrow> bool" where
  "supplier_valid p \<longleftrightarrow> text_within 1 255 (ss_source_supplier_id p) \<and> text_within 1 500 (ss_name p)"

text \<open>The two validators of a quote: the currency is letters and is stored in upper case, the quantity meets the MOQ.\<close>

definition quote_valid :: "SupplierQuoteV1 \<Rightarrow> bool" where
  "quote_valid q \<longleftrightarrow> text_within 1 255 (qv_source_quote_id q) \<and> text_within 3 3 (qv_currency q) \<and> is_alpha (qv_currency q) \<and>
     0 < qv_moq q \<and> 0 < qv_quantity q \<and> money_field (qv_unit_cost q) \<and> money_field (qv_shipping_cost q) \<and>
     0 \<le> qv_lead_time_days q \<and> optional_text 500 (qv_source_reference q) \<and> qv_moq q \<le> qv_quantity q"

definition validated_quote :: "SupplierQuoteV1 \<Rightarrow> SupplierQuoteV1" where
  "validated_quote q = q\<lparr>qv_currency := str_upper (qv_currency q)\<rparr>"

definition economics_valid :: "EconomicsV1 \<Rightarrow> bool" where
  "economics_valid e \<longleftrightarrow> money_field (ec_estimated_landed_cost_per_unit e) \<and> money_field (ec_recommended_selling_price e) \<and>
     money_field (ec_expected_profit_per_unit e) \<and> decimal_field 5 (ec_margin_percent e) \<and> decimal_field 5 (ec_roi_percent e)"

definition evidence_valid :: "RecommendationEvidenceV1 \<Rightarrow> bool" where
  "evidence_valid e \<longleftrightarrow> text_within 1 100 (re_type e) \<and> text_within 1 500 (re_reference e) \<and> optional_text 2000 (re_summary e)"

definition recommendation_valid :: "RecommendationV1 \<Rightarrow> bool" where
  "recommendation_valid r \<longleftrightarrow> rc_evidence r \<noteq> [] \<and> list_all evidence_valid (rc_evidence r)"

definition request_valid :: "ApprovedProductRequestV1 \<Rightarrow> bool" where
  "request_valid r \<longleftrightarrow> aq_schema_version r = 1 \<and> aq_source_system r = ''commerce-intelligence'' \<and>
     text_within 1 255 (aq_source_product_id r) \<and> text_within 1 255 (aq_source_workflow_run_id r) \<and>
     text_within 1 255 (aq_source_recommendation_id r) \<and> product_information_valid (aq_product r) \<and>
     supplier_valid (aq_selected_supplier r) \<and> quote_valid (aq_supplier_quote r) \<and> economics_valid (aq_economics r) \<and>
     recommendation_valid (aq_recommendation r)"

text \<open>\<open>ApprovedProductRequestV1.model_validate\<close> of a body with these fields.\<close>

definition validate_request :: "ApprovedProductRequestV1 \<Rightarrow> exn + ApprovedProductRequestV1" where
  "validate_request r = rbind (check (\<not> request_valid r) (Exn ValidationError ''ApprovedProductRequestV1''))
     (\<lambda>_. Inr (r\<lparr>aq_supplier_quote := validated_quote (aq_supplier_quote r)\<rparr>))"

text \<open>\<open>model_dump(mode="json")\<close>; an instant is its number of microseconds.\<close>

definition product_document :: "ProductInformationV1 \<Rightarrow> json" where
  "product_document p = JObj [(''name'', JStr (pi_name p)), (''brand'', j_opt JStr (pi_brand p)),
     (''identifiers'', JObj (map (map_prod id (j_opt JStr)) (pi_identifiers p))), (''attributes'', JObj (pi_attributes p))]"

definition supplier_document :: "SelectedSupplierV1 \<Rightarrow> json" where
  "supplier_document p = JObj [(''source_supplier_id'', JStr (ss_source_supplier_id p)), (''name'', JStr (ss_name p)),
     (''contact_details'', JObj (ss_contact_details p)), (''terms'', JObj (ss_terms p))]"

definition quote_document :: "SupplierQuoteV1 \<Rightarrow> json" where
  "quote_document q = JObj [(''source_quote_id'', JStr (qv_source_quote_id q)), (''currency'', JStr (qv_currency q)),
     (''moq'', JInt (qv_moq q)), (''quantity'', JInt (qv_quantity q)), (''unit_cost'', JDec (qv_unit_cost q)),
     (''shipping_cost'', JDec (qv_shipping_cost q)), (''lead_time_days'', JInt (qv_lead_time_days q)),
     (''valid_until'', j_opt JInt (qv_valid_until q)), (''source_reference'', j_opt JStr (qv_source_reference q))]"

definition economics_document :: "EconomicsV1 \<Rightarrow> json" where
  "economics_document e = JObj [(''estimated_landed_cost_per_unit'', JDec (ec_estimated_landed_cost_per_unit e)),
     (''recommended_selling_price'', JDec (ec_recommended_selling_price e)),
     (''expected_profit_per_unit'', JDec (ec_expected_profit_per_unit e)), (''margin_percent'', JDec (ec_margin_percent e)),
     (''roi_percent'', JDec (ec_roi_percent e))]"

definition evidence_document :: "RecommendationEvidenceV1 \<Rightarrow> json" where
  "evidence_document e = JObj [(''type'', JStr (re_type e)), (''reference'', JStr (re_reference e)),
     (''summary'', j_opt JStr (re_summary e)), (''data'', JObj (re_data e))]"

definition recommendation_document :: "RecommendationV1 \<Rightarrow> json" where
  "recommendation_document r = JObj [(''evidence'', JList (map evidence_document (rc_evidence r))),
     (''decided_at'', JInt (rc_decided_at r))]"

definition request_document :: "ApprovedProductRequestV1 \<Rightarrow> json" where
  "request_document r = JObj [(''schema_version'', JInt (aq_schema_version r)), (''source_system'', JStr (aq_source_system r)),
     (''source_product_id'', JStr (aq_source_product_id r)), (''source_workflow_run_id'', JStr (aq_source_workflow_run_id r)),
     (''source_recommendation_id'', JStr (aq_source_recommendation_id r)), (''product'', product_document (aq_product r)),
     (''selected_supplier'', supplier_document (aq_selected_supplier r)),
     (''supplier_quote'', quote_document (aq_supplier_quote r)), (''economics'', economics_document (aq_economics r)),
     (''recommendation'', recommendation_document (aq_recommendation r))]"

section \<open>The service\<close>

record IngestionIdentity =
  id_source_system :: string
  id_source_product_id :: string

record ApprovedProductIngestionService =
  is_digest :: "json \<Rightarrow> string"
  is_uuid5 :: "string \<Rightarrow> uuid"

definition identity_of :: "ApprovedProductRequestV1 \<Rightarrow> IngestionIdentity" where
  "identity_of r = \<lparr>id_source_system = aq_source_system r, id_source_product_id = aq_source_product_id r\<rparr>"

definition sourcing_workflow_name :: string where
  "sourcing_workflow_name = ''approved-product-procurement''"

definition product_payload_hash :: "ApprovedProductIngestionService \<Rightarrow> ApprovedProductRequestV1 \<Rightarrow> string" where
  "product_payload_hash S r = is_digest S (canonical (request_document r))"

definition correlation_id :: "ApprovedProductIngestionService \<Rightarrow> IngestionIdentity \<Rightarrow> string \<Rightarrow> uuid" where
  "correlation_id S identity source_workflow_run =
     is_uuid5 S (id_source_system identity @ '':'' @ id_source_product_id identity @ '':'' @ source_workflow_run)"

definition event_idempotency_key :: "IngestionIdentity \<Rightarrow> string" where
  "event_idempotency_key identity = ''product-approved:'' @ id_source_system identity @ '':'' @ id_source_product_id identity"

definition find_product :: "IngestionIdentity \<Rightarrow> Product option op" where
  "find_product identity = scalar products (\<lambda>p. pd_source_system p = id_source_system identity \<and>
     pd_external_product_id p = id_source_product_id identity)"

definition ingestion_response ::
  "Product \<Rightarrow> ProcurementRequest \<Rightarrow> WorkflowRun \<Rightarrow> DomainEvent \<Rightarrow> bool \<Rightarrow> ApprovedProductResponseV1" where
  "ingestion_response product procurement workflow event duplicate =
     \<lparr>ar_schema_version = 1, ar_product_id = row_id product, ar_procurement_request_id = row_id procurement,
      ar_workflow_run_id = row_id workflow, ar_event_id = row_id event, ar_correlation_id = wf_correlation_id workflow,
      ar_procurement_status = procurement_value (pr_status procurement), ar_duplicate = duplicate\<rparr>"

definition existing_response :: "Product \<Rightarrow> string \<Rightarrow> ApprovedProductResponseV1 op" where
  "existing_response product payload_hash =
     andthen (raise_if (pd_source_payload_hash product \<noteq> payload_hash)
       (Exn ApprovedProductConflictError ''The source product was already ingested with different approved data''))
     (bind (scalar procurement_requests (\<lambda>r. pr_product_id r = row_id product)) (\<lambda>procurement.
     bind (scalar domain_events (\<lambda>e. ev_idempotency_key e = event_idempotency_key
             \<lparr>id_source_system = pd_source_system product, id_source_product_id = pd_external_product_id product\<rparr>)) (\<lambda>event.
     case (procurement, event) of
       (Some pr, Some ev) \<Rightarrow>
         bind (get_opt_row workflow_runs (pr_workflow_run_id pr)) (\<lambda>workflow.
         case workflow of
           None \<Rightarrow> throw (Exn ApprovedProductConflictError ''Existing procurement workflow is missing'')
         | Some w \<Rightarrow> ret (ingestion_response product pr w ev True))
     | _ \<Rightarrow> throw (Exn ApprovedProductConflictError ''Existing ingestion is incomplete''))))"

text \<open>The rows of a new product, in the order the code adds them.\<close>

definition new_product :: "ApprovedProductRequestV1 \<Rightarrow> string \<Rightarrow> uuid \<Rightarrow> datetime \<Rightarrow> Product" where
  "new_product r payload_hash prod_id now =
     \<lparr>row_id = prod_id, row_created_at = now, pd_source_system = aq_source_system r,
      pd_external_product_id = aq_source_product_id r, pd_source_workflow_run_id = aq_source_workflow_run_id r,
      pd_source_recommendation_id = aq_source_recommendation_id r, pd_source_payload_hash = payload_hash,
      pd_name = pi_name (aq_product r), pd_brand = pi_brand (aq_product r),
      pd_identifiers = map (map_prod id (j_opt JStr)) (pi_identifiers (aq_product r)),
      pd_attributes = pi_attributes (aq_product r),
      pd_recommendation_evidence = map evidence_document (rc_evidence (aq_recommendation r)),
      pd_status = Product_APPROVED\<rparr>"

definition add_product :: "ApprovedProductRequestV1 \<Rightarrow> string \<Rightarrow> uuid op" where
  "add_product r payload_hash =
     bind new_uuid (\<lambda>prod_id.
     bind now_utc (\<lambda>now.
     andthen (add_row products_update (new_product r payload_hash prod_id now)) (ret prod_id)))"

definition supplier_for :: "ApprovedProductRequestV1 \<Rightarrow> uuid op" where
  "supplier_for r =
     bind (scalar suppliers (\<lambda>p. sp_source_system p = aq_source_system r \<and>
             sp_external_supplier_id p = ss_source_supplier_id (aq_selected_supplier r))) (\<lambda>found.
     case found of
       Some supplier \<Rightarrow> ret (row_id supplier)
     | None \<Rightarrow>
         bind new_uuid (\<lambda>supplier_id.
         bind now_utc (\<lambda>now.
         andthen (add_row suppliers_update
           \<lparr>row_id = supplier_id, row_created_at = now, sp_source_system = aq_source_system r,
            sp_external_supplier_id = ss_source_supplier_id (aq_selected_supplier r), sp_name = ss_name (aq_selected_supplier r),
            sp_contact_details = ss_contact_details (aq_selected_supplier r), sp_terms = ss_terms (aq_selected_supplier r),
            sp_status = Supplier_ACTIVE\<rparr>)
         (ret supplier_id))))"

definition new_quote :: "SupplierQuoteV1 \<Rightarrow> uuid \<Rightarrow> uuid \<Rightarrow> uuid \<Rightarrow> datetime \<Rightarrow> SupplierQuote" where
  "new_quote q prod_id supplier_id quote_id now =
     \<lparr>row_id = quote_id, row_created_at = now, sq_product_id = prod_id, sq_supplier_id = supplier_id,
      sq_external_quote_id = qv_source_quote_id q, sq_currency = qv_currency q, sq_moq = qv_moq q, sq_quantity = qv_quantity q,
      sq_unit_cost = qv_unit_cost q, sq_shipping_cost = qv_shipping_cost q, sq_lead_time_days = qv_lead_time_days q,
      sq_valid_until = qv_valid_until q, sq_source_reference = qv_source_reference q\<rparr>"

text \<open>\<open>UniqueConstraint("supplier_id", "external_quote_id")\<close>, checked when the quote is inserted.\<close>

definition add_quote :: "ApprovedProductRequestV1 \<Rightarrow> uuid \<Rightarrow> uuid \<Rightarrow> uuid op" where
  "add_quote r prod_id supplier_id =
     bind new_uuid (\<lambda>quote_id.
     bind now_utc (\<lambda>now.
     bind (gets supplier_quotes) (\<lambda>stored.
     andthen (raise_if (\<exists>q \<in> set stored. sq_supplier_id q = supplier_id \<and>
                          sq_external_quote_id q = qv_source_quote_id (aq_supplier_quote r))
       (Exn IntegrityError ''uq_supplier_quotes_supplier_id''))
     (andthen (add_row supplier_quotes_update (new_quote (aq_supplier_quote r) prod_id supplier_id quote_id now))
     (ret quote_id)))))"

definition sourcing_run ::
  "ApprovedProductRequestV1 \<Rightarrow> string \<Rightarrow> uuid \<Rightarrow> uuid \<Rightarrow> datetime \<Rightarrow> WorkflowRun" where
  "sourcing_run r idem_key correlation workflow_id now =
     new_workflow workflow_id now sourcing_workflow_name correlation Run_PENDING ''procurement_requested''
       [(''source_system'', JStr (aq_source_system r)), (''source_workflow_run_id'', JStr (aq_source_workflow_run_id r)),
        (''source_recommendation_id'', JStr (aq_source_recommendation_id r)), (''request_idempotency_key'', JStr idem_key)]"

definition add_sourcing_run :: "ApprovedProductRequestV1 \<Rightarrow> string \<Rightarrow> uuid \<Rightarrow> uuid op" where
  "add_sourcing_run r idem_key correlation =
     bind new_uuid (\<lambda>workflow_id.
     bind now_utc (\<lambda>now.
     andthen (add_workflow (sourcing_run r idem_key correlation workflow_id now)) (ret workflow_id)))"

definition new_proposal :: "ApprovedProductRequestV1 \<Rightarrow> uuid \<Rightarrow> uuid \<Rightarrow> uuid \<Rightarrow> uuid \<Rightarrow> datetime \<Rightarrow> ProcurementRequest" where
  "new_proposal r prod_id quote_id workflow_id procurement_id now =
     \<lparr>row_id = procurement_id, row_created_at = now, pr_product_id = prod_id, pr_selected_quote_id = quote_id,
      pr_workflow_run_id = Some workflow_id, pr_requested_quantity = qv_quantity (aq_supplier_quote r),
      pr_estimated_landed_cost = ec_estimated_landed_cost_per_unit (aq_economics r),
      pr_currency = qv_currency (aq_supplier_quote r),
      pr_recommendation_context = [(''economics'', economics_document (aq_economics r)),
        (''recommendation'', recommendation_document (aq_recommendation r))],
      pr_expected_arrival_at = Some (now + days (qv_lead_time_days (aq_supplier_quote r))),
      pr_status = Procurement_PROPOSED\<rparr>"

definition add_proposal :: "ApprovedProductRequestV1 \<Rightarrow> uuid \<Rightarrow> uuid \<Rightarrow> uuid \<Rightarrow> uuid op" where
  "add_proposal r prod_id quote_id workflow_id =
     bind new_uuid (\<lambda>procurement_id.
     bind now_utc (\<lambda>now.
     andthen (add_row procurement_requests_update (new_proposal r prod_id quote_id workflow_id procurement_id now))
     (andthen flush (ret procurement_id))))"

definition announce_product ::
  "ApprovedProductRequestV1 \<Rightarrow> uuid \<Rightarrow> uuid \<Rightarrow> uuid \<Rightarrow> uuid \<Rightarrow> ApprovedProductResponseV1 op" where
  "announce_product r correlation prod_id procurement_id workflow_id =
     bind (version_of prod_id) (\<lambda>product_version.
     bind (emit (ProductApprovedPayload prod_id (aq_source_product_id r) (Some (aq_source_workflow_run_id r)) (Some procurement_id))
            ''product'' prod_id product_version (event_idempotency_key (identity_of r))
            (Some correlation) (Some workflow_id) None) (\<lambda>event.
     bind (reload products prod_id) (\<lambda>product.
     bind (reload procurement_requests procurement_id) (\<lambda>procurement.
     bind (reload workflow_runs workflow_id) (\<lambda>workflow.
     ret (ingestion_response product procurement workflow event False))))))"

definition store_product :: "ApprovedProductIngestionService \<Rightarrow> ApprovedProductRequestV1 \<Rightarrow> string \<Rightarrow> ApprovedProductResponseV1 op" where
  "store_product S r idem_key =
     (let correlation = correlation_id S (identity_of r) (aq_source_workflow_run_id r) in
      bind (add_product r (product_payload_hash S r)) (\<lambda>prod_id.
      bind (supplier_for r) (\<lambda>supplier_id.
      andthen flush
      (bind (add_quote r prod_id supplier_id) (\<lambda>quote_id.
       bind (add_sourcing_run r idem_key correlation) (\<lambda>workflow_id.
       bind (add_proposal r prod_id quote_id workflow_id) (\<lambda>procurement_id.
       announce_product r correlation prod_id procurement_id workflow_id)))))))"

definition ingest_product :: "ApprovedProductIngestionService \<Rightarrow> ApprovedProductRequestV1 \<Rightarrow> string \<Rightarrow> ApprovedProductResponseV1 op" where
  "ingest_product S r idem_key =
     bind (find_product (identity_of r)) (\<lambda>existing.
     case existing of
       Some product \<Rightarrow> existing_response product (product_payload_hash S r)
     | None \<Rightarrow> store_product S r idem_key)"

definition find_existing_after_conflict :: "ApprovedProductIngestionService \<Rightarrow> ApprovedProductRequestV1 \<Rightarrow> ApprovedProductResponseV1 op" where
  "find_existing_after_conflict S r =
     bind (find_product (identity_of r)) (\<lambda>found.
     case found of
       None \<Rightarrow> throw (Exn ApprovedProductConflictError ''Concurrent ingestion failed without a saved product'')
     | Some product \<Rightarrow> existing_response product (product_payload_hash S r))"

text \<open>The endpoint: commit, or roll back and, after a refused insert, look for the row that won.\<close>

definition ingest_endpoint ::
  "ApprovedProductIngestionService \<Rightarrow> ApprovedProductRequestV1 \<Rightarrow> string \<Rightarrow> ApprovedProductResponseV1 response op" where
  "ingest_endpoint S r idem_key s = (case ingest_product S r idem_key s of
       (Inr resp, t) \<Rightarrow> (Inr (Inr resp), flush_db t)
     | (Inl exc, t) \<Rightarrow>
         if exn_class exc = ApprovedProductConflictError then (Inr (Inl (409, exn_message exc)), rollback_to s t)
         else if exn_class exc = IntegrityError then
           (case find_existing_after_conflict S r (rollback_to s t) of
              (Inr resp, u) \<Rightarrow> (Inr (Inr resp), u)
            | (Inl conflict, u) \<Rightarrow>
                if exn_class conflict = ApprovedProductConflictError then (Inr (Inl (409, exn_message conflict)), u)
                else (Inl conflict, u))
         else (Inl exc, rollback_to s t))"

section \<open>Ingested products are complete\<close>

definition product_identity :: "Product \<Rightarrow> IngestionIdentity" where
  "product_identity p = \<lparr>id_source_system = pd_source_system p, id_source_product_id = pd_external_product_id p\<rparr>"

definition proposal_complete :: "db \<Rightarrow> uuid \<Rightarrow> ProcurementRequest \<Rightarrow> bool" where
  "proposal_complete s i r \<longleftrightarrow> 0 < pr_requested_quantity r \<and>
     (\<exists>j w. pr_workflow_run_id r = Some j \<and> row (workflow_runs s) j = Some w) \<and>
     (\<exists>q. row (supplier_quotes s) (pr_selected_quote_id r) = Some q \<and> sq_product_id q = i \<and> sq_moq q \<le> sq_quantity q \<and>
        pr_requested_quantity r = sq_quantity q)"

definition product_complete :: "db \<Rightarrow> Product \<Rightarrow> bool" where
  "product_complete s p \<longleftrightarrow>
     (\<exists>r. find (\<lambda>r. pr_product_id r = row_id p) (procurement_requests s) = Some r \<and> proposal_complete s (row_id p) r) \<and>
     (\<exists>e \<in> set (domain_events s). ev_idempotency_key e = event_idempotency_key (product_identity p))"

definition sourced_ok :: "db \<Rightarrow> bool" where
  "sourced_ok s \<longleftrightarrow> ids_ok (next_id s) (products s) \<and> distinct (map product_identity (products s)) \<and>
     ids_ok (next_id s) (supplier_quotes s) \<and> ids_ok (next_id s) (workflow_runs s) \<and>
     ids_ok (next_id s) (procurement_requests s) \<and>
     (\<forall>r \<in> set (procurement_requests s). pr_product_id r < next_id s) \<and> outbox_ok s \<and>
     (\<forall>p \<in> set (products s). product_complete s p)"

lemma emit_business_wp:
  "wp (emit pl aty ai av k c w ca) (\<lambda>e t. business t = business s \<and> next_id s \<le> next_id t \<and> e \<in> set (domain_events t) \<and>
     ev_idempotency_key e = k \<and> set (domain_events s) \<subseteq> set (domain_events t) \<and> (outbox_ok s \<longrightarrow> outbox_ok t)) (\<lambda>_ _. True) s"
proof (rule wp_eqI)
  fix e t assume run: "emit pl aty ai av k c w ca s = (Inr e, t)"
  show "business t = business s \<and> next_id s \<le> next_id t \<and> e \<in> set (domain_events t) \<and>
     ev_idempotency_key e = k \<and> set (domain_events s) \<subseteq> set (domain_events t) \<and> (outbox_ok s \<longrightarrow> outbox_ok t)"
    using emit_stored [OF run] keepsD [OF keeps_business(2) run] advancesD [OF advances_emit run] outbox_ok_emit [OF _ run] by blast
qed simp

lemma outbox_ok_part: "outbox_ok s \<Longrightarrow> domain_events t = domain_events s \<Longrightarrow> next_id s \<le> next_id t \<Longrightarrow> outbox_ok t"
  by (auto simp: outbox_ok_def keys_distinct_def intro: ids_ok_mono)

lemma request_valid_quote: "request_valid r \<Longrightarrow> quote_valid (aq_supplier_quote r)"
  by (simp add: request_valid_def)

text \<open>What a first ingestion adds.\<close>

definition product_stored ::
  "ApprovedProductIngestionService \<Rightarrow> ApprovedProductRequestV1 \<Rightarrow> db \<Rightarrow> ApprovedProductResponseV1 \<Rightarrow> db \<Rightarrow> bool" where
  "product_stored S r s resp t \<longleftrightarrow> next_id s \<le> next_id t \<and>
     (\<exists>p q w pr e. products t = products s @ [p] \<and> supplier_quotes t = supplier_quotes s @ [q] \<and>
        workflow_runs t = workflow_runs s @ [w] \<and> procurement_requests t = procurement_requests s @ [pr] \<and>
        e \<in> set (domain_events t) \<and> set (domain_events s) \<subseteq> set (domain_events t) \<and> (outbox_ok s \<longrightarrow> outbox_ok t) \<and>
        product_identity p = identity_of r \<and> pd_source_payload_hash p = product_payload_hash S r \<and>
        next_id s \<le> row_id p \<and> row_id p < next_id t \<and> next_id s \<le> row_id q \<and> row_id q < next_id t \<and>
        next_id s \<le> row_id w \<and> row_id w < next_id t \<and>
        pr_product_id pr = row_id p \<and> pr_selected_quote_id pr = row_id q \<and> pr_workflow_run_id pr = Some (row_id w) \<and>
        pr_requested_quantity pr = qv_quantity (aq_supplier_quote r) \<and> pr_status pr = Procurement_PROPOSED \<and>
        next_id s \<le> row_id pr \<and> row_id pr < next_id t \<and> sq_product_id q = row_id p \<and> sq_moq q = qv_moq (aq_supplier_quote r) \<and> sq_quantity q = qv_quantity (aq_supplier_quote r) \<and>
        ev_idempotency_key e = event_idempotency_key (identity_of r) \<and> resp = ingestion_response p pr w e False)"

lemma announce_product_wp:
  assumes "products u = products s @ [p]" "supplier_quotes u = supplier_quotes s @ [q]" "workflow_runs u = workflow_runs s @ [w]"
    "procurement_requests u = procurement_requests s @ [pr]" "domain_events u = domain_events s" "next_id s \<le> next_id u"
    "row (products u) i = Some p" "row (procurement_requests u) j = Some pr" "row (workflow_runs u) k = Some w"
    and new: "product_identity p = identity_of r" "pd_source_payload_hash p = product_payload_hash S r"
      "next_id s \<le> row_id p" "row_id p < next_id u" "next_id s \<le> row_id q" "row_id q < next_id u" "next_id s \<le> row_id w" "row_id w < next_id u"
      "pr_product_id pr = row_id p" "pr_selected_quote_id pr = row_id q" "pr_workflow_run_id pr = Some (row_id w)"
      "pr_requested_quantity pr = qv_quantity (aq_supplier_quote r)" "pr_status pr = Procurement_PROPOSED"
      "sq_product_id q = row_id p" "sq_moq q = qv_moq (aq_supplier_quote r)" "sq_quantity q = qv_quantity (aq_supplier_quote r)"
      "next_id s \<le> row_id pr" "row_id pr < next_id u"
  shows "wp (announce_product r c i j k) (\<lambda>resp t. product_stored S r s resp t) (\<lambda>_ _. True) u"
proof -
  have "product_stored S r s (ingestion_response p pr w e False) t"
    if b: "business t = business u" and e: "next_id u \<le> next_id t" "e \<in> set (domain_events t)"
      "ev_idempotency_key e = event_idempotency_key (identity_of r)" "set (domain_events u) \<subseteq> set (domain_events t)"
      "outbox_ok u \<longrightarrow> outbox_ok t" for e t
  proof -
    have o: "outbox_ok s \<longrightarrow> outbox_ok t" using e(5) outbox_ok_part [OF _ assms(5,6)] by blast
    have t: "products t = products s @ [p]" "supplier_quotes t = supplier_quotes s @ [q]" "workflow_runs t = workflow_runs s @ [w]"
        "procurement_requests t = procurement_requests s @ [pr]" "set (domain_events s) \<subseteq> set (domain_events t)"
      using businessD [OF b] assms(1-5) e(4) by simp_all
    have n: "next_id s \<le> next_id t" "row_id p < next_id t" "row_id q < next_id t" "row_id w < next_id t" "row_id pr < next_id t"
      using assms(6) e(1) new(4,6,8,18) by linarith+
    show ?thesis
      unfolding product_stored_def
      by (intro conjI exI [of _ p] exI [of _ q] exI [of _ w] exI [of _ pr] exI [of _ e]) (fact t n o new e refl)+
  qed
  note stored = this
  have "wp (bind (reload products i) (\<lambda>product. bind (reload procurement_requests j) (\<lambda>procurement. bind (reload workflow_runs k) (\<lambda>workflow.
      ret (ingestion_response product procurement workflow e False))))) (\<lambda>resp t. product_stored S r s resp t) (\<lambda>_ _. True) t"
    if "business t = business u \<and> next_id u \<le> next_id t \<and> e \<in> set (domain_events t) \<and>
      ev_idempotency_key e = event_idempotency_key (identity_of r) \<and> set (domain_events u) \<subseteq> set (domain_events t) \<and>
      (outbox_ok u \<longrightarrow> outbox_ok t)" for e t
  proof -
    have "row (products t) i = Some p" "row (procurement_requests t) j = Some pr" "row (workflow_runs t) k = Some w"
      using businessD [of t u] that assms(7-9) by simp_all
    then show ?thesis using stored [of t e] that by (simp add: wp_bind wp_reload wp_ret)
  qed
  then show ?thesis
    unfolding announce_product_def wp_bind [of "version_of i"] wp_version_of wp_bind [of "emit a b c d e f g h" for a b c d e f g h]
    by (rule wp_mono [OF emit_business_wp])
qed

lemma sourcing_tail_wp:
  assumes ok: "sourced_ok s" and u: "products u = products s @ [p]" "supplier_quotes u = supplier_quotes s" "workflow_runs u = workflow_runs s"
      "procurement_requests u = procurement_requests s" "domain_events u = domain_events s" "next_id s \<le> next_id u"
    and p: "product_identity p = identity_of r" "pd_source_payload_hash p = product_payload_hash S r" "next_id s \<le> row_id p" "row_id p < next_id u"
  shows "wp (bind (add_quote r (row_id p) supplier) (\<lambda>quote_id. bind (add_sourcing_run r k c) (\<lambda>workflow_id.
      bind (add_proposal r (row_id p) quote_id workflow_id) (\<lambda>procurement_id.
      announce_product r c (row_id p) procurement_id workflow_id))))
    (\<lambda>resp t. product_stored S r s resp t) (\<lambda>_ _. True) u"
proof -
  let ?n = "next_id u"
  let ?q = "new_quote (aq_supplier_quote r) (row_id p) supplier ?n (clock u)"
  let ?w = "sourcing_run r k c (?n + 1) (clock u)"
  let ?pr = "new_proposal r (row_id p) ?n (?n + 1) (?n + 2) (clock u)"
  have fresh: "row (products s) (row_id p) = None" "row (workflow_runs s) (?n + 1) = None" "row (procurement_requests s) (?n + 2) = None"
  proof -
    have "ids_ok (next_id s) (products s)" "ids_ok (next_id s) (workflow_runs s)" "ids_ok (next_id s) (procurement_requests s)"
      using ok by (simp_all add: sourced_ok_def)
    then show "row (products s) (row_id p) = None" "row (workflow_runs s) (?n + 1) = None" "row (procurement_requests s) (?n + 2) = None"
      using p(3) u(6) by (auto elim!: ids_ok_fresh)
  qed
  note defs = new_quote_def sourcing_run_def new_workflow_def new_proposal_def
  have "wp (announce_product r c (row_id p) (?n + 2) (?n + 1)) (\<lambda>resp t. product_stored S r s resp t) (\<lambda>_ _. True) v"
    if v: "products v = products u" "supplier_quotes v = supplier_quotes u @ [?q]" "workflow_runs v = workflow_runs u @ [?w]"
      "procurement_requests v = procurement_requests u @ [?pr]" "domain_events v = domain_events u" "next_id v = ?n + 3" for v
    by (rule announce_product_wp [where p = p and q = ?q and w = ?w and pr = ?pr])
      (use u(6) p(3,4) in \<open>simp_all add: v u(1-5) p(1,2) fresh fresh [simplified] row_append row_Cons defs\<close>)
  then show ?thesis
    by (simp add: wp_simps add_quote_def add_sourcing_run_def add_workflow_def add_proposal_def Suc3_eq_add_3 numeral_2_eq_2)
qed

lemma store_product_wp:
  assumes ok: "sourced_ok s"
  shows "wp (store_product S r k) (\<lambda>resp t. product_stored S r s resp t) (\<lambda>_ _. True) s"
proof -
  let ?p = "new_product r (product_payload_hash S r) (next_id s) (clock s)"
  have p: "row_id ?p = next_id s" "product_identity ?p = identity_of r" "pd_source_payload_hash ?p = product_payload_hash S r"
    by (simp_all add: new_product_def product_identity_def identity_of_def)
  note tail = sourcing_tail_wp [OF ok _ _ _ _ _ _ p(2,3) _ _, unfolded p(1) wp_bind [of "add_quote a b c" for a b c]]
  show ?thesis
    unfolding store_product_def Let_def add_product_def supplier_for_def
    by (simp add: wp_simps split: option.split) (intro conjI allI impI tail; simp)
qed

lemma find_fresh: "\<forall>x \<in> set xs. \<not> P x \<Longrightarrow> P y \<Longrightarrow> find P (xs @ [y]) = Some y"
  by (induction xs) auto

lemma complete_grows:
  assumes "product_complete s p" "procurement_requests t = procurement_requests s @ rs" "workflow_runs t = workflow_runs s @ ws"
    "supplier_quotes t = supplier_quotes s @ qs" "set (domain_events s) \<subseteq> set (domain_events t)"
  shows "product_complete t p"
  using assms unfolding product_complete_def proposal_complete_def by (fastforce simp: find_append row_append)

lemma stored_complete:
  assumes ok: "sourced_ok s" and r: "quote_valid (aq_supplier_quote r)" and st: "product_stored S r s resp t"
    and none: "identity_of r \<notin> product_identity ` set (products s)"
  shows "sourced_ok t" "\<exists>p \<in> set (products t). product_identity p = identity_of r \<and> pd_source_payload_hash p = product_payload_hash S r \<and>
     (\<exists>pr w e. find (\<lambda>r. pr_product_id r = row_id p) (procurement_requests t) = Some pr \<and> pr_workflow_run_id pr = Some (row_id w) \<and>
        row (workflow_runs t) (row_id w) = Some w \<and> e \<in> set (domain_events t) \<and>
        ev_idempotency_key e = event_idempotency_key (product_identity p) \<and> resp = ingestion_response p pr w e False)"
proof -
  obtain p q w pr e where t: "products t = products s @ [p]" "supplier_quotes t = supplier_quotes s @ [q]"
      "workflow_runs t = workflow_runs s @ [w]" "procurement_requests t = procurement_requests s @ [pr]"
    and e: "e \<in> set (domain_events t)" "set (domain_events s) \<subseteq> set (domain_events t)" "outbox_ok s \<longrightarrow> outbox_ok t"
      "ev_idempotency_key e = event_idempotency_key (identity_of r)"
    and p: "product_identity p = identity_of r" "pd_source_payload_hash p = product_payload_hash S r" "next_id s \<le> row_id p" "row_id p < next_id t"
    and q: "next_id s \<le> row_id q" "row_id q < next_id t" "next_id s \<le> row_id w" "row_id w < next_id t"
    and pr: "pr_product_id pr = row_id p" "pr_selected_quote_id pr = row_id q" "pr_workflow_run_id pr = Some (row_id w)"
      "pr_requested_quantity pr = qv_quantity (aq_supplier_quote r)" "sq_product_id q = row_id p"
      "sq_moq q = qv_moq (aq_supplier_quote r)" "sq_quantity q = qv_quantity (aq_supplier_quote r)"
    and resp: "resp = ingestion_response p pr w e False" and n: "next_id s \<le> next_id t" "next_id s \<le> row_id pr" "row_id pr < next_id t"
    using st unfolding product_stored_def by blast
  have fresh: "row (workflow_runs s) (row_id w) = None" "row (supplier_quotes s) (row_id q) = None"
    using ok q ids_ok_fresh by (auto simp: sourced_ok_def)
  have found: "find (\<lambda>r. pr_product_id r = row_id p) (procurement_requests t) = Some pr"
    unfolding t(4) by (rule find_fresh) (use ok p(3) pr(1) in \<open>auto simp: sourced_ok_def\<close>)
  have rows: "row (workflow_runs t) (row_id w) = Some w" "row (supplier_quotes t) (row_id q) = Some q"
    by (simp_all add: t row_append fresh row_Cons)
  have "product_complete t p"
    using found rows pr r e(1,4) p(1) by (auto simp: product_complete_def proposal_complete_def quote_valid_def)
  moreover have "product_complete t p'" if "p' \<in> set (products s)" for p'
    using complete_grows [OF _ t(4,3,2) e(2)] ok that by (auto simp: sourced_ok_def)
  ultimately show "sourced_ok t"
    using ok t p q pr(1) n e(3) none
    by (auto simp: sourced_ok_def intro: ids_ok_append dest: order_less_le_trans)
  show "\<exists>p \<in> set (products t). product_identity p = identity_of r \<and> pd_source_payload_hash p = product_payload_hash S r \<and>
     (\<exists>pr w e. find (\<lambda>r. pr_product_id r = row_id p) (procurement_requests t) = Some pr \<and> pr_workflow_run_id pr = Some (row_id w) \<and>
        row (workflow_runs t) (row_id w) = Some w \<and> e \<in> set (domain_events t) \<and>
        ev_idempotency_key e = event_idempotency_key (product_identity p) \<and> resp = ingestion_response p pr w e False)"
    by (intro bexI [of _ p] conjI exI [of _ pr] exI [of _ w] exI [of _ e] p found pr rows e resp) (simp_all add: t p e)
qed

section \<open>The endpoint\<close>

interpretation sourcing: unit_of_work sourced_ok
proof
  fix s t assume s: "sourced_ok s" and t: "tables_of t = tables_of s" "next_id s \<le> next_id t"
  have "product_complete t p" if "product_complete s p" for p
    using that tables_ofD [OF t(1)] by (simp add: product_complete_def proposal_complete_def)
  then show "sourced_ok t"
    using s t(2) tables_ofD [OF t(1)] outbox_ok_part [of s t]
    by (auto simp: sourced_ok_def intro: ids_ok_mono dest: order_less_le_trans)
qed

lemma find_identity:
  assumes "distinct (map product_identity ps)" "p \<in> set ps" "product_identity p = identity_of r"
  shows "find (\<lambda>p. pd_source_system p = id_source_system (identity_of r) \<and> pd_external_product_id p = id_source_product_id (identity_of r)) ps = Some p"
proof -
  have "(pd_source_system q = id_source_system (identity_of r) \<and> pd_external_product_id q = id_source_product_id (identity_of r)) \<longleftrightarrow>
      product_identity q = product_identity p" for q
    by (simp add: product_identity_def assms(3) [symmetric, unfolded product_identity_def] assms(3))
  then show ?thesis using assms(1,2) by (induction ps) (auto simp: rev_image_eqI)
qed

lemma find_event_key: "keys_distinct s \<Longrightarrow> e \<in> set (domain_events s) \<Longrightarrow> find (\<lambda>x. ev_idempotency_key x = ev_idempotency_key e) (domain_events s) = Some e"
  using keys_distinctD [of s] by (cases "find (\<lambda>x. ev_idempotency_key x = ev_idempotency_key e) (domain_events s)")
    (auto simp: find_None_iff dest!: find_SomeD)

text \<open>The answer to a product that is stored.\<close>

definition stored_response :: "db \<Rightarrow> Product \<Rightarrow> ApprovedProductResponseV1 \<Rightarrow> bool" where
  "stored_response s p resp \<longleftrightarrow>
     (\<exists>pr w e. find (\<lambda>r. pr_product_id r = row_id p) (procurement_requests s) = Some pr \<and> pr_workflow_run_id pr = Some (row_id w) \<and>
        row (workflow_runs s) (row_id w) = Some w \<and> e \<in> set (domain_events s) \<and>
        ev_idempotency_key e = event_idempotency_key (product_identity p) \<and> resp = ingestion_response p pr w e True)"

lemma stored_response_exists:
  assumes "sourced_ok s" "p \<in> set (products s)" shows "\<exists>resp. stored_response s p resp"
proof -
  obtain pr w e where "find (\<lambda>r. pr_product_id r = row_id p) (procurement_requests s) = Some pr"
      "pr_workflow_run_id pr = Some (row_id w)" "row (workflow_runs s) (row_id w) = Some w" "e \<in> set (domain_events s)"
      "ev_idempotency_key e = event_idempotency_key (product_identity p)"
    using assms unfolding sourced_ok_def product_complete_def proposal_complete_def by (metis row_id_of)
  then show ?thesis unfolding stored_response_def by blast
qed

lemma existing_apply:
  assumes "sourced_ok s" "stored_response s p resp"
  shows "existing_response p h s = (if pd_source_payload_hash p \<noteq> h
     then (Inl (Exn ApprovedProductConflictError ''The source product was already ingested with different approved data''), s)
     else (Inr resp, flush_db s))"
proof -
  obtain pr w e where x: "find (\<lambda>r. pr_product_id r = row_id p) (procurement_requests s) = Some pr" "pr_workflow_run_id pr = Some (row_id w)"
      "row (workflow_runs s) (row_id w) = Some w" "e \<in> set (domain_events s)"
      "ev_idempotency_key e = event_idempotency_key (product_identity p)" "resp = ingestion_response p pr w e True"
    using assms(2) unfolding stored_response_def by blast
  have "find (\<lambda>x. ev_idempotency_key x = event_idempotency_key (product_identity p)) (domain_events s) = Some e"
    using find_event_key [OF _ x(4)] assms(1) x(5) by (simp add: sourced_ok_def outbox_ok_def)
  then show ?thesis
    using x by (simp add: existing_response_def run_simps product_identity_def)
qed

lemma endpoint_existing:
  assumes ok: "sourced_ok s" and p: "p \<in> set (products s)" "product_identity p = identity_of r" "stored_response s p resp"
  shows "ingest_endpoint S r k s = (Inr (if pd_source_payload_hash p \<noteq> product_payload_hash S r
      then Inl (409, ''The source product was already ingested with different approved data'') else Inr resp), flush_db s) \<or>
    ingest_endpoint S r k s = (Inr (if pd_source_payload_hash p \<noteq> product_payload_hash S r
      then Inl (409, ''The source product was already ingested with different approved data'') else Inr resp), rollback_to s (flush_db s))"
proof -
  have "find_product (identity_of r) s = (Inr (Some p), flush_db s)"
    using find_identity [OF _ p(1,2)] ok by (simp add: find_product_def run_simps sourced_ok_def)
  moreover have "stored_response (flush_db s) p resp" using p(3) by (simp add: stored_response_def)
  ultimately show ?thesis
    using existing_apply [OF sourcing.flushed [OF ok]] by (simp add: ingest_endpoint_def ingest_product_def bind_Inr split: if_split)
qed

lemma keeps_tables_reading:
  "keeps tables_of (find_product i)" "keeps tables_of (existing_response p h)" "keeps tables_of (find_existing_after_conflict S r)"
  "keeps next_id (find_product i)" "keeps next_id (existing_response p h)" "keeps next_id (find_existing_after_conflict S r)"
  unfolding find_existing_after_conflict_def existing_response_def find_product_def
  by (auto intro!: keeps_intros split: option.split)

lemma endpoint_new:
  assumes ok: "sourced_ok s" and q: "quote_valid (aq_supplier_quote r)" and none: "identity_of r \<notin> product_identity ` set (products s)"
  obtains
    (stored) resp t where "ingest_endpoint S r k s = (Inr (Inr resp), flush_db t)" "product_stored S r s resp t"
  | (refused) x t where "ingest_endpoint S r k s = (x, t)" "tables_of t = tables_of s" "next_id s \<le> next_id t"
      "\<And>resp. x \<noteq> Inr (Inr resp)"
proof -
  have nf: "find_product (identity_of r) u = (Inr None, flush_db u)" if "products u = products s" for u
    using none that by (auto simp: find_product_def run_simps find_None_iff product_identity_def identity_of_def image_iff)
  have ingest: "ingest_product S r k s = store_product S r k (flush_db s)" by (simp add: ingest_product_def bind_Inr nf)
  note w = store_product_wp [OF sourcing.flushed [OF ok], of S r k]
  show thesis
  proof (cases "store_product S r k (flush_db s)")
    case (Pair x t)
    show thesis
    proof (cases x)
      case (Inr resp)
      with w Pair have "product_stored S r (flush_db s) resp t" by (simp add: wp_def)
      then have "product_stored S r s resp t" by (simp add: product_stored_def outbox_ok_def keys_distinct_def)
      with Pair Inr ingest show thesis by (intro stored [of resp t]) (simp_all add: ingest_endpoint_def)
    next
      case (Inl e)
      have late: "find_existing_after_conflict S r (rollback_to s t) =
          (Inl (Exn ApprovedProductConflictError ''Concurrent ingestion failed without a saved product''), flush_db (rollback_to s t))"
        by (simp add: find_existing_after_conflict_def bind_Inr nf run_simps)
      show thesis
        by (rule refused [of "fst (ingest_endpoint S r k s)" "snd (ingest_endpoint S r k s)"])
          (simp_all add: ingest_endpoint_def ingest Pair Inl late)
    qed
  qed
qed

lemma endpoint_keeps:
  assumes ok: "sourced_ok s" and q: "quote_valid (aq_supplier_quote r)"
  shows "sourced_ok (snd (ingest_endpoint S r k s))"
proof (cases "identity_of r \<in> product_identity ` set (products s)")
  case True
  then obtain p where p: "p \<in> set (products s)" "product_identity p = identity_of r" by auto
  obtain resp where "stored_response s p resp" using stored_response_exists [OF ok p(1)] ..
  from endpoint_existing [OF ok p this, of S k] show ?thesis
    using sourcing.flushed [OF ok] sourcing.rolled_back [OF ok] by (elim disjE) (simp_all split: if_split)
next
  case False
  show ?thesis
  proof (cases rule: endpoint_new [OF ok q False, of S k])
    case (1 resp t)
    then show ?thesis using stored_complete(1) [OF ok q 1(2) False] sourcing.flushed by simp
  next
    case (2 x t)
    then show ?thesis using sourcing.tables [OF ok 2(2,3)] by simp
  qed
qed

section \<open>Any sequence of deliveries\<close>

text \<open>Bodies that arrive one after the other; one that does not validate is answered with 422 before the endpoint runs.\<close>

primrec run_ingestions :: "ApprovedProductIngestionService \<Rightarrow> (ApprovedProductRequestV1 \<times> string) list \<Rightarrow> db \<Rightarrow> db" where
  "run_ingestions S [] s = s"
| "run_ingestions S (c # cs) s = run_ingestions S cs
     (case validate_request (fst c) of Inl _ \<Rightarrow> s | Inr r \<Rightarrow> snd (ingest_endpoint S r (snd c) s))"

lemma is_letter_upper: "is_letter c \<Longrightarrow> is_letter (upper_char c)"
  by (auto simp: is_letter_def upper_char_def Let_def)

lemma length_str_upper [simp]: "length (str_upper s) = length s"
  by (simp add: str_upper_def)

lemma is_alpha_upper: "is_alpha s \<Longrightarrow> is_alpha (str_upper s)"
  by (auto simp: is_alpha_def str_upper_def list_all_iff is_letter_upper)

lemma validated_quote_valid: "validate_request r = Inr r' \<Longrightarrow> quote_valid (aq_supplier_quote r')"
  by (auto simp: validate_request_def check_def request_valid_def quote_valid_def validated_quote_def is_alpha_upper text_within_def split: if_splits)

lemma run_ingestions_ok: "sourced_ok s \<Longrightarrow> sourced_ok (run_ingestions S cs s)"
  by (induction cs arbitrary: s) (auto intro: endpoint_keeps validated_quote_valid split: sum.split)

lemma empty_sourced_ok: "sourced_ok (empty_db n)"
  by (simp add: sourced_ok_def empty_db_def outbox_ok_def keys_distinct_def ids_ok_def)

lemma endpoint_stored:
  assumes ok: "sourced_ok s" and q: "quote_valid (aq_supplier_quote r)" and run: "ingest_endpoint S r k s = (Inr (Inr resp), t)"
  shows "sourced_ok t \<and> (\<exists>p \<in> set (products t). product_identity p = identity_of r \<and>
     pd_source_payload_hash p = product_payload_hash S r \<and> stored_response t p (resp\<lparr>ar_duplicate := True\<rparr>))"
proof (cases "identity_of r \<in> product_identity ` set (products s)")
  case True
  then obtain p where p: "p \<in> set (products s)" "product_identity p = identity_of r" by auto
  obtain resp' where st: "stored_response s p resp'" using stored_response_exists [OF ok p(1)] ..
  from endpoint_existing [OF ok p st, of S k] run
  have "pd_source_payload_hash p = product_payload_hash S r" "resp = resp'" "t = flush_db s \<or> t = rollback_to s (flush_db s)"
    by (auto split: if_splits)
  moreover have "resp'\<lparr>ar_duplicate := True\<rparr> = resp'" using st by (auto simp: stored_response_def ingestion_response_def)
  moreover have "stored_response t p resp'" if "tables_of t = tables_of s" for t
    using st tables_ofD [OF that] by (simp add: stored_response_def)
  ultimately show ?thesis using p sourcing.flushed [OF ok] sourcing.rolled_back [OF ok] by auto
next
  case False
  show ?thesis
  proof (cases rule: endpoint_new [OF ok q False, of S k])
    case (1 resp' u)
    have r: "resp' = resp" "t = flush_db u" using run 1(1) by simp_all
    from stored_complete [OF ok q 1(2) False] show ?thesis
      using sourcing.flushed by (fastforce simp: r stored_response_def ingestion_response_def)
  next
    case (2 x u)
    then show ?thesis using run by (metis prod.inject)
  qed
qed

section \<open>The theorems\<close>

text \<open>
  C29: after any sequence of deliveries to the endpoint, valid or not, repeated or not, no two products share the source
  system and the source's product id, and every product is complete: it has a procurement request for the quantity of a
  quote of its own that meets the supplier's MOQ, the workflow run of that request is stored, and so is the event that
  announces the product.
\<close>

theorem ingestion_invariant:
  "distinct (map product_identity (products (run_ingestions S cs (empty_db now)))) \<and>
   (\<forall>p \<in> set (products (run_ingestions S cs (empty_db now))). product_complete (run_ingestions S cs (empty_db now)) p)"
  using run_ingestions_ok [OF empty_sourced_ok, of S cs now] by (auto simp: sourced_ok_def)

text \<open>
  C14: once a delivery has been answered with success, a later delivery for the same source product stores nothing: with
  the same payload hash it gets the same answer, marked as a duplicate, and with another one it is answered with 409,
  whatever its request key.
\<close>

theorem ingestion_idempotent:
  assumes ok: "sourced_ok s" and r: "validate_request b = Inr r" and run: "ingest_endpoint S r k s = (Inr (Inr resp), t)"
    and same: "identity_of r' = identity_of r"
  shows "\<exists>u. ingest_endpoint S r' k' t = (Inr (if product_payload_hash S r' = product_payload_hash S r
       then Inr (resp\<lparr>ar_duplicate := True\<rparr>)
       else Inl (409, ''The source product was already ingested with different approved data'')), u) \<and> tables_of u = tables_of t"
proof -
  from endpoint_stored [OF ok validated_quote_valid [OF r] run] obtain p where p: "sourced_ok t" "p \<in> set (products t)"
      "product_identity p = identity_of r'" "pd_source_payload_hash p = product_payload_hash S r"
      "stored_response t p (resp\<lparr>ar_duplicate := True\<rparr>)"
    by (auto simp: same)
  from endpoint_existing [OF p(1-3,5), of S k'] show ?thesis
    by (cases "product_payload_hash S r' = product_payload_hash S r") (auto simp: p(4))
qed

definition sample_product_request :: ApprovedProductRequestV1 where
  "sample_product_request = \<lparr>aq_schema_version = 1, aq_source_system = ''commerce-intelligence'', aq_source_product_id = ''p-1'',
     aq_source_workflow_run_id = ''run-1'', aq_source_recommendation_id = ''rec-1'',
     aq_product = \<lparr>pi_name = ''Lamp'', pi_brand = None, pi_identifiers = [(''ean'', Some ''4006381333931'')], pi_attributes = []\<rparr>,
     aq_selected_supplier = \<lparr>ss_source_supplier_id = ''s-1'', ss_name = ''Acme'', ss_contact_details = [], ss_terms = []\<rparr>,
     aq_supplier_quote = \<lparr>qv_source_quote_id = ''q-1'', qv_currency = ''usd'', qv_moq = 10, qv_quantity = 20, qv_unit_cost = 5/2,
       qv_shipping_cost = 30, qv_lead_time_days = 14, qv_valid_until = None, qv_source_reference = None\<rparr>,
     aq_economics = \<lparr>ec_estimated_landed_cost_per_unit = 4, ec_recommended_selling_price = 10, ec_expected_profit_per_unit = 3,
       ec_margin_percent = 30, ec_roi_percent = 75\<rparr>,
     aq_recommendation = \<lparr>rc_evidence = [\<lparr>re_type = ''demand'', re_reference = ''report'', re_summary = None, re_data = []\<rparr>],
       rc_decided_at = 0\<rparr>\<rparr>"

definition sample_ingestion :: ApprovedProductIngestionService where
  "sample_ingestion = \<lparr>is_digest = (\<lambda>j. case j of JObj d \<Rightarrow> (case dict_get d ''source_workflow_run_id'' of Some (JStr i) \<Rightarrow> i | _ \<Rightarrow> []) | _ \<Rightarrow> []),
     is_uuid5 = length\<rparr>"

lemma sample_request_validates: "request_valid sample_product_request"
  by (simp add: sample_product_request_def request_valid_def product_information_valid_def supplier_valid_def quote_valid_def
      economics_valid_def recommendation_valid_def evidence_valid_def money_field_def decimal_field_def four_places_def
      text_within_def optional_text_def is_alpha_def is_letter_def Let_def)

definition sample_ingested :: ApprovedProductRequestV1 where
  "sample_ingested = sample_product_request\<lparr>aq_supplier_quote := validated_quote (aq_supplier_quote sample_product_request)\<rparr>"

lemma sample_ingested_simps:
  "aq_source_product_id sample_ingested = ''p-1''" "aq_source_workflow_run_id sample_ingested = ''run-1''"
  "aq_source_system sample_ingested = ''commerce-intelligence''"
  by (simp_all add: sample_ingested_def sample_product_request_def)

lemma sample_run: "\<exists>resp t. ingest_endpoint sample_ingestion sample_ingested ''k'' (empty_db 0) = (Inr (Inr resp), t)"
  by (simp add: ingest_endpoint_def ingest_product_def find_product_def store_product_def add_product_def supplier_for_def
      add_quote_def add_sourcing_run_def add_proposal_def announce_product_def run_simps empty_db_def Let_def
      emit_run add_workflow_def version_of_def sample_ingested_simps new_product_def new_quote_def new_proposal_def sourcing_run_def
      new_workflow_def flush_db_def row_def)

lemma sample_hashes:
  "product_payload_hash sample_ingestion sample_ingested = ''run-1''"
  "product_payload_hash sample_ingestion (sample_ingested\<lparr>aq_source_workflow_run_id := ''run-2''\<rparr>) = ''run-2''"
  by (simp_all add: product_payload_hash_def sample_ingestion_def request_document_def sample_ingested_simps dict_get_def
      insort_key_def sort_key_def)

theorem ingestion_idempotent_witness:
  "\<exists>resp t u v. ingest_endpoint sample_ingestion sample_ingested ''k'' (empty_db 0) = (Inr (Inr resp), t) \<and>
     ingest_endpoint sample_ingestion sample_ingested ''k2'' t = (Inr (Inr (resp\<lparr>ar_duplicate := True\<rparr>)), u) \<and>
     tables_of u = tables_of t \<and>
     ingest_endpoint sample_ingestion (sample_ingested\<lparr>aq_source_workflow_run_id := ''run-2''\<rparr>) ''k2'' t =
       (Inr (Inl (409, ''The source product was already ingested with different approved data'')), v) \<and>
     tables_of v = tables_of t"
proof -
  obtain resp t where run: "ingest_endpoint sample_ingestion sample_ingested ''k'' (empty_db 0) = (Inr (Inr resp), t)"
    using sample_run by blast
  have valid: "validate_request sample_product_request = Inr sample_ingested"
    by (simp add: validate_request_def sample_request_validates sample_ingested_def check_def)
  have same: "identity_of (sample_ingested\<lparr>aq_source_workflow_run_id := ''run-2''\<rparr>) = identity_of sample_ingested"
    by (simp add: identity_of_def)
  note again = ingestion_idempotent [OF empty_sourced_ok valid run]
  show ?thesis
    using run again [OF refl, of "''k2''"] again [OF same, of "''k2''"] by (auto simp: sample_hashes)
qed

theorem ingestion_invariant_witness:
  "\<exists>p. p \<in> set (products (run_ingestions sample_ingestion [(sample_product_request, ''k''), (sample_product_request, ''k2'')] (empty_db 0))) \<and>
     product_complete (run_ingestions sample_ingestion [(sample_product_request, ''k''), (sample_product_request, ''k2'')] (empty_db 0)) p"
proof -
  obtain resp t where run: "ingest_endpoint sample_ingestion sample_ingested ''k'' (empty_db 0) = (Inr (Inr resp), t)"
    using sample_run by blast
  have valid: "validate_request sample_product_request = Inr sample_ingested"
    by (simp add: validate_request_def sample_request_validates sample_ingested_def check_def)
  note q = validated_quote_valid [OF valid]
  obtain p where p: "sourced_ok t" "p \<in> set (products t)" "product_identity p = identity_of sample_ingested"
      "stored_response t p (resp\<lparr>ar_duplicate := True\<rparr>)"
    using endpoint_stored [OF empty_sourced_ok q run] by blast
  have "products (snd (ingest_endpoint sample_ingestion sample_ingested ''k2'' t)) = products t"
    using endpoint_existing [OF p, of sample_ingestion "''k2''"] by auto
  then have "p \<in> set (products (run_ingestions sample_ingestion [(sample_product_request, ''k''), (sample_product_request, ''k2'')] (empty_db 0)))"
    using p(2) by (simp add: valid run)
  then show ?thesis using ingestion_invariant [THEN conjunct2] by blast
qed

end
