(* ===== verification/Request_Security.thy ===== *)
theory Request_Security
  imports Core_Types
begin

text \<open>
  \<open>security/middleware.py\<close>: who sends a request, whether its role allows it, and how many requests a caller may send in a window.
  SHA-256 is a parameter; the readings of the monotonic clock are rational seconds.
\<close>

section \<open>Definitions\<close>

record SecuritySettings =
  api_auth_enabled :: bool
  environment :: string
  api_keys :: "(string \<times> string) list"
  api_roles :: "(string \<times> string list) list"
  rate_limit_requests :: int
  rate_limit_window_seconds :: int

definition is_production :: "SecuritySettings \<Rightarrow> bool" where
  "is_production c \<longleftrightarrow> environment c = ''production''"

text \<open>What the middleware reads of a request: path, method, the \<open>X-API-Key\<close> header and \<open>client.host\<close>.\<close>

record HttpRequest =
  request_path :: string
  request_method :: string
  presented_key :: "string option"
  client_host :: "string option"

record SecurityMiddleware =
  sm_settings :: SecuritySettings
  sm_sha256 :: "string \<Rightarrow> string"
  sm_requests :: "string \<Rightarrow> rat list"

datatype verdict = Denied int string | Forwarded string "string list"

definition authenticate :: "SecurityMiddleware \<Rightarrow> HttpRequest \<Rightarrow> string option \<times> string list" where
  "authenticate M r =
     (let presented = (case presented_key r of None \<Rightarrow> [] | Some k \<Rightarrow> k); c = sm_settings M in
      if presented = [] then (None, [])
      else (case find (\<lambda>(identity, secret). sm_sha256 M presented = sm_sha256 M secret) (api_keys c) of
          None \<Rightarrow> (None, [])
        | Some (identity, _) \<Rightarrow> (Some identity, case map_of (api_roles c) identity of None \<Rightarrow> [] | Some roles \<Rightarrow> roles)))"

text \<open>\<open>needle in s\<close> and \<open>s.endswith(t)\<close>\<close>

fun contains :: "string \<Rightarrow> string \<Rightarrow> bool" where
  "contains needle [] \<longleftrightarrow> needle = []"
| "contains needle (c # cs) \<longleftrightarrow> take (length needle) (c # cs) = needle \<or> contains needle cs"

definition ends_with :: "string \<Rightarrow> string \<Rightarrow> bool" where
  "ends_with t s \<longleftrightarrow> length t \<le> length s \<and> drop (length s - length t) s = t"

definition authorized :: "HttpRequest \<Rightarrow> string list \<Rightarrow> bool" where
  "authorized r roles =
     (if ''admin'' \<in> set roles then True
      else if request_path r = ''/metrics'' then False
      else if request_method r \<in> {''GET'', ''HEAD'', ''OPTIONS''}
        then ''viewer'' \<in> set roles \<or> ''operator'' \<in> set roles \<or> ''approver'' \<in> set roles
      else if contains ''/approvals/'' (request_path r) \<and>
              (ends_with ''/approve'' (request_path r) \<or> ends_with ''/reject'' (request_path r))
        then ''approver'' \<in> set roles
      else ''operator'' \<in> set roles)"

definition within_limit :: "string \<Rightarrow> rat \<Rightarrow> SecurityMiddleware \<Rightarrow> bool \<times> SecurityMiddleware" where
  "within_limit key now M =
     (let boundary = now - of_int (rate_limit_window_seconds (sm_settings M));
          bucket = dropWhile (\<lambda>t. t \<le> boundary) (sm_requests M key) in
      if rate_limit_requests (sm_settings M) \<le> int (length bucket)
      then (False, M\<lparr>sm_requests := (sm_requests M)(key := bucket)\<rparr>)
      else (True, M\<lparr>sm_requests := (sm_requests M)(key := bucket @ [now])\<rparr>))"

text \<open>\<open>identity or request.client.host if request.client else "unknown"\<close>, with Python's precedence.\<close>

definition bucket_key :: "string option \<Rightarrow> HttpRequest \<Rightarrow> string" where
  "bucket_key identity r = (case client_host r of
       None \<Rightarrow> ''unknown''
     | Some host \<Rightarrow> (case identity of Some i \<Rightarrow> if i = [] then host else i | None \<Rightarrow> host))"

definition open_path :: "HttpRequest \<Rightarrow> bool" where
  "open_path r \<longleftrightarrow> request_path r \<in> {''/health'', ''/ready''}"

definition dispatch :: "HttpRequest \<Rightarrow> rat \<Rightarrow> SecurityMiddleware \<Rightarrow> verdict \<times> SecurityMiddleware" where
  "dispatch r now M =
     (if open_path r then (Forwarded [] [], M)
      else
        let (identity, roles) = authenticate M r;
            auth_required = api_auth_enabled (sm_settings M) \<or> is_production (sm_settings M) in
        if auth_required \<and> identity = None then (Denied 401 ''Authentication required'', M)
        else if auth_required \<and> \<not> authorized r roles then (Denied 403 ''Insufficient permissions'', M)
        else
          let (allowed, M') = within_limit (bucket_key identity r) now M in
          if \<not> allowed then (Denied 429 ''Rate limit exceeded'', M')
          else (Forwarded (case identity of Some i \<Rightarrow> if i = [] then ''anonymous'' else i | None \<Rightarrow> ''anonymous'') roles, M'))"

section \<open>The limiter\<close>

text \<open>The times at which a bucket's requests were let through, oldest first.\<close>

fun serve :: "(HttpRequest \<times> rat) list \<Rightarrow> SecurityMiddleware \<Rightarrow> (string \<times> rat) list \<times> SecurityMiddleware" where
  "serve [] M = ([], M)"
| "serve ((r, now) # rs) M =
     (let (v, M') = dispatch r now M; (ts, M'') = serve rs M' in
      (case v of
         Forwarded _ _ \<Rightarrow> if open_path r then ts else (bucket_key (fst (authenticate M r)) r, now) # ts
       | Denied _ _ \<Rightarrow> ts, M''))"

definition window_count :: "rat \<Rightarrow> rat \<Rightarrow> rat list \<Rightarrow> nat" where
  "window_count w t ts = length (filter (\<lambda>x. t - w < x \<and> x \<le> t) ts)"

text \<open>The bucket holds the recent part of what was let through; no window has more than the limit.\<close>

definition bucket_ok :: "int \<Rightarrow> rat \<Rightarrow> rat \<Rightarrow> rat list \<Rightarrow> rat list \<Rightarrow> bool" where
  "bucket_ok n w now passed bucket \<longleftrightarrow>
     (\<exists>old. passed = old @ bucket \<and> (\<forall>x \<in> set old. x \<le> now - w)) \<and> (\<forall>x \<in> set passed. x \<le> now) \<and>
     (\<forall>t. int (window_count w t passed) \<le> n)"

lemma bucket_ok_later: "bucket_ok n w now passed bucket \<Longrightarrow> now \<le> now' \<Longrightarrow> bucket_ok n w now' passed bucket"
  unfolding bucket_ok_def by force

lemma bucket_ok_drop:
  assumes "bucket_ok n w now passed bucket" shows "bucket_ok n w now passed (dropWhile (\<lambda>t. t \<le> now - w) bucket)"
proof -
  obtain old where o: "passed = old @ bucket" "\<forall>x \<in> set old. x \<le> now - w" using assms by (auto simp: bucket_ok_def)
  have "\<forall>x \<in> set (takeWhile (\<lambda>t. t \<le> now - w) bucket). x \<le> now - w" by (auto dest: set_takeWhileD)
  then show ?thesis
    using assms o unfolding bucket_ok_def
    by (intro conjI exI [of _ "old @ takeWhile (\<lambda>t. t \<le> now - w) bucket"]) auto
qed

lemma bucket_ok_pass:
  assumes ok: "bucket_ok n w now passed bucket" and room: "int (length bucket) < n" and w: "0 \<le> w"
  shows "bucket_ok n w now (passed @ [now]) (bucket @ [now])"
proof -
  obtain old where o: "passed = old @ bucket" "\<forall>x \<in> set old. x \<le> now - w" using ok by (auto simp: bucket_ok_def)
  have "int (window_count w t (passed @ [now])) \<le> n" for t
  proof (cases "now \<le> t")
    case True
    then have "filter (\<lambda>x. t - w < x \<and> x \<le> t) old = []" using o(2) by (fastforce simp: filter_empty_conv)
    then have "window_count w t (passed @ [now]) \<le> length bucket + 1"
      unfolding window_count_def o(1) by (auto intro: order.trans [OF length_filter_le])
    then show ?thesis using room by linarith
  next
    case False
    then have "window_count w t (passed @ [now]) = window_count w t passed" by (simp add: window_count_def)
    then show ?thesis using ok by (simp add: bucket_ok_def)
  qed
  then show ?thesis
    using ok o unfolding bucket_ok_def by (intro conjI exI [of _ old]) (auto simp: add_increasing2)
qed

lemma dispatch_settings [simp]: "sm_settings (snd (dispatch r now M)) = sm_settings M"
  by (simp add: dispatch_def within_limit_def Let_def split: prod.split)

text \<open>One request: every bucket stays right for what was let through, this request included.\<close>

lemma dispatch_bucket:
  assumes ok: "bucket_ok (rate_limit_requests (sm_settings M)) (of_int (rate_limit_window_seconds (sm_settings M))) now P (sm_requests M k)"
    and w: "0 \<le> rate_limit_window_seconds (sm_settings M)"
  shows "bucket_ok (rate_limit_requests (sm_settings M)) (of_int (rate_limit_window_seconds (sm_settings M))) now
    (P @ (case fst (dispatch r now M) of Denied _ _ \<Rightarrow> []
       | Forwarded _ _ \<Rightarrow> if open_path r \<or> bucket_key (fst (authenticate M r)) r \<noteq> k then [] else [now]))
    (sm_requests (snd (dispatch r now M)) k)"
proof -
  let ?w = "of_int (rate_limit_window_seconds (sm_settings M)) :: rat"
  note drop = bucket_ok_drop [OF ok]
  have pass: "bucket_ok (rate_limit_requests (sm_settings M)) ?w now (P @ [now]) (dropWhile (\<lambda>t. t \<le> now - ?w) (sm_requests M k) @ [now])"
    if "\<not> rate_limit_requests (sm_settings M) \<le> int (length (dropWhile (\<lambda>t. t \<le> now - ?w) (sm_requests M k)))"
    by (rule bucket_ok_pass [OF drop]) (use that w in auto)
  obtain identity roles where a: "authenticate M r = (identity, roles)" by force
  show ?thesis
    using ok drop pass by (auto simp: dispatch_def within_limit_def Let_def a)
qed

lemma serve_buckets:
  assumes "0 \<le> rate_limit_window_seconds (sm_settings M)"
    and "\<And>k. bucket_ok (rate_limit_requests (sm_settings M)) (of_int (rate_limit_window_seconds (sm_settings M))) now (P k) (sm_requests M k)"
    and "sorted (now # map snd rs)"
  shows "\<exists>now'. bucket_ok (rate_limit_requests (sm_settings M)) (of_int (rate_limit_window_seconds (sm_settings M))) now'
    (P k @ map snd (filter (\<lambda>x. fst x = k) (fst (serve rs M)))) (sm_requests (snd (serve rs M)) k)"
  using assms
proof (induction rs arbitrary: M now P)
  case Nil
  then show ?case by auto
next
  case (Cons a rs)
  obtain r t where a: "a = (r, t)" by force
  obtain v M' where d: "dispatch r t M = (v, M')" by force
  have M': "sm_settings M' = sm_settings M" using dispatch_settings [of r t M] d by simp
  let ?new = "\<lambda>k. case v of Denied _ _ \<Rightarrow> [] | Forwarded _ _ \<Rightarrow> if open_path r \<or> bucket_key (fst (authenticate M r)) r \<noteq> k then [] else [t]"
  have step: "bucket_ok (rate_limit_requests (sm_settings M')) (of_int (rate_limit_window_seconds (sm_settings M'))) t
      (P j @ ?new j) (sm_requests M' j)" for j
    using dispatch_bucket [OF bucket_ok_later [OF Cons.prems(2)] Cons.prems(1), where r = r and k = j and now = t] Cons.prems(3) by (simp add: a d M')
  have "sorted (t # map snd rs)" "0 \<le> rate_limit_window_seconds (sm_settings M')" using Cons.prems(1,3) by (simp_all add: a M')
  then obtain now' where "bucket_ok (rate_limit_requests (sm_settings M')) (of_int (rate_limit_window_seconds (sm_settings M'))) now'
      ((P k @ ?new k) @ map snd (filter (\<lambda>x. fst x = k) (fst (serve rs M')))) (sm_requests (snd (serve rs M')) k)"
    using Cons.IH [OF _ step] by blast
  then show ?case
    by (intro exI [of _ now']) (auto simp: a d M' Let_def split: prod.splits verdict.splits if_splits)
qed

section \<open>Correctness\<close>

text \<open>
  C18: the rate limit. From empty buckets, whatever requests arrive at whatever times in order, no bucket lets more than the
  configured number of requests through in any window of the configured length.
\<close>

theorem rate_limit_bound:
  assumes "1 \<le> rate_limit_requests (sm_settings M)" "1 \<le> rate_limit_window_seconds (sm_settings M)"
    and "\<forall>k. sm_requests M k = []" and "sorted (map snd rs)"
  shows "int (window_count (of_int (rate_limit_window_seconds (sm_settings M))) t
    (map snd (filter (\<lambda>x. fst x = k) (fst (serve rs M))))) \<le> rate_limit_requests (sm_settings M)"
proof (cases rs)
  case Nil
  then show ?thesis using assms(1) by (simp add: window_count_def)
next
  case (Cons a as)
  have "sorted (snd a # map snd rs)" using assms(4) by (auto simp: Cons)
  moreover have "bucket_ok (rate_limit_requests (sm_settings M)) (of_int (rate_limit_window_seconds (sm_settings M))) (snd a) [] (sm_requests M j)" for j
    using assms(1,3) by (simp add: bucket_ok_def window_count_def)
  ultimately obtain now' where "bucket_ok (rate_limit_requests (sm_settings M)) (of_int (rate_limit_window_seconds (sm_settings M))) now'
      ([] @ map snd (filter (\<lambda>x. fst x = k) (fst (serve rs M)))) (sm_requests (snd (serve rs M)) k)"
    using serve_buckets [of M "snd a" "\<lambda>_. []" rs k] assms(2) by auto
  then show ?thesis by (simp add: bucket_ok_def)
qed

text \<open>
  C17: access control. Where authentication is required, every request that is let through, the two probes apart, presented a key
  with the digest of the key of the identity it runs as, in the roles configured for it; an administrator may do everything,
  others read only as viewer, operator or approver and never the metrics, decide an approval only as approver, and make any
  other request only as operator.
\<close>

theorem access_controlled:
  assumes "fst (dispatch r now M) = Forwarded who roles" and "\<not> open_path r"
    and "api_auth_enabled (sm_settings M) \<or> is_production (sm_settings M)"
  shows "\<exists>identity secret key. presented_key r = Some key \<and> key \<noteq> [] \<and> (identity, secret) \<in> set (api_keys (sm_settings M)) \<and>
    sm_sha256 M key = sm_sha256 M secret \<and> who = (if identity = [] then ''anonymous'' else identity) \<and>
    roles = (case map_of (api_roles (sm_settings M)) identity of None \<Rightarrow> [] | Some rs \<Rightarrow> rs) \<and>
    (''admin'' \<in> set roles \<or> request_path r \<noteq> ''/metrics'' \<and>
      (if request_method r \<in> {''GET'', ''HEAD'', ''OPTIONS''} then set roles \<inter> {''viewer'', ''operator'', ''approver''} \<noteq> {}
       else if contains ''/approvals/'' (request_path r) \<and>
          (ends_with ''/approve'' (request_path r) \<or> ends_with ''/reject'' (request_path r)) then ''approver'' \<in> set roles
       else ''operator'' \<in> set roles))"
proof -
  obtain identity where a: "authenticate M r = (Some identity, roles)" "authorized r roles"
      "who = (if identity = [] then ''anonymous'' else identity)"
    using assms by (auto simp: dispatch_def Let_def split: prod.splits if_splits option.splits)
  obtain key where key: "presented_key r = Some key" "key \<noteq> []"
    using a(1) by (cases "presented_key r") (auto simp: authenticate_def Let_def split: if_splits)
  obtain secret where find: "find (\<lambda>(identity, secret). sm_sha256 M key = sm_sha256 M secret) (api_keys (sm_settings M)) = Some (identity, secret)"
      "roles = (case map_of (api_roles (sm_settings M)) identity of None \<Rightarrow> [] | Some rs \<Rightarrow> rs)"
    using a(1) key by (auto simp: authenticate_def Let_def split: if_splits option.splits prod.splits)
  have "(identity, secret) \<in> set (api_keys (sm_settings M))" "sm_sha256 M key = sm_sha256 M secret"
    using find_SomeD [OF find(1)] by simp_all
  moreover have "''admin'' \<in> set roles \<or> request_path r \<noteq> ''/metrics'' \<and>
      (if request_method r \<in> {''GET'', ''HEAD'', ''OPTIONS''} then set roles \<inter> {''viewer'', ''operator'', ''approver''} \<noteq> {}
       else if contains ''/approvals/'' (request_path r) \<and>
          (ends_with ''/approve'' (request_path r) \<or> ends_with ''/reject'' (request_path r)) then ''approver'' \<in> set roles
       else ''operator'' \<in> set roles)"
    using a(2) unfolding authorized_def by (simp split: if_splits)
  ultimately show ?thesis using a(3) key find(2) by blast
qed

definition sample_security :: SecurityMiddleware where
  "sample_security = \<lparr>sm_settings = \<lparr>api_auth_enabled = True, environment = ''local'', api_keys = [(''ann'', ''k1''), (''bob'', ''k2'')],
       api_roles = [(''ann'', [''approver''])], rate_limit_requests = 2, rate_limit_window_seconds = 60\<rparr>,
     sm_sha256 = id, sm_requests = (\<lambda>_. [])\<rparr>"

definition approve_call :: HttpRequest where
  "approve_call = \<lparr>request_path = ''/api/approvals/7/approve'', request_method = ''POST'', presented_key = Some ''k1'', client_host = Some ''h''\<rparr>"

theorem rate_limit_bound_witness:
  "fst (serve [(approve_call, 0), (approve_call, 10), (approve_call, 20), (approve_call, 65)] sample_security) =
     [(''ann'', 0), (''ann'', 10), (''ann'', 65)] \<and>
   int (window_count 60 65 (map snd (filter (\<lambda>x. fst x = ''ann'')
     (fst (serve [(approve_call, 0), (approve_call, 10), (approve_call, 20), (approve_call, 65)] sample_security))))) \<le> 2"
proof -
  have "fst (serve [(approve_call, 0), (approve_call, 10), (approve_call, 20), (approve_call, 65)] sample_security) =
      [(''ann'', 0), (''ann'', 10), (''ann'', 65)]"
    by (simp add: sample_security_def approve_call_def dispatch_def open_path_def authenticate_def authorized_def contains.simps ends_with_def
        within_limit_def bucket_key_def is_production_def)
  moreover have "int (window_count (of_int (rate_limit_window_seconds (sm_settings sample_security))) 65 (map snd (filter (\<lambda>x. fst x = ''ann'')
     (fst (serve [(approve_call, 0), (approve_call, 10), (approve_call, 20), (approve_call, 65)] sample_security))))) \<le>
     rate_limit_requests (sm_settings sample_security)"
    by (rule rate_limit_bound) (simp_all add: sample_security_def)
  ultimately show ?thesis by (simp add: sample_security_def)
qed

theorem access_controlled_witness:
  "fst (dispatch approve_call 5 sample_security) = Forwarded ''ann'' [''approver''] \<and>
   (\<exists>identity secret. (identity, secret) \<in> set (api_keys (sm_settings sample_security)) \<and> identity = ''ann'' \<and> secret = ''k1'')"
proof -
  have f: "fst (dispatch approve_call 5 sample_security) = Forwarded ''ann'' [''approver'']"
    by (simp add: sample_security_def approve_call_def dispatch_def open_path_def authenticate_def authorized_def contains.simps ends_with_def
        within_limit_def bucket_key_def is_production_def)
  have "\<not> open_path approve_call" "api_auth_enabled (sm_settings sample_security) \<or> is_production (sm_settings sample_security)"
    by (simp_all add: approve_call_def open_path_def sample_security_def)
  from access_controlled [OF f this] show ?thesis
    using f by (auto simp: sample_security_def approve_call_def)
qed

end
