(* ===== verification/Workflow_Engine.thy ===== *)
theory Workflow_Engine
  imports Audit_Trail Approval_Engine
begin

text \<open>
  \<open>workflows/engine.py\<close>: durable execution of a step per event, with attempts, backoff, a deadline, suspension for a
  human approval and a terminal failure that is published.

  A step is a parameter of its definition, as in the code: any operation of the session that returns an outcome or raises.
  The run it is given is the row at the call. \<open>uuid5(NAMESPACE_URL, _)\<close> is a parameter of the engine.
\<close>

section \<open>Definitions\<close>

record WorkflowExecutionPolicy =
  max_attempts :: int
  timeout_seconds :: int
  retry_delay_seconds :: int

definition default_execution_policy :: WorkflowExecutionPolicy where
  "default_execution_policy = \<lparr>max_attempts = 3, timeout_seconds = 300, retry_delay_seconds = 30\<rparr>"

record WorkflowOutcome =
  oc_current_step :: string
  oc_checkpoints :: dict
  oc_approval_id :: "uuid option"

definition completed :: "string \<Rightarrow> dict \<Rightarrow> WorkflowOutcome" where
  "completed current_step checkpoints =
     \<lparr>oc_current_step = current_step, oc_checkpoints = checkpoints, oc_approval_id = None\<rparr>"

definition waiting_for_approval :: "string \<Rightarrow> uuid \<Rightarrow> dict \<Rightarrow> WorkflowOutcome" where
  "waiting_for_approval current_step approval_id checkpoints =
     \<lparr>oc_current_step = current_step, oc_checkpoints = checkpoints, oc_approval_id = Some approval_id\<rparr>"

type_synonym WorkflowStep = "EventEnvelope \<Rightarrow> WorkflowRun \<Rightarrow> WorkflowOutcome option op"

record WorkflowDefinition =
  wd_name :: string
  wd_version :: int
  wd_step :: WorkflowStep
  wd_policy :: WorkflowExecutionPolicy

record WorkflowEngine =
  we_uuid5 :: "string \<Rightarrow> uuid"
  we_definitions :: "(string \<times> WorkflowDefinition) list"

definition engine_prefix :: string where
  "engine_prefix = ''orchestrator:''"

definition register_workflow :: "WorkflowDefinition \<Rightarrow> WorkflowEngine \<Rightarrow> exn + WorkflowEngine" where
  "register_workflow d E =
     rbind (check (map_of (we_definitions E) (wd_name d) \<noteq> None)
       (Exn ValueError (''Workflow definition already registered: '' @ wd_name d))) (\<lambda>_.
     rbind (check (max_attempts (wd_policy d) < 1 \<or> timeout_seconds (wd_policy d) < 1)
       (Exn ValueError ''Workflow retry and timeout policy must be positive'')) (\<lambda>_.
     Inr (E\<lparr>we_definitions := we_definitions E @ [(wd_name d, d)]\<rparr>)))"

definition find_definition :: "WorkflowEngine \<Rightarrow> string \<Rightarrow> exn + WorkflowDefinition" where
  "find_definition E name = (case map_of (we_definitions E) name of
       None \<Rightarrow> Inl (Exn LookupError (''Workflow definition is not registered: '' @ name))
     | Some d \<Rightarrow> Inr d)"

text \<open>\<open>s.startswith(p)\<close> and \<open>s.removeprefix(p)\<close>\<close>

definition starts_with :: "string \<Rightarrow> string \<Rightarrow> bool" where
  "starts_with p s \<longleftrightarrow> take (length p) s = p"

definition remove_prefix :: "string \<Rightarrow> string \<Rightarrow> string" where
  "remove_prefix p s = (if starts_with p s then drop (length p) s else s)"

definition audit_workflow :: "uuid \<Rightarrow> RunStatus option \<Rightarrow> RunStatus \<Rightarrow> string \<Rightarrow> unit op" where
  "audit_workflow workflow_id before after reason =
     bind (reload workflow_runs workflow_id) (\<lambda>workflow.
     bind new_uuid (\<lambda>audit_id.
     bind now_utc (\<lambda>now.
     add_row audit_events_update
       \<lparr>row_id = audit_id, row_created_at = now, au_actor_type = ''system'', au_actor_id = ''workflow-engine'',
        au_action = ''workflow.state_changed'', au_resource_type = ''workflow_run'', au_resource_id = workflow_id,
        au_before_state = map_option (\<lambda>b. [(''status'', JStr (run_value b))]) before,
        au_after_state = Some [(''status'', JStr (run_value after)), (''step'', j_opt JStr (wf_current_step workflow)),
          (''attempts'', JInt (wf_attempts workflow))],
        au_reason = Some reason, au_request_id = None, au_correlation_id = wf_correlation_id workflow\<rparr>)))"

definition terminal_failure :: "uuid \<Rightarrow> string \<Rightarrow> WorkflowRun op" where
  "terminal_failure workflow_id reason =
     bind (reload workflow_runs workflow_id) (\<lambda>workflow.
     bind now_utc (\<lambda>now.
     andthen (set_workflow workflow_id (\<lambda>w. w\<lparr>wf_status := Run_FAILED, wf_current_step := Some ''failed'',
       wf_completed_at := Some now,
       wf_error := Some [(''type'', JStr ''workflow_failure''), (''message'', JStr reason), (''retryable'', JBool False)],
       wf_next_retry_at := None\<rparr>))
     (andthen (audit_workflow workflow_id (Some (wf_status workflow)) Run_FAILED reason)
     (bind (version_of workflow_id) (\<lambda>workflow_version.
      bind (emit (WorkflowFailedPayload workflow_id (wf_workflow_name workflow) reason False)
             ''workflow_run'' workflow_id workflow_version (''workflow-failed:'' @ uuid_str workflow_id)
             (Some (wf_correlation_id workflow)) (Some workflow_id) None) (\<lambda>_.
      andthen flush (reload workflow_runs workflow_id)))))))"

text \<open>\<open>_execute\<close>: the start of an attempt, the two ends of a failing one, and the end of one that returned.\<close>

definition start_attempt :: "datetime \<Rightarrow> WorkflowRun \<Rightarrow> WorkflowRun" where
  "start_attempt now w = w\<lparr>wf_status := Run_RUNNING, wf_current_step := Some ''executing'',
     wf_attempts := wf_attempts w + 1, wf_next_retry_at := None\<rparr>"

definition attempt_failed :: "uuid \<Rightarrow> WorkflowDefinition \<Rightarrow> datetime \<Rightarrow> exn \<Rightarrow> WorkflowRun op" where
  "attempt_failed workflow_id d now exc =
     bind (reload workflow_runs workflow_id) (\<lambda>workflow.
     if wf_max_attempts workflow \<le> wf_attempts workflow
     then terminal_failure workflow_id (class_name (exn_class exc) @ '': '' @ exn_message exc)
     else
       andthen (set_workflow workflow_id (\<lambda>w. w\<lparr>wf_status := Run_RETRYING, wf_current_step := Some ''retry_scheduled'',
         wf_next_retry_at := Some (now + seconds (retry_delay_seconds (wd_policy d) * wf_attempts workflow)),
         wf_error := Some [(''type'', JStr (class_name (exn_class exc))), (''message'', JStr (exn_message exc)),
           (''retryable'', JBool True)]\<rparr>))
       (andthen (audit_workflow workflow_id (Some (wf_status workflow)) Run_RETRYING (exn_message exc))
       (reload workflow_runs workflow_id)))"

definition attempt_returned :: "uuid \<Rightarrow> datetime \<Rightarrow> WorkflowOutcome \<Rightarrow> WorkflowRun op" where
  "attempt_returned workflow_id now outcome =
     bind (reload workflow_runs workflow_id) (\<lambda>workflow.
     andthen (set_workflow workflow_id (\<lambda>w. w\<lparr>wf_checkpoints := dict_merge (wf_checkpoints w) (oc_checkpoints outcome),
       wf_current_step := Some (oc_current_step outcome), wf_error := None\<rparr>))
     (andthen (case oc_approval_id outcome of
         Some approval_id \<Rightarrow>
           andthen (set_workflow workflow_id (\<lambda>w. w\<lparr>wf_status := Run_PENDING, wf_waiting_approval_id := Some approval_id\<rparr>))
           (audit_workflow workflow_id (Some (wf_status workflow)) Run_PENDING ''Waiting for human approval'')
       | None \<Rightarrow>
           andthen (set_workflow workflow_id (\<lambda>w. w\<lparr>wf_status := Run_SUCCEEDED, wf_completed_at := Some now\<rparr>))
           (audit_workflow workflow_id (Some (wf_status workflow)) Run_SUCCEEDED ''Workflow completed''))
     (andthen flush (reload workflow_runs workflow_id))))"

definition execute_workflow :: "WorkflowRun \<Rightarrow> WorkflowDefinition \<Rightarrow> EventEnvelope \<Rightarrow> datetime \<Rightarrow> WorkflowRun op" where
  "execute_workflow workflow d event now =
     (let i = row_id workflow in
      if (case wf_deadline_at workflow of None \<Rightarrow> False | Some deadline \<Rightarrow> deadline \<le> now)
      then terminal_failure i ''Workflow timed out''
      else
        andthen (set_workflow i (start_attempt now))
        (andthen flush
        (andthen (audit_workflow i (Some (wf_status workflow)) Run_RUNNING ''Workflow attempt started'')
        (bind (reload workflow_runs i) (\<lambda>running.
         bind (attempt (begin_nested (wd_step d event running))) (\<lambda>result.
         case result of
           Inl exc \<Rightarrow> if exn_class exc = NonRetryableWorkflowError then terminal_failure i (exn_message exc)
                      else attempt_failed i d now exc
         | Inr outcome \<Rightarrow> attempt_returned i now
             (case outcome of None \<Rightarrow> completed ''completed'' [] | Some oc \<Rightarrow> oc)))))))"

definition queued_run :: "WorkflowEngine \<Rightarrow> WorkflowDefinition \<Rightarrow> EventEnvelope \<Rightarrow> string \<Rightarrow> datetime \<Rightarrow> uuid \<Rightarrow> datetime \<Rightarrow> WorkflowRun" where
  "queued_run E d event key now workflow_id created =
     \<lparr>row_id = workflow_id, row_created_at = created, wf_workflow_name = engine_prefix @ wd_name d,
      wf_workflow_version = wd_version d, wf_correlation_id = we_uuid5 E key, wf_source_event_id = Some (ee_event_id event),
      wf_idempotency_key = Some key, wf_status = Run_PENDING, wf_current_step = Some ''queued'', wf_attempts = 0,
      wf_next_retry_at = None, wf_error = None, wf_checkpoints = [], wf_max_attempts = max_attempts (wd_policy d),
      wf_timeout_seconds = timeout_seconds (wd_policy d), wf_started_at = Some now,
      wf_deadline_at = Some (now + seconds (timeout_seconds (wd_policy d))), wf_completed_at = None,
      wf_waiting_approval_id = None, wf_cost_amount = 0, wf_cost_currency = None\<rparr>"

definition queue_run :: "WorkflowEngine \<Rightarrow> WorkflowDefinition \<Rightarrow> EventEnvelope \<Rightarrow> string \<Rightarrow> datetime \<Rightarrow> WorkflowRun op" where
  "queue_run E d event key now =
     bind new_uuid (\<lambda>workflow_id.
     bind now_utc (\<lambda>created.
     andthen (add_workflow (queued_run E d event key now workflow_id created))
     (andthen (audit_workflow workflow_id None Run_PENDING ''Workflow created'')
     (reload workflow_runs workflow_id))))"

definition finished :: "RunStatus \<Rightarrow> bool" where
  "finished st \<longleftrightarrow> st \<in> {Run_SUCCEEDED, Run_CANCELLED, Run_FAILED}"

definition workflow_key :: "string \<Rightarrow> uuid \<Rightarrow> string" where
  "workflow_key name event_id = ''workflow:'' @ name @ '':'' @ uuid_str event_id"

definition handle_event :: "WorkflowEngine \<Rightarrow> string \<Rightarrow> EventEnvelope \<Rightarrow> datetime option \<Rightarrow> WorkflowRun op" where
  "handle_event E definition_name event at_time =
     bind (of_result (find_definition E definition_name)) (\<lambda>d.
     bind (time_or_now at_time) (\<lambda>now.
     let key = workflow_key (wd_name d) (ee_event_id event) in
     bind (scalar workflow_runs (\<lambda>w. wf_idempotency_key w = Some key)) (\<lambda>found.
     bind (case found of Some w \<Rightarrow> ret w | None \<Rightarrow> queue_run E d event key now) (\<lambda>workflow.
     if finished (wf_status workflow) then ret workflow
     else execute_workflow workflow d event now))))"

text \<open>The approval a suspended run waits for.\<close>

definition claim_approval :: "WorkflowRun \<Rightarrow> unit op" where
  "claim_approval workflow = (case wf_waiting_approval_id workflow of
       None \<Rightarrow> ret ()
     | Some approval_id \<Rightarrow>
         bind (get_row approvals approval_id) (\<lambda>approval.
         andthen (raise_if (case approval of None \<Rightarrow> True | Some a \<Rightarrow> ap_status a \<noteq> Approval_APPROVED)
           (Exn NonRetryableWorkflowError ''Workflow approval has not been granted''))
         (set_workflow (row_id workflow) (\<lambda>w. w\<lparr>wf_waiting_approval_id := None\<rparr>))))"

text \<open>The end of \<open>resume\<close>: the source event is read back from the store.\<close>

definition execute_again :: "uuid \<Rightarrow> WorkflowDefinition \<Rightarrow> uuid \<Rightarrow> datetime \<Rightarrow> WorkflowRun op" where
  "execute_again workflow_id d source_event_id now =
     bind (get_row domain_events source_event_id) (\<lambda>stored.
     case stored of
       None \<Rightarrow> terminal_failure workflow_id ''Workflow source event was not found''
     | Some source_event \<Rightarrow>
         bind (of_result (to_envelope source_event)) (\<lambda>event.
         bind (reload workflow_runs workflow_id) (\<lambda>current.
         execute_workflow current d event now)))"

definition resume :: "WorkflowEngine \<Rightarrow> uuid \<Rightarrow> datetime option \<Rightarrow> WorkflowRun op" where
  "resume E workflow_id at_time =
     bind (scalar workflow_runs (\<lambda>w. row_id w = workflow_id)) (\<lambda>found.
     bind (the_or (Exn LookupError (uuid_str workflow_id)) found) (\<lambda>workflow.
     bind (of_result (find_definition E (remove_prefix engine_prefix (wf_workflow_name workflow)))) (\<lambda>d.
     case wf_source_event_id workflow of
       None \<Rightarrow> terminal_failure workflow_id ''Workflow source event is missing''
     | Some source_event_id \<Rightarrow>
         andthen (claim_approval workflow)
         (bind (time_or_now at_time) (\<lambda>current_time.
          if (case wf_next_retry_at workflow of None \<Rightarrow> False | Some next_retry \<Rightarrow> current_time < next_retry)
          then reload workflow_runs workflow_id
          else execute_again workflow_id d source_event_id current_time)))))"

text \<open>The runs \<open>retry_due\<close> selects, in the order of its query; a null \<open>next_retry_at\<close> is never due.\<close>

definition retry_is_due :: "datetime \<Rightarrow> WorkflowRun \<Rightarrow> bool" where
  "retry_is_due now w \<longleftrightarrow> starts_with engine_prefix (wf_workflow_name w) \<and> wf_status w = Run_RETRYING \<and>
     (case wf_next_retry_at w of None \<Rightarrow> False | Some next_retry \<Rightarrow> next_retry \<le> now)"

definition retry_due :: "WorkflowEngine \<Rightarrow> datetime option \<Rightarrow> nat \<Rightarrow> WorkflowRun list op" where
  "retry_due E at_time limit =
     bind (time_or_now at_time) (\<lambda>current_time.
     bind (scalars workflow_runs (retry_is_due current_time)) (\<lambda>rows.
     map_each (map row_id (take limit
         (sort_key (\<lambda>w. case wf_next_retry_at w of Some t \<Rightarrow> t | None \<Rightarrow> 0) (sort_key row_created_at rows))))
       (\<lambda>workflow_id. resume E workflow_id (Some current_time))))"

section \<open>Frames\<close>

definition engine_run :: "WorkflowRun \<Rightarrow> bool" where
  "engine_run w \<longleftrightarrow> starts_with engine_prefix (wf_workflow_name w)"

text \<open>No two runs share an identifier, and only runs of the engine have an idempotency key.\<close>

definition runs_ids :: "db \<Rightarrow> bool" where
  "runs_ids s \<longleftrightarrow> ids_ok (next_id s) (workflow_runs s) \<and>
     (\<forall>w \<in> set (workflow_runs s). wf_idempotency_key w \<noteq> None \<longrightarrow> engine_run w)"

text \<open>A step leaves the runs of the engine alone and adds none of its own making that look like them.\<close>

definition leaves_runs :: "WorkflowDefinition \<Rightarrow> bool" where
  "leaves_runs d \<longleftrightarrow> (\<forall>event w s. runs_ids s \<longrightarrow> runs_ids (snd (wd_step d event w s)) \<and>
     filter engine_run (workflow_runs (snd (wd_step d event w s))) = filter engine_run (workflow_runs s))"

lemma keeps_runs_audit [keeps_intros]: "keeps workflow_runs (audit_workflow i b a why)"
  unfolding audit_workflow_def by (intro keeps_intros; simp)

text \<open>What no operation of the engine touches itself.\<close>

definition outside_engine :: "db \<Rightarrow> db" where
  "outside_engine s = business (s\<lparr>workflow_runs := [], clock := 0\<rparr>)"

lemma outside_engine_simps [simp]:
  "outside_engine (flush_db s) = outside_engine s" "outside_engine (next_id_update n s) = outside_engine s"
  "outside_engine (pending_rows_update p s) = outside_engine s" "outside_engine (dirty_rows_update d s) = outside_engine s"
  "outside_engine (versions_update v s) = outside_engine s" "outside_engine (domain_events_update e s) = outside_engine s"
  "outside_engine (audit_events_update a s) = outside_engine s" "outside_engine (workflow_runs_update w s) = outside_engine s"
  by (simp_all add: outside_engine_def business_def flush_db_def)

lemma keeps_outside [keeps_intros]:
  "keeps outside_engine (audit_workflow i b a why)" "keeps outside_engine (terminal_failure i reason)"
  "keeps outside_engine (attempt_failed i d now exc)" "keeps outside_engine (attempt_returned i now oc)"
  "keeps outside_engine (queue_run E d ev key now)"
  unfolding audit_workflow_def terminal_failure_def attempt_failed_def attempt_returned_def queue_run_def
    set_workflow_def add_workflow_def
  by (intro keeps_intros; simp)+

section \<open>The ends of an attempt\<close>

lemma wp_set_workflow [wp_simps]: "wp (set_workflow i f) Q E s = Q () (dirty_rows_update
     (\<lambda>ds. if list_ex (\<lambda>r. row_id r = i \<and> f r \<noteq> r) (workflow_runs s) then i # ds else ds)
     (workflow_runs_update (update_rows i f) s))"
  by (simp add: set_workflow_def wp_simps)

text \<open>The run \<open>i\<close> of the engine is \<open>w\<close>, its other runs are \<open>others\<close>.\<close>

definition run_at :: "uuid \<Rightarrow> WorkflowRun \<Rightarrow> WorkflowRun list \<Rightarrow> db \<Rightarrow> bool" where
  "run_at i w others s \<longleftrightarrow> runs_ids s \<and> row (workflow_runs s) i = Some w \<and> engine_run w \<and>
     filter (\<lambda>w. engine_run w \<and> row_id w \<noteq> i) (workflow_runs s) = others"

lemma run_at_row: "run_at i w others s \<Longrightarrow> row (workflow_runs s) i = Some w"
  by (simp add: run_at_def)

lemma run_at_part: "run_at i w others s \<Longrightarrow> workflow_runs t = workflow_runs s \<Longrightarrow> next_id s \<le> next_id t \<Longrightarrow> run_at i w others t"
  by (auto simp: run_at_def runs_ids_def intro: ids_ok_mono)

lemma run_at_flush [simp]: "run_at i w others (flush_db s) = run_at i w others s"
  by (simp add: run_at_def runs_ids_def)

lemma filter_update_rows:
  "(\<And>r. row_id (f r) = row_id r) \<Longrightarrow> (\<And>r. P r \<Longrightarrow> row_id r \<noteq> i) \<Longrightarrow> (\<And>r. P (f r) = P r) \<Longrightarrow>
   filter P (update_rows i f rs) = filter P rs"
  by (induction rs) (auto simp: update_rows_Cons)

lemma run_at_set:
  assumes "run_at i w others s" and f: "\<And>r. row_id (f r) = row_id r" "\<And>r. wf_workflow_name (f r) = wf_workflow_name r"
    and t: "workflow_runs t = update_rows i f (workflow_runs s)" "next_id s \<le> next_id t"
  shows "run_at i (f w) others t"
proof -
  have "filter (\<lambda>w. engine_run w \<and> row_id w \<noteq> i) (update_rows i f (workflow_runs s)) =
      filter (\<lambda>w. engine_run w \<and> row_id w \<noteq> i) (workflow_runs s)"
    by (rule filter_update_rows) (simp_all add: f engine_run_def)
  moreover have "wf_idempotency_key x \<noteq> None \<longrightarrow> engine_run x" if "x \<in> set (update_rows i f (workflow_runs s))" for x
  proof -
    have "y = w" if "y \<in> set (workflow_runs s)" "row_id y = i" for y
      using assms(1) that ids_ok_row [of "next_id s" "workflow_runs s" y] by (auto simp: run_at_def runs_ids_def)
    then show ?thesis using that assms(1) by (auto simp: set_update_rows run_at_def runs_ids_def engine_run_def f(2))
  qed
  ultimately show ?thesis
    using assms(1) ids_ok_update [of "next_id s" "workflow_runs s" f i, OF _ f(1)]
    by (auto simp: run_at_def runs_ids_def t(1) row_update_rows [OF f(1)] engine_run_def f(2) intro: ids_ok_mono [OF _ t(2)])
qed

lemma wp_set_run:
  assumes "run_at i w others s" "\<And>r. row_id (f r) = row_id r" "\<And>r. wf_workflow_name (f r) = wf_workflow_name r"
    and "\<And>t. run_at i (f w) others t \<Longrightarrow> clock t = clock s \<Longrightarrow> Q () t"
  shows "wp (set_workflow i f) Q E s"
  by (simp add: wp_set_workflow) (rule assms(4), rule run_at_set [OF assms(1-3)], simp_all)

lemma audit_workflow_wp:
  assumes "run_at i w others s" "\<And>t. run_at i w others t \<Longrightarrow> clock t = clock s \<Longrightarrow> Q () t"
  shows "wp (audit_workflow i b a why) Q E s"
  using run_at_row [OF assms(1)]
  by (simp add: audit_workflow_def wp_simps) (rule assms(2), rule run_at_part [OF assms(1)], simp_all)

lemma emit_runs_wp:
  assumes "run_at i w others s"
  shows "wp (emit pl aty ai av k c wk ca) (\<lambda>_. run_at i w others) (\<lambda>e _. event_failure e) s"
proof (rule wp_mono, rule wp_conj, rule emit_failure)
  show "wp (emit pl aty ai av k c wk ca) (\<lambda>_. run_at i w others) (\<lambda>_ _. True) s"
    by (rule wp_keeps_advances [where f = workflow_runs], (intro keeps_intros; simp)) (auto intro: run_at_part [OF assms])
qed auto

definition failed_run :: "datetime \<Rightarrow> string \<Rightarrow> WorkflowRun \<Rightarrow> WorkflowRun" where
  "failed_run now reason w = w\<lparr>wf_status := Run_FAILED, wf_current_step := Some ''failed'', wf_completed_at := Some now,
     wf_error := Some [(''type'', JStr ''workflow_failure''), (''message'', JStr reason), (''retryable'', JBool False)],
     wf_next_retry_at := None\<rparr>"

lemma terminal_failure_wp:
  assumes "run_at i w others s"
  shows "wp (terminal_failure i reason) (\<lambda>r t. run_at i r others t \<and> r = failed_run (clock s) reason w) (\<lambda>e _. event_failure e) s"
  unfolding terminal_failure_def
  apply (simp add: wp_bind wp_reload run_at_row [OF assms] wp_now_utc wp_andthen)
  apply (rule wp_set_run [OF assms], simp, simp)
  apply (simp only: wp_andthen)?
  apply (rule audit_workflow_wp, assumption)
  apply (simp add: wp_version_of wp_bind)
  apply (rule wp_mono, rule emit_runs_wp, assumption)
   apply (auto simp: wp_simps run_at_row failed_run_def)
  done

definition retrying_run :: "WorkflowDefinition \<Rightarrow> datetime \<Rightarrow> exn \<Rightarrow> WorkflowRun \<Rightarrow> WorkflowRun" where
  "retrying_run d now exc w = w\<lparr>wf_status := Run_RETRYING, wf_current_step := Some ''retry_scheduled'',
     wf_next_retry_at := Some (now + seconds (retry_delay_seconds (wd_policy d) * wf_attempts w)),
     wf_error := Some [(''type'', JStr (class_name (exn_class exc))), (''message'', JStr (exn_message exc)),
       (''retryable'', JBool True)]\<rparr>"

definition returned_run :: "datetime \<Rightarrow> WorkflowOutcome \<Rightarrow> WorkflowRun \<Rightarrow> WorkflowRun" where
  "returned_run now outcome w =
     (let w' = w\<lparr>wf_checkpoints := dict_merge (wf_checkpoints w) (oc_checkpoints outcome),
        wf_current_step := Some (oc_current_step outcome), wf_error := None\<rparr> in
      case oc_approval_id outcome of
        Some approval_id \<Rightarrow> w'\<lparr>wf_status := Run_PENDING, wf_waiting_approval_id := Some approval_id\<rparr>
      | None \<Rightarrow> w'\<lparr>wf_status := Run_SUCCEEDED, wf_completed_at := Some now\<rparr>)"

text \<open>The rows an attempt may leave.\<close>

inductive attempt_result :: "WorkflowDefinition \<Rightarrow> datetime \<Rightarrow> datetime \<Rightarrow> WorkflowRun \<Rightarrow> WorkflowRun \<Rightarrow> bool"
  for d now wall w where
  timed_out: "wf_deadline_at w = Some deadline \<Longrightarrow> deadline \<le> now \<Longrightarrow>
    attempt_result d now wall w (failed_run wall ''Workflow timed out'' w)"
| returned: "attempt_result d now wall w (returned_run now outcome (start_attempt now w))"
| refused: "attempt_result d now wall w (failed_run wall reason (start_attempt now w))"
| retried: "wf_attempts w + 1 < wf_max_attempts w \<Longrightarrow>
    attempt_result d now wall w (retrying_run d now exc (start_attempt now w))"

inductive_cases attempt_resultE: "attempt_result d now wall w r"

lemma attempt_failed_wp:
  assumes "run_at i w others s"
  shows "wp (attempt_failed i d now exc)
    (\<lambda>r t. run_at i r others t \<and>
       (if wf_max_attempts w \<le> wf_attempts w
        then r = failed_run (clock s) (class_name (exn_class exc) @ '': '' @ exn_message exc) w
        else r = retrying_run d now exc w)) (\<lambda>e _. event_failure e) s"
proof (cases "wf_max_attempts w \<le> wf_attempts w")
  case True
  then show ?thesis using assms terminal_failure_wp [OF assms]
    by (simp add: attempt_failed_def wp_bind wp_reload run_at_row)
next
  case False
  then show ?thesis
    unfolding attempt_failed_def
    apply (simp add: wp_bind wp_reload run_at_row [OF assms] wp_andthen)
    apply (rule wp_set_run [OF assms], simp, simp)
    apply (simp only: wp_andthen)?
  apply (rule audit_workflow_wp, assumption)
    apply (auto simp: wp_reload run_at_row retrying_run_def run_at_def [of i w])
    done
qed

lemma attempt_returned_wp:
  assumes "run_at i w others s"
  shows "wp (attempt_returned i now outcome) (\<lambda>r t. run_at i r others t \<and> r = returned_run now outcome w) (\<lambda>_ _. False) s"
  unfolding attempt_returned_def
  apply (simp add: wp_bind wp_reload run_at_row [OF assms] wp_andthen)
  apply (rule wp_set_run [OF assms], simp, simp)
  apply (cases "oc_approval_id outcome")
   apply (simp_all add: wp_andthen)
   apply (rule wp_set_run, assumption, simp, simp)
   apply (simp only: wp_andthen)?
  apply (rule audit_workflow_wp, assumption)
   apply (simp add: wp_andthen wp_flush wp_reload run_at_row returned_run_def Let_def)
  apply (rule wp_set_run, assumption, simp, simp)
  apply (simp only: wp_andthen)?
  apply (rule audit_workflow_wp, assumption)
  apply (simp add: wp_andthen wp_flush wp_reload run_at_row returned_run_def Let_def)
  done

lemma start_attempt_simps [simp]:
  "row_id (start_attempt now w) = row_id w" "wf_attempts (start_attempt now w) = wf_attempts w + 1"
  "wf_max_attempts (start_attempt now w) = wf_max_attempts w" "wf_workflow_name (start_attempt now w) = wf_workflow_name w"
  by (simp_all add: start_attempt_def)

text \<open>A step in its savepoint.\<close>

lemma step_run_at:
  assumes "leaves_runs d" "run_at i w others s"
  shows "run_at i w others (snd (wd_step d event w' s))"
proof -
  let ?t = "snd (wd_step d event w' s)"
  have t: "runs_ids ?t" "filter engine_run (workflow_runs ?t) = filter engine_run (workflow_runs s)"
    using assms by (simp_all add: leaves_runs_def run_at_def)
  have "w \<in> set (filter engine_run (workflow_runs ?t))" "row_id w = i"
    using assms(2) unfolding t(2) by (auto simp: run_at_def dest: row_Some_iff)
  then have "row (workflow_runs ?t) i = Some w"
    using t(1) by (auto simp: runs_ids_def intro: ids_ok_row)
  moreover have eq: "filter (\<lambda>w. row_id w \<noteq> i) (filter engine_run (workflow_runs u)) = filter (\<lambda>w. engine_run w \<and> row_id w \<noteq> i) (workflow_runs u)" for u
    by simp
  have "filter (\<lambda>w. engine_run w \<and> row_id w \<noteq> i) (workflow_runs ?t) = filter (\<lambda>w. engine_run w \<and> row_id w \<noteq> i) (workflow_runs s)"
    unfolding eq [symmetric] t(2) ..
  ultimately show ?thesis using t assms(2) by (simp add: run_at_def)
qed

lemma run_at_rollback: "run_at i w others s \<Longrightarrow> run_at i w others (rollback_to s t)"
  by (rule run_at_part [where s = s]) simp_all

lemma step_wp:
  assumes "leaves_runs d" "run_at i w others s" "\<And>res t. run_at i w others t \<Longrightarrow> Q res t"
  shows "wp (attempt (begin_nested (wd_step d event w'))) Q E s"
  using step_run_at [OF assms(1), of i w others "flush_db s" event w'] run_at_rollback [of i w others "flush_db s"] assms(2,3)
  by (simp add: wp_attempt wp_begin_nested) (auto simp: wp_def split: sum.split prod.split)

lemma execute_wp:
  assumes d: "leaves_runs d" and w: "run_at (row_id w) w others s"
  shows "wp (execute_workflow w d event now)
    (\<lambda>r t. run_at (row_id w) r others t \<and> (\<exists>wall. attempt_result d now wall w r)) (\<lambda>e _. event_failure e) s"
proof (cases "case wf_deadline_at w of None \<Rightarrow> False | Some deadline \<Rightarrow> deadline \<le> now")
  case True
  then obtain dl where "wf_deadline_at w = Some dl" "dl \<le> now" by (auto split: option.splits)
  then show ?thesis
    using True terminal_failure_wp [OF w, of "''Workflow timed out''"]
    by (auto simp: execute_workflow_def Let_def elim!: wp_mono intro: timed_out)
next
  case False
  let ?i = "row_id w" and ?w = "start_attempt now w"
  let ?Q = "\<lambda>r t. run_at ?i r others t \<and> (\<exists>wall. attempt_result d now wall w r)"
  have fails: "wp (terminal_failure ?i reason) ?Q (\<lambda>e _. event_failure e) t"
    and retries: "wp (attempt_failed ?i d now exc) ?Q (\<lambda>e _. event_failure e) t"
    and returns: "wp (attempt_returned ?i now outcome) ?Q (\<lambda>e _. event_failure e) t"
    if t: "run_at ?i ?w others t" for reason exc outcome t
  proof -
    show "wp (terminal_failure ?i reason) ?Q (\<lambda>e _. event_failure e) t"
      using terminal_failure_wp [OF t] by (rule wp_mono) (auto intro: refused)
    show "wp (attempt_failed ?i d now exc) ?Q (\<lambda>e _. event_failure e) t"
      using attempt_failed_wp [OF t] by (rule wp_mono) (auto simp: not_le intro: refused retried split: if_splits)
    show "wp (attempt_returned ?i now outcome) ?Q (\<lambda>e _. event_failure e) t"
      using attempt_returned_wp [OF t] by (rule wp_mono) (auto intro: returned)
  qed
  have tail: "wp (bind (reload workflow_runs ?i) (\<lambda>running. bind (attempt (begin_nested (wd_step d event running))) (\<lambda>result.
         case result of
           Inl exc \<Rightarrow> if exn_class exc = NonRetryableWorkflowError then terminal_failure ?i (exn_message exc)
                      else attempt_failed ?i d now exc
         | Inr outcome \<Rightarrow> attempt_returned ?i now
             (case outcome of None \<Rightarrow> completed ''completed'' [] | Some oc \<Rightarrow> oc)))) ?Q (\<lambda>e _. event_failure e) t"
    if t: "run_at ?i ?w others t" for t
    apply (subst wp_bind, simp add: wp_reload run_at_row [OF t], subst wp_bind)
    apply (rule step_wp [OF d t])
    using fails retries returns by (auto split: sum.split)
  show ?thesis
    using False unfolding execute_workflow_def Let_def
    apply (simp add: wp_andthen)
    apply (rule wp_set_run [OF w], simp, simp)
    apply (simp only: wp_flush wp_andthen)
     apply (rule audit_workflow_wp, simp)
    apply (rule tail, assumption)
    done
qed

section \<open>The invariant of the runs\<close>

definition run_ok :: "WorkflowRun \<Rightarrow> bool" where
  "run_ok w \<longleftrightarrow> 0 \<le> wf_attempts w \<and> 1 \<le> wf_max_attempts w \<and>
     (wf_status w = Run_RETRYING \<longrightarrow> wf_attempts w < wf_max_attempts w) \<and>
     (wf_status w = Run_RETRYING \<longleftrightarrow> wf_next_retry_at w \<noteq> None) \<and>
     (wf_status w \<in> {Run_SUCCEEDED, Run_FAILED} \<longrightarrow> wf_completed_at w \<noteq> None) \<and>
     (wf_status w \<in> {Run_RETRYING, Run_FAILED} \<longrightarrow> wf_error w \<noteq> None) \<and>
     wf_source_event_id w \<noteq> None \<and> wf_deadline_at w \<noteq> None \<and> wf_idempotency_key w \<noteq> None"

definition engine_ok :: "db \<Rightarrow> bool" where
  "engine_ok s \<longleftrightarrow> runs_ids s \<and> (\<forall>w \<in> set (workflow_runs s). engine_run w \<longrightarrow> run_ok w) \<and>
     inj_on wf_idempotency_key {w \<in> set (workflow_runs s). engine_run w}"

interpretation engine_inv: unit_of_work engine_ok
proof
  fix s t :: db
  assume s: "engine_ok s" and t: "tables_of t = tables_of s" "next_id s \<le> next_id t"
  have "workflow_runs t = workflow_runs s" using tables_ofD [OF t(1)] by simp
  then show "engine_ok t" using s t(2) by (auto simp: engine_ok_def runs_ids_def intro: ids_ok_mono)
qed

text \<open>The definitions of an engine: registered under their names, with a positive policy, and steps that leave the runs alone.\<close>

definition definitions_ok :: "WorkflowEngine \<Rightarrow> bool" where
  "definitions_ok E \<longleftrightarrow> (\<forall>(n, d) \<in> set (we_definitions E). wd_name d = n \<and> 1 \<le> max_attempts (wd_policy d) \<and>
     1 \<le> timeout_seconds (wd_policy d) \<and> leaves_runs d)"

lemma find_definition_ok:
  "definitions_ok E \<Longrightarrow> find_definition E name = Inr d \<Longrightarrow>
   wd_name d = name \<and> 1 \<le> max_attempts (wd_policy d) \<and> leaves_runs d"
  by (auto simp: definitions_ok_def find_definition_def split: option.splits dest!: map_of_SomeD)

lemma attempt_result_ok:
  assumes "attempt_result d now wall w r" "run_ok w"
  shows "run_ok r \<and> row_id r = row_id w \<and> wf_idempotency_key r = wf_idempotency_key w \<and> wf_max_attempts r = wf_max_attempts w"
  using assms
  by (cases rule: attempt_result.cases)
    (auto simp: run_ok_def failed_run_def returned_run_def retrying_run_def start_attempt_def Let_def split: option.split)

lemma engine_runs_at:
  assumes "run_at i w others s"
  shows "{w \<in> set (workflow_runs s). engine_run w} = insert w (set others)"
proof -
  have "x = w" if "x \<in> set (workflow_runs s)" "row_id x = i" for x
    using assms that ids_ok_row [of "next_id s" "workflow_runs s" x] by (auto simp: run_at_def runs_ids_def)
  then show ?thesis using assms by (auto simp: run_at_def dest: row_Some_iff)
qed

lemma run_at_id: "run_at i w others s \<Longrightarrow> row_id w = i"
  by (auto simp: run_at_def)

lemma engine_ok_at:
  assumes "engine_ok s" "run_at i w others s" "run_at i r others t"
    and "run_ok r" "wf_idempotency_key r = wf_idempotency_key w"
  shows "engine_ok t"
proof -
  note s = engine_runs_at [OF assms(2)] and t = engine_runs_at [OF assms(3)]
  have others: "\<forall>x \<in> set others. row_id x \<noteq> i" using assms(2) by (auto simp: run_at_def)
  have "inj_on wf_idempotency_key (insert w (set others))" using assms(1) unfolding engine_ok_def s by simp
  then have "inj_on wf_idempotency_key (insert r (set others))"
    using assms(5) others run_at_id [OF assms(2)] unfolding inj_on_def ball_simps insert_iff by metis
  moreover have "\<forall>x \<in> insert r (set others). run_ok x"
  proof -
    have "\<forall>x \<in> insert w (set others). run_ok x" using assms(1) unfolding s [symmetric] by (simp add: engine_ok_def)
    then show ?thesis using assms(4) by simp
  qed
  moreover have "runs_ids t" using assms(3) by (simp add: run_at_def)
  ultimately show ?thesis unfolding engine_ok_def t [symmetric] by simp
qed

lemma run_atI:
  "engine_ok s \<Longrightarrow> w \<in> set (workflow_runs s) \<Longrightarrow> engine_run w \<Longrightarrow>
   run_at (row_id w) w (filter (\<lambda>x. engine_run x \<and> row_id x \<noteq> row_id w) (workflow_runs s)) s"
  by (auto simp: run_at_def engine_ok_def runs_ids_def intro: ids_ok_row)

text \<open>The other runs of the engine are still there.\<close>

definition is_engine_run :: "uuid \<Rightarrow> db \<Rightarrow> bool" where
  "is_engine_run i s \<longleftrightarrow> (\<exists>w \<in> set (workflow_runs s). row_id w = i \<and> engine_run w)"

lemma is_engine_run_at: "run_at i w others s \<Longrightarrow> is_engine_run j s \<longleftrightarrow> j = i \<or> j \<in> row_id ` set others"
  using engine_runs_at [of i w others s] run_at_id [of i w others s] by (auto simp: is_engine_run_def)

section \<open>The operations of the engine keep the invariant\<close>

lemma queue_run_wp:
  assumes ok: "engine_ok s"
  shows "wp (queue_run E d event key now)
    (\<lambda>w t. run_at (row_id w) w (filter engine_run (workflow_runs s)) t \<and> (\<exists>i c. w = queued_run E d event key now i c))
    (\<lambda>e _. exn_class e = IntegrityError) s"
proof -
  have fresh: "\<forall>w \<in> set (workflow_runs s). row_id w < next_id s" using ok by (simp add: engine_ok_def runs_ids_def ids_ok_def)
  let ?w = "queued_run E d event key now (next_id s) (clock s)"
  have w: "row_id ?w = next_id s" "engine_run ?w" by (simp_all add: queued_run_def engine_run_def starts_with_def)
  have others: "filter (\<lambda>x. engine_run x \<and> row_id x \<noteq> next_id s) (workflow_runs s) = filter engine_run (workflow_runs s)"
    using fresh by (auto intro!: filter_cong)
  have none: "row (workflow_runs s) (next_id s) = None" using fresh by (auto simp: row_None_iff)
  have at: "run_at (next_id s) ?w (filter engine_run (workflow_runs s)) t"
    if "workflow_runs t = workflow_runs s @ [?w]" "next_id s < next_id t" for t
    using that ok w others none
    by (auto simp: run_at_def runs_ids_def row_append row_Cons engine_ok_def intro!: ids_ok_append)
  show ?thesis
    unfolding queue_run_def add_workflow_def
    apply (simp add: wp_simps)
    apply (intro impI)
    apply (rule audit_workflow_wp, rule at)
      apply simp
     apply simp
    apply (auto simp: wp_reload run_at_row w(1))
    done
qed

lemma keeps_runs_emit: "keeps workflow_runs (emit pl aty ai av k c wk ca)"
  by (intro keeps_intros; simp)

definition settled :: "WorkflowDefinition \<Rightarrow> datetime \<Rightarrow> WorkflowRun \<Rightarrow> WorkflowRun \<Rightarrow> db \<Rightarrow> db \<Rightarrow> bool" where
  "settled d now w r s t \<longleftrightarrow> engine_ok t \<and> row (workflow_runs t) (row_id w) = Some r \<and> (\<exists>wall. attempt_result d now wall w r)"

lemma queued_run_simps [simp]:
  "wf_status (queued_run E d event key now i c) = Run_PENDING" "row_id (queued_run E d event key now i c) = i"
  "wf_idempotency_key (queued_run E d event key now i c) = Some key"
  by (simp_all add: queued_run_def)

lemma queued_run_ok: "1 \<le> max_attempts (wd_policy d) \<Longrightarrow> run_ok (queued_run E d event key now i c)"
  by (simp add: queued_run_def run_ok_def)

lemma execute_ok:
  assumes ok: "engine_ok s" and d: "leaves_runs d" and w: "w \<in> set (workflow_runs s)" "engine_run w"
  shows "wp (execute_workflow w d event now)
    (\<lambda>r t. settled d now w r s t \<and> (\<forall>j. is_engine_run j s \<longrightarrow> is_engine_run j t)) (\<lambda>e _. event_failure e) s"
proof (rule wp_mono, rule execute_wp [OF d run_atI [OF ok w]])
  fix r t
  let ?o = "filter (\<lambda>x. engine_run x \<and> row_id x \<noteq> row_id w) (workflow_runs s)"
  assume t: "run_at (row_id w) r ?o t \<and> (\<exists>wall. attempt_result d now wall w r)"
  have "run_ok w" using ok w by (simp add: engine_ok_def)
  then have "run_ok r" "wf_idempotency_key r = wf_idempotency_key w" using t attempt_result_ok by blast+
  then have "engine_ok t" using engine_ok_at [OF ok run_atI [OF ok w]] t by blast
  then show "settled d now w r s t \<and> (\<forall>j. is_engine_run j s \<longrightarrow> is_engine_run j t)"
    using t is_engine_run_at [OF run_atI [OF ok w]] is_engine_run_at [of "row_id w" r ?o t]
    by (auto simp: settled_def run_at_row)
qed simp

lemma handle_event_wp:
  assumes ok: "engine_ok s" and E: "definitions_ok E" "find_definition E name = Inr d"
  shows "wp (handle_event E name event (Some now))
    (\<lambda>r t. case find (\<lambda>w. wf_idempotency_key w = Some (workflow_key name (ee_event_id event))) (workflow_runs s) of
       Some w \<Rightarrow> engine_run w \<and> (if finished (wf_status w) then r = w \<and> t = flush_db s else settled d now w r s t)
     | None \<Rightarrow> \<exists>i c. settled d now (queued_run E d event (workflow_key name (ee_event_id event)) now i c) r s t)
    (\<lambda>e _. event_failure e) s"
proof -
  have d: "wd_name d = name" "1 \<le> max_attempts (wd_policy d)" "leaves_runs d" using find_definition_ok [OF E] by auto
  let ?key = "workflow_key name (ee_event_id event)"
  note ok' = engine_inv.flushed [OF ok]
  show ?thesis
  proof (cases "find (\<lambda>w. wf_idempotency_key w = Some ?key) (workflow_runs s)")
    case (Some w)
    then have w: "w \<in> set (workflow_runs (flush_db s))" "engine_run w"
      using ok by (auto dest!: find_SomeD simp: engine_ok_def runs_ids_def)
    then show ?thesis
      using execute_ok [OF ok' d(3) w, of event now] Some E(2) d(1)
      by (auto simp: handle_event_def time_or_now_def wp_simps Let_def settled_def elim!: wp_mono)
  next
    case None
    have start: "wp (execute_workflow w d event now) (\<lambda>r t. \<exists>i c. settled d now (queued_run E d event ?key now i c) r s t)
        (\<lambda>e _. event_failure e) t"
      if t: "run_at (row_id w) w (filter engine_run (workflow_runs s)) t" and w: "w = queued_run E d event ?key now i c" for w t i c
    proof -
      have eng: "{x \<in> set (workflow_runs t). engine_run x} = insert w {x \<in> set (workflow_runs s). engine_run x}"
        unfolding engine_runs_at [OF t] by auto
      have "wf_idempotency_key x \<noteq> Some ?key" if "x \<in> set (workflow_runs s)" for x
        using None that by (auto simp: find_None_iff)
      moreover have "run_ok w" "wf_idempotency_key w = Some ?key"
        unfolding w using d(2) by (simp_all add: queued_run_ok)
      ultimately have "engine_ok t"
        using ok t eng unfolding engine_ok_def by (fastforce simp: inj_on_def run_at_def)
      moreover have "w \<in> set (workflow_runs t)" "engine_run w" using t by (auto simp: run_at_def dest: row_Some_iff)
      ultimately show ?thesis
        using execute_ok [OF _ d(3), of t w event now] w by (auto simp: settled_def elim!: wp_mono)
    qed
    show ?thesis
      using None E(2) d(1)
      apply (simp add: handle_event_def time_or_now_def wp_simps Let_def)
      apply (rule wp_mono, rule queue_run_wp [OF ok'])
       apply (elim conjE exE)
       apply (simp add: finished_def)
       apply (rule start, simp, rule refl)
      apply (simp add: event_failure_def)
      done
  qed
qed

lemma update_rows_ident: "ids_ok n rs \<Longrightarrow> row rs i = Some r \<Longrightarrow> f r = r \<Longrightarrow> update_rows i f rs = rs"
  unfolding update_rows_def by (rule map_idI) (auto dest: ids_ok_row)

abbreviation claimed_run :: "WorkflowRun \<Rightarrow> WorkflowRun" where
  "claimed_run w \<equiv> w\<lparr>wf_waiting_approval_id := None\<rparr>"

lemma claim_approval_wp:
  assumes ok: "engine_ok s" and w: "w \<in> set (workflow_runs s)" "engine_run w"
  shows "wp (claim_approval w)
    (\<lambda>_ t. engine_ok t \<and> claimed_run w \<in> set (workflow_runs t) \<and> (\<forall>j. is_engine_run j s \<longrightarrow> is_engine_run j t))
    (\<lambda>e _. exn_class e = NonRetryableWorkflowError) s"
proof (cases "wf_waiting_approval_id w")
  case None
  then have eq: "claimed_run w = w" by simp
  show ?thesis unfolding eq using assms None by (simp add: claim_approval_def wp_simps)
next
  case (Some a)
  note at = run_atI [OF ok w]
  have "run_ok (claimed_run w)" using ok w by (auto simp: engine_ok_def run_ok_def)
  then have "engine_ok t \<and> claimed_run w \<in> set (workflow_runs t) \<and> (\<forall>j. is_engine_run j s \<longrightarrow> is_engine_run j t)"
    if t: "run_at (row_id w) (claimed_run w) (filter (\<lambda>x. engine_run x \<and> row_id x \<noteq> row_id w) (workflow_runs s)) t" for t
    using engine_ok_at [OF ok at t] is_engine_run_at [OF at] is_engine_run_at [OF t] t
    by (auto simp: run_at_def dest: row_Some_iff)
  then show ?thesis
    using Some by (simp add: claim_approval_def wp_bind wp_get_row wp_andthen wp_raise_if) (auto intro: wp_set_run [OF at])
qed

lemma keeps_events_claim: "keeps domain_events (claim_approval w)"
  unfolding claim_approval_def set_workflow_def by (intro keeps_intros; simp)

definition too_early :: "datetime \<Rightarrow> WorkflowRun \<Rightarrow> bool" where
  "too_early now w \<longleftrightarrow> (case wf_next_retry_at w of None \<Rightarrow> False | Some next_retry \<Rightarrow> now < next_retry)"

lemma terminal_failure_ok:
  assumes ok: "engine_ok s" and w: "w \<in> set (workflow_runs s)" "engine_run w" "row_id w = i"
  shows "wp (terminal_failure i reason)
    (\<lambda>r t. engine_ok t \<and> row (workflow_runs t) i = Some r \<and> r = failed_run (clock s) reason w \<and>
       (\<forall>j. is_engine_run j s \<longrightarrow> is_engine_run j t)) (\<lambda>e _. event_failure e) s"
proof (rule wp_mono)
  let ?o = "filter (\<lambda>x. engine_run x \<and> row_id x \<noteq> row_id w) (workflow_runs s)"
  have at: "run_at i w ?o s" using run_atI [OF ok w(1,2)] w(3) by simp
  show "wp (terminal_failure i reason) (\<lambda>r t. run_at i r ?o t \<and> r = failed_run (clock s) reason w) (\<lambda>e _. event_failure e) s"
    by (rule terminal_failure_wp [OF at])
  fix r t assume t: "run_at i r ?o t \<and> r = failed_run (clock s) reason w"
  have "run_ok w" using ok w by (simp add: engine_ok_def)
  then have "run_ok r" "wf_idempotency_key r = wf_idempotency_key w" using t by (auto simp: run_ok_def failed_run_def)
  then show "engine_ok t \<and> row (workflow_runs t) i = Some r \<and> r = failed_run (clock s) reason w \<and>
       (\<forall>j. is_engine_run j s \<longrightarrow> is_engine_run j t)"
    using t engine_ok_at [OF ok at, of r t] is_engine_run_at [OF at] is_engine_run_at [of i r ?o t]
    by (auto simp: run_at_row)
qed simp

definition resumed :: "WorkflowDefinition \<Rightarrow> datetime \<Rightarrow> WorkflowRun \<Rightarrow> WorkflowRun \<Rightarrow> db \<Rightarrow> bool" where
  "resumed d now w r s \<longleftrightarrow>
     (\<exists>source_id wall. wf_source_event_id w = Some source_id \<and> row (domain_events s) source_id = None \<and>
        r = failed_run wall ''Workflow source event was not found'' w) \<or>
     (\<exists>wall. attempt_result d now wall w r)"

lemma execute_again_wp:
  assumes ok: "engine_ok s" and d: "leaves_runs d" and w: "w \<in> set (workflow_runs s)" "engine_run w" "row_id w = i"
    and ev: "wf_source_event_id w = Some ev"
  shows "wp (execute_again i d ev now)
    (\<lambda>r t. engine_ok t \<and> (\<forall>j. is_engine_run j s \<longrightarrow> is_engine_run j t) \<and> row (workflow_runs t) i = Some r \<and> resumed d now w r s)
    (\<lambda>_ _. True) s"
proof (cases "row (domain_events s) ev")
  case None
  then show ?thesis
    unfolding execute_again_def
    apply (simp add: wp_bind wp_get_row)
    apply (rule wp_mono, rule terminal_failure_ok [OF ok w])
     apply (use ev in \<open>auto simp: resumed_def\<close>)
    done
next
  case (Some stored)
  have row: "row (workflow_runs s) i = Some w"
    using ok w ids_ok_row [of "next_id s" "workflow_runs s" w] by (simp add: engine_ok_def runs_ids_def)
  show ?thesis
  proof (cases "to_envelope stored")
    case (Inl e)
    then show ?thesis using Some by (simp add: execute_again_def wp_simps)
  next
    case (Inr event)
    then show ?thesis
      unfolding execute_again_def
      apply (simp add: wp_bind wp_get_row Some wp_of_result wp_reload row)
      apply (rule wp_mono, rule execute_ok [OF ok d w(1,2)])
       apply (use w(3) in \<open>auto simp: settled_def resumed_def\<close>)
      done
  qed
qed

lemma resume_wp:
  assumes ok: "engine_ok s" and E: "definitions_ok E" and w: "row (workflow_runs s) i = Some w" "engine_run w"
  shows "wp (resume E i (Some now))
    (\<lambda>r t. engine_ok t \<and> (\<forall>j. is_engine_run j s \<longrightarrow> is_engine_run j t) \<and> row (workflow_runs t) i = Some r \<and>
       (\<exists>d. find_definition E (remove_prefix engine_prefix (wf_workflow_name w)) = Inr d \<and>
         (if too_early now w then r = claimed_run w else resumed d now (claimed_run w) r s)))
    (\<lambda>_ _. True) s"
proof (cases "find_definition E (remove_prefix engine_prefix (wf_workflow_name w))")
  case (Inl e)
  then show ?thesis using w(1) by (simp add: resume_def wp_simps row_def)
next
  case (Inr d)
  have d: "leaves_runs d" using find_definition_ok [OF E Inr] by simp
  have mem: "w \<in> set (workflow_runs (flush_db s))" and i: "row_id w = i" using w(1) by (auto dest: row_Some_iff)
  obtain ev where ev: "wf_source_event_id w = Some ev" using ok mem w(2) by (auto simp: engine_ok_def run_ok_def)
  let ?Q = "\<lambda>r t. engine_ok t \<and> (\<forall>j. is_engine_run j s \<longrightarrow> is_engine_run j t) \<and> row (workflow_runs t) i = Some r \<and>
         (if too_early now w then r = claimed_run w else resumed d now (claimed_run w) r s)"
  have rest: "wp (if too_early now w then reload workflow_runs i else execute_again i d ev now) ?Q (\<lambda>_ _. True) t"
    if t: "engine_ok t" "claimed_run w \<in> set (workflow_runs t)" "\<forall>j. is_engine_run j s \<longrightarrow> is_engine_run j t"
      and same: "domain_events t = domain_events s" for t
  proof -
    have c: "engine_run (claimed_run w)" "row_id (claimed_run w) = i" "wf_source_event_id (claimed_run w) = Some ev"
      using w(2) i ev by (simp_all add: engine_run_def)
    then have row: "row (workflow_runs t) i = Some (claimed_run w)"
      using t(1,2) ids_ok_row [of "next_id t" "workflow_runs t" "claimed_run w"] by (simp add: engine_ok_def runs_ids_def)
    have "wp (execute_again i d ev now) (\<lambda>r t. engine_ok t \<and> (\<forall>j. is_engine_run j s \<longrightarrow> is_engine_run j t) \<and>
        row (workflow_runs t) i = Some r \<and> resumed d now (claimed_run w) r s) (\<lambda>_ _. True) t"
      by (rule wp_mono, rule execute_again_wp [OF t(1) d t(2) c]) (use t(3) same in \<open>auto simp: resumed_def\<close>)
    then show ?thesis using t row by (simp add: wp_if wp_reload)
  qed
  have claim: "wp (claim_approval w) (\<lambda>_ t. (engine_ok t \<and> claimed_run w \<in> set (workflow_runs t) \<and>
      (\<forall>j. is_engine_run j s \<longrightarrow> is_engine_run j t)) \<and> domain_events t = domain_events s) (\<lambda>_ _. True) (flush_db s)"
  proof (rule wp_mono, rule wp_conj, rule claim_approval_wp [OF engine_inv.flushed [OF ok] mem w(2)])
    show "wp (claim_approval w) (\<lambda>_ t. domain_events t = domain_events (flush_db s)) (\<lambda>_ _. True) (flush_db s)"
      by (rule wp_mono, rule keeps_wp [OF keeps_events_claim]) simp_all
  qed (simp_all add: is_engine_run_def)
  have found: "find (\<lambda>w. row_id w = i) (workflow_runs s) = Some w" using w(1) by (simp add: row_def)
  have tail: "wp (bind (time_or_now (Some now)) (\<lambda>current. if case wf_next_retry_at w of None \<Rightarrow> False | Some next_retry \<Rightarrow> current < next_retry
      then reload workflow_runs i else execute_again i d ev current)) ?Q (\<lambda>_ _. True) t"
    if "engine_ok t \<and> claimed_run w \<in> set (workflow_runs t) \<and> (\<forall>j. is_engine_run j s \<longrightarrow> is_engine_run j t)"
      "domain_events t = domain_events s" for t
    using rest [of t] that by (simp add: time_or_now_def too_early_def)
  show ?thesis
    unfolding resume_def
    apply (simp add: wp_scalar wp_bind [of "scalar _ _"] wp_bind [of "the_or _ _"] wp_bind [of "of_result _"] wp_the_or wp_of_result found Inr ev
        wp_andthen)
    apply (rule wp_mono, rule claim)
     apply (rule tail, simp, simp)
    apply simp
    done
qed

lemma retry_each_wp:
  assumes "engine_ok s" "definitions_ok E" "\<forall>i \<in> set is. is_engine_run i s"
  shows "wp (map_each is (\<lambda>i. resume E i (Some now))) (\<lambda>_. engine_ok) (\<lambda>_ _. True) s"
  using assms
proof (induction "is" arbitrary: s)
  case Nil
  then show ?case by (simp add: wp_simps)
next
  case (Cons i js)
  then obtain w where w: "w \<in> set (workflow_runs s)" "row_id w = i" "engine_run w" by (auto simp: is_engine_run_def)
  then have row: "row (workflow_runs s) i = Some w"
    using Cons.prems(1) ids_ok_row [of "next_id s" "workflow_runs s" w] by (simp add: engine_ok_def runs_ids_def)
  show ?case
    unfolding map_each.simps
    apply (subst wp_bind, rule wp_mono, rule resume_wp [OF Cons.prems(1,2) row w(3)])
     apply (subst wp_bind, rule wp_mono, rule Cons.IH)
    using Cons.prems by (auto simp: wp_ret)
qed

lemma retry_due_wp:
  assumes ok: "engine_ok s" and E: "definitions_ok E"
  shows "wp (retry_due E (Some now) limit) (\<lambda>_. engine_ok) (\<lambda>_ _. True) s"
  unfolding retry_due_def time_or_now_def
  apply (simp add: wp_bind wp_ret wp_scalars)
  apply (rule retry_each_wp [OF engine_inv.flushed [OF ok] E])
  apply (auto simp: is_engine_run_def retry_is_due_def engine_run_def dest!: in_set_takeD)
  done

section \<open>Requests to the engine\<close>

datatype engine_call = Deliver string EventEnvelope "datetime option" | Retry "datetime option" nat

fun run_engine_call :: "WorkflowEngine \<Rightarrow> engine_call \<Rightarrow> unit op" where
  "run_engine_call E (Deliver name event at_time) = bind (handle_event E name event at_time) (\<lambda>_. ret ())"
| "run_engine_call E (Retry at_time limit) = bind (retry_due E at_time limit) (\<lambda>_. ret ())"

lemma now_is_clock:
  "handle_event E name event at_time s = handle_event E name event (Some (decision_time at_time s)) s"
  "retry_due E at_time limit s = retry_due E (Some (decision_time at_time s)) limit s"
  by (auto simp: handle_event_def retry_due_def time_or_now_def decision_time_def bind_apply run_simps split: option.split sum.split)

lemma run_engine_call_keeps:
  assumes ok: "engine_ok s" and E: "definitions_ok E" and run: "run_engine_call E c s = (Inr u, t)"
  shows "engine_ok t"
proof (cases c)
  case (Deliver name event at_time)
  then obtain r where r: "handle_event E name event (Some (decision_time at_time s)) s = (Inr r, t)"
    using run now_is_clock(1) [of E name event at_time s] by (auto simp: bind_apply run_simps split: sum.splits) (metis prod.collapse)
  obtain d where d: "find_definition E name = Inr d"
    using r by (cases "find_definition E name") (auto simp: handle_event_def run_simps)
  show ?thesis
    using wp_InrD [OF handle_event_wp [OF ok E d] r] engine_inv.flushed [OF ok]
    by (auto simp: settled_def split: option.splits if_splits)
next
  case (Retry at_time limit)
  then obtain rs where r: "retry_due E (Some (decision_time at_time s)) limit s = (Inr rs, t)"
    using run now_is_clock(2) [of E at_time limit s] by (auto simp: bind_apply run_simps split: sum.splits) (metis prod.collapse)
  show ?thesis using wp_InrD [OF retry_due_wp [OF ok E] r] .
qed

section \<open>The machine behind a run\<close>

record RunView =
  rv_status :: RunStatus
  rv_attempts :: int
  rv_limit :: int
  rv_due :: "datetime option"

definition view_run :: "WorkflowRun \<Rightarrow> RunView" where
  "view_run w = \<lparr>rv_status = wf_status w, rv_attempts = wf_attempts w, rv_limit = wf_max_attempts w, rv_due = wf_next_retry_at w\<rparr>"

text \<open>What one call may do to a run: give up without an attempt, or make one attempt that ends in one of four ways.\<close>

inductive run_move :: "int \<Rightarrow> datetime \<Rightarrow> RunView \<Rightarrow> RunView \<Rightarrow> bool" for delay now v where
  wait: "rv_due v = Some due \<Longrightarrow> now < due \<Longrightarrow> run_move delay now v v"
| abandon: "run_move delay now v (v\<lparr>rv_status := Run_FAILED, rv_due := None\<rparr>)"
| succeed: "run_move delay now v (v\<lparr>rv_status := Run_SUCCEEDED, rv_attempts := rv_attempts v + 1, rv_due := None\<rparr>)"
| suspend: "run_move delay now v (v\<lparr>rv_status := Run_PENDING, rv_attempts := rv_attempts v + 1, rv_due := None\<rparr>)"
| give_up: "run_move delay now v (v\<lparr>rv_status := Run_FAILED, rv_attempts := rv_attempts v + 1, rv_due := None\<rparr>)"
| back_off: "rv_attempts v + 1 < rv_limit v \<Longrightarrow> run_move delay now v
    (v\<lparr>rv_status := Run_RETRYING, rv_attempts := rv_attempts v + 1, rv_due := Some (now + seconds (delay * (rv_attempts v + 1)))\<rparr>)"

inductive_cases run_moveE: "run_move delay now v v'"

lemma attempt_result_move:
  assumes "attempt_result d now wall w r"
  shows "run_move (retry_delay_seconds (wd_policy d)) now (view_run w) (view_run r)"
  using assms
proof cases
  case (timed_out deadline)
  then have "view_run r = (view_run w)\<lparr>rv_status := Run_FAILED, rv_due := None\<rparr>" by (simp add: view_run_def failed_run_def)
  then show ?thesis by (metis abandon)
next
  case (returned outcome)
  then have "view_run r = (view_run w)\<lparr>rv_status := if oc_approval_id outcome = None then Run_SUCCEEDED else Run_PENDING,
      rv_attempts := rv_attempts (view_run w) + 1, rv_due := None\<rparr>"
    by (auto simp: view_run_def returned_run_def start_attempt_def Let_def split: option.split)
  then show ?thesis by (metis succeed suspend)
next
  case (refused reason)
  then have "view_run r = (view_run w)\<lparr>rv_status := Run_FAILED, rv_attempts := rv_attempts (view_run w) + 1, rv_due := None\<rparr>"
    by (simp add: view_run_def failed_run_def start_attempt_def)
  then show ?thesis by (metis give_up)
next
  case (retried exc)
  then have "view_run r = (view_run w)\<lparr>rv_status := Run_RETRYING, rv_attempts := rv_attempts (view_run w) + 1,
      rv_due := Some (now + seconds (retry_delay_seconds (wd_policy d) * (rv_attempts (view_run w) + 1)))\<rparr>"
    "rv_attempts (view_run w) + 1 < rv_limit (view_run w)"
    by (simp_all add: view_run_def retrying_run_def start_attempt_def)
  then show ?thesis by (metis back_off)
qed

lemma resumed_move:
  assumes "if too_early now w then r = claimed_run w else resumed d now (claimed_run w) r s"
  shows "run_move (retry_delay_seconds (wd_policy d)) now (view_run w) (view_run r)"
proof -
  have same: "view_run (claimed_run w) = view_run w" by (simp add: view_run_def)
  show ?thesis
  proof (cases "too_early now w")
    case True
    then obtain due where "rv_due (view_run w) = Some due" "now < due" by (auto simp: too_early_def view_run_def split: option.splits)
    then show ?thesis using True assms wait same by simp
  next
    case False
    have lost: "view_run (failed_run wall reason (claimed_run w)) = (view_run w)\<lparr>rv_status := Run_FAILED, rv_due := None\<rparr>" for wall reason
      by (simp add: view_run_def failed_run_def)
    show ?thesis
      using False assms attempt_result_move [of d now _ "claimed_run w" r] abandon [of _ now "view_run w"]
      unfolding resumed_def same by (auto simp: lost)
  qed
qed

section \<open>Calls that return\<close>

text \<open>The terminal failure of run \<open>i\<close> can still be announced, and its source event is in the store.\<close>

definition announceable :: "uuid \<Rightarrow> uuid \<Rightarrow> DomainEvent \<Rightarrow> db \<Rightarrow> bool" where
  "announceable i source_id source_event s \<longleftrightarrow> 0 < versions s i \<and> row (domain_events s) source_id = Some source_event \<and>
     (\<forall>e \<in> set (domain_events s). ev_idempotency_key e \<noteq> ''workflow-failed:'' @ uuid_str i \<and>
        (\<forall>v. aggregate_key e \<noteq> (''workflow_run'', i, v, event_type_value WORKFLOW_FAILED)))"

definition keeps_announceable :: "WorkflowDefinition \<Rightarrow> bool" where
  "keeps_announceable d \<longleftrightarrow> (\<forall>event w s i source_id e. announceable i source_id e s \<longrightarrow>
     announceable i source_id e (snd (wd_step d event w s)))"

lemma announceable_part:
  "announceable i k e s \<Longrightarrow> domain_events t = domain_events s \<Longrightarrow> versions s i \<le> versions t i \<Longrightarrow> announceable i k e t"
  by (simp add: announceable_def)

lemma announceable_flush [simp]: "announceable i k e s \<Longrightarrow> announceable i k e (flush_db s)"
  by (rule announceable_part [where s = s]) (simp_all add: flush_db_def)

definition live_at :: "uuid \<Rightarrow> WorkflowRun \<Rightarrow> WorkflowRun list \<Rightarrow> uuid \<Rightarrow> DomainEvent \<Rightarrow> db \<Rightarrow> bool" where
  "live_at i w others k e s \<longleftrightarrow> run_at i w others s \<and> announceable i k e s"

lemma live_set:
  assumes "live_at i w others k e s" "\<And>r. row_id (f r) = row_id r" "\<And>r. wf_workflow_name (f r) = wf_workflow_name r"
    and "\<And>t. live_at i (f w) others k e t \<Longrightarrow> Q () t"
  shows "wp (set_workflow i f) Q E s"
  using assms(1) unfolding live_at_def
  by (simp add: wp_set_workflow, intro assms(4), unfold live_at_def)
    (auto intro: run_at_set [OF _ assms(2,3)] announceable_part)

lemma live_audit:
  assumes "live_at i w others k e s" "\<And>t. live_at i w others k e t \<Longrightarrow> Q () t"
  shows "wp (audit_workflow i b a why) Q E s"
proof -
  have at: "run_at i w others s" "announceable i k e s" using assms(1) by (simp_all add: live_at_def)
  show ?thesis
    using run_at_row [OF at(1)]
    by (simp add: audit_workflow_def wp_simps, intro assms(2), unfold live_at_def)
      (auto intro: run_at_part [OF at(1)] announceable_part [OF at(2)])
qed

lemma live_row: "live_at i w others k e s \<Longrightarrow> row (workflow_runs s) i = Some w"
  by (auto simp: live_at_def intro: run_at_row)

lemma live_flush [simp]: "live_at i w others k e s \<Longrightarrow> live_at i w others k e (flush_db s)"
  by (simp add: live_at_def)

lemma terminal_failure_total:
  assumes "live_at i w others k e s"
  shows "wp (terminal_failure i reason) (\<lambda>r t. run_at i r others t \<and> wf_status r = Run_FAILED) (\<lambda>_ _. False) s"
  unfolding terminal_failure_def
  apply (simp add: wp_bind wp_reload live_row [OF assms] wp_now_utc wp_andthen)
  apply (rule live_set [OF assms], simp, simp)
  apply (simp only: wp_andthen)
  apply (rule live_audit, assumption)
  apply (simp only: wp_version_of wp_bind)
  subgoal for t u
    using emit_run [of "WorkflowFailedPayload i (wf_workflow_name w) reason False" "versions u i" u
        "''workflow-failed:'' @ uuid_str i" "''workflow_run''" i "wf_correlation_id w" "Some i" None]
    by (auto simp: wp_def run_simps live_at_def announceable_def run_at_row intro!: run_at_part [of i _ others u])
  done

text \<open>What an attempt leaves for the next one.\<close>

definition still_live :: "uuid \<Rightarrow> WorkflowRun \<Rightarrow> WorkflowRun list \<Rightarrow> uuid \<Rightarrow> DomainEvent \<Rightarrow> WorkflowRun \<Rightarrow> db \<Rightarrow> bool" where
  "still_live i w others k e r t \<longleftrightarrow> run_at i r others t \<and> (wf_status r = Run_RETRYING \<longrightarrow>
     announceable i k e t \<and> wf_waiting_approval_id r = wf_waiting_approval_id w \<and> wf_workflow_name r = wf_workflow_name w \<and>
     wf_source_event_id r = wf_source_event_id w)"

lemma terminal_still:
  assumes "live_at i w others k e s"
  shows "wp (terminal_failure i reason) (still_live i w' others k e) (\<lambda>_ _. False) s"
  by (rule wp_mono, rule terminal_failure_total [OF assms]) (simp_all add: still_live_def)

lemma attempt_failed_total:
  assumes "live_at i w others k e s"
  shows "wp (attempt_failed i d now exc) (still_live i w others k e) (\<lambda>_ _. False) s"
proof (cases "wf_max_attempts w \<le> wf_attempts w")
  case True
  then show ?thesis
    by (simp add: attempt_failed_def wp_bind wp_reload live_row [OF assms] terminal_still [OF assms])
next
  case False
  then show ?thesis
    unfolding attempt_failed_def
    apply (simp add: wp_bind wp_reload live_row [OF assms] wp_andthen)
    apply (rule live_set [OF assms], simp, simp)
    apply (simp only: wp_andthen)?
    apply (rule live_audit, assumption)
    apply (simp add: wp_reload live_row)
    apply (simp add: still_live_def live_at_def)
    done
qed

lemma live_step:
  assumes d: "leaves_runs d" "keeps_announceable d" and "live_at i w others k e s" "\<And>res t. live_at i w others k e t \<Longrightarrow> Q res t"
  shows "wp (attempt (begin_nested (wd_step d event w'))) Q E s"
proof -
  have s: "live_at i w others k e (flush_db s)" using assms(3) by simp
  then have "live_at i w others k e (snd (wd_step d event w' (flush_db s)))"
    using step_run_at [OF d(1)] d(2) by (auto simp: live_at_def keeps_announceable_def)
  moreover have "live_at i w others k e (rollback_to (flush_db s) u)" for u
    using s run_at_rollback announceable_part [of i k e "flush_db s" "rollback_to (flush_db s) u"] by (auto simp: live_at_def)
  ultimately show ?thesis
    using assms(4) by (simp add: wp_attempt wp_begin_nested) (auto simp: wp_def split: sum.split prod.split)
qed

lemma execute_total:
  assumes d: "leaves_runs d" "keeps_announceable d" and w: "live_at (row_id w) w others k e s"
  shows "wp (execute_workflow w d event now) (still_live (row_id w) w others k e) (\<lambda>_ _. False) s"
proof (cases "case wf_deadline_at w of None \<Rightarrow> False | Some deadline \<Rightarrow> deadline \<le> now")
  case True
  then show ?thesis
    using terminal_still [OF w] by (simp add: execute_workflow_def Let_def)
next
  case False
  let ?i = "row_id w" and ?w = "start_attempt now w"
  let ?Q = "still_live ?i w others k e"
  have same: "still_live ?i ?w others k e = ?Q" by (simp add: still_live_def start_attempt_def fun_eq_iff)
  have fails: "wp (terminal_failure ?i reason) ?Q (\<lambda>_ _. False) t"
    and retries: "wp (attempt_failed ?i d now exc) ?Q (\<lambda>_ _. False) t"
    and returns: "wp (attempt_returned ?i now outcome) ?Q (\<lambda>_ _. False) t"
    if t: "live_at ?i ?w others k e t" for reason exc outcome t
  proof -
    show "wp (terminal_failure ?i reason) ?Q (\<lambda>_ _. False) t"
      by (rule terminal_still [OF t])
    show "wp (attempt_failed ?i d now exc) ?Q (\<lambda>_ _. False) t"
      using attempt_failed_total [OF t] unfolding same .
    have "run_at ?i ?w others t" using t by (simp add: live_at_def)
    from attempt_returned_wp [OF this] show "wp (attempt_returned ?i now outcome) ?Q (\<lambda>_ _. False) t"
      by (rule wp_mono) (auto simp: still_live_def returned_run_def Let_def split: option.splits)
  qed
  have tail: "wp (bind (reload workflow_runs ?i) (\<lambda>running. bind (attempt (begin_nested (wd_step d event running))) (\<lambda>result.
         case result of
           Inl exc \<Rightarrow> if exn_class exc = NonRetryableWorkflowError then terminal_failure ?i (exn_message exc)
                      else attempt_failed ?i d now exc
         | Inr outcome \<Rightarrow> attempt_returned ?i now
             (case outcome of None \<Rightarrow> completed ''completed'' [] | Some oc \<Rightarrow> oc)))) ?Q (\<lambda>_ _. False) t"
    if t: "live_at ?i ?w others k e t" for t
    apply (subst wp_bind, simp add: wp_reload live_row [OF t], subst wp_bind)
    apply (rule live_step [OF d t])
    using fails retries returns by (auto split: sum.split)
  show ?thesis
    using False unfolding execute_workflow_def Let_def
    apply (simp add: wp_andthen)
    apply (rule live_set [OF w], simp, simp)
    apply (simp only: wp_flush wp_andthen)
    apply (rule live_audit, rule live_flush, assumption)
    apply (rule tail, assumption)
    done
qed

lemma resume_total:
  assumes w: "run_at i w others s" and live: "announceable i k e s" and id: "row_id w = i"
    and E: "definitions_ok E" "find_definition E (remove_prefix engine_prefix (wf_workflow_name w)) = Inr d" "keeps_announceable d"
    and run: "wf_waiting_approval_id w = None" "wf_source_event_id w = Some k" "\<not> too_early now w" and ev: "to_envelope e = Inr event"
  shows "wp (resume E i (Some now)) (still_live i w others k e) (\<lambda>_ _. False) s"
proof -
  have d: "leaves_runs d" using find_definition_ok [OF E(1,2)] by simp
  have found: "find (\<lambda>w. row_id w = i) (workflow_runs s) = Some w" using run_at_row [OF w] by (simp add: row_def)
  have source: "row (domain_events s) k = Some e" using live by (simp add: announceable_def)
  have "live_at (row_id w) w others k e (flush_db s)" using w live id by (simp add: live_at_def)
  from execute_total [OF d E(3) this] show ?thesis
    using run ev run_at_row [OF w] id
    by (simp add: resume_def wp_simps found E(2) claim_approval_def time_or_now_def too_early_def execute_again_def source)
qed

text \<open>Resuming a run each time its backoff has elapsed, at most \<open>n\<close> times.\<close>

fun retry_when_due :: "WorkflowEngine \<Rightarrow> uuid \<Rightarrow> nat \<Rightarrow> db \<Rightarrow> db" where
  "retry_when_due E i 0 s = s"
| "retry_when_due E i (Suc n) s =
     (case Option.bind (row (workflow_runs s) i) wf_next_retry_at of
        None \<Rightarrow> s
      | Some due \<Rightarrow> retry_when_due E i n (snd (transaction (resume E i (Some due)) s)))"

definition retryable :: "WorkflowEngine \<Rightarrow> uuid \<Rightarrow> WorkflowRun \<Rightarrow> db \<Rightarrow> bool" where
  "retryable E i w s \<longleftrightarrow> row (workflow_runs s) i = Some w \<and> engine_run w \<and> wf_status w = Run_RETRYING \<and>
     wf_waiting_approval_id w = None \<and>
     (\<exists>d k e event. find_definition E (remove_prefix engine_prefix (wf_workflow_name w)) = Inr d \<and> keeps_announceable d \<and>
        wf_source_event_id w = Some k \<and> announceable i k e s \<and> to_envelope e = Inr event)"

lemma resume_live:
  assumes ok: "engine_ok s" and E: "definitions_ok E" and w: "retryable E i w s" and due: "wf_next_retry_at w = Some due"
  obtains r t others k e where "resume E i (Some due) s = (Inr r, t)" "still_live i w others k e r t"
proof -
  note wd = w [unfolded retryable_def]
  obtain d k e event where d: "find_definition E (remove_prefix engine_prefix (wf_workflow_name w)) = Inr d" "keeps_announceable d"
    "wf_source_event_id w = Some k" "announceable i k e s" "to_envelope e = Inr event"
    using wd by blast
  have mem: "w \<in> set (workflow_runs s)" "row_id w = i" using wd by (auto dest: row_Some_iff)
  let ?o = "filter (\<lambda>x. engine_run x \<and> row_id x \<noteq> i) (workflow_runs s)"
  have at: "run_at i w ?o s" using run_atI [OF ok mem(1)] wd mem(2) by simp
  have early: "\<not> too_early due w" using due by (simp add: too_early_def)
  have total: "wp (resume E i (Some due)) (still_live i w ?o k e) (\<lambda>_ _. False) s"
    using resume_total [OF at d(4) mem(2) E d(1,2) _ d(3) early d(5)] wd by simp
  then obtain r u where "resume E i (Some due) s = (Inr r, u)"
    by (cases "resume E i (Some due) s") (auto simp: wp_def split: sum.splits)
  then show thesis using that wp_InrD [OF total] by blast
qed

lemma retry_step:
  assumes ok: "engine_ok s" and E: "definitions_ok E" and w: "retryable E i w s" and due: "wf_next_retry_at w = Some due"
    and t: "t = snd (transaction (resume E i (Some due)) s)"
  shows "engine_ok t \<and> (\<exists>r. row (workflow_runs t) i = Some r \<and> wf_attempts r \<le> wf_max_attempts r \<and>
      wf_max_attempts r = wf_max_attempts w \<and> engine_run r \<and>
      (wf_status r = Run_RETRYING \<longrightarrow> retryable E i r t \<and> wf_attempts r = wf_attempts w + 1))"
proof -
  note wd = w [unfolded retryable_def]
  obtain d k e event where d: "find_definition E (remove_prefix engine_prefix (wf_workflow_name w)) = Inr d" "keeps_announceable d"
    "wf_source_event_id w = Some k" "announceable i k e s" "to_envelope e = Inr event"
    using wd by blast
  have mem: "w \<in> set (workflow_runs s)" "row_id w = i" using wd by (auto dest: row_Some_iff)
  let ?o = "filter (\<lambda>x. engine_run x \<and> row_id x \<noteq> i) (workflow_runs s)"
  have at: "run_at i w ?o s" using run_atI [OF ok mem(1)] wd mem(2) by simp
  have early: "\<not> too_early due w" using due by (simp add: too_early_def)
  have total: "wp (resume E i (Some due)) (still_live i w ?o k e) (\<lambda>_ _. False) s"
    using resume_total [OF at d(4) mem(2) E d(1,2) _ d(3) early d(5)] wd by simp
  have some: "wp (resume E i (Some due)) (\<lambda>r t. engine_ok t \<and> resumed d due (claimed_run w) r s) (\<lambda>_ _. True) s"
    by (rule wp_mono, rule resume_wp [OF ok E, of i w]) (use wd early d(1) in auto)
  obtain r u where r: "resume E i (Some due) s = (Inr r, u)"
    using total by (cases "resume E i (Some due) s") (auto simp: wp_def split: sum.splits)
  have live: "still_live i w ?o k e r u" and ok': "engine_ok u" and move: "resumed d due (claimed_run w) r s"
    using wp_InrD [OF total r] wp_InrD [OF some r] by auto
  have t': "t = flush_db u" unfolding t using transaction_Inr [where m = "resume E i (Some due)" and s = s, OF r] by simp
  have same: "claimed_run w = w" using wd by (cases w) simp
  have ok_w: "run_ok w" using ok mem(1) wd by (simp add: engine_ok_def)
  have limit: "wf_max_attempts r = wf_max_attempts w \<and> wf_attempts r \<le> wf_max_attempts w \<and>
      (wf_status r = Run_RETRYING \<longrightarrow> wf_attempts r = wf_attempts w + 1)"
    using move ok_w wd unfolding resumed_def same
    by (auto simp: run_ok_def failed_run_def returned_run_def retrying_run_def start_attempt_def Let_def
        elim!: attempt_result.cases split: option.splits)
  have row: "row (workflow_runs t) i = Some r" using live by (auto simp: t' still_live_def intro: run_at_row)
  have "retryable E i r t" if "wf_status r = Run_RETRYING"
    using that live wd d row unfolding retryable_def still_live_def t'
    by (auto simp: run_at_def) (metis announceable_flush)
  moreover have "engine_run r" using live by (simp add: still_live_def run_at_def)
  ultimately show ?thesis using limit row ok' engine_inv.flushed [OF ok'] by (auto simp: t')
qed

lemma retries_come_to_rest:
  assumes "engine_ok s" "definitions_ok E" "retryable E i w s" "wf_max_attempts w - wf_attempts w \<le> int n"
  shows "\<exists>r. row (workflow_runs (retry_when_due E i n s)) i = Some r \<and> wf_status r \<noteq> Run_RETRYING \<and>
    wf_attempts r \<le> wf_max_attempts r"
  using assms
proof (induction n arbitrary: s w)
  case 0
  have "run_ok w" using 0 by (auto simp: retryable_def engine_ok_def dest: row_Some_iff)
  then show ?case using 0 by (simp add: retryable_def run_ok_def)
next
  case (Suc n)
  have mem: "w \<in> set (workflow_runs s)" "engine_run w" "wf_status w = Run_RETRYING" "row (workflow_runs s) i = Some w"
    using Suc.prems(3) by (auto simp: retryable_def dest: row_Some_iff)
  then have "run_ok w" using Suc.prems(1) by (simp add: engine_ok_def)
  then obtain due where due: "wf_next_retry_at w = Some due" using mem(3) by (auto simp: run_ok_def)
  let ?t = "snd (transaction (resume E i (Some due)) s)"
  have next_state: "retry_when_due E i (Suc n) s = retry_when_due E i n ?t" using mem(4) due by simp
  obtain r where r: "engine_ok ?t" "row (workflow_runs ?t) i = Some r" "wf_attempts r \<le> wf_max_attempts r"
    "wf_max_attempts r = wf_max_attempts w" "engine_run r" "wf_status r = Run_RETRYING \<longrightarrow> retryable E i r ?t \<and> wf_attempts r = wf_attempts w + 1"
    using retry_step [OF Suc.prems(1-3) due refl] by blast
  show ?case
  proof (cases "wf_status r = Run_RETRYING")
    case True
    then show ?thesis unfolding next_state using Suc.IH [OF r(1) Suc.prems(2)] r Suc.prems(4) by auto
  next
    case False
    have stay: "retry_when_due E i n ?t = ?t" if "wf_next_retry_at r = None"
      using that r(2) by (cases n) simp_all
    have "wf_next_retry_at r = None"
      using False r(1,2,5) by (auto simp: engine_ok_def run_ok_def dest: row_Some_iff)
    then show ?thesis unfolding next_state using r False stay by simp
  qed
qed

section \<open>A failing step leaves nothing\<close>

lemma attempt_atomic:
  assumes d: "leaves_runs d" and w: "run_at (row_id w) w others s"
    and ends: "\<And>reason t. f t = f s \<Longrightarrow> run_at (row_id w) (start_attempt now w) others t \<or> t = s \<Longrightarrow>
      wp (terminal_failure (row_id w) reason) (\<lambda>r t. P (wf_status r) \<longrightarrow> f t = f s) (\<lambda>_ _. True) t"
    and P: "\<not> P Run_SUCCEEDED" "\<not> P Run_PENDING"
    and f: "\<And>i f'. keeps f (set_workflow i f')" "\<And>i b a why. keeps f (audit_workflow i b a why)" "\<And>s. f (flush_db s) = f s"
      "\<And>s t. f (rollback_to s t) = f s"
  shows "wp (execute_workflow w d event now) (\<lambda>r t. P (wf_status r) \<longrightarrow> f t = f s) (\<lambda>_ _. True) s"
proof (cases "case wf_deadline_at w of None \<Rightarrow> False | Some deadline \<Rightarrow> deadline \<le> now")
  case True
  then show ?thesis using ends [of s] by (simp add: execute_workflow_def Let_def)
next
  case False
  let ?i = "row_id w" and ?w = "start_attempt now w" and ?Q = "\<lambda>r t. P (wf_status r) \<longrightarrow> f t = f s"
  have both: "wp m (\<lambda>_ t. run_at ?i v others t \<and> f t = f u) (\<lambda>_ _. True) u"
    if "wp m (\<lambda>_. run_at ?i v others) (\<lambda>_ _. True) u" "keeps f m" for m :: "unit op" and v u
    by (rule wp_mono, rule wp_conj, rule that(1), rule keeps_wp [OF that(2)]) auto
  have audit: "wp (audit_workflow ?i b a why) (\<lambda>_ t. run_at ?i v others t \<and> f t = f u) (\<lambda>_ _. True) u"
    if "run_at ?i v others u" for b a why v u
    by (rule both [OF audit_workflow_wp [OF that] f(2)])
  have store: "wp (set_workflow ?i g) (\<lambda>_ t. run_at ?i (g v) others t \<and> f t = f u) (\<lambda>_ _. True) u"
    if "run_at ?i v others u" "\<And>r. row_id (g r) = row_id r" "\<And>r. wf_workflow_name (g r) = wf_workflow_name r" for g v u
    by (rule both [OF wp_set_run [OF that] f(1)])
  have retries: "wp (attempt_failed ?i d now exc) ?Q (\<lambda>_ _. True) t" if t: "run_at ?i ?w others t" "f t = f s" for exc t
    unfolding attempt_failed_def
    apply (simp add: wp_bind wp_reload run_at_row [OF t(1)] wp_andthen ends t)
    apply (intro impI)
    apply (rule wp_mono, rule store [OF t(1)], simp, simp)
     apply (simp only: wp_andthen)
     apply (rule wp_mono, rule audit, erule conjunct1)
      apply (auto simp: wp_reload run_at_row t(2))
    done
  have returns: "wp (attempt_returned ?i now outcome) ?Q (\<lambda>_ _. True) t" if t: "run_at ?i ?w others t" for outcome t
    by (rule wp_mono, rule attempt_returned_wp [OF t]) (auto simp: returned_run_def Let_def P split: option.splits)
  have step: "wp (attempt (begin_nested (wd_step d event ?w)))
      (\<lambda>res t. run_at ?i ?w others t \<and> (\<forall>e. res = Inl e \<longrightarrow> f t = f s)) (\<lambda>_ _. True) t" if t: "run_at ?i ?w others t" "f t = f s" for t
    using step_run_at [OF d, of ?i ?w others "flush_db t" event ?w] run_at_rollback [of ?i ?w others "flush_db t"] t
    by (simp add: wp_attempt wp_begin_nested) (auto simp: wp_def f(3,4) split: sum.split prod.split)
  have tail: "wp (bind (reload workflow_runs ?i) (\<lambda>running. bind (attempt (begin_nested (wd_step d event running))) (\<lambda>result.
         case result of
           Inl exc \<Rightarrow> if exn_class exc = NonRetryableWorkflowError then terminal_failure ?i (exn_message exc)
                      else attempt_failed ?i d now exc
         | Inr outcome \<Rightarrow> attempt_returned ?i now
             (case outcome of None \<Rightarrow> completed ''completed'' [] | Some oc \<Rightarrow> oc)))) ?Q (\<lambda>_ _. True) t"
    if t: "run_at ?i ?w others t" "f t = f s" for t
    apply (subst wp_bind, simp add: wp_reload run_at_row [OF t(1)], subst wp_bind)
    apply (rule wp_mono, rule step [OF t])
    using ends retries returns by (auto split: sum.split)
  show ?thesis
    using False unfolding execute_workflow_def Let_def
    apply (simp add: wp_andthen)
    apply (rule wp_mono, rule store [OF w], simp, simp)
     apply (simp only: wp_flush wp_andthen)
     apply (rule wp_mono, rule audit, simp, erule conjunct1)
      apply (rule tail)
       apply (auto simp: f(3))
    done
qed

lemma terminal_keeps_outside:
  "f = outside_engine \<Longrightarrow> f t = f s \<Longrightarrow>
   wp (terminal_failure i reason) (\<lambda>r t. P (wf_status r) \<longrightarrow> f t = f s) (\<lambda>_ _. True) t"
  by (rule wp_mono, rule keeps_wp [where f = outside_engine], (intro keeps_intros)) auto

lemma keeps_outside_set [keeps_intros]: "keeps outside_engine (set_workflow i g)" "keeps domain_events (set_workflow i g)"
  "keeps domain_events (audit_workflow i b a why)"
  unfolding set_workflow_def audit_workflow_def by (intro keeps_intros; simp)+

lemma outside_rollback [simp]: "outside_engine (rollback_to s t) = outside_engine s"
  by (simp add: outside_engine_def business_def rollback_to_def)

lemma execute_atomic:
  assumes d: "leaves_runs d" and w: "run_at (row_id w) w others s"
  shows "wp (execute_workflow w d event now)
    (\<lambda>r t. (wf_status r \<in> {Run_RETRYING, Run_FAILED} \<longrightarrow> outside_engine t = outside_engine s) \<and>
       (wf_status r = Run_RETRYING \<longrightarrow> domain_events t = domain_events s)) (\<lambda>_ _. True) s"
proof (rule wp_mono, rule wp_conj)
  show "wp (execute_workflow w d event now) (\<lambda>r t. (wf_status r \<in> {Run_RETRYING, Run_FAILED}) \<longrightarrow> outside_engine t = outside_engine s) (\<lambda>_ _. True) s"
  proof (rule attempt_atomic [OF d w, where P = "\<lambda>st. st \<in> {Run_RETRYING, Run_FAILED}"])
    fix reason t
    assume "outside_engine t = outside_engine s"
    then show "wp (terminal_failure (row_id w) reason)
        (\<lambda>r u. wf_status r \<in> {Run_RETRYING, Run_FAILED} \<longrightarrow> outside_engine u = outside_engine s) (\<lambda>_ _. True) t"
      by (rule terminal_keeps_outside [OF refl])
  qed (auto intro: keeps_outside_set keeps_outside)
  show "wp (execute_workflow w d event now) (\<lambda>r t. (wf_status r = Run_RETRYING) \<longrightarrow> domain_events t = domain_events s) (\<lambda>_ _. True) s"
  proof (rule attempt_atomic [OF d w, where P = "\<lambda>st. st = Run_RETRYING"])
    fix reason t
    assume "run_at (row_id w) (start_attempt now w) others t \<or> t = s"
    then obtain v where "run_at (row_id w) v others t" using w by auto
    from terminal_failure_wp [OF this]
    show "wp (terminal_failure (row_id w) reason) (\<lambda>r u. wf_status r = Run_RETRYING \<longrightarrow> domain_events u = domain_events s) (\<lambda>_ _. True) t"
      by (rule wp_mono) (auto simp: failed_run_def)
  qed (auto intro: keeps_outside_set)
qed auto

lemma handle_event_atomic_wp:
  assumes ok: "engine_ok s" and E: "definitions_ok E" "find_definition E name = Inr d"
  shows "wp (handle_event E name event (Some now))
    (\<lambda>r t. (wf_status r \<in> {Run_RETRYING, Run_FAILED} \<longrightarrow> outside_engine t = outside_engine s) \<and>
       (wf_status r = Run_RETRYING \<longrightarrow> domain_events t = domain_events s)) (\<lambda>_ _. True) s"
proof -
  have d: "wd_name d = name" "leaves_runs d" using find_definition_ok [OF E] by auto
  let ?key = "workflow_key name (ee_event_id event)"
  note ok' = engine_inv.flushed [OF ok]
  let ?Q = "\<lambda>r t. (wf_status r \<in> {Run_RETRYING, Run_FAILED} \<longrightarrow> outside_engine t = outside_engine s) \<and>
       (wf_status r = Run_RETRYING \<longrightarrow> domain_events t = domain_events s)"
  show ?thesis
  proof (cases "find (\<lambda>w. wf_idempotency_key w = Some ?key) (workflow_runs s)")
    case (Some w)
    then have w: "w \<in> set (workflow_runs (flush_db s))" "engine_run w"
      using ok by (auto dest!: find_SomeD simp: engine_ok_def runs_ids_def)
    show ?thesis
      using execute_atomic [OF d(2) run_atI [OF ok' w], of event now] Some E(2) d(1)
      by (auto simp: handle_event_def time_or_now_def wp_simps Let_def elim!: wp_mono)
  next
    case None
    have queue: "wp (queue_run E d event ?key now) (\<lambda>w t. (\<exists>i c. w = queued_run E d event ?key now i c) \<and>
        run_at (row_id w) w (filter engine_run (workflow_runs s)) t \<and> outside_engine t = outside_engine s \<and>
        domain_events t = domain_events s) (\<lambda>_ _. True) (flush_db s)"
    proof (rule wp_mono, rule wp_conj, rule queue_run_wp [OF ok'], rule wp_conj)
      show "wp (queue_run E d event ?key now) (\<lambda>_ t. outside_engine t = outside_engine (flush_db s)) (\<lambda>_ _. True) (flush_db s)"
        by (rule wp_mono, rule keeps_wp [OF keeps_outside(5)]) auto
      have "keeps domain_events (queue_run E d event ?key now)"
        unfolding queue_run_def add_workflow_def by (intro keeps_intros keeps_outside_set; simp)
      then show "wp (queue_run E d event ?key now) (\<lambda>_ t. domain_events t = domain_events (flush_db s)) (\<lambda>_ _. True) (flush_db s)"
        by (rule wp_mono [OF keeps_wp]) auto
    qed auto
    have go: "wp (execute_workflow w d event now) ?Q (\<lambda>_ _. True) t"
      if "run_at (row_id w) w o' t" "outside_engine t = outside_engine s" "domain_events t = domain_events s" for w o' t
      by (rule wp_mono, rule execute_atomic [OF d(2) that(1)]) (use that in auto)
    show ?thesis
      using None E(2) d(1)
      apply (simp add: handle_event_def time_or_now_def wp_bind wp_of_result wp_ret wp_scalar Let_def)
      apply (rule wp_mono, rule queue)
       apply (elim conjE exE)
       apply (simp add: finished_def)
       apply (rule go [simplified], simp, simp, simp)
      apply simp
      done
  qed
qed

text \<open>Successive resumptions of a run that find its backoff elapsed and leave it retrying again.\<close>

fun retry_chain :: "WorkflowEngine \<Rightarrow> uuid \<Rightarrow> datetime list \<Rightarrow> db \<Rightarrow> bool" where
  "retry_chain E i [] s \<longleftrightarrow> True"
| "retry_chain E i (now # moments) s \<longleftrightarrow>
     (case Option.bind (row (workflow_runs s) i) wf_next_retry_at of None \<Rightarrow> False | Some due \<Rightarrow> due \<le> now) \<and>
     (case resume E i (Some now) s of
        (Inl e, t) \<Rightarrow> False
      | (Inr r, t) \<Rightarrow> wf_status r = Run_RETRYING \<and> retry_chain E i moments t)"

lemma retry_chain_bounded:
  assumes "engine_ok s" "definitions_ok E" "row (workflow_runs s) i = Some w" "engine_run w" "wf_status w = Run_RETRYING"
    and "retry_chain E i moments s"
  shows "int (length moments) < wf_max_attempts w - wf_attempts w"
  using assms
proof (induction moments arbitrary: s w)
  case Nil
  then have "run_ok w" by (auto simp: engine_ok_def dest: row_Some_iff)
  then show ?case using Nil by (simp add: run_ok_def)
next
  case (Cons now moments)
  obtain r t where r: "resume E i (Some now) s = (Inr r, t)" "wf_status r = Run_RETRYING" "retry_chain E i moments t"
    using Cons.prems(6) by (auto split: prod.splits sum.splits)
  have early: "\<not> too_early now w" using Cons.prems(3,6) by (auto simp: too_early_def split: option.splits)
  have "is_engine_run i s" using Cons.prems(3,4) by (auto simp: is_engine_run_def dest: row_Some_iff)
  then have step: "engine_ok t" "row (workflow_runs t) i = Some r" "is_engine_run i t" "\<exists>d. resumed d now (claimed_run w) r s"
    using wp_InrD [OF resume_wp [OF Cons.prems(1-4)] r(1)] early by auto
  have eng: "engine_run r"
    using step(1-3) ids_ok_row [of "next_id t" "workflow_runs t"] by (auto simp: is_engine_run_def engine_ok_def runs_ids_def)
  have "wf_max_attempts r = wf_max_attempts w \<and> wf_attempts r = wf_attempts w + 1"
    using step(4) r(2) unfolding resumed_def
    by (auto simp: failed_run_def returned_run_def retrying_run_def start_attempt_def Let_def elim!: attempt_result.cases split: option.splits)
  with Cons.IH [OF step(1) Cons.prems(2) step(2) eng r(2,3)] show ?case by simp
qed

section \<open>Properties\<close>

text \<open>A sample engine whose step raises, or returns, by the version of the event.\<close>

definition flaky_step :: WorkflowStep where
  "flaky_step event w = (if ee_aggregate_version event = 1 then throw (Exn ValueError ''down'')
     else ret (Some (completed ''done'' [])))"

definition flaky_definition :: WorkflowDefinition where
  "flaky_definition = \<lparr>wd_name = ''f'', wd_version = 1, wd_step = flaky_step,
     wd_policy = \<lparr>max_attempts = 2, timeout_seconds = 300, retry_delay_seconds = 30\<rparr>\<rparr>"

definition flaky_engine :: WorkflowEngine where
  "flaky_engine = \<lparr>we_uuid5 = (\<lambda>n. 77), we_definitions = [(''f'', flaky_definition)]\<rparr>"

definition flaky_event :: "int \<Rightarrow> EventEnvelope" where
  "flaky_event v = \<lparr>ee_event_id = 5, ee_event_type = ORDER_CANCELLED, ee_event_version = 1, ee_occurred_at = 0,
     ee_producer = ''p'', ee_aggregate_type = ''order'', ee_aggregate_id = 3, ee_aggregate_version = v, ee_correlation_id = 4,
     ee_workflow_id = None, ee_causation_id = None, ee_idempotency_key = ''k'', ee_data = OrderCancelledPayload 3 None\<rparr>"

definition flaky_db :: db where
  "flaky_db = (empty_db 0)\<lparr>next_id := 10, domain_events := [event_record (flaky_event 1)]\<rparr>"

lemma flaky_definitions_ok: "definitions_ok flaky_engine"
  by (auto simp: definitions_ok_def flaky_engine_def flaky_definition_def leaves_runs_def flaky_step_def run_simps)

lemma flaky_find: "find_definition flaky_engine ''f'' = Inr flaky_definition"
  by (simp add: find_definition_def flaky_engine_def)

lemma flaky_keeps: "keeps_announceable flaky_definition"
  by (simp add: keeps_announceable_def flaky_definition_def flaky_step_def run_simps)

lemma flaky_db_ok: "engine_ok flaky_db"
  by (simp add: engine_ok_def runs_ids_def flaky_db_def empty_db_def)

lemma flaky_deliver:
  "\<exists>r t. handle_event flaky_engine ''f'' (flaky_event 1) (Some 0) flaky_db = (Inr r, t) \<and> wf_status r = Run_RETRYING \<and>
     workflow_runs t = [r] \<and> row_id r = 10 \<and> wf_attempts r = 1 \<and> wf_max_attempts r = 2 \<and> wf_next_retry_at r = Some 30000000 \<and>
     wf_workflow_name r = ''orchestrator:f'' \<and> wf_waiting_approval_id r = None \<and> wf_source_event_id r = Some 5 \<and>
     domain_events t = [event_record (flaky_event 1)] \<and> versions t 10 = 2"
  unfolding handle_event_def execute_workflow_def queue_run_def attempt_failed_def
  by (simp add: run_simps flaky_find time_or_now_def flaky_db_def empty_db_def add_workflow_def queued_run_def Let_def
      audit_workflow_def flush_db_def row_def finished_def set_workflow_def update_rows_def start_attempt_def begin_nested_def
      flaky_step_def flaky_definition_def flaky_event_def rollback_to_def seconds_def engine_prefix_def)

lemma flaky_retrying:
  assumes "workflow_runs t = [r]" "row_id r = 10" "wf_status r = Run_RETRYING" "wf_workflow_name r = ''orchestrator:f''"
    "wf_waiting_approval_id r = None" "wf_source_event_id r = Some 5" "domain_events t = [event_record (flaky_event 1)]" "versions t 10 = 2"
  shows "retryable flaky_engine 10 r t"
proof -
  have "to_envelope (event_record (flaky_event 1)) = Inr (flaky_event 1)"
    by (rule to_envelope_record) (simp_all add: flaky_event_def)
  moreover have "announceable 10 5 (event_record (flaky_event 1)) t"
    using assms(7,8) by (simp add: announceable_def event_record_def aggregate_key_def flaky_event_def row_def)
  ultimately show ?thesis
    using assms(1-6) flaky_find flaky_keeps
    by (auto simp: retryable_def engine_run_def starts_with_def remove_prefix_def engine_prefix_def row_def)
qed

text \<open>
  C27: The runs of the engine stay well formed. Whatever events are delivered and retries made, in whatever order and at whatever
  times, succeeding or failing: every run has a source event, a deadline and a key of its own; it has a time for its next
  attempt exactly when it is retrying, and then attempts left; a failed or retrying run has an error, a finished one its time of
  completion.
\<close>
theorem engine_invariant:
  assumes "engine_ok s" and "definitions_ok E"
  shows "engine_ok (engine_inv.run_all (map (run_engine_call E) cs) s)"
  by (rule engine_inv.run_all_keeps [OF assms(1)]) (use assms(2) run_engine_call_keeps in \<open>auto\<close>)

theorem engine_invariant_witness:
  "engine_ok (engine_inv.run_all (map (run_engine_call flaky_engine)
     [Deliver ''f'' (flaky_event 1) (Some 0), Retry (Some 30000000) 100, Deliver ''f'' (flaky_event 1) None]) flaky_db)"
  by (rule engine_invariant [OF flaky_db_ok flaky_definitions_ok])

text \<open>
  C5: The engine refines the machine of a run. A delivery of its event to an unfinished run, and a resumption, is one move of
  the abstract machine \<open>run_move\<close>: wait, give up, or one more attempt that succeeds, suspends, fails for good or, with attempts left,
  is scheduled again after a delay that grows linearly.
\<close>
theorem engine_refines_run_machine:
  assumes "engine_ok s" and "definitions_ok E" and "row (workflow_runs s) i = Some w" and "engine_run w"
    and "find_definition E (remove_prefix engine_prefix (wf_workflow_name w)) = Inr d"
    and "call = resume E i (Some now) \<or> (\<exists>name event. call = handle_event E name event (Some now) \<and> find_definition E name = Inr d \<and>
       wf_idempotency_key w = Some (workflow_key name (ee_event_id event)) \<and> \<not> finished (wf_status w))"
    and "call s = (Inr r, t)"
  shows "row (workflow_runs t) i = Some r \<and> run_move (retry_delay_seconds (wd_policy d)) now (view_run w) (view_run r)"
  using assms(6)
proof (elim disjE exE conjE)
  assume "call = resume E i (Some now)"
  then show ?thesis
    using wp_InrD [OF resume_wp [OF assms(1-4)]] assms(5,7) resumed_move by (metis sum.inject(2))
next
  fix name event
  assume call: "call = handle_event E name event (Some now)" "find_definition E name = Inr d"
    "wf_idempotency_key w = Some (workflow_key name (ee_event_id event))" "\<not> finished (wf_status w)"
  have mem: "w \<in> set (workflow_runs s)" "row_id w = i" using assms(3) by (auto dest: row_Some_iff)
  then obtain v where v: "find (\<lambda>w. wf_idempotency_key w = Some (workflow_key name (ee_event_id event))) (workflow_runs s) = Some v"
    using call(3) by (cases "find (\<lambda>w. wf_idempotency_key w = Some (workflow_key name (ee_event_id event))) (workflow_runs s)")
      (auto simp: find_None_iff)
  then have "v \<in> set (workflow_runs s)" "wf_idempotency_key v = wf_idempotency_key w" "engine_run v"
    using call(3) assms(1) by (auto dest!: find_SomeD simp: engine_ok_def runs_ids_def)
  then have "v = w" using assms(1,4) mem(1) by (auto simp: engine_ok_def inj_on_def)
  then have "settled d now w r s t"
    using wp_InrD [OF handle_event_wp [OF assms(1,2) call(2), of event now]] assms(7) call(1,4) v by auto
  then show ?thesis using attempt_result_move mem(2) by (auto simp: settled_def)
qed

theorem engine_refines_run_machine_witness:
  "\<exists>w s r t. wf_status w = Run_RETRYING \<and> resume flaky_engine 10 (Some 30000000) s = (Inr r, t) \<and>
     row (workflow_runs t) 10 = Some r \<and> run_move 30 30000000 (view_run w) (view_run r)"
proof -
  obtain w s where w: "handle_event flaky_engine ''f'' (flaky_event 1) (Some 0) flaky_db = (Inr w, s)" "wf_status w = Run_RETRYING"
     "workflow_runs s = [w]" "row_id w = 10" "wf_next_retry_at w = Some 30000000"
     "wf_workflow_name w = ''orchestrator:f''" "wf_waiting_approval_id w = None" "wf_source_event_id w = Some 5"
     "domain_events s = [event_record (flaky_event 1)]" "versions s 10 = 2"
    using flaky_deliver by blast
  have ok: "engine_ok s"
    using run_engine_call_keeps [OF flaky_db_ok flaky_definitions_ok, of "Deliver ''f'' (flaky_event 1) (Some 0)" "()" s] w(1)
    by (simp add: bind_Inr run_simps)
  have able: "retryable flaky_engine 10 w s" by (rule flaky_retrying) (use w in simp_all)
  have def: "find_definition flaky_engine (remove_prefix engine_prefix (wf_workflow_name w)) = Inr flaky_definition"
    using w(6) flaky_find by (simp add: remove_prefix_def starts_with_def engine_prefix_def)
  obtain r t where r: "resume flaky_engine 10 (Some 30000000) s = (Inr r, t)"
    using resume_live [OF ok flaky_definitions_ok able w(5)] by blast
  have row: "row (workflow_runs s) 10 = Some w" "engine_run w" using able by (simp_all add: retryable_def)
  have "row (workflow_runs t) 10 = Some r \<and> run_move (retry_delay_seconds (wd_policy flaky_definition)) 30000000 (view_run w) (view_run r)"
    by (rule engine_refines_run_machine [where call = "resume flaky_engine 10 (Some 30000000)" and s = s, OF ok flaky_definitions_ok row def disjI1 r])
      (rule refl)
  then show ?thesis using w(2) r by (auto simp: flaky_definition_def)
qed

text \<open>
  C22: A retrying run comes to rest. When the terminal failure of a run was not announced yet, its source event is in the store and
  the step leaves both so, then resuming it each time its backoff has elapsed ends, within the attempts left, in
  a run that is not retrying and has not used more attempts than its policy grants, whatever the step does.
\<close>
theorem retrying_run_comes_to_rest:
  assumes "engine_ok s" and "definitions_ok E" and "retryable E i w s" and "wf_max_attempts w - wf_attempts w \<le> int n"
  shows "\<exists>r. row (workflow_runs (retry_when_due E i n s)) i = Some r \<and> wf_status r \<noteq> Run_RETRYING \<and>
    wf_attempts r \<le> wf_max_attempts r"
  using assms by (rule retries_come_to_rest)

theorem retrying_run_comes_to_rest_witness:
  "\<exists>w s r. handle_event flaky_engine ''f'' (flaky_event 1) (Some 0) flaky_db = (Inr w, s) \<and> wf_status w = Run_RETRYING \<and>
     row (workflow_runs (retry_when_due flaky_engine 10 1 s)) 10 = Some r \<and> wf_status r \<noteq> Run_RETRYING"
proof -
  obtain w s where w: "handle_event flaky_engine ''f'' (flaky_event 1) (Some 0) flaky_db = (Inr w, s)" "wf_status w = Run_RETRYING"
     "workflow_runs s = [w]" "row_id w = 10" "wf_attempts w = 1" "wf_max_attempts w = 2"
     "wf_workflow_name w = ''orchestrator:f''" "wf_waiting_approval_id w = None" "wf_source_event_id w = Some 5"
     "domain_events s = [event_record (flaky_event 1)]" "versions s 10 = 2"
    using flaky_deliver by blast
  have ok: "engine_ok s"
    using run_engine_call_keeps [OF flaky_db_ok flaky_definitions_ok, of "Deliver ''f'' (flaky_event 1) (Some 0)" "()" s] w(1)
    by (simp add: bind_Inr run_simps)
  have able: "retryable flaky_engine 10 w s" by (rule flaky_retrying) (use w in simp_all)
  show ?thesis
    using retrying_run_comes_to_rest [OF ok flaky_definitions_ok able, of 1] w(1,2,5,6) by auto
qed





text \<open>
  A redelivered event does not run a finished workflow again: the stored run is returned and no table changes.
\<close>
theorem finished_run_not_repeated:
  assumes "engine_ok s" and "definitions_ok E" and "find_definition E name = Inr d" and "w \<in> set (workflow_runs s)"
    and "wf_idempotency_key w = Some (workflow_key name (ee_event_id event))" and "finished (wf_status w)"
  shows "handle_event E name event (Some now) s = (Inr w, flush_db s)"
proof -
  have "find (\<lambda>w. wf_idempotency_key w = Some (workflow_key name (ee_event_id event))) (workflow_runs s) \<noteq> None"
    using assms(4,5) by (auto simp: find_None_iff)
  then obtain v where v: "find (\<lambda>w. wf_idempotency_key w = Some (workflow_key name (ee_event_id event))) (workflow_runs s) = Some v"
    by auto
  then have "v \<in> set (workflow_runs s)" "wf_idempotency_key v = wf_idempotency_key w" "engine_run v" "engine_run w"
    using assms(1,4,5) by (auto dest!: find_SomeD simp: engine_ok_def runs_ids_def)
  then have "v = w" using assms(1,4) by (auto simp: engine_ok_def inj_on_def)
  moreover have "wd_name d = name" using find_definition_ok [OF assms(2,3)] by simp
  ultimately show ?thesis
    using v assms(3,6) by (simp add: handle_event_def time_or_now_def run_simps Let_def)
qed

theorem finished_run_not_repeated_witness:
  "handle_event flaky_engine ''f'' (flaky_event 2) (Some 5)
     (flaky_db\<lparr>workflow_runs := [(queued_run flaky_engine flaky_definition (flaky_event 2) (workflow_key ''f'' 5) 0 6 0)
        \<lparr>wf_status := Run_SUCCEEDED, wf_completed_at := Some 0\<rparr>]\<rparr>) =
   (Inr ((queued_run flaky_engine flaky_definition (flaky_event 2) (workflow_key ''f'' 5) 0 6 0)
        \<lparr>wf_status := Run_SUCCEEDED, wf_completed_at := Some 0\<rparr>),
    flush_db (flaky_db\<lparr>workflow_runs := [(queued_run flaky_engine flaky_definition (flaky_event 2) (workflow_key ''f'' 5) 0 6 0)
        \<lparr>wf_status := Run_SUCCEEDED, wf_completed_at := Some 0\<rparr>]\<rparr>))"
  by (rule finished_run_not_repeated [OF _ flaky_definitions_ok flaky_find])
    (simp_all add: engine_ok_def runs_ids_def ids_ok_def flaky_db_def queued_run_def flaky_definition_def engine_run_def
      starts_with_def engine_prefix_def run_ok_def flaky_event_def finished_def inj_on_def)

end
