(* ===== verification/Event_Processor.thy ===== *)
theory Event_Processor
  imports Event_Store Registry
begin

text \<open>
  \<open>events/handlers.py\<close> and \<open>events/processor.py\<close>: the registry of handlers and the processor that runs
  every handler of an event at most once.

  Each handler runs in a transaction of its own that first writes a receipt: the effects of the
  handler and its receipt are committed together or not at all. A failing handler stops the event;
  the failure is recorded on the event, and the next run skips the handlers that have a receipt.
\<close>

section \<open>Handlers\<close>

record RegisteredHandler =
  handler_name :: string
  handler_event_type :: EventType
  handler_callback :: "EventEnvelope \<Rightarrow> unit op"

record EventHandlerRegistry =
  handlers :: "EventType \<Rightarrow> RegisteredHandler list"
  handler_names :: "string set"

definition empty_registry :: EventHandlerRegistry where
  "empty_registry = \<lparr>handlers = (\<lambda>_. []), handler_names = {}\<rparr>"

definition register_handler ::
  "EventType \<Rightarrow> string \<Rightarrow> (EventEnvelope \<Rightarrow> unit op) \<Rightarrow> EventHandlerRegistry \<Rightarrow> exn + EventHandlerRegistry"
  where
  "register_handler event_type name callback reg =
     (if name \<in> handler_names reg
      then Inl (Exn ValueError (''Event handler name must be globally unique: '' @ name))
      else Inr (reg\<lparr>handler_names := insert name (handler_names reg),
                    handlers := (handlers reg)(event_type := handlers reg event_type @
                      [\<lparr>handler_name = name, handler_event_type = event_type,
                        handler_callback = callback\<rparr>])\<rparr>))"

definition handlers_for :: "EventHandlerRegistry \<Rightarrow> EventType \<Rightarrow> RegisteredHandler list" where
  "handlers_for reg event_type = handlers reg event_type"

text \<open>The names are those of the handlers, each once.\<close>

definition registry_ok :: "EventHandlerRegistry \<Rightarrow> bool" where
  "registry_ok reg \<longleftrightarrow>
     handler_names reg = (\<Union>t \<in> set all_event_types. handler_name ` set (handlers reg t)) \<and>
     distinct (concat (map (\<lambda>t. map handler_name (handlers reg t)) all_event_types)) \<and>
     (\<forall>t. \<forall>h \<in> set (handlers reg t). handler_event_type h = t)"

definition find_handler :: "EventHandlerRegistry \<Rightarrow> string \<Rightarrow> (EventType \<times> (EventEnvelope \<Rightarrow> unit op)) option" where
  "find_handler reg name =
     map_option (\<lambda>h. (handler_event_type h, handler_callback h))
       (find (\<lambda>h. handler_name h = name) (concat (map (handlers reg) all_event_types)))"

section \<open>The processor\<close>

record ProcessingResult =
  result_event_id :: uuid
  handlers_processed :: nat
  handlers_skipped :: nat

definition process_handler :: "uuid \<Rightarrow> RegisteredHandler \<Rightarrow> bool op" where
  "process_handler event_id handler =
     transaction
       (bind (scalar domain_events (\<lambda>e. row_id e = event_id)) (\<lambda>found.
        bind (the_or (Exn EventNotFoundError (uuid_str event_id)) found) (\<lambda>stored.
        bind (scalar handler_receipts
                (\<lambda>r. hr_event_id r = event_id \<and> hr_handler_name r = handler_name handler)) (\<lambda>receipt.
        if receipt \<noteq> None then ret False
        else
          bind new_uuid (\<lambda>receipt_id.
          bind now_utc (\<lambda>now.
          andthen (add_row handler_receipts_update
            \<lparr>row_id = receipt_id, row_created_at = now, hr_event_id = event_id,
             hr_handler_name = handler_name handler, hr_status = Receipt_COMPLETED\<rparr>)
          (andthen flush
          (bind (of_result (to_envelope stored)) (\<lambda>envelope.
           andthen (handler_callback handler envelope) (ret True))))))))))"

definition record_failure :: "uuid \<Rightarrow> string \<Rightarrow> exn \<Rightarrow> unit op" where
  "record_failure event_id name exc =
     transaction
       (bind (get_row domain_events event_id) (\<lambda>found.
        whenM (found \<noteq> None)
          (set_row domain_events domain_events_update event_id
            (\<lambda>e. e\<lparr>ev_processing_attempts := ev_processing_attempts e + 1,
                   ev_publication_status := Event_FAILED,
                   ev_last_error := Some (take 4000 (name @ '': '' @ class_name (exn_class exc) @ '': '' @
                                      exn_message exc))\<rparr>))))"

definition mark_complete :: "uuid \<Rightarrow> unit op" where
  "mark_complete event_id =
     transaction
       (bind (get_row domain_events event_id) (\<lambda>found.
        bind (the_or (Exn EventNotFoundError (uuid_str event_id)) found) (\<lambda>_.
        set_row domain_events domain_events_update event_id
          (\<lambda>e. e\<lparr>ev_processing_attempts := ev_processing_attempts e + 1,
                 ev_publication_status := Event_PUBLISHED, ev_last_error := None\<rparr>))))"

text \<open>\<open>EventProcessingError(event_id, handler_name)\<close>\<close>

definition processing_error :: "uuid \<Rightarrow> string \<Rightarrow> exn" where
  "processing_error event_id name =
     Exn EventProcessingError (''Event '' @ uuid_str event_id @ '' failed in handler '' @ name)"

text \<open>The loop over the handlers, with the counters \<open>processed\<close> and \<open>skipped\<close>.\<close>

fun run_handlers :: "uuid \<Rightarrow> RegisteredHandler list \<Rightarrow> nat \<Rightarrow> nat \<Rightarrow> (nat \<times> nat) op" where
  "run_handlers event_id [] processed skipped = ret (processed, skipped)"
| "run_handlers event_id (h # hs) processed skipped =
     bind (attempt (process_handler event_id h)) (\<lambda>outcome.
     case outcome of
       Inl exc \<Rightarrow> andthen (record_failure event_id (handler_name h) exc)
                    (throw (processing_error event_id (handler_name h)))
     | Inr handled \<Rightarrow> if handled then run_handlers event_id hs (processed + 1) skipped
                      else run_handlers event_id hs processed (skipped + 1))"

definition process_event :: "EventHandlerRegistry \<Rightarrow> uuid \<Rightarrow> ProcessingResult op" where
  "process_event reg event_id =
     bind (get_row domain_events event_id) (\<lambda>found.
     bind (the_or (Exn EventNotFoundError (uuid_str event_id)) found) (\<lambda>stored.
     bind (of_result (to_envelope stored)) (\<lambda>envelope.
     bind (run_handlers event_id (handlers_for reg (ee_event_type envelope)) 0 0) (\<lambda>(processed, skipped).
     andthen (mark_complete event_id)
     (ret \<lparr>result_event_id = event_id, handlers_processed = processed, handlers_skipped = skipped\<rparr>)))))"

section \<open>The registry meets its contract\<close>

lemma all_event_types_complete: "t \<in> set all_event_types"
  by (cases t) (simp_all add: all_event_types_def)

lemma distinct_all_event_types: "distinct all_event_types"
  by (simp add: all_event_types_def)

lemma find_key: "distinct (map k xs) \<Longrightarrow> x \<in> set xs \<Longrightarrow> find (\<lambda>y. k y = k x) xs = Some x"
  by (induction xs) (auto simp: image_iff)

lemma distinct_concat_extend:
  assumes "distinct (concat (map g ts))" "distinct ts" "x \<notin> set (concat (map g ts))"
  shows "distinct (concat (map (g(t := g t @ [x])) ts))"
  using assms
proof (induction ts)
  case Nil
  then show ?case by simp
next
  case (Cons u ts)
  have same: "t \<notin> set ts \<Longrightarrow> map (g(t := g t @ [x])) ts = map g ts" by (rule map_cong) auto
  have sub: "set (concat (map (g(t := g t @ [x])) ts)) \<subseteq> insert x (set (concat (map g ts)))" by auto
  show ?case
  proof (cases "u = t")
    case True
    with Cons.prems same show ?thesis by (auto simp del: fun_upd_apply simp: fun_upd_same)
  next
    case False
    with Cons sub show ?thesis by auto
  qed
qed

lemma registered_names:
  "registry_ok reg \<Longrightarrow> handler_names reg = set (concat (map (\<lambda>t. map handler_name (handlers reg t)) all_event_types))"
  by (auto simp: registry_ok_def)

lemma find_handler_Some:
  assumes "registry_ok reg"
  shows "find_handler reg name = Some (t, cb) \<longleftrightarrow>
    \<lparr>handler_name = name, handler_event_type = t, handler_callback = cb\<rparr> \<in> set (handlers reg t)"
    (is "_ \<longleftrightarrow> ?h \<in> _")
proof
  assume "find_handler reg name = Some (t, cb)"
  then obtain h where h: "find (\<lambda>h. handler_name h = name) (concat (map (handlers reg) all_event_types)) = Some h"
      "handler_event_type h = t" "handler_callback h = cb"
    by (auto simp: find_handler_def)
  then obtain u where "handler_name h = name" and u: "h \<in> set (handlers reg u)" by (auto dest!: find_SomeD)
  then have "h = ?h" using h(2,3) by (cases h) simp
  moreover have "u = t" using assms u h(2) by (simp add: registry_ok_def)
  ultimately show "?h \<in> set (handlers reg t)" using u by simp
next
  assume h: "?h \<in> set (handlers reg t)"
  have "distinct (map handler_name (concat (map (handlers reg) all_event_types)))"
    using assms by (simp add: registry_ok_def map_concat comp_def)
  moreover have "?h \<in> set (concat (map (handlers reg) all_event_types))"
    using h all_event_types_complete by auto
  ultimately have "find (\<lambda>h. handler_name h = handler_name ?h) (concat (map (handlers reg) all_event_types)) = Some ?h"
    by (rule find_key)
  then show "find_handler reg name = Some (t, cb)" by (simp add: find_handler_def)
qed

lemma find_handler_None:
  assumes "registry_ok reg" shows "find_handler reg name = None \<longleftrightarrow> name \<notin> handler_names reg"
  using assms by (fastforce simp: find_handler_def registry_ok_def find_None_iff)

lemma register_handler_ok:
  assumes ok: "registry_ok reg" and new: "name \<notin> handler_names reg"
    and r: "register_handler t name cb reg = Inr reg'"
  shows "registry_ok reg'"
proof -
  let ?g = "\<lambda>u. map handler_name (handlers reg u)"
  have reg': "handler_names reg' = insert name (handler_names reg)"
    "handlers reg' = (handlers reg)(t := handlers reg t @
       [\<lparr>handler_name = name, handler_event_type = t, handler_callback = cb\<rparr>])"
    using r new by (auto simp: register_handler_def)
  have g': "(\<lambda>u. map handler_name (handlers reg' u)) = ?g(t := ?g t @ [name])" by (auto simp: reg')
  have "distinct (concat (map (\<lambda>u. map handler_name (handlers reg' u)) all_event_types))"
    unfolding g' using ok new distinct_all_event_types
    by (intro distinct_concat_extend) (simp_all add: registry_ok_def)
  moreover have "handler_names reg' = (\<Union>u \<in> set all_event_types. handler_name ` set (handlers reg' u))"
  proof -
    have "handler_name ` set (handlers reg' u) =
        handler_name ` set (handlers reg u) \<union> (if u = t then {name} else {})" for u
      by (auto simp: reg')
    then have "(\<Union>u \<in> set all_event_types. handler_name ` set (handlers reg' u)) =
        insert name (\<Union>u \<in> set all_event_types. handler_name ` set (handlers reg u))"
      using all_event_types_complete [of t] by (auto split: if_splits)
    with ok show ?thesis by (simp add: reg'(1) registry_ok_def)
  qed
  moreover have "\<forall>u. \<forall>h \<in> set (handlers reg' u). handler_event_type h = u"
    using ok by (auto simp: reg' registry_ok_def)
  ultimately show ?thesis by (simp add: registry_ok_def)
qed

interpretation handler_registry: keyed_registry registry_ok
  "\<lambda>name (t, cb). register_handler t name cb" find_handler
proof
  fix reg name and v :: "EventType \<times> (EventEnvelope \<Rightarrow> unit op)"
  assume ok: "registry_ok reg" and none: "find_handler reg name = None"
  obtain t cb where v: "v = (t, cb)" by force
  have new: "name \<notin> handler_names reg" using find_handler_None [OF ok] none by blast
  then obtain reg' where r: "register_handler t name cb reg = Inr reg'" by (simp add: register_handler_def)
  note ok' = register_handler_ok [OF ok new r]
  have hs: "handlers reg' = (handlers reg)(t := handlers reg t @
       [\<lparr>handler_name = name, handler_event_type = t, handler_callback = cb\<rparr>])"
    using r new by (auto simp: register_handler_def)
  have "find_handler reg' = (find_handler reg)(name \<mapsto> v)"
  proof (rule ext)
    fix n
    have "find_handler reg' n = Some w \<longleftrightarrow> ((find_handler reg)(name \<mapsto> v)) n = Some w" for w
      using none by (cases w) (auto simp: find_handler_Some [OF ok'] find_handler_Some [OF ok, symmetric] hs v)
    then show "find_handler reg' n = ((find_handler reg)(name \<mapsto> v)) n" by (metis not_None_eq)
  qed
  with r ok' show "\<exists>r'. (case v of (t, cb) \<Rightarrow> register_handler t name cb) reg = Inr r' \<and> registry_ok r' \<and>
      find_handler r' = (find_handler reg)(name \<mapsto> v)" by (simp add: v)
next
  fix reg name w and v :: "EventType \<times> (EventEnvelope \<Rightarrow> unit op)"
  assume "registry_ok reg" "find_handler reg name = Some w"
  then have "name \<in> handler_names reg" using find_handler_None [of reg name] by simp
  then show "\<exists>m. (case v of (t, cb) \<Rightarrow> register_handler t name cb) reg = Inl (Exn ValueError m)"
    by (cases v) (simp add: register_handler_def)
qed

section \<open>One handler\<close>

definition handled :: "uuid \<Rightarrow> string \<Rightarrow> db \<Rightarrow> bool" where
  "handled event_id name s \<longleftrightarrow> (\<exists>r \<in> set (handler_receipts s). hr_event_id r = event_id \<and> hr_handler_name r = name)"

text \<open>Everything the database holds beside the events: what the effects of a handler are.\<close>

definition apart_from_events :: "db \<Rightarrow> db" where
  "apart_from_events s = s\<lparr>clock := 0, next_id := 0, pending_rows := [], dirty_rows := [],
     versions := (\<lambda>_. 0), domain_events := []\<rparr>"

definition stored_envelope :: "uuid \<Rightarrow> db \<Rightarrow> (exn + EventEnvelope) option" where
  "stored_envelope event_id s = map_option to_envelope (row (domain_events s) event_id)"

lemma apart_simps [simp]:
  "apart_from_events (flush_db s) = apart_from_events s"
  "apart_from_events (rollback_to s t) = apart_from_events s"
  "apart_from_events (domain_events_update f s) = apart_from_events s"
  "apart_from_events (dirty_rows_update g s) = apart_from_events s"
  "apart_from_events (pending_rows_update g s) = apart_from_events s"
  "apart_from_events (next_id_update h s) = apart_from_events s"
  by (simp_all add: apart_from_events_def flush_db_def rollback_to_def)

lemma apart_receipts: "apart_from_events s = apart_from_events t \<Longrightarrow> handler_receipts s = handler_receipts t"
  by (drule arg_cong [where f = handler_receipts]) (simp add: apart_from_events_def)

lemma handled_simps [simp]:
  "handled i n (flush_db s) = handled i n s"
  "handled i n (rollback_to s t) = handled i n s"
  "handled i n (dirty_rows_update g (domain_events_update f s)) = handled i n s"
  by (simp_all add: handled_def)

lemma handled_iff: "handled i n s \<longleftrightarrow>
    find (\<lambda>r. hr_event_id r = i \<and> hr_handler_name r = n) (handler_receipts s) \<noteq> None"
  by (auto simp: handled_def find_None_iff)

lemma handled_apart: "apart_from_events s = apart_from_events t \<Longrightarrow> handled i n s = handled i n t"
  by (drule apart_receipts) (simp add: handled_def)

text \<open>The session in which the callback of a handler runs: the receipt is written.\<close>

definition with_receipt :: "uuid \<Rightarrow> string \<Rightarrow> db \<Rightarrow> db" where
  "with_receipt i n s = flush_db (pending_rows_update ((#) (next_id s))
     (handler_receipts_update (\<lambda>rs. rs @ [\<lparr>row_id = next_id s, row_created_at = clock s, hr_event_id = i,
             hr_handler_name = n, hr_status = Receipt_COMPLETED\<rparr>])
       ((flush_db s)\<lparr>next_id := next_id s + 1\<rparr>)))"

lemma process_handler_fresh:
  assumes "row (domain_events s) i = Some e" "\<not> handled i (handler_name h) s"
  shows "process_handler i h s = (case to_envelope e of
          Inl x \<Rightarrow> (Inl x, rollback_to s (with_receipt i (handler_name h) s))
        | Inr env \<Rightarrow> (case handler_callback h env (with_receipt i (handler_name h) s) of
            (Inl x, v) \<Rightarrow> (Inl x, rollback_to s v) | (Inr y, v) \<Rightarrow> (Inr True, flush_db v)))"
  using assms
  by (simp add: process_handler_def transaction_def run_simps row_def handled_iff with_receipt_def
      split: sum.splits prod.splits)

lemma process_handler_cases:
  assumes "process_handler i h s = (r, t)"
  obtains
    (failed) exc where "r = Inl exc" "apart_from_events t = apart_from_events s" "domain_events t = domain_events s"
  | (skipped) "r = Inr False" "handled i (handler_name h) s" "apart_from_events t = apart_from_events s"
      "domain_events t = domain_events s"
  | (ran) envelope u v where "r = Inr True" "\<not> handled i (handler_name h) s"
      "handler_callback h envelope u = (Inr (), v)" "t = flush_db v"
      "stored_envelope i s = Some (Inr envelope)" "domain_events u = domain_events s"
      "\<exists>rid. handler_receipts u = handler_receipts s @ [\<lparr>row_id = rid, row_created_at = clock s,
         hr_event_id = i, hr_handler_name = handler_name h, hr_status = Receipt_COMPLETED\<rparr>]"
proof -
  let ?find = "find (\<lambda>r. hr_event_id r = i \<and> hr_handler_name r = handler_name h) (handler_receipts s)"
  show thesis
  proof (cases "row (domain_events s) i")
    case None
    with assms show thesis
      by (intro failed) (auto simp: process_handler_def transaction_def run_simps row_def)
  next
    case (Some e)
    show thesis
    proof (cases "?find")
      case (Some rc)
      with \<open>row (domain_events s) i = Some e\<close> assms show thesis
        by (intro skipped) (auto simp: process_handler_def transaction_def run_simps row_def handled_iff)
    next
      case None
      let ?u = "with_receipt i (handler_name h) s"
      note eq = process_handler_fresh [OF Some, of h]
      show thesis
      proof (cases "to_envelope e")
        case (Inl x)
        with eq None assms show thesis by (intro failed) (auto simp: handled_iff)
      next
        case (Inr env)
        show thesis
        proof (cases "handler_callback h env ?u")
          case (Pair y v)
          show thesis
          proof (cases y)
            case (Inl x)
            with eq None assms Pair \<open>to_envelope e = Inr env\<close> show thesis
              by (intro failed) (auto simp: handled_iff)
          next
            case (Inr z)
            with eq assms Pair \<open>to_envelope e = Inr env\<close> None Some show thesis
              by (intro ran [of env ?u v]) (auto simp: handled_iff stored_envelope_def with_receipt_def)
          qed
        qed
      qed
    qed
  qed
qed

lemma process_handler_skip:
  assumes "stored_envelope i s \<noteq> None" "handled i (handler_name h) s"
  shows "\<exists>t. process_handler i h s = (Inr False, t) \<and> apart_from_events t = apart_from_events s \<and>
    domain_events t = domain_events s"
  using assms
  by (auto simp: process_handler_def transaction_def run_simps stored_envelope_def row_def handled_iff)

section \<open>The loop\<close>

text \<open>A handler leaves receipts and the identity of the event alone.\<close>

definition well_behaved :: "uuid \<Rightarrow> RegisteredHandler \<Rightarrow> bool" where
  "well_behaved event_id h \<longleftrightarrow> (\<forall>env. keeps handler_receipts (handler_callback h env) \<and>
     keeps (stored_envelope event_id) (handler_callback h env))"

lemma stored_envelope_simps [simp]:
  "stored_envelope i (flush_db s) = stored_envelope i s"
  "domain_events s = domain_events t \<Longrightarrow> stored_envelope i s = stored_envelope i t \<longleftrightarrow> True"
  by (simp_all add: stored_envelope_def)

lemma process_handler_effect:
  assumes "process_handler i h s = (r, t)" "well_behaved i h"
  shows "stored_envelope i t = stored_envelope i s" "handled i n s \<Longrightarrow> handled i n t"
    "r = Inr b \<Longrightarrow> handled i (handler_name h) t"
proof -
  have "stored_envelope i t = stored_envelope i s \<and> (handled i n s \<longrightarrow> handled i n t) \<and>
      (\<forall>b. r = Inr b \<longrightarrow> handled i (handler_name h) t)"
    using assms(1)
  proof (cases rule: process_handler_cases)
    case (ran envelope u v)
    have "handler_receipts v = handler_receipts u" "stored_envelope i v = stored_envelope i u"
      using assms(2) ran(3) by (auto simp: well_behaved_def dest: keepsD)
    moreover have "stored_envelope i u = stored_envelope i s" using ran(6) by (simp add: stored_envelope_def)
    ultimately show ?thesis using ran(4,7) by (auto simp: handled_def)
  next
    case (failed exc)
    then show ?thesis using handled_apart [OF failed(2)] by (simp add: stored_envelope_def)
  next
    case skipped
    then show ?thesis using handled_apart [OF skipped(3)] by (auto simp: stored_envelope_def)
  qed
  then show "stored_envelope i t = stored_envelope i s" "handled i n s \<Longrightarrow> handled i n t"
    "r = Inr b \<Longrightarrow> handled i (handler_name h) t" by blast+
qed

lemma run_handlers_Inr:
  assumes "run_handlers i hs p k s = (Inr (p', k'), t)" "\<forall>h \<in> set hs. well_behaved i h"
  shows "(\<forall>h \<in> set hs. handled i (handler_name h) t) \<and> (\<forall>n. handled i n s \<longrightarrow> handled i n t) \<and>
    stored_envelope i t = stored_envelope i s \<and> p' + k' = p + k + length hs"
  using assms
proof (induction hs arbitrary: p k s)
  case Nil
  then show ?case by (simp add: run_simps)
next
  case (Cons h hs)
  obtain r u where h: "process_handler i h s = (r, u)" by force
  obtain b where r: "r = Inr b"
    using Cons.prems(1) h by (cases r) (auto simp: bind_apply attempt_apply andthen_apply throw_apply split: sum.splits)
  note e = process_handler_effect [OF h, unfolded r]
  have rest: "run_handlers i hs (if b then p + 1 else p) (if b then k else k + 1) u = (Inr (p', k'), t)"
    using Cons.prems(1) h r by (simp add: bind_apply attempt_apply split: if_splits)
  show ?case
    using Cons.IH [OF rest] Cons.prems(2) e by (auto split: if_splits)
qed

lemma run_handlers_skip:
  assumes "\<forall>h \<in> set hs. handled i (handler_name h) s" "stored_envelope i s \<noteq> None"
  shows "\<exists>t. run_handlers i hs p k s = (Inr (p, k + length hs), t) \<and>
    apart_from_events t = apart_from_events s \<and> domain_events t = domain_events s"
  using assms
proof (induction hs arbitrary: k s)
  case Nil
  then show ?case by (simp add: run_simps)
next
  case (Cons h hs)
  then obtain u where u: "process_handler i h s = (Inr False, u)" "apart_from_events u = apart_from_events s"
      "domain_events u = domain_events s"
    using process_handler_skip [of i s h] by auto
  then have "\<forall>h \<in> set hs. handled i (handler_name h) u" "stored_envelope i u \<noteq> None"
    using Cons.prems by (auto simp: handled_def stored_envelope_def dest: apart_receipts)
  with Cons.IH [of u "k + 1"] u show ?case by (auto simp: bind_apply attempt_apply)
qed

lemma record_failure_total: "\<exists>t. record_failure i n x s = (Inr (), t)"
  by (cases "row (domain_events s) i") (simp_all add: record_failure_def transaction_def run_simps)

lemma run_handlers_Inl:
  assumes "run_handlers i hs p k s = (Inl exc, t)"
  shows "\<exists>hs1 h hs2 c u v x. hs = hs1 @ h # hs2 \<and> run_handlers i hs1 p k s = (Inr c, u) \<and>
    exc = processing_error i (handler_name h) \<and> apart_from_events v = apart_from_events u \<and>
    domain_events v = domain_events u \<and> record_failure i (handler_name h) x v = (Inr (), t)"
  using assms
proof (induction hs arbitrary: p k s)
  case Nil
  then show ?case by (simp add: run_simps)
next
  case (Cons h hs)
  obtain r u where h: "process_handler i h s = (r, u)" by force
  show ?case
  proof (cases r)
    case (Inl x)
    have same: "apart_from_events u = apart_from_events s \<and> domain_events u = domain_events s"
      using h unfolding Inl by (cases rule: process_handler_cases) auto
    obtain w where rf: "record_failure i (handler_name h) x u = (Inr (), w)"
      using record_failure_total by blast
    have "exc = processing_error i (handler_name h)" "w = t"
      using Cons.prems h Inl rf by (simp_all add: bind_apply attempt_apply andthen_apply throw_apply)
    with same rf have "h # hs = [] @ h # hs \<and> run_handlers i [] p k s = (Inr (p, k), s) \<and>
        exc = processing_error i (handler_name h) \<and> apart_from_events u = apart_from_events s \<and>
        domain_events u = domain_events s \<and> record_failure i (handler_name h) x u = (Inr (), t)"
      by (simp add: run_simps)
    then show ?thesis by blast
  next
    case (Inr b)
    have "run_handlers i hs (if b then p + 1 else p) (if b then k else k + 1) u = (Inl exc, t)"
      using Cons.prems h Inr by (simp add: bind_apply attempt_apply split: if_splits)
    from Cons.IH [OF this] obtain hs1 g hs2 c w v x where w: "hs = hs1 @ g # hs2"
      "run_handlers i hs1 (if b then p + 1 else p) (if b then k else k + 1) u = (Inr c, w)"
      and rest: "exc = processing_error i (handler_name g)" "apart_from_events v = apart_from_events w"
      "domain_events v = domain_events w" "record_failure i (handler_name g) x v = (Inr (), t)"
      by blast
    have "h # hs = (h # hs1) @ g # hs2" "run_handlers i (h # hs1) p k s = (Inr c, w)"
      using w h Inr by (simp_all add: bind_apply attempt_apply split: if_splits)
    with rest show ?thesis by blast
  qed
qed

text \<open>Writing down a failure or the completion touches the row of the event only.\<close>

lemma record_failure_effect:
  "record_failure i n x s = (Inr (), t) \<Longrightarrow> apart_from_events t = apart_from_events s \<and>
   (\<forall>e. row (domain_events t) i = Some e \<longrightarrow> ev_publication_status e = Event_FAILED)"
  by (cases "row (domain_events s) i")
    (auto simp: record_failure_def transaction_def run_simps row_update_rows split: if_splits)

lemma to_envelope_status: "to_envelope (e\<lparr>ev_processing_attempts := a, ev_publication_status := st,
    ev_last_error := l\<rparr>) = to_envelope e"
  by (simp add: to_envelope_def split: option.split)

lemma mark_complete_effect:
  assumes "stored_envelope i s \<noteq> None"
  shows "\<exists>t. mark_complete i s = (Inr (), t) \<and> apart_from_events t = apart_from_events s \<and>
    stored_envelope i t = stored_envelope i s \<and>
    (\<forall>e. row (domain_events t) i = Some e \<longrightarrow> ev_publication_status e = Event_PUBLISHED)"
  using assms
  by (auto simp: mark_complete_def transaction_def run_simps row_update_rows stored_envelope_def to_envelope_status)

section \<open>Receipts are unique\<close>

definition one_receipt_each :: "db \<Rightarrow> bool" where
  "one_receipt_each s \<longleftrightarrow> distinct (map (\<lambda>r. (hr_event_id r, hr_handler_name r)) (handler_receipts s))"

lemma process_handler_one_receipt_each:
  assumes "process_handler i h s = (r, t)" "well_behaved i h" "one_receipt_each s"
  shows "one_receipt_each t"
  using assms(1)
proof (cases rule: process_handler_cases)
  case (failed exc)
  with assms(3) show ?thesis using apart_receipts [OF failed(2)] by (simp add: one_receipt_each_def)
next
  case skipped
  with assms(3) show ?thesis using apart_receipts [OF skipped(3)] by (simp add: one_receipt_each_def)
next
  case (ran envelope u v)
  have "handler_receipts v = handler_receipts u"
    using assms(2) ran(3) by (auto simp: well_behaved_def dest: keepsD)
  with ran(2,4,7) assms(3) show ?thesis by (fastforce simp: one_receipt_each_def handled_def)
qed

lemma run_handlers_one_receipt_each:
  assumes "\<forall>h \<in> set hs. well_behaved i h" "one_receipt_each s"
  shows "one_receipt_each (snd (run_handlers i hs p k s))"
  using assms
proof (induction hs arbitrary: p k s)
  case Nil
  then show ?case by (simp add: run_simps)
next
  case (Cons h hs)
  obtain r u where h: "process_handler i h s = (r, u)" by force
  then have u: "one_receipt_each u" using process_handler_one_receipt_each Cons.prems by simp
  show ?case
  proof (cases r)
    case (Inl x)
    obtain t where t: "record_failure i (handler_name h) x u = (Inr (), t)" using record_failure_total by blast
    then have "one_receipt_each t"
      using u record_failure_effect [OF t] apart_receipts [of t u] by (simp add: one_receipt_each_def)
    with h Inl t show ?thesis by (simp add: bind_apply attempt_apply andthen_apply throw_apply)
  next
    case (Inr b)
    with h u Cons.IH Cons.prems show ?thesis by (simp add: bind_apply attempt_apply)
  qed
qed

lemma keeps_mark_complete [keeps_intros]:
  "(\<And>s. f (flush_db s) = f s) \<Longrightarrow> (\<And>s t. f t = f s \<Longrightarrow> f (rollback_to s t) = f s) \<Longrightarrow>
   (\<And>s g h. f (dirty_rows_update g (domain_events_update h s)) = f s) \<Longrightarrow> keeps f (mark_complete i)"
  unfolding mark_complete_def by (intro keeps_intros)

lemma mark_complete_receipts: "handler_receipts (snd (mark_complete i s)) = handler_receipts s"
  by (rule keeps_snd) (intro keeps_intros, simp_all)

lemma process_event_run:
  assumes "row (domain_events s) i = Some e" "to_envelope e = Inr env"
  shows "process_event reg i s = bind (run_handlers i (handlers_for reg (ee_event_type env)) 0 0) (\<lambda>(processed, skipped).
     andthen (mark_complete i)
     (ret \<lparr>result_event_id = i, handlers_processed = processed, handlers_skipped = skipped\<rparr>)) s"
  using assms by (simp add: process_event_def bind_apply get_row_apply the_or_apply of_result_apply)

section \<open>Properties\<close>


definition sample_handler :: "unit op \<Rightarrow> EventHandlerRegistry" where
  "sample_handler m = empty_registry\<lparr>handlers := (\<lambda>_. [\<lparr>handler_name = ''h'',
     handler_event_type = ORDER_CANCELLED, handler_callback = (\<lambda>_. m)\<rparr>]), handler_names := {''h''}\<rparr>"

definition one_event :: db where
  "one_event = (empty_db 0)\<lparr>domain_events := [event_record (sample_event ''late'')], next_id := 9\<rparr>"

lemma sample_envelope: "to_envelope (event_record (sample_event ''late'')) = Inr (sample_event ''late'')"
  by (rule to_envelope_record) (simp_all add: sample_event_def sample_cancel_def)

lemma one_event_row: "row (domain_events one_event) 1 = Some (event_record (sample_event ''late''))"
  by (simp add: one_event_def row_def event_record_def sample_event_def)

lemma one_event_fresh: "\<not> handled i n one_event"
  by (simp add: one_event_def empty_db_def handled_def)

lemma sample_handlers: "handlers_for (sample_handler m) t =
    [\<lparr>handler_name = ''h'', handler_event_type = ORDER_CANCELLED, handler_callback = (\<lambda>_. m)\<rparr>]"
  by (simp add: handlers_for_def sample_handler_def empty_registry_def)

lemma sample_process:
  "process_handler 1 \<lparr>handler_name = ''h'', handler_event_type = ORDER_CANCELLED, handler_callback = (\<lambda>_. m)\<rparr>
     one_event = (case m (with_receipt 1 ''h'' one_event) of
       (Inl x, v) \<Rightarrow> (Inl x, rollback_to one_event v) | (Inr y, v) \<Rightarrow> (Inr True, flush_db v))"
  by (simp only: process_handler_fresh [OF one_event_row one_event_fresh] sample_envelope) simp




text \<open>
  No handler is given an event twice: whatever processing does, success or failure, a handler
  never gets a second receipt for an event.
\<close>

theorem receipts_unique:
  assumes "one_receipt_each s" "\<forall>t. \<forall>h \<in> set (handlers_for reg t). well_behaved i h"
  shows "one_receipt_each (snd (process_event reg i s))"
proof (cases "row (domain_events s) i")
  case None
  with assms(1) show ?thesis by (simp add: process_event_def bind_apply get_row_apply the_or_apply)
next
  case (Some e)
  show ?thesis
  proof (cases "to_envelope e")
    case (Inl x)
    with Some assms(1) show ?thesis
      by (simp add: process_event_def bind_apply get_row_apply the_or_apply of_result_apply)
  next
    case (Inr env)
    let ?run = "run_handlers i (handlers_for reg (ee_event_type env)) 0 0 s"
    have "one_receipt_each (snd ?run)" using assms by (intro run_handlers_one_receipt_each) auto
    moreover have "one_receipt_each (snd (mark_complete i (snd ?run))) = one_receipt_each (snd ?run)"
      by (simp add: one_receipt_each_def mark_complete_receipts)
    ultimately show ?thesis
      unfolding process_event_run [OF Some Inr]
      by (auto simp: bind_apply andthen_apply ret_apply split: sum.splits)
  qed
qed

theorem receipts_unique_witness:
  "one_receipt_each (snd (process_event (sample_handler flush) 1 one_event))"
  by (rule receipts_unique)
    (auto simp: one_event_def empty_db_def one_receipt_each_def sample_handlers well_behaved_def intro!: keeps_intros)

text \<open>
  Registering handlers one after the other succeeds only for pairwise different new names, and
  then every registered handler is found under its name, while those registered before are kept.
\<close>

theorem handler_names_unique:
  assumes "registry_ok reg" "handler_registry.register_all hs reg = Inr reg'"
  shows "distinct (map fst hs) \<and> (\<forall>(n, h) \<in> set hs. find_handler reg n = None \<and> find_handler reg' n = Some h) \<and>
    (\<forall>n. find_handler reg n \<noteq> None \<longrightarrow> find_handler reg' n = find_handler reg n) \<and> registry_ok reg'"
  using handler_registry.register_all_Inr [OF assms] by blast

theorem handler_names_unique_witness:
  "\<exists>reg'. handler_registry.register_all [(''a'', LOW_STOCK, \<lambda>_. flush)] empty_registry = Inr reg' \<and>
     find_handler reg' ''a'' = Some (LOW_STOCK, \<lambda>_. flush)"
proof -
  have ok: "registry_ok empty_registry" by (simp add: registry_ok_def empty_registry_def all_event_types_def)
  obtain reg' where r: "handler_registry.register_all [(''a'', LOW_STOCK, \<lambda>_. flush)] empty_registry = Inr reg'"
    by (simp add: register_handler_def empty_registry_def)
  show ?thesis using handler_names_unique [OF ok r] r by auto
qed

end
