(* ===== verification/Event_Driven.thy ===== *)
theory Event_Driven
  imports Workflow_Engine Event_Processor
begin

text \<open>
  What every path into the program keeps: a state predicate that the steps of an engine keep is kept by deliveries, retries and
  the processing of events whose handlers run that engine. The interface is the locale \<open>engine_client\<close>; the orchestrator
  provides it.
\<close>

section \<open>Operations that keep a predicate\<close>

text \<open>Whether it returns or raises, the operation leaves the predicate true.\<close>

definition steady :: "(db \<Rightarrow> bool) \<Rightarrow> 'a op \<Rightarrow> bool" where
  "steady P m \<longleftrightarrow> (\<forall>s. P s \<longrightarrow> P (snd (m s)))"

lemma steadyD: "steady P m \<Longrightarrow> P s \<Longrightarrow> P (snd (m s))"
  by (simp add: steady_def)

lemma steady_Pair: "steady P m \<Longrightarrow> P s \<Longrightarrow> m s = (x, t) \<Longrightarrow> P t"
  by (metis snd_conv steadyD)

lemma steady_bind: "steady P m \<Longrightarrow> (\<And>x. steady P (f x)) \<Longrightarrow> steady P (bind m f)"
  by (auto simp: steady_def bind_apply split: sum.split prod.split)

lemma steady_andthen: "steady P m \<Longrightarrow> steady P n \<Longrightarrow> steady P (andthen m n)"
  by (auto simp: andthen_def intro: steady_bind)

lemma steady_if: "steady P m \<Longrightarrow> steady P n \<Longrightarrow> steady P (if b then m else n)"
  by simp

lemma steady_option: "steady P m \<Longrightarrow> (\<And>x. steady P (f x)) \<Longrightarrow> steady P (case k of None \<Rightarrow> m | Some x \<Rightarrow> f x)"
  by (simp split: option.split)

lemma steady_sum: "(\<And>x. steady P (f x)) \<Longrightarrow> (\<And>x. steady P (g x)) \<Longrightarrow> steady P (case k of Inl x \<Rightarrow> f x | Inr x \<Rightarrow> g x)"
  by (simp split: sum.split)

lemma steady_pair: "(\<And>x y. steady P (f x y)) \<Longrightarrow> steady P (case p of (x, y) \<Rightarrow> f x y)"
  by (simp split: prod.split)

lemma steady_let: "(\<And>x. steady P (f x)) \<Longrightarrow> steady P (let x = v in f x)"
  by simp

lemma steady_attempt: "steady P m \<Longrightarrow> steady P (attempt m)"
  by (simp add: steady_def attempt_apply)

lemma steady_leaves: "steady P (ret x)" "steady P (throw e)" "steady P (gets g)" "steady P (raise_if b e)"
    "steady P (the_or e k)" "steady P (of_result r)" "steady P now_utc" "steady P (get_row t i)" "steady P (get_opt_row t' j)"
    "steady P (reload t'' l)"
  by (simp_all add: steady_def run_simps)

lemma steady_map_each: "(\<And>x. steady P (f x)) \<Longrightarrow> steady P (map_each xs f)"
  by (induction xs) (simp_all add: steady_leaves steady_bind)

lemmas steady_intros = steady_bind steady_andthen steady_if steady_option steady_sum steady_pair steady_let steady_attempt
  steady_map_each steady_leaves

section \<open>What the engine and the processor write themselves\<close>

definition outside_system :: "db \<Rightarrow> db" where
  "outside_system s = outside_engine (s\<lparr>handler_receipts := []\<rparr>)"

lemma outside_system_simps [simp]:
  "outside_system (flush_db s) = outside_system s" "outside_system (next_id_update n s) = outside_system s"
  "outside_system (pending_rows_update p s) = outside_system s" "outside_system (dirty_rows_update d s) = outside_system s"
  "outside_system (versions_update v s) = outside_system s" "outside_system (domain_events_update e s) = outside_system s"
  "outside_system (handler_receipts_update r s) = outside_system s"
  by (simp_all add: outside_system_def outside_engine_def business_def flush_db_def)

lemma outside_engine_system: "outside_engine t = outside_engine s \<Longrightarrow> outside_system t = outside_system s"
  by (cases s; cases t) (simp add: outside_system_def outside_engine_def business_def)

lemma outside_tables: "tables_of t = tables_of s \<Longrightarrow> outside_system t = outside_system s"
  by (cases s; cases t) (simp add: outside_system_def outside_engine_def business_def tables_of_def)

lemma advances_set_workflow [simp]: "advances (set_workflow i f)"
  unfolding set_workflow_def by (rule advances_writes) simp

lemma advances_audit_workflow [simp]: "advances (audit_workflow i b a why)"
  unfolding audit_workflow_def by (intro advances_intros advances_writes; simp)

lemma advances_add_run [simp]: "advances (add_workflow w)"
  unfolding add_workflow_def by (intro advances_intros advances_writes; simp)

lemma advances_version [simp]: "advances (version_of i)"
  by (simp add: version_of_def)

lemma advances_terminal [simp]: "advances (terminal_failure i reason)"
  unfolding terminal_failure_def by (intro advances_intros; simp)

lemma advances_runs [simp]:
  "advances (attempt_failed i d now exc)" "advances (attempt_returned i now oc)" "advances (queue_run E d ev key now)"
  "advances (claim_approval w)" "advances (time_or_now at_time)"
  unfolding attempt_failed_def attempt_returned_def queue_run_def claim_approval_def time_or_now_def
  by (intro advances_intros; simp)+

lemma keeps_outside_more [keeps_intros]: "keeps outside_engine (claim_approval w)" "keeps outside_engine (time_or_now at_time)"
  "keeps outside_engine (set_workflow i f)"
  unfolding claim_approval_def time_or_now_def set_workflow_def by (intro keeps_intros; simp)+

section \<open>The contract\<close>

locale engine_client =
  fixes holds :: "db \<Rightarrow> bool" and engine :: WorkflowEngine
  assumes part: "holds s \<Longrightarrow> outside_system t = outside_system s \<Longrightarrow> next_id s \<le> next_id t \<Longrightarrow> holds t"
    and step: "find_definition engine name = Inr d \<Longrightarrow> holds s \<Longrightarrow> wd_step d event w s = (Inr oc, t) \<Longrightarrow> holds t"
begin

lemma kept: "holds s \<Longrightarrow> tables_of t = tables_of s \<Longrightarrow> next_id s \<le> next_id t \<Longrightarrow> holds t"
  by (rule part [OF _ outside_tables])

lemma steady_frame: "keeps outside_system m \<Longrightarrow> advances m \<Longrightarrow> steady holds m"
  unfolding steady_def by (metis advances_def keeps_snd part)

lemma steady_engine: "keeps outside_engine m \<Longrightarrow> advances m \<Longrightarrow> steady holds m"
  by (rule steady_frame) (simp_all only: keeps_def, blast intro: outside_engine_system)

lemma steady_flush: "steady holds flush"
  by (rule steady_engine) (auto intro: keeps_intros)

lemma steady_scalar: "steady holds (scalar rows P)" "steady holds (scalars rows P)"
  unfolding scalar_def scalars_def by (intro steady_intros steady_flush)+

text \<open>A transaction or savepoint needs the predicate only where its body returns.\<close>

lemma steady_begin_nested:
  assumes "\<And>s x t. holds s \<Longrightarrow> m s = (Inr x, t) \<Longrightarrow> holds t" shows "steady holds (begin_nested m)"
proof -
  have "holds (snd (atomically rollback_to m s))" if s: "holds s" for s
  proof (cases "m s")
    case (Pair x t)
    with assms [OF s] kept [OF s, of "rollback_to s t"] show ?thesis by (cases x) (simp_all add: run_simps)
  qed
  then show ?thesis unfolding begin_nested_def by (intro steady_andthen steady_flush) (simp add: steady_def)
qed

lemma steady_transaction: assumes "steady holds m" shows "steady holds (transaction m)"
  unfolding steady_def
proof (intro allI impI)
  fix s assume s: "holds s"
  show "holds (snd (transaction m s))"
  proof (cases "m s")
    case (Pair x t)
    with s assms have t: "holds t" by (rule_tac steady_Pair)
    show ?thesis
      using kept [OF s, of "rollback_to s t"] kept [OF t, of "flush_db t"] Pair
      by (cases x) (simp_all add: transaction_def run_simps)
  qed
qed

lemma engine_leaves:
  "steady holds (set_workflow i f)" "steady holds (audit_workflow i b a why)" "steady holds (terminal_failure i why)"
  "steady holds (attempt_failed i d now exc)" "steady holds (attempt_returned i now oc)" "steady holds (queue_run E d ev key now)"
  "steady holds (claim_approval w)" "steady holds (time_or_now at_time)" "steady holds flush"
  "steady holds (scalar rows P)" "steady holds (scalars rows P)"
  by (simp_all add: steady_engine steady_flush steady_scalar keeps_intros)

lemma step_steady: "find_definition engine name = Inr d \<Longrightarrow> steady holds (begin_nested (wd_step d event w))"
  using step by (blast intro: steady_begin_nested)

lemma execute_workflow_steady: assumes "find_definition engine name = Inr d" shows "steady holds (execute_workflow w d event now)"
  unfolding execute_workflow_def Let_def
  by (intro steady_intros engine_leaves step_steady [OF assms])

lemma bind_definition: "(\<And>d. find_definition engine name = Inr d \<Longrightarrow> steady holds (f d)) \<Longrightarrow>
    steady holds (bind (of_result (find_definition engine name)) f)"
  by (cases "find_definition engine name") (simp_all add: steady_def run_simps)

lemma handle_event_steady: "steady holds (handle_event engine name event at_time)"
  unfolding handle_event_def
  by (intro bind_definition steady_intros engine_leaves execute_workflow_steady; assumption?)

lemma resume_steady: "steady holds (resume engine i at_time)"
  unfolding resume_def execute_again_def
  by (intro bind_definition steady_intros engine_leaves execute_workflow_steady; assumption?)

lemma retry_due_steady: "steady holds (retry_due engine at_time limit)"
  unfolding retry_due_def
  by (intro steady_intros engine_leaves resume_steady)

text \<open>Processing an event whose handlers keep the predicate; each handler runs in a transaction with its receipt.\<close>

lemma handlers_steady:
  assumes "\<And>h event. h \<in> set hs \<Longrightarrow> steady holds (handler_callback h event)"
  shows "steady holds (run_handlers i hs p k)"
proof -
  have one: "steady holds (process_handler i h)" if "h \<in> set hs" for h
    unfolding process_handler_def
    by (intro steady_transaction steady_intros engine_leaves assms that; rule steady_frame; intro keeps_intros advances_intros advances_writes; simp)
  have failed: "steady holds (record_failure i n e)" for n e
    unfolding record_failure_def whenM_def
    by (intro steady_transaction steady_intros; rule steady_frame; intro keeps_intros advances_writes; simp)
  show ?thesis
    using one
  proof (induction hs arbitrary: p k)
    case Nil
    then show ?case by (simp add: steady_leaves)
  next
    case (Cons h hs)
    then show ?case
      unfolding run_handlers.simps by (intro steady_intros failed) simp_all
  qed
qed

lemma process_event_steady:
  assumes "\<And>t h event. h \<in> set (handlers_for reg t) \<Longrightarrow> steady holds (handler_callback h event)"
  shows "steady holds (process_event reg i)"
proof -
  have complete: "steady holds (mark_complete i)"
    unfolding mark_complete_def
    by (intro steady_transaction steady_intros; rule steady_frame; intro keeps_intros advances_writes; simp)
  show ?thesis
    unfolding process_event_def by (intro steady_intros handlers_steady assms complete; assumption)
qed

end

end
