(* ===== verification/Orchestration.thy ===== *)
theory Orchestration
  imports Order_Service Event_Driven
begin

text \<open>
  \<open>application/orchestration.py\<close>: one workflow step per event type, the definitions that run them and the handlers that
  route events to the workflow engine.

  The listing agents, the publication service and the customer-service agent are arguments of the constructor, as in the
  code; each is the operation of it that a step calls.
\<close>

section \<open>The orchestrator\<close>

text \<open>The fields of \<open>Settings\<close> that it reads, with their bounds.\<close>

record Settings =
  workflow_max_attempts :: int
  workflow_timeout_seconds :: int
  workflow_retry_delay_seconds :: int
  reorder_target_multiplier :: int

definition settings_valid :: "Settings \<Rightarrow> bool" where
  "settings_valid c \<longleftrightarrow> 1 \<le> workflow_max_attempts c \<and> 1 \<le> workflow_timeout_seconds c \<and>
     1 \<le> workflow_retry_delay_seconds c \<and> 1 \<le> reorder_target_multiplier c"

text \<open>\<open>generate(session, inventory_item_id, correlation_id, causation_id, source_event_id)\<close>\<close>

type_synonym ListingAgent = "uuid \<Rightarrow> uuid option \<Rightarrow> uuid option \<Rightarrow> uuid option \<Rightarrow> ListingDraft op"

record AutonomousOrchestrator =
  oa_settings :: Settings
  oa_listing_agents :: "ListingAgent list"
  oa_publication_service :: "(EventEnvelope \<Rightarrow> unit op) option"
  oa_customer_service_agent :: "(EventEnvelope \<Rightarrow> CustomerMessage op) option"
  oa_engine :: WorkflowEngine

definition routes :: "(EventType \<times> string) list" where
  "routes =
    [(PRODUCT_APPROVED, ''product-approved-to-procurement''),
     (PURCHASE_APPROVED, ''purchase-approved-to-purchase-order''),
     (STOCK_RECEIVED, ''stock-received-to-listing''),
     (LISTING_APPROVED, ''listing-approved-to-publication''),
     (ORDER_RECEIVED, ''order-received-to-fulfilment''),
     (LOW_STOCK, ''low-stock-to-reorder-recommendation''),
     (CUSTOMER_MESSAGE_RECEIVED, ''customer-message-to-service-agent''),
     (ORDER_RETURNED, ''order-returned-to-reconciliation'')]"

section \<open>The steps\<close>

abbreviation non_retryable :: "string \<Rightarrow> exn" where
  "non_retryable reason \<equiv> Exn NonRetryableWorkflowError reason"

text \<open>\<open>Payload.model_validate(event.data)\<close> of an object of another class.\<close>

definition wrong_payload :: "'a op" where
  "wrong_payload = throw (Exn ValidationError ''event data'')"

definition step_done :: "string \<Rightarrow> dict \<Rightarrow> WorkflowOutcome option op" where
  "step_done current_step checkpoints = ret (Some (completed current_step checkpoints))"

definition product_to_procurement :: WorkflowStep where
  "product_to_procurement event workflow = (case ee_data event of
     ProductApprovedPayload prod_id source_id source_run procurement_id \<Rightarrow>
       bind (case procurement_id of
           Some i \<Rightarrow> get_row procurement_requests i
         | None \<Rightarrow> scalar procurement_requests (\<lambda>r. pr_product_id r = prod_id)) (\<lambda>found.
       case found of
         None \<Rightarrow> throw (non_retryable ''PRODUCT_APPROVED is missing its active procurement request'')
       | Some request \<Rightarrow>
           andthen (raise_if (pr_status request \<notin> {Procurement_PROPOSED, Procurement_AWAITING_APPROVAL, Procurement_APPROVED,
               Procurement_ORDERED, Procurement_SHIPPED, Procurement_RECEIVED})
             (non_retryable ''PRODUCT_APPROVED is missing its active procurement request''))
           (bind (get_row supplier_quotes (pr_selected_quote_id request)) (\<lambda>quote.
            andthen (raise_if (quote = None) (non_retryable ''Procurement request has no selected supplier quote''))
            (step_done ''procurement_proposed'' [(''procurement_request_id'', j_uuid (row_id request))]))))
   | _ \<Rightarrow> wrong_payload)"

definition purchase_to_order :: WorkflowStep where
  "purchase_to_order event workflow = (case ee_data event of
     PurchaseApprovedPayload procurement_id approval_id \<Rightarrow>
       bind (get_row procurement_requests procurement_id) (\<lambda>request.
       bind (scalar purchase_orders (\<lambda>p. po_procurement_request_id p = procurement_id)) (\<lambda>purchase_order.
       andthen (raise_if (case request of None \<Rightarrow> True | Some r \<Rightarrow> pr_status r \<notin> {Procurement_APPROVED, Procurement_ORDERED,
           Procurement_SHIPPED, Procurement_RECEIVED})
         (non_retryable ''PURCHASE_APPROVED references a request without a valid approved history''))
       (bind (the_or (non_retryable ''Approved purchase is missing its purchase order'') purchase_order) (\<lambda>p.
        step_done ''purchase_order_created'' [(''purchase_order_id'', j_uuid (row_id p))]))))
   | _ \<Rightarrow> wrong_payload)"

definition stock_to_listing :: "AutonomousOrchestrator \<Rightarrow> WorkflowStep" where
  "stock_to_listing A event workflow = (case ee_data event of
     StockReceivedPayload item_id purchase_order_id quantity \<Rightarrow>
       andthen (raise_if (oa_listing_agents A = []) (non_retryable ''No marketplace listing agents are configured''))
       (bind (map_each (oa_listing_agents A) (\<lambda>agent.
          agent item_id (Some (ee_correlation_id event)) (Some (ee_event_id event)) (Some (ee_event_id event)))) (\<lambda>drafts.
        step_done ''listing_drafts_created'' [(''listing_draft_ids'', JList (map (\<lambda>d. j_uuid (row_id d)) drafts))]))
   | _ \<Rightarrow> wrong_payload)"

definition listing_to_publication :: "AutonomousOrchestrator \<Rightarrow> WorkflowStep" where
  "listing_to_publication A event workflow = (case oa_publication_service A of
     None \<Rightarrow> throw (non_retryable ''Marketplace publication service is not configured'')
   | Some handle_listing_approved \<Rightarrow> (case ee_data event of
       ListingApprovedPayload draft_id approval_id \<Rightarrow>
         andthen (handle_listing_approved event)
         (bind (scalar marketplace_listings (\<lambda>l. ml_draft_id l = draft_id)) (\<lambda>found.
          case found of
            None \<Rightarrow> throw (non_retryable ''Approved listing was not published'')
          | Some listing \<Rightarrow>
              andthen (raise_if (ml_external_listing_id listing = None) (non_retryable ''Approved listing was not published''))
              (step_done ''listing_published'' [(''marketplace_listing_id'', j_uuid (row_id listing))])))
     | _ \<Rightarrow> wrong_payload))"

text \<open>The reservation of a line of an order that is not dispatched yet.\<close>

definition check_reservation :: "uuid \<Rightarrow> OrderItem \<Rightarrow> unit op" where
  "check_reservation order_id line =
     andthen (raise_if (oi_reservation_reference line \<in> {None, Some []}) (non_retryable ''Order item has no inventory reservation''))
     (bind (scalar inventory_movements (\<lambda>m. im_source_id m = uuid_str order_id \<and>
             im_inventory_item_id m = oi_inventory_item_id line \<and> im_movement_type m = Move_RESERVATION)) (\<lambda>movement.
      raise_if (movement = None) (non_retryable ''Order reservation ledger entry is missing'')))"

definition order_to_fulfilment :: WorkflowStep where
  "order_to_fulfilment event workflow = (case ee_data event of
     OrderReceivedPayload order_id marketplace external_id \<Rightarrow>
       bind (get_row orders order_id) (\<lambda>found.
       bind (the_or (non_retryable ''ORDER_RECEIVED is missing order items or its fulfilment workflow'') found) (\<lambda>order.
       bind (items_of_order order_id) (\<lambda>lines.
       bind (get_opt_row workflow_runs (or_workflow_run_id order)) (\<lambda>fulfilment.
       andthen (raise_if (lines = [] \<or> fulfilment = None)
         (non_retryable ''ORDER_RECEIVED is missing order items or its fulfilment workflow''))
       (andthen (whenM (or_status order \<in> {Order_PENDING, Order_PAID, Order_PROCESSING})
         (for_each lines (check_reservation order_id)))
       (step_done ''fulfilment_ready'' [(''fulfilment_workflow_id'', j_opt j_uuid (or_workflow_run_id order))]))))))
   | _ \<Rightarrow> wrong_payload)"

definition new_recommendation :: "int \<Rightarrow> InventoryItem \<Rightarrow> uuid \<Rightarrow> uuid \<Rightarrow> uuid \<Rightarrow> datetime \<Rightarrow> ReorderRecommendation" where
  "new_recommendation multiplier item run_id event_id recommendation_id now =
     (let target = max (ii_low_stock_threshold item * multiplier) (ii_low_stock_threshold item + 1) in
      \<lparr>row_id = recommendation_id, row_created_at = now, rr_inventory_item_id = row_id item, rr_workflow_run_id = run_id,
       rr_source_event_id = event_id, rr_available_quantity = available_quantity item,
       rr_low_stock_threshold = ii_low_stock_threshold item,
       rr_suggested_quantity = max (target - available_quantity item) 1,
       rr_reason = ''Available stock reached the configured low-stock threshold'', rr_status = ''proposed''\<rparr>)"

definition low_stock_to_reorder :: "AutonomousOrchestrator \<Rightarrow> WorkflowStep" where
  "low_stock_to_reorder A event workflow = (case ee_data event of
     LowStockPayload item_id sku available threshold \<Rightarrow>
       bind (scalar reorder_recommendations (\<lambda>r. rr_source_event_id r = ee_event_id event)) (\<lambda>existing.
       case existing of
         Some r \<Rightarrow> step_done ''reorder_recommended'' [(''reorder_recommendation_id'', j_uuid (row_id r))]
       | None \<Rightarrow>
           bind (get_row inventory_items item_id) (\<lambda>found.
           bind (the_or (non_retryable ''LOW_STOCK references missing or mismatched inventory'') found) (\<lambda>item.
           andthen (raise_if (ii_sku item \<noteq> sku) (non_retryable ''LOW_STOCK references missing or mismatched inventory''))
           (andthen (raise_if (ii_low_stock_threshold item < available_quantity item)
             (non_retryable ''Inventory is no longer below its reorder threshold''))
           (bind new_uuid (\<lambda>recommendation_id.
            bind now_utc (\<lambda>now.
            andthen (add_row reorder_recommendations_update (new_recommendation (reorder_target_multiplier (oa_settings A)) item
              (row_id workflow) (ee_event_id event) recommendation_id now))
            (andthen flush
            (step_done ''reorder_recommended'' [(''reorder_recommendation_id'', j_uuid recommendation_id)])))))))))
   | _ \<Rightarrow> wrong_payload)"

fun decision_value :: "CustomerServiceDecision \<Rightarrow> string" where
  "decision_value Decision_AUTO_RESPOND = ''AUTO_RESPOND''"
| "decision_value Decision_DRAFT_FOR_APPROVAL = ''DRAFT_FOR_APPROVAL''"
| "decision_value Decision_HUMAN_ESCALATION = ''HUMAN_ESCALATION''"

definition message_to_customer_service :: "AutonomousOrchestrator \<Rightarrow> WorkflowStep" where
  "message_to_customer_service A event workflow = (case oa_customer_service_agent A of
     None \<Rightarrow> throw (non_retryable ''Customer service agent is not configured'')
   | Some process_received_event \<Rightarrow> (case ee_data event of
       CustomerMessageReceivedPayload conversation_id message_id channel \<Rightarrow>
         bind (process_received_event event) (\<lambda>message.
         bind (the_or (non_retryable ''Customer message was not safely classified'') (cm_classification message)) (\<lambda>classification.
         let checkpoints = [(''customer_message_id'', j_uuid message_id), (''classification'', JStr (decision_value classification))] in
         case cm_approval_id message of
           None \<Rightarrow> step_done ''customer_message_classified'' checkpoints
         | Some approval_id \<Rightarrow>
             bind (get_row approvals approval_id) (\<lambda>found.
             bind (the_or (non_retryable ''Customer response approval is missing'') found) (\<lambda>approval.
             if ap_status approval = Approval_APPROVED then step_done ''customer_response_approved'' checkpoints
             else
               andthen (set_approval (\<lambda>a. a\<lparr>ap_workflow_run_id := Some (row_id workflow)\<rparr>) approval_id)
               (ret (Some (waiting_for_approval ''awaiting_customer_response_approval'' approval_id checkpoints)))))))
     | _ \<Rightarrow> wrong_payload))"

text \<open>The guards of a return, the refunds that count, and the end of its reconciliation.\<close>

definition set_return :: "uuid \<Rightarrow> (Return \<Rightarrow> Return) \<Rightarrow> unit op" where
  "set_return = set_row returns returns_update"

definition return_guards :: "uuid \<Rightarrow> uuid \<Rightarrow> int \<Rightarrow> (Return \<times> Order \<times> OrderItem) op" where
  "return_guards order_id return_id quantity =
     bind (get_row returns return_id) (\<lambda>found_return.
     bind (get_row orders order_id) (\<lambda>found_order.
     bind (the_or (non_retryable ''ORDER_RETURNED references missing return/order data'') found_return) (\<lambda>return_record.
     bind (the_or (non_retryable ''ORDER_RETURNED references missing return/order data'') found_order) (\<lambda>order.
     andthen (raise_if (rt_order_id return_record \<noteq> row_id order) (non_retryable ''ORDER_RETURNED references missing return/order data''))
     (bind (get_opt_row order_items (rt_order_item_id return_record)) (\<lambda>found_item.
      bind (the_or (non_retryable ''Return requires an order item and known inventory disposition'') found_item) (\<lambda>line.
      andthen (raise_if (rt_disposition return_record \<notin> {Some ''sellable'', Some ''damaged'', Some ''discarded''})
        (non_retryable ''Return requires an order item and known inventory disposition''))
      (andthen (raise_if (quantity \<noteq> rt_quantity return_record)
        (non_retryable ''Return event quantity does not match the return record''))
      (andthen (raise_if (oi_quantity line < rt_quantity return_record)
        (non_retryable ''Returned quantity exceeds the ordered quantity''))
      (ret (return_record, order, line)))))))))))"

definition restock_key :: "uuid \<Rightarrow> string" where
  "restock_key return_id = ''return-receipt:'' @ uuid_str return_id"

definition restock_return :: "Return \<Rightarrow> OrderItem \<Rightarrow> unit op" where
  "restock_return return_record line = whenM (rt_disposition return_record = Some ''sellable'')
     (bind (adjust_stock (oi_inventory_item_id line) (rt_quantity return_record)
        (''Sellable return '' @ uuid_str (row_id return_record)) ''system'' (restock_key (row_id return_record)) None) (\<lambda>_. ret ()))"

definition refunded_total :: "Refund list \<Rightarrow> rat" where
  "refunded_total rs = sum_list (map rf_amount (filter (\<lambda>r. rf_status r \<in> {Refund_APPROVED, Refund_PROCESSING, Refund_COMPLETED}) rs))"

definition close_return :: "WorkflowRun \<Rightarrow> Return \<Rightarrow> rat \<Rightarrow> WorkflowOutcome option op" where
  "close_return workflow return_record refunded =
     andthen (set_return (row_id return_record) (\<lambda>r. r\<lparr>rt_status := Return_COMPLETED\<rparr>))
     (andthen (write_audit ''system'' ''return-reconciliation'' ''return.reconciled'' ''return'' (row_id return_record)
       (Some [(''disposition'', j_opt JStr (rt_disposition return_record)),
              (''inventory_restocked'', JBool (rt_disposition return_record = Some ''sellable'')),
              (''refunded_amount'', JDec refunded)])
       (Some ''Inventory and financial return reconciliation'') (wf_correlation_id workflow))
     (step_done ''return_reconciled'' [(''return_id'', j_uuid (row_id return_record)), (''refunded_amount'', JDec refunded)]))"

definition return_to_reconciliation :: WorkflowStep where
  "return_to_reconciliation event workflow = (case ee_data event of
     OrderReturnedPayload order_id return_id quantity \<Rightarrow>
       bind (return_guards order_id return_id quantity) (\<lambda>(return_record, order, line).
       andthen (restock_return return_record line)
       (bind (scalars refunds (\<lambda>r. rf_order_id r = order_id)) (\<lambda>rs.
        andthen (raise_if (\<exists>r \<in> set rs. rf_currency r \<noteq> or_currency order) (non_retryable ''Refund and order currencies do not match''))
        (andthen (raise_if (or_total_amount order < refunded_total rs) (non_retryable ''Refund total exceeds the order total''))
        (andthen (whenM (or_status order \<noteq> Order_RETURNED)
          (bind (update_order_status order_id Order_RETURNED ''system'' ''Marketplace return reconciliation'') (\<lambda>_. ret ())))
        (close_return workflow return_record (refunded_total rs)))))))
   | _ \<Rightarrow> wrong_payload)"

section \<open>Registration\<close>

definition execution_policy :: "Settings \<Rightarrow> WorkflowExecutionPolicy" where
  "execution_policy settings = \<lparr>max_attempts = workflow_max_attempts settings, timeout_seconds = workflow_timeout_seconds settings,
     retry_delay_seconds = workflow_retry_delay_seconds settings\<rparr>"

definition orchestrator_steps :: "AutonomousOrchestrator \<Rightarrow> (string \<times> WorkflowStep) list" where
  "orchestrator_steps A =
    [(''product-approved-to-procurement'', product_to_procurement),
     (''purchase-approved-to-purchase-order'', purchase_to_order),
     (''stock-received-to-listing'', stock_to_listing A),
     (''listing-approved-to-publication'', listing_to_publication A),
     (''order-received-to-fulfilment'', order_to_fulfilment),
     (''low-stock-to-reorder-recommendation'', low_stock_to_reorder A),
     (''customer-message-to-service-agent'', message_to_customer_service A),
     (''order-returned-to-reconciliation'', return_to_reconciliation)]"

fun register_steps :: "WorkflowExecutionPolicy \<Rightarrow> (string \<times> WorkflowStep) list \<Rightarrow> WorkflowEngine \<Rightarrow> exn + WorkflowEngine" where
  "register_steps policy [] E = Inr E"
| "register_steps policy ((name, step) # steps) E =
     rbind (register_workflow \<lparr>wd_name = name, wd_version = 1, wd_step = step, wd_policy = policy\<rparr> E) (register_steps policy steps)"

text \<open>\<open>AutonomousOrchestrator.__init__\<close>: \<open>A\<close> holds the arguments; the engine is the one its definitions are added to.\<close>

definition new_orchestrator :: "AutonomousOrchestrator \<Rightarrow> exn + AutonomousOrchestrator" where
  "new_orchestrator A = rbind (register_steps (execution_policy (oa_settings A)) (orchestrator_steps A) (oa_engine A))
     (\<lambda>E. Inr (A\<lparr>oa_engine := E\<rparr>))"

definition event_handler :: "AutonomousOrchestrator \<Rightarrow> string \<Rightarrow> EventEnvelope \<Rightarrow> unit op" where
  "event_handler A definition_name event = bind (handle_event (oa_engine A) definition_name event None) (\<lambda>_. ret ())"

fun register_routes ::
  "AutonomousOrchestrator \<Rightarrow> (EventType \<times> string) list \<Rightarrow> EventType set option \<Rightarrow> EventHandlerRegistry \<Rightarrow> exn + EventHandlerRegistry" where
  "register_routes A [] event_types reg = Inr reg"
| "register_routes A ((event_type, definition_name) # rs) event_types reg =
     (if (case event_types of None \<Rightarrow> False | Some types \<Rightarrow> event_type \<notin> types) then register_routes A rs event_types reg
      else rbind (register_handler event_type (engine_prefix @ definition_name) (event_handler A definition_name) reg)
        (register_routes A rs event_types))"

definition register_orchestrator ::
  "AutonomousOrchestrator \<Rightarrow> EventType set option \<Rightarrow> EventHandlerRegistry \<Rightarrow> exn + EventHandlerRegistry" where
  "register_orchestrator A event_types reg = register_routes A routes event_types reg"

section \<open>Frames\<close>

text \<open>Procurement, inventory and orders know nothing of reorder recommendations.\<close>

lemma keeps_reorder_transition [keeps_intros]: "keeps reorder_recommendations (apply_transition r st a b)"
  unfolding apply_transition_def set_request_def by (intro keeps_intros; simp)

lemma keeps_reorder_procurement [keeps_intros]:
  "keeps reorder_recommendations (submit_for_approval E i a b)" "keeps reorder_recommendations (approve_purchase ap)"
  "keeps reorder_recommendations (mark_ordered i a b e n)" "keeps reorder_recommendations (mark_shipped i a b x n)"
  "keeps reorder_recommendations (mark_received i a b n)" "keeps reorder_recommendations (cancel_procurement i a b)"
  unfolding submit_for_approval_def approve_purchase_def create_purchase_order_def mark_ordered_def
    mark_shipped_def mark_received_def cancel_procurement_def get_procurement_def purchase_order_of_def
    set_purchase_order_def set_request_def set_workflow_def Let_def
  by (intro keeps_intros; simp)+

lemma keeps_reorder_stock [keeps_intros]:
  "keeps reorder_recommendations (receive_stock po sku loc q c th a why k n)"
  "keeps reorder_recommendations (adjust_stock i q' a' b k' c')"
  unfolding receive_stock_def adjust_stock_def post_receipt_def finish_receipt_def receiving_item_def get_procurement_def
    replay_movement_def record_change_def add_movement_def set_item_def get_inventory_def existing_movement_def
    set_purchase_order_def set_request_def set_workflow_def Let_def
  by (intro keeps_intros; simp)+

lemma keeps_reorder_events [keeps_intros]: "keeps reorder_recommendations (inventory_events item m c pa d)"
  unfolding inventory_events_def by (intro keeps_intros; simp)

lemma keeps_reorder_reserve [keeps_intros]: "keeps reorder_recommendations (reserve_from cands sku q oid l c)"
  by (induction cands) (auto simp: add_movement_def Let_def intro!: keeps_intros)

lemma keeps_reorder_orders [keeps_intros]:
  "keeps reorder_recommendations (ingest_order S c)" "keeps reorder_recommendations (update_order_status i target a b)"
  unfolding ingest_order_def store_order_def add_order_def ingest_line_def reserve_def announce_order_def add_workflow_def
    update_order_status_def release_line_def ship_line_def record_order_status_def add_movement_def get_order_def
    items_of_order_def set_order_def set_workflow_def audit_order_def Let_def
  by (intro keeps_intros; simp)+

lemma keeps_reorder_call: "keeps reorder_recommendations (run_trade_call E S c)"
proof (cases c)
  case (Supply_Call d)
  moreover have "keeps reorder_recommendations (run_call E e)" for e by (cases e) (simp_all, (intro keeps_intros)+)
  ultimately show ?thesis by (cases d) (simp_all, (intro keeps_intros)+)
qed (simp_all, (intro keeps_intros)+)

section \<open>Reorder recommendations\<close>

text \<open>
  A recommendation is made for stock at or below the threshold and brings it above the threshold, to the configured multiple
  of it; no event has two.
\<close>

definition reorder_sound :: "int \<Rightarrow> ReorderRecommendation \<Rightarrow> bool" where
  "reorder_sound multiplier r \<longleftrightarrow> 0 \<le> rr_available_quantity r \<and> rr_available_quantity r \<le> rr_low_stock_threshold r \<and>
     0 < rr_suggested_quantity r \<and> rr_low_stock_threshold r < rr_available_quantity r + rr_suggested_quantity r \<and>
     rr_low_stock_threshold r * multiplier \<le> rr_available_quantity r + rr_suggested_quantity r"

definition reorders_ok :: "int \<Rightarrow> ReorderRecommendation list \<Rightarrow> bool" where
  "reorders_ok multiplier rs \<longleftrightarrow> distinct (map rr_source_event_id rs) \<and> (\<forall>r \<in> set rs. reorder_sound multiplier r)"

lemma new_recommendation_sound:
  assumes "inventory_item_checks item" "available_quantity item \<le> ii_low_stock_threshold item"
  shows "reorder_sound m (new_recommendation m item w e i now)"
  using assms by (simp add: reorder_sound_def new_recommendation_def Let_def inventory_item_checks_def available_quantity_def less_max_iff_disj)

section \<open>The steps keep stock, orders and recommendations consistent\<close>

text \<open>What the agents of the orchestrator leave alone.\<close>

definition trade_view :: "db \<Rightarrow> (ProcurementRequest list \<times> PurchaseOrder list \<times> InventoryItem list \<times> InventoryMovement list) \<times>
    (Order list \<times> OrderItem list) \<times> ReorderRecommendation list" where
  "trade_view s = (supply_part s, order_part s, reorder_recommendations s)"

lemma trade_view_simps [simp]:
  "trade_view (flush_db s) = trade_view s" "trade_view (next_id_update n s) = trade_view s"
  "trade_view (pending_rows_update p s) = trade_view s" "trade_view (dirty_rows_update d s) = trade_view s"
  "trade_view (versions_update v s) = trade_view s" "trade_view (domain_events_update e s) = trade_view s"
  "trade_view (audit_events_update a s) = trade_view s" "trade_view (approvals_update ap s) = trade_view s"
  "trade_view (workflow_runs_update w s) = trade_view s" "trade_view (returns_update r s) = trade_view s"
  by (simp_all add: trade_view_def supply_part_def order_part_def)

definition agents_keep :: "AutonomousOrchestrator \<Rightarrow> bool" where
  "agents_keep A \<longleftrightarrow>
     (\<forall>agent \<in> set (oa_listing_agents A). \<forall>i c k e. keeps trade_view (agent i c k e) \<and> advances (agent i c k e)) \<and>
     (\<forall>h e. oa_publication_service A = Some h \<longrightarrow> keeps trade_view (h e) \<and> advances (h e)) \<and>
     (\<forall>h e. oa_customer_service_agent A = Some h \<longrightarrow> keeps trade_view (h e) \<and> advances (h e))"

definition trade_ok :: "AutonomousOrchestrator \<Rightarrow> db \<Rightarrow> bool" where
  "trade_ok A s \<longleftrightarrow> fulfilment_ok s \<and> reorders_ok (reorder_target_multiplier (oa_settings A)) (reorder_recommendations s)"

lemma trade_ok_part: "trade_ok A s \<Longrightarrow> trade_view t = trade_view s \<Longrightarrow> next_id s \<le> next_id t \<Longrightarrow> trade_ok A t"
  using fulfilment_ok_part [of s t] by (simp add: trade_ok_def trade_view_def)

lemma trade_view_frame: "keeps trade_view m \<Longrightarrow> advances m \<Longrightarrow> trade_ok A s \<Longrightarrow> m s = (x, t) \<Longrightarrow> trade_ok A t"
  using trade_ok_part [of A s t] keepsD [of trade_view m s x t] advancesD [of m s x t] by simp

lemma keeps_each: "(\<And>x. x \<in> set xs \<Longrightarrow> keeps f (g x)) \<Longrightarrow> keeps f (map_each xs g)"
  by (induction xs) (auto intro!: keeps_intros)

lemma advances_each: "(\<And>x. x \<in> set xs \<Longrightarrow> advances (g x)) \<Longrightarrow> advances (map_each xs g)"
  by (induction xs) (auto intro!: advances_intros)

lemma reading_steps:
  "keeps trade_view (product_to_procurement e w)" "advances (product_to_procurement e w)"
  "keeps trade_view (purchase_to_order e w)" "advances (purchase_to_order e w)"
  "keeps trade_view (order_to_fulfilment e w)" "advances (order_to_fulfilment e w)"
  unfolding product_to_procurement_def purchase_to_order_def order_to_fulfilment_def check_reservation_def step_done_def
    wrong_payload_def items_of_order_def
  by (cases "ee_data e"; (simp; intro keeps_intros advances_intros; simp)?)+

lemma agent_steps:
  assumes "agents_keep A"
  shows "keeps trade_view (stock_to_listing A e w)" "advances (stock_to_listing A e w)"
    "keeps trade_view (listing_to_publication A e w)" "advances (listing_to_publication A e w)"
    "keeps trade_view (message_to_customer_service A e w)" "advances (message_to_customer_service A e w)"
proof -
  note agents = assms [unfolded agents_keep_def]
  show "keeps trade_view (stock_to_listing A e w)" "advances (stock_to_listing A e w)"
    unfolding stock_to_listing_def step_done_def wrong_payload_def using agents
    by (cases "ee_data e"; simp; intro keeps_intros advances_intros keeps_each advances_each; simp)+
  show "keeps trade_view (listing_to_publication A e w)" "advances (listing_to_publication A e w)"
    unfolding listing_to_publication_def step_done_def wrong_payload_def using agents
    by (cases "oa_publication_service A"; cases "ee_data e"; simp; intro keeps_intros advances_intros; simp)+
  show "keeps trade_view (message_to_customer_service A e w)" "advances (message_to_customer_service A e w)"
    unfolding message_to_customer_service_def step_done_def wrong_payload_def set_approval_def Let_def using agents
    by (cases "oa_customer_service_agent A"; cases "ee_data e"; simp; intro keeps_intros advances_intros advances_writes; simp)+
qed

lemma low_stock_step:
  assumes ok: "trade_ok A s" and run: "low_stock_to_reorder A e w s = (Inr oc, t)"
  shows "trade_ok A t"
proof -
  have "wp (low_stock_to_reorder A e w) (\<lambda>_. trade_ok A) (\<lambda>_ _. True) s"
  proof (cases "ee_data e")
    case (LowStockPayload item_id sku av th)
    have f: "trade_ok A (flush_db s)" by (rule trade_ok_part [OF ok]) simp_all
    have added: "trade_ok A t"
      if none: "find (\<lambda>r. rr_source_event_id r = ee_event_id e) (reorder_recommendations s) = None"
        and item: "row (inventory_items s) item_id = Some item" "\<not> ii_low_stock_threshold item < available_quantity item"
        and t: "supply_part t = supply_part s" "order_part t = order_part s" "next_id s \<le> next_id t"
          "reorder_recommendations t = reorder_recommendations s @
             [new_recommendation (reorder_target_multiplier (oa_settings A)) item (row_id w) (ee_event_id e) i now]"
      for item i now t
    proof -
      have "inventory_item_checks item"
        using item_checks [OF _ item(1)] ok by (simp add: trade_ok_def fulfilment_ok_def supply_ok_def)
      then have "reorder_sound (reorder_target_multiplier (oa_settings A))
          (new_recommendation (reorder_target_multiplier (oa_settings A)) item (row_id w) (ee_event_id e) i now)"
        using item(2) by (intro new_recommendation_sound) simp_all
      moreover have "ee_event_id e \<notin> rr_source_event_id ` set (reorder_recommendations s)"
        using none by (auto simp: find_None_iff)
      ultimately show ?thesis
        using ok fulfilment_ok_part [OF _ t(1-3)] by (auto simp: trade_ok_def t(4) reorders_ok_def new_recommendation_def Let_def)
    qed
    show ?thesis
      using f LowStockPayload
      by (cases "find (\<lambda>r. rr_source_event_id r = ee_event_id e) (reorder_recommendations s)";
          cases "row (inventory_items s) item_id")
        (auto simp: low_stock_to_reorder_def step_done_def wp_simps supply_part_def order_part_def intro!: added)
  qed (simp_all add: low_stock_to_reorder_def wrong_payload_def wp_simps)
  from wp_InrD [OF this run] show ?thesis .
qed

lemma restock_keeps:
  assumes ok: "trade_ok A s" and run: "restock_return r l s = (Inr u, t)"
  shows "trade_ok A t"
proof (cases "rt_disposition r = Some ''sellable''")
  case True
  then have run': "run_trade_call sample_engine sample_service (Supply_Call (Adjust_Stock (oi_inventory_item_id l) (rt_quantity r)
      (''Sellable return '' @ uuid_str (row_id r)) ''system'' (restock_key (row_id r)) None)) s = (Inr u, t)"
    using run by (simp add: restock_return_def run_simps)
  from run_trade_call_keeps [OF _ _ run'] keepsD [OF keeps_reorder_call run'] ok show ?thesis by (simp add: trade_ok_def)
qed (use assms in \<open>simp add: restock_return_def run_simps\<close>)

lemma returned_keeps:
  assumes ok: "trade_ok A s" and run: "update_order_status i target who why s = (Inr u, t)"
  shows "trade_ok A t"
  using wp_InrD [OF update_order_status_wp run] keepsD [OF keeps_reorder_orders(2) run] ok by (simp add: trade_ok_def)

lemma trade_ok_flush: "trade_ok A s \<Longrightarrow> trade_ok A (flush_db s)"
  by (rule trade_ok_part [of A s]) simp_all

lemma return_guards_wp:
  "wp (return_guards i j q) (\<lambda>(r, ord, l) t. t = s \<and> row (returns s) j = Some r \<and> row (orders s) i = Some ord \<and> rt_order_id r = i \<and>
     row (order_items s) (the (rt_order_item_id r)) = Some l \<and> rt_order_item_id r \<noteq> None \<and> rt_quantity r = q \<and> q \<le> oi_quantity l) (\<lambda>_ _. True) s"
  by (auto simp: return_guards_def wp_simps split: option.split)

lemma return_step:
  assumes ok: "trade_ok A s" and run: "return_to_reconciliation e w s = (Inr oc, t)"
  shows "trade_ok A t"
proof -
  have restock: "wp (restock_return r l) (\<lambda>_. trade_ok A) (\<lambda>_ _. True) u" if "trade_ok A u" for r l u
    by (rule wp_eqI) (use restock_keeps [OF that] in auto)
  have returned: "wp (update_order_status i target who why) (\<lambda>_. trade_ok A) (\<lambda>_ _. True) u"
    if "trade_ok A u" for i target who why u
    by (rule wp_eqI) (use returned_keeps [OF that] in auto)
  have close: "wp (close_return w r m) (\<lambda>_. trade_ok A) (\<lambda>_ _. True) u" if "trade_ok A u" for r m u
    using that by (auto simp: close_return_def set_return_def write_audit_def step_done_def wp_simps intro: trade_ok_part)
  have "wp (return_to_reconciliation e w) (\<lambda>_. trade_ok A) (\<lambda>_ _. True) s"
  proof (cases "ee_data e")
    case (OrderReturnedPayload i j q)
    show ?thesis
      unfolding return_to_reconciliation_def OrderReturnedPayload EventPayload.case wp_bind wp_andthen
      apply (rule wp_mono [OF return_guards_wp])
       apply (clarsimp simp: wp_simps)
       apply (rule wp_mono [OF restock [OF ok]])
        apply (auto simp: wp_simps intro!: wp_mono [OF returned] close intro: trade_ok_flush)
      done
  qed (simp_all add: return_to_reconciliation_def wrong_payload_def wp_simps)
  from wp_InrD [OF this run] show ?thesis .
qed

text \<open>The definitions of an engine that was empty are those of the constructor.\<close>

definition fresh_engine :: "WorkflowEngine \<Rightarrow> bool" where
  "fresh_engine E \<longleftrightarrow> we_definitions E = []"

definition built_from :: "AutonomousOrchestrator \<Rightarrow> AutonomousOrchestrator \<Rightarrow> bool" where
  "built_from A B \<longleftrightarrow> fresh_engine (oa_engine A) \<and> new_orchestrator A = Inr B"

lemma register_steps_definitions:
  "register_steps policy steps E = Inr E' \<Longrightarrow> we_definitions E' = we_definitions E @
     map (\<lambda>(name, step). (name, \<lparr>wd_name = name, wd_version = 1, wd_step = step, wd_policy = policy\<rparr>)) steps \<and> we_uuid5 E' = we_uuid5 E"
  by (induction policy steps E rule: register_steps.induct)
    (auto simp: rbind_Inr_iff register_workflow_def check_def split: if_splits)

lemma built_engine:
  assumes "built_from A B"
  shows "oa_engine B = (oa_engine A)\<lparr>we_definitions := map (\<lambda>(name, step). (name, \<lparr>wd_name = name, wd_version = 1, wd_step = step,
      wd_policy = execution_policy (oa_settings A)\<rparr>)) (orchestrator_steps A)\<rparr>" "B = A\<lparr>oa_engine := oa_engine B\<rparr>"
  using assms register_steps_definitions [of "execution_policy (oa_settings A)" "orchestrator_steps A" "oa_engine A"]
  by (auto simp: built_from_def fresh_engine_def new_orchestrator_def rbind_Inr_iff)

lemma built_step: "built_from A B \<Longrightarrow> find_definition (oa_engine B) name = Inr d \<Longrightarrow> wd_step d \<in> snd ` set (orchestrator_steps A)"
  by (auto simp: find_definition_def built_engine split: option.splits dest!: map_of_SomeD) (metis image_eqI snd_conv)

text \<open>The contract of the engine's client, by the steps above; the recommendations are those of the given multiple.\<close>

definition system_ok :: "AutonomousOrchestrator \<Rightarrow> AutonomousOrchestrator \<Rightarrow> db \<Rightarrow> bool" where
  "system_ok A B s \<longleftrightarrow> built_from A B \<and> agents_keep A \<and> trade_ok A s"

lemma system_step:
  assumes ok: "system_ok A B s" and d: "find_definition (oa_engine B) name = Inr d" and run: "wd_step d e w s = (Inr oc, t)"
  shows "system_ok A B t"
proof -
  have a: "trade_ok A s" "agents_keep A" using ok by (simp_all add: system_ok_def)
  have "wd_step d \<in> snd ` set (orchestrator_steps A)" using built_step d ok by (auto simp: system_ok_def)
  then have "trade_ok A t"
    using run low_stock_step [OF a(1)] return_step [OF a(1)]
      trade_view_frame [OF reading_steps(1,2) a(1)] trade_view_frame [OF reading_steps(3,4) a(1)] trade_view_frame [OF reading_steps(5,6) a(1)]
      trade_view_frame [OF agent_steps(1,2) [OF a(2)] a(1)] trade_view_frame [OF agent_steps(3,4) [OF a(2)] a(1)]
      trade_view_frame [OF agent_steps(5,6) [OF a(2)] a(1)]
    by (auto simp: orchestrator_steps_def)
  then show ?thesis using ok by (simp add: system_ok_def)
qed

lemma outside_trade_view: "outside_system t = outside_system s \<Longrightarrow> trade_view t = trade_view s"
  by (cases s; cases t) (simp add: outside_system_def outside_engine_def business_def trade_view_def supply_part_def order_part_def)

interpretation orchestrated: engine_client "system_ok A B" "oa_engine B" for A B
proof
  show "system_ok A B t" if "system_ok A B s" "outside_system t = outside_system s" "next_id s \<le> next_id t" for s t
    using trade_ok_part [OF _ outside_trade_view [OF that(2)] that(3)] that(1) unfolding system_ok_def by blast
qed (rule system_step)

section \<open>The whole system\<close>

text \<open>
  Every way in: a client's request in a transaction of its own, the processing of a stored event by the registered handlers,
  and a batch of retries.
\<close>

datatype system_call = Client trade_call | Process uuid | Retry_Due "datetime option" nat

fun run_system_call ::
  "ApprovalEngine \<Rightarrow> OrderService \<Rightarrow> WorkflowEngine \<Rightarrow> EventHandlerRegistry \<Rightarrow> system_call \<Rightarrow> db \<Rightarrow> db" where
  "run_system_call E S W reg (Client c) s = snd (transaction (run_trade_call E S c) s)"
| "run_system_call E S W reg (Process event_id) s = snd (process_event reg event_id s)"
| "run_system_call E S W reg (Retry_Due at_time limit) s = snd (transaction (retry_due W at_time limit) s)"

fun system_call_valid :: "system_call \<Rightarrow> bool" where
  "system_call_valid (Client c) = trade_call_valid c"
| "system_call_valid _ = True"

definition run_system ::
  "ApprovalEngine \<Rightarrow> OrderService \<Rightarrow> WorkflowEngine \<Rightarrow> EventHandlerRegistry \<Rightarrow> system_call list \<Rightarrow> db \<Rightarrow> db" where
  "run_system E S W reg cs s = fold (run_system_call E S W reg) cs s"

lemma register_routes_handlers:
  "register_routes B rs types reg = Inr reg' \<Longrightarrow> h \<in> set (handlers_for reg' t) \<Longrightarrow>
   h \<in> set (handlers_for reg t) \<or> (\<exists>name. handler_callback h = event_handler B name)"
proof (induction B rs types reg arbitrary: reg' rule: register_routes.induct)
  case (2 B event_type name rs types reg)
  show ?case
  proof (cases "case types of None \<Rightarrow> False | Some ts \<Rightarrow> event_type \<notin> ts")
    case False
    then obtain reg1 where r: "register_handler event_type (engine_prefix @ name) (event_handler B name) reg = Inr reg1"
        "register_routes B rs types reg1 = Inr reg'"
      using "2.prems"(1) by (auto simp: rbind_Inr_iff)
    from "2.IH"(2) [OF False r(2) "2.prems"(2)] show ?thesis
      using r(1) by (auto simp: register_handler_def handlers_for_def split: if_splits)
  qed (use 2 in auto)
qed simp

lemma event_handler_steady: "steady (system_ok A B) (event_handler B name event)"
  unfolding event_handler_def by (intro steady_intros orchestrated.handle_event_steady)

lemma registered_steady:
  assumes "register_orchestrator B types empty_registry = Inr reg" "h \<in> set (handlers_for reg t)"
  shows "steady (system_ok A B) (handler_callback h event)"
  using register_routes_handlers [OF assms(1) [unfolded register_orchestrator_def] assms(2)] event_handler_steady
  by (auto simp: handlers_for_def empty_registry_def)

lemma run_system_call_keeps:
  assumes ok: "system_ok A B s" and reg: "register_orchestrator B types empty_registry = Inr reg" and c: "system_call_valid c"
  shows "system_ok A B (run_system_call E S (oa_engine B) reg c s)"
proof (cases c)
  case (Client d)
  have "system_ok A B t" if run: "run_trade_call E S d s = (Inr u, t)" for u t
    using run_trade_call_keeps [OF _ _ run] keepsD [OF keeps_reorder_call run] ok c Client by (simp add: system_ok_def trade_ok_def)
  then show ?thesis using orchestrated.kept [OF ok]
    by (cases "run_trade_call E S d s"; cases "fst (run_trade_call E S d s)") (auto simp: Client transaction_def run_simps intro: orchestrated.kept)
next
  case (Process i)
  show ?thesis
    unfolding Process run_system_call.simps
    by (rule steadyD [OF orchestrated.process_event_steady ok], rule registered_steady [OF reg])
next
  case (Retry_Due at_time limit)
  show ?thesis
    unfolding Retry_Due run_system_call.simps
    by (rule steadyD [OF orchestrated.steady_transaction ok], rule orchestrated.retry_due_steady)
qed

lemma run_system_keeps:
  assumes "register_orchestrator B types empty_registry = Inr reg"
  shows "system_ok A B s \<Longrightarrow> \<forall>c \<in> set cs. system_call_valid c \<Longrightarrow> system_ok A B (run_system E S (oa_engine B) reg cs s)"
  unfolding run_system_def
  by (induction cs arbitrary: s) (auto intro: run_system_call_keeps [OF _ assms])

text \<open>
  C1: the system invariant. Whatever clients ask, events that are processed by the orchestrator's handlers and batches of
  retries do, in any order, succeeding or failing: stock, orders and procurement stay consistent as a whole, no event has
  two reorder recommendations, and every recommendation was made for low stock and lifts it above the threshold and to the
  configured multiple of it. The agents the orchestrator is given may do what they like elsewhere.
\<close>

theorem orchestration_invariant:
  assumes "built_from A B" "agents_keep A" "register_orchestrator B types empty_registry = Inr reg"
    and "trade_ok A s" "\<forall>c \<in> set cs. system_call_valid c"
  shows "trade_ok A (run_system E S (oa_engine B) reg cs s)"
  using run_system_keeps [OF assms(3), of A s cs E S] assms by (simp add: system_ok_def)

text \<open>
  The wiring. With settings in their bounds an orchestrator is built and registered without an error; then every routed
  event type has exactly the handler of its definition, every other type none, and every definition of a route is found
  under its name with its step and the policy of the settings.
\<close>

theorem orchestrator_wired:
  assumes "settings_valid (oa_settings A)" "fresh_engine (oa_engine A)"
  shows "\<exists>B reg. new_orchestrator A = Inr B \<and> register_orchestrator B None empty_registry = Inr reg \<and>
    (\<forall>t. handlers_for reg t = (case map_of routes t of None \<Rightarrow> []
       | Some name \<Rightarrow> [\<lparr>handler_name = engine_prefix @ name, handler_event_type = t, handler_callback = event_handler B name\<rparr>])) \<and>
    map fst (orchestrator_steps A) = map snd routes \<and>
    list_all (\<lambda>(name, step). find_definition (oa_engine B) name =
       Inr \<lparr>wd_name = name, wd_version = 1, wd_step = step, wd_policy = execution_policy (oa_settings A)\<rparr>) (orchestrator_steps A)"
proof -
  obtain E where E: "register_steps (execution_policy (oa_settings A)) (orchestrator_steps A) (oa_engine A) = Inr E"
    using assms by (simp add: orchestrator_steps_def register_workflow_def check_def settings_valid_def execution_policy_def
      fresh_engine_def)
  then have new: "new_orchestrator A = Inr (A\<lparr>oa_engine := E\<rparr>)" by (simp add: new_orchestrator_def)
  have built: "built_from A (A\<lparr>oa_engine := E\<rparr>)" using new assms(2) by (simp add: built_from_def)
  let ?B = "A\<lparr>oa_engine := E\<rparr>"
  obtain reg where reg: "register_orchestrator ?B None empty_registry = Inr reg"
    by (simp add: register_orchestrator_def routes_def register_handler_def empty_registry_def)
  have "handlers_for reg t = (case map_of routes t of None \<Rightarrow> []
      | Some name \<Rightarrow> [\<lparr>handler_name = engine_prefix @ name, handler_event_type = t, handler_callback = event_handler ?B name\<rparr>])" for t
    using reg by (cases t) (auto simp: register_orchestrator_def routes_def register_handler_def empty_registry_def handlers_for_def)
  moreover have "map fst (orchestrator_steps A) = map snd routes" by (simp add: orchestrator_steps_def routes_def)
  moreover have "list_all (\<lambda>(name, step). find_definition (oa_engine ?B) name =
       Inr \<lparr>wd_name = name, wd_version = 1, wd_step = step, wd_policy = execution_policy (oa_settings A)\<rparr>) (orchestrator_steps A)"
    unfolding built_engine(1) [OF built] by (simp add: find_definition_def orchestrator_steps_def)
  ultimately show ?thesis using new reg by blast
qed

section \<open>Reconciliation of a return\<close>

text \<open>The units of an item on hand; by the invariant, what its ledger says.\<close>

definition stock_of :: "db \<Rightarrow> uuid \<Rightarrow> int" where
  "stock_of s i = (case row (inventory_items s) i of None \<Rightarrow> 0 | Some item \<Rightarrow> ii_quantity_on_hand item)"

lemma stock_of_ledger:
  assumes "fulfilment_ok s" shows "stock_of s i = ledger_on_hand (inventory_movements s) i"
proof -
  have ok: "stock_tables_ok (next_id s) (inventory_items s) (inventory_movements s)"
    using assms by (simp add: fulfilment_ok_def supply_ok_def stock_ok_def)
  show ?thesis
  proof (cases "row (inventory_items s) i")
    case None
    with ok have "i \<notin> im_inventory_item_id ` set (inventory_movements s)" by (auto simp: stock_tables_ok_def row_None_iff)
    then show ?thesis using None by (simp add: stock_of_def ledger_none)
  next
    case (Some r)
    with ok show ?thesis by (auto simp: stock_of_def stock_tables_ok_def dest!: row_Some_iff)
  qed
qed

definition return_posted :: "uuid \<Rightarrow> uuid \<Rightarrow> int \<Rightarrow> db \<Rightarrow> db \<Rightarrow> bool" where
  "return_posted i return_id d s t \<longleftrightarrow>
     (if restock_key return_id \<in> im_idempotency_key ` set (inventory_movements s) then inventory_movements t = inventory_movements s
      else \<exists>m. inventory_movements t = inventory_movements s @ [m] \<and> im_idempotency_key m = restock_key return_id \<and>
        im_inventory_item_id m = i \<and> im_quantity_delta m = d \<and> im_movement_type m = Move_ADJUSTMENT)"

definition return_tables :: "db \<Rightarrow> Return list \<times> Order list \<times> Refund list" where
  "return_tables s = (returns s, orders s, refunds s)"

lemma return_tables_simps [simp]:
  "return_tables (flush_db s) = return_tables s" "return_tables (next_id_update n s) = return_tables s"
  "return_tables (pending_rows_update p s) = return_tables s" "return_tables (dirty_rows_update d s) = return_tables s"
  "return_tables (versions_update v s) = return_tables s" "return_tables (domain_events_update e s) = return_tables s"
  "return_tables (audit_events_update a s) = return_tables s" "return_tables (inventory_items_update i s) = return_tables s"
  "return_tables (inventory_movements_update m s) = return_tables s"
  by (simp_all add: return_tables_def)

lemma keeps_movements_record [keeps_intros]: "keeps inventory_movements (record_change i m a p b w)"
  unfolding record_change_def Let_def by (intro keeps_intros; simp)

lemma keeps_return_adjust [keeps_intros]: "keeps return_tables (adjust_stock i d why who k c)"
  unfolding adjust_stock_def replay_movement_def record_change_def add_movement_def set_item_def get_inventory_def
    existing_movement_def Let_def
  by (intro keeps_intros; simp)

lemma adjust_posts:
  "wp (adjust_stock i d why who (restock_key j) c) (\<lambda>_ t. return_posted i j d s t) (\<lambda>_ _. True) s"
proof (cases "find (\<lambda>m. im_idempotency_key m = restock_key j) (inventory_movements s)")
  case (Some m)
  then have "restock_key j \<in> im_idempotency_key ` set (inventory_movements s)"
    using find_SomeD [OF Some] by (metis imageI)
  then show ?thesis
    by (auto simp: adjust_stock_def wp_simps Some replay_movement_def return_posted_def split: option.split)
next
  case None
  then have new: "restock_key j \<notin> im_idempotency_key ` set (inventory_movements s)" by (auto simp: find_None_iff)
  show ?thesis
  proof (cases "row (inventory_items s) i")
    case Some': (Some r)
    note i = row_id_of [OF Some']
    show ?thesis
      unfolding adjust_stock_def
      apply (simp add: wp_simps None Some' Let_def add_movement_def set_item_def split: sum.split)
      apply (intro allI impI)
      apply (rule wp_mono [OF keeps_wp [OF keeps_movements_record]])
       apply (auto simp: wp_simps return_posted_def new i split: option.split)
      done
  qed (simp add: adjust_stock_def wp_simps None)
qed

lemma restock_effect:
  "wp (restock_return r l) (\<lambda>_ t. return_tables t = return_tables s \<and>
     (if rt_disposition r = Some ''sellable'' then return_posted (oi_inventory_item_id l) (row_id r) (rt_quantity r) s t
      else inventory_movements t = inventory_movements s)) (\<lambda>_ _. True) s"
proof (cases "rt_disposition r = Some ''sellable''")
  case True
  have "wp (adjust_stock (oi_inventory_item_id l) (rt_quantity r) (''Sellable return '' @ uuid_str (row_id r)) ''system''
      (restock_key (row_id r)) None) (\<lambda>_ t. return_posted (oi_inventory_item_id l) (row_id r) (rt_quantity r) s t \<and>
      return_tables t = return_tables s) (\<lambda>_ _. True) s"
    by (rule wp_mono [OF wp_conj [OF adjust_posts keeps_wp [OF keeps_return_adjust]]]) auto
  then show ?thesis unfolding restock_return_def by (simp add: True wp_simps) (erule wp_mono, auto simp: wp_simps)
qed (simp add: restock_return_def wp_simps)

lemma keeps_stamp: "keeps (\<lambda>s. (returns s, refunds s, inventory_movements s)) (record_order_status r target who why)"
  unfolding record_order_status_def audit_order_def set_workflow_def set_order_def by (intro keeps_intros; simp)

lemma returned_effect:
  "wp (update_order_status i Order_RETURNED who why) (\<lambda>_ t. returns t = returns s \<and> refunds t = refunds s \<and>
     inventory_movements t = inventory_movements s \<and> (\<exists>ord. row (orders t) i = Some ord \<and> or_status ord = Order_RETURNED)) (\<lambda>_ _. True) s"
proof (cases "row (orders s) i")
  case None
  then show ?thesis by (simp add: update_order_status_def get_order_def wp_simps row_def)
next
  case (Some r)
  have found: "find (\<lambda>r. row_id r = i) (orders s) = Some r" using Some by (simp add: row_def)
  show ?thesis
  proof (cases "transition_order (or_status r) Order_RETURNED")
    case (Inr st)
    show ?thesis
      apply (simp add: update_order_status_def get_order_def wp_simps found Inr Some)
      apply (intro impI)
      apply (rule wp_mono [OF wp_conj [OF record_order_status_wp keeps_wp [OF keeps_stamp]]])
       apply (auto simp: restamped_def row_id_of [OF Some] order_part_def stamp_status_def Let_def row_update_rows Some)
      done
  qed (simp add: update_order_status_def get_order_def wp_simps found)
qed

lemma close_effect:
  "wp (close_return w r m) (\<lambda>_ t. returns t = update_rows (row_id r) (\<lambda>r. r\<lparr>rt_status := Return_COMPLETED\<rparr>) (returns s) \<and>
     orders t = orders s \<and> refunds t = refunds s \<and> inventory_movements t = inventory_movements s) (\<lambda>_ _. True) s"
  by (simp add: close_return_def set_return_def write_audit_def step_done_def wp_simps)

text \<open>What a reconciliation has checked and done.\<close>

definition reconciled :: "uuid \<Rightarrow> uuid \<Rightarrow> int \<Rightarrow> Return \<Rightarrow> OrderItem \<Rightarrow> Order \<Rightarrow> db \<Rightarrow> db \<Rightarrow> bool" where
  "reconciled order_id return_id quantity r l ord s t \<longleftrightarrow>
     row (returns s) return_id = Some r \<and> row (orders s) order_id = Some ord \<and> rt_order_id r = order_id \<and>
     rt_quantity r = quantity \<and> quantity \<le> oi_quantity l \<and> get_opt_row order_items (rt_order_item_id r) s = (Inr (Some l), s) \<and>
     (\<exists>ord'. row (orders t) order_id = Some ord' \<and> or_status ord' = Order_RETURNED) \<and>
     row (returns t) return_id = Some (r\<lparr>rt_status := Return_COMPLETED\<rparr>) \<and>
     refunded_total (filter (\<lambda>x. rf_order_id x = order_id) (refunds t)) \<le> or_total_amount ord \<and>
     (if rt_disposition r = Some ''sellable'' then return_posted (oi_inventory_item_id l) return_id quantity s t
      else inventory_movements t = inventory_movements s)"

lemma reconciled_end:
  assumes g: "row (returns s) j = Some r" "row (orders s) i = Some ord" "rt_order_id r = i" "row (order_items s) y = Some l"
      "rt_order_item_id r = Some y" "rt_quantity r = q" "q \<le> oi_quantity l"
    and u: "return_tables u = return_tables s"
      "if rt_disposition r = Some ''sellable'' then return_posted (oi_inventory_item_id l) (row_id r) (rt_quantity r) s u
       else inventory_movements u = inventory_movements s"
    and m: "\<not> or_total_amount ord < refunded_total (filter (\<lambda>x. rf_order_id x = i) (refunds u))"
    and v: "returns v = returns u" "refunds v = refunds u" "inventory_movements v = inventory_movements u"
      "row (orders v) i = Some ord'" "or_status ord' = Order_RETURNED"
    and t: "returns t = update_rows (row_id r) (\<lambda>r. r\<lparr>rt_status := Return_COMPLETED\<rparr>) (returns v) \<and> orders t = orders v \<and>
      refunds t = refunds v \<and> inventory_movements t = inventory_movements v"
  shows "\<exists>r l ord. reconciled i j q r l ord s t"
  using assms by (intro exI [of _ r] exI [of _ l] exI [of _ ord])
    (auto simp: reconciled_def return_tables_def row_update_rows run_simps return_posted_def split: if_splits)

lemma return_reconciles:
  assumes e: "ee_data e = OrderReturnedPayload i j q"
  shows "wp (return_to_reconciliation e w) (\<lambda>_ t. \<exists>r l ord. reconciled i j q r l ord s t) (\<lambda>_ _. True) s"
  unfolding return_to_reconciliation_def e EventPayload.case wp_bind wp_andthen
  apply (rule wp_mono [OF return_guards_wp])
   apply (clarsimp simp: wp_simps)
   apply (rule wp_mono [OF restock_effect])
    apply (clarsimp simp: wp_simps)
    apply (intro conjI impI)
     apply (rule wp_mono [OF returned_effect])
      apply (clarsimp simp: wp_simps)
      apply (rule wp_mono [OF close_effect])
       apply (rule reconciled_end; (assumption | rule refl))
      apply simp
     apply simp
    apply (rule wp_mono [OF close_effect])
     apply (rule reconciled_end; (assumption | rule refl | simp add: return_tables_def return_posted_def split: if_splits))
    apply simp_all
  done

lemma posted_stock:
  "return_posted i j d s t \<Longrightarrow> ledger_on_hand (inventory_movements t) k = ledger_on_hand (inventory_movements s) k +
     (if k = i \<and> restock_key j \<notin> im_idempotency_key ` set (inventory_movements s) then d else 0) \<and>
     restock_key j \<in> im_idempotency_key ` set (inventory_movements t)"
  by (auto simp: return_posted_def ledger_snoc split: if_splits)

text \<open>
  C15: the reconciliation of a return. When the step returns, the return belongs to the order, its quantity is that of the
  event and at most what was ordered; the return is completed, the order is returned, and the refunds that count are at most
  the order's total. The stock of the returned item grows by the quantity exactly when the goods are sellable and this
  return was not restocked before; no other stock changes, and a sellable return counts as restocked from then on.
\<close>

theorem return_reconciled_exact:
  assumes ok: "trade_ok A s" and e: "ee_data event = OrderReturnedPayload order_id return_id quantity"
    and run: "return_to_reconciliation event w s = (Inr oc, t)"
  shows "\<exists>r l ord ord'. row (returns s) return_id = Some r \<and> row (orders s) order_id = Some ord \<and> rt_order_id r = order_id \<and>
     rt_quantity r = quantity \<and> quantity \<le> oi_quantity l \<and> get_opt_row order_items (rt_order_item_id r) s = (Inr (Some l), s) \<and>
     row (returns t) return_id = Some (r\<lparr>rt_status := Return_COMPLETED\<rparr>) \<and>
     row (orders t) order_id = Some ord' \<and> or_status ord' = Order_RETURNED \<and>
     refunded_total (filter (\<lambda>x. rf_order_id x = order_id) (refunds t)) \<le> or_total_amount ord \<and>
     (\<forall>i. stock_of t i = stock_of s i + (if i = oi_inventory_item_id l \<and> rt_disposition r = Some ''sellable'' \<and>
        restock_key return_id \<notin> im_idempotency_key ` set (inventory_movements s) then quantity else 0)) \<and>
     (rt_disposition r \<noteq> Some ''sellable'' \<or> restock_key return_id \<in> im_idempotency_key ` set (inventory_movements t))"
proof -
  obtain r l ord where rec: "reconciled order_id return_id quantity r l ord s t"
    using wp_InrD [OF return_reconciles [OF e] run] by blast
  then obtain ord' where ord': "row (orders t) order_id = Some ord'" "or_status ord' = Order_RETURNED"
    unfolding reconciled_def by blast
  have "fulfilment_ok s" "fulfilment_ok t" using ok return_step [OF ok run] by (simp_all add: trade_ok_def)
  then have stock: "stock_of t i = ledger_on_hand (inventory_movements t) i" "stock_of s i = ledger_on_hand (inventory_movements s) i" for i
    by (simp_all add: stock_of_ledger)
  show ?thesis
    unfolding stock
    using rec ord' posted_stock [of "oi_inventory_item_id l" return_id quantity s t]
    by (intro exI [of _ r] exI [of _ l] exI [of _ ord] exI [of _ ord']) (auto simp: reconciled_def split: if_splits)
qed

section \<open>Witnesses\<close>

definition sample_orchestrator :: AutonomousOrchestrator where
  "sample_orchestrator = \<lparr>oa_settings = \<lparr>workflow_max_attempts = 3, workflow_timeout_seconds = 300, workflow_retry_delay_seconds = 30,
       reorder_target_multiplier = 2\<rparr>, oa_listing_agents = [], oa_publication_service = None, oa_customer_service_agent = None,
     oa_engine = \<lparr>we_uuid5 = length, we_definitions = []\<rparr>\<rparr>"

lemma sample_orchestrator_ok: "settings_valid (oa_settings sample_orchestrator)" "fresh_engine (oa_engine sample_orchestrator)"
    "agents_keep sample_orchestrator"
  by (simp_all add: sample_orchestrator_def settings_valid_def fresh_engine_def agents_keep_def)

lemma sample_trade_ok: "trade_ok sample_orchestrator sample_stock_db"
  by (simp add: trade_ok_def sample_stock_ok reorders_ok_def) (simp add: sample_stock_db_def empty_db_def)

lemma sample_built: "\<exists>B reg. built_from sample_orchestrator B \<and> register_orchestrator B None empty_registry = Inr reg"
  by (simp add: built_from_def sample_orchestrator_ok new_orchestrator_def orchestrator_steps_def register_workflow_def check_def
      execution_policy_def register_orchestrator_def routes_def register_handler_def empty_registry_def)
    (simp add: sample_orchestrator_def)

theorem orchestration_invariant_witness:
  "\<exists>B reg. built_from sample_orchestrator B \<and> register_orchestrator B None empty_registry = Inr reg \<and>
     trade_ok sample_orchestrator (run_system sample_engine sample_service (oa_engine B) reg
       [Client (Ingest_Order sample_order), Process 12, Retry_Due None 10, Client (Update_Order 11 Order_CANCELLED ''bob'' ''r''), Process 14]
       sample_stock_db)"
proof -
  obtain B reg where B: "built_from sample_orchestrator B" "register_orchestrator B None empty_registry = Inr reg"
    using sample_built by blast
  have "\<forall>c \<in> set [Client (Ingest_Order sample_order), Process 12, Retry_Due None 10, Client (Update_Order 11 Order_CANCELLED ''bob'' ''r''),
      Process 14]. system_call_valid c"
    by (simp add: sample_order_valid)
  from orchestration_invariant [OF B(1) sample_orchestrator_ok(3) B(2) sample_trade_ok this] B show ?thesis by blast
qed

theorem orchestrator_wired_witness:
  "\<exists>B reg. new_orchestrator sample_orchestrator = Inr B \<and> register_orchestrator B None empty_registry = Inr reg \<and>
     map handler_name (handlers_for reg LOW_STOCK) = [''orchestrator:low-stock-to-reorder-recommendation''] \<and>
     handlers_for reg WORKFLOW_FAILED = []"
  using orchestrator_wired [OF sample_orchestrator_ok(1,2)]
  by (elim exE conjE) (auto simp: routes_def engine_prefix_def)

definition returned_db :: db where
  "returned_db = sample_stock_db\<lparr>
     orders := [(new_order sample_service sample_order 4 5 0)\<lparr>or_status := Order_DELIVERED\<rparr>],
     order_items := [\<lparr>row_id = 6, row_created_at = 0, oi_order_id = 4, oi_inventory_item_id = 1, oi_external_line_id = ''x'', oi_sku = ''s'',
       oi_quantity = 2, oi_unit_price = 5, oi_tax_amount = 0, oi_discount_amount = 0, oi_reservation_reference = None\<rparr>],
     returns := [\<lparr>row_id = 7, row_created_at = 0, rt_order_id = 4, rt_order_item_id = Some 6, rt_quantity = 2, rt_reason = ''r'',
       rt_disposition = Some ''sellable'', rt_status = Return_RECEIVED, rt_received_at = None\<rparr>],
     workflow_runs := [new_workflow 5 0 ''w'' 8 Run_RUNNING ''s'' []]\<rparr>"

definition return_event :: EventEnvelope where
  "return_event = \<lparr>ee_event_id = 9, ee_event_type = ORDER_RETURNED, ee_event_version = 1, ee_occurred_at = 0, ee_producer = ''p'',
     ee_aggregate_type = ''order'', ee_aggregate_id = 4, ee_aggregate_version = 1, ee_correlation_id = 8, ee_workflow_id = None,
     ee_causation_id = None, ee_idempotency_key = ''k'', ee_data = OrderReturnedPayload 4 7 2\<rparr>"

lemma returned_db_ok: "trade_ok sample_orchestrator returned_db"
proof -
  have "supply_part returned_db = supply_part sample_stock_db" "next_id returned_db = next_id sample_stock_db"
    by (simp_all add: returned_db_def supply_part_def)
  then have "supply_ok returned_db"
    using sample_stock_ok supply_ok_part [of sample_stock_db returned_db] by (simp add: fulfilment_ok_def)
  moreover have "stocked returned_db = {1}" "reserved_of returned_db = (\<lambda>_. 0)" "reorder_recommendations returned_db = []"
      "next_id returned_db = 10"
    by (auto simp: returned_db_def stocked_def reserved_of_def sample_stock_db_def sample_item_def empty_db_def row_def fun_eq_iff)
  moreover have "order_tables_ok 10 {1} (orders returned_db) (order_items returned_db)"
    by (simp add: returned_db_def order_tables_ok_def ids_ok_def new_order_def)
  moreover have "claimed (open_lines (orders returned_db) (order_items returned_db)) = (\<lambda>_. 0)"
    by (simp add: returned_db_def open_lines_def row_def new_order_def fun_eq_iff open_status_def)
  ultimately show ?thesis by (simp add: trade_ok_def fulfilment_ok_def reorders_ok_def)
qed

lemma returned_run: "\<exists>oc t. return_to_reconciliation return_event (new_workflow 5 0 ''w'' 8 Run_RUNNING ''s'' []) returned_db = (Inr oc, t)"
  by (simp add: return_to_reconciliation_def return_event_def return_guards_def restock_return_def close_return_def step_done_def
      set_return_def write_audit_def adjust_stock_def existing_movement_def get_inventory_def add_movement_def set_item_def
      record_change_def returned_db_def sample_stock_db_def empty_db_def sample_item_def new_order_def sample_order_simps
      run_simps row_def Let_def update_rows_def restock_key_def apply_quantity_change_def adjusted_cost_basis_def
      update_order_status_def get_order_def record_order_status_def set_order_def set_workflow_def audit_order_def new_workflow_def
      fulfilment_status_def stamp_status_def transition_order_def version_of_def emit_run add_audit_def inventory_movement_checks_def
      available_quantity_def flush_db_def refunded_total_def)
    (simp add: sample_order_def)

theorem return_reconciled_exact_witness:
  "\<exists>oc t. return_to_reconciliation return_event (new_workflow 5 0 ''w'' 8 Run_RUNNING ''s'' []) returned_db = (Inr oc, t) \<and>
     stock_of t 1 = 7 \<and> (\<exists>ord'. row (orders t) 4 = Some ord' \<and> or_status ord' = Order_RETURNED)"
proof -
  obtain oc t where run: "return_to_reconciliation return_event (new_workflow 5 0 ''w'' 8 Run_RUNNING ''s'' []) returned_db = (Inr oc, t)"
    using returned_run by blast
  have e: "ee_data return_event = OrderReturnedPayload 4 7 2" by (simp add: return_event_def)
  have db: "stock_of returned_db 1 = 5" "restock_key 7 \<notin> im_idempotency_key ` set (inventory_movements returned_db)"
      "row (returns returned_db) 7 = Some r \<Longrightarrow> rt_disposition r = Some ''sellable''"
      "row (returns returned_db) 7 = Some r \<Longrightarrow> get_opt_row order_items (rt_order_item_id r) returned_db = (Inr (Some l), returned_db) \<Longrightarrow>
        oi_inventory_item_id l = 1" for r l
    by (auto simp: returned_db_def sample_stock_db_def sample_item_def empty_db_def stock_of_def row_def restock_key_def run_simps)
  from return_reconciled_exact [OF returned_db_ok e run] show ?thesis
    using run by (elim exE conjE) (simp add: db db(1) [simplified])
qed

end
