(* ===== verification/Frame_Steps.thy ===== *)
theory Frame_Steps
  imports Approval_Requests
begin

text \<open>
  Steps that leave a part of the state alone: a predicate that depends on that part, and on identifiers only growing, goes through
  them. Customer service and listings read their invariants through such sequences.
\<close>

locale aside_steps =
  fixes view :: "db \<Rightarrow> 'v" and holds :: "db \<Rightarrow> bool"
  assumes part: "holds s \<Longrightarrow> view t = view s \<Longrightarrow> next_id s \<le> next_id t \<Longrightarrow> holds t"
begin

lemma aside:
  assumes "keeps view p" "advances p" "holds s"
  shows "wp p (\<lambda>_ t. holds t \<and> view t = view s) (\<lambda>_ _. True) s"
  by (rule wp_keeps_advances [OF assms(1,2)]) (use part [OF assms(3)] in auto)

lemma aside_bind:
  assumes "keeps view p" "advances p" "holds s"
    and "\<And>x t. holds t \<Longrightarrow> view t = view s \<Longrightarrow> wp (f x) Q (\<lambda>_ _. True) t"
  shows "wp (bind p f) Q (\<lambda>_ _. True) s"
  unfolding wp_bind by (rule wp_mono [OF aside [OF assms(1-3)]]) (use assms(4) in blast)+

lemma aside_andthen:
  assumes "keeps view p" "advances p" "holds s"
    and "\<And>t. holds t \<Longrightarrow> view t = view s \<Longrightarrow> wp q Q (\<lambda>_ _. True) t"
  shows "wp (andthen p q) Q (\<lambda>_ _. True) s"
  unfolding andthen_def by (rule aside_bind [OF assms(1-3)]) (rule assms(4))

lemma aside_end:
  assumes "keeps view p" "advances p" "holds s"
  shows "wp p (\<lambda>_ t. holds t) (\<lambda>_ _. True) s"
  by (rule wp_mono [OF aside [OF assms]]) simp_all

end

text \<open>Frames of a case distinction.\<close>

lemma keeps_case_sum:
  "(\<And>e. keeps f (m e)) \<Longrightarrow> (\<And>x. keeps f (n x)) \<Longrightarrow> keeps f (case r of Inl e \<Rightarrow> m e | Inr x \<Rightarrow> n x)"
  by (cases r) simp_all

lemma advances_case_sum:
  "(\<And>e. advances (m e)) \<Longrightarrow> (\<And>x. advances (n x)) \<Longrightarrow> advances (case r of Inl e \<Rightarrow> m e | Inr x \<Rightarrow> n x)"
  by (cases r) simp_all

text \<open>One row changed.\<close>

lemma in_update_rows:
  assumes d: "distinct (map row_id rs)" and m: "row rs i = Some m"
  shows "r \<in> set (update_rows i f rs) \<longleftrightarrow> r = f m \<or> r \<in> set rs \<and> row_id r \<noteq> i"
proof
  assume "r \<in> set (update_rows i f rs)"
  then obtain e where e: "e \<in> set rs" "r = (if row_id e = i then f e else e)" unfolding set_update_rows by blast
  then show "r = f m \<or> r \<in> set rs \<and> row_id r \<noteq> i" using row_in_set [OF d e(1)] m by auto
next
  assume "r = f m \<or> r \<in> set rs \<and> row_id r \<noteq> i"
  then show "r \<in> set (update_rows i f rs)" using row_Some_iff [OF m] by (auto simp: set_update_rows image_iff)
qed

lemma update_rows_twice: "(\<And>r. row_id (f r) = row_id r) \<Longrightarrow> update_rows i g (update_rows i f rs) = update_rows i (\<lambda>r. g (f r)) rs"
  by (simp add: update_rows_def)

lemma map_update_rows: "(\<And>r. k (f r) = k r) \<Longrightarrow> map k (update_rows i f rs) = map k rs"
  by (simp add: update_rows_def)

text \<open>A step of \<open>list_all2 approval_moves\<close>.\<close>

lemma approval_move:
  assumes "list_all2 approval_moves aps bps" "a \<in> set aps"
  obtains b where "b \<in> set bps" "approval_moves a b"
proof -
  obtain i where i: "i < length aps" "aps ! i = a" using assms(2) by (metis in_set_conv_nth)
  then show thesis using that [of "bps ! i"] list_all2_nthD [OF assms(1) i(1)] assms(1) by (auto simp: list_all2_lengthD)
qed

text \<open>Operations that never raise \<open>ApprovalExpiredError\<close>, the one exception after which the endpoint keeps the state.\<close>

definition unexpired :: "'a op \<Rightarrow> bool" where
  "unexpired m \<longleftrightarrow> (\<forall>s. wp m (\<lambda>_ _. True) (\<lambda>e _. exn_class e \<noteq> ApprovalExpiredError) s)"

lemma unexpired_bind: "unexpired m \<Longrightarrow> (\<And>x. unexpired (f x)) \<Longrightarrow> unexpired (bind m f)"
  unfolding unexpired_def wp_bind by (blast intro: wp_mono)

lemma unexpired_andthen: "unexpired m \<Longrightarrow> unexpired n \<Longrightarrow> unexpired (andthen m n)"
  unfolding andthen_def by (rule unexpired_bind)

lemma unexpired_simple:
  "unexpired (scalar rows P)" "unexpired (get_opt_row rs1 k)" "unexpired (set_row rs2 upd i f)" "unexpired now_utc" "unexpired new_uuid"
  "unexpired (version_of i)" "unexpired (add_row upd1 r)" "unexpired (ret x)" "unexpired (get_row rs3 i)" "unexpired flush"
  by (simp_all add: unexpired_def wp_simps version_of_def split: option.split)

lemma unexpired_raise:
  "exn_class e \<noteq> ApprovalExpiredError \<Longrightarrow> unexpired (raise_if b e)" "exn_class e \<noteq> ApprovalExpiredError \<Longrightarrow> unexpired (the_or e x)"
  by (simp_all add: unexpired_def wp_simps split: option.split)

lemma unexpired_case: "unexpired m \<Longrightarrow> (\<And>x. unexpired (f x)) \<Longrightarrow> unexpired (case k of None \<Rightarrow> m | Some x \<Rightarrow> f x)"
  by (cases k) simp_all

lemma unexpired_gets: "unexpired (gets g)"
  by (simp add: unexpired_def wp_simps)

lemmas unexpired_intros = unexpired_bind unexpired_andthen unexpired_simple unexpired_raise unexpired_case unexpired_gets

lemma unexpired_emit: "unexpired (emit pl aty ai av k c w ca)"
  unfolding emit_def create_event_def create_event_by_def publish_def by (intro unexpired_intros; simp)

end
