(* ===== verification/Py_Datetime.thy ===== *)
theory Py_Datetime
  imports Core_Types
begin

text \<open>
  What the program uses of Python's \<open>datetime\<close> beside comparing and adding: the calendar date of an instant, the first instant of
  its month, and \<open>isoformat\<close>. Dates are computed as the standard library does, from proleptic Gregorian ordinals.
\<close>

section \<open>Ordinals and dates\<close>

definition is_leap :: "int \<Rightarrow> bool" where
  "is_leap y \<longleftrightarrow> y mod 4 = 0 \<and> (y mod 100 \<noteq> 0 \<or> y mod 400 = 0)"

definition before_month :: "int list" where
  "before_month = [-1, 0, 31, 59, 90, 120, 151, 181, 212, 243, 273, 304, 334]"

definition in_month :: "int list" where
  "in_month = [-1, 31, 28, 31, 30, 31, 30, 31, 31, 30, 31, 30, 31]"

definition days_before_year :: "int \<Rightarrow> int" where
  "days_before_year y = (y - 1) * 365 + (y - 1) div 4 - (y - 1) div 100 + (y - 1) div 400"

definition days_before_month :: "bool \<Rightarrow> nat \<Rightarrow> int" where
  "days_before_month leap m = before_month ! m + (if 2 < m \<and> leap then 1 else 0)"

definition ymd2ord :: "int \<Rightarrow> nat \<Rightarrow> int \<Rightarrow> int" where
  "ymd2ord y m d = days_before_year y + days_before_month (is_leap y) m + d"

text \<open>The month and day of day \<open>n\<close> of a year, counted from 0.\<close>

definition month_day :: "bool \<Rightarrow> int \<Rightarrow> nat \<times> int" where
  "month_day leap n =
     (let month = nat ((n + 50) div 32); preceding = days_before_month leap month in
      if n < preceding
      then (month - 1, n - (preceding - (in_month ! (month - 1) + (if month - 1 = 2 \<and> leap then 1 else 0))) + 1)
      else (month, n - preceding + 1))"

definition ord2ymd :: "int \<Rightarrow> int \<times> nat \<times> int" where
  "ord2ymd ordinal =
     (let n = ordinal - 1; n400 = n div 146097; n = n mod 146097; n100 = n div 36524; n = n mod 36524;
          n4 = n div 1461; n = n mod 1461; n1 = n div 365; n = n mod 365;
          year = n400 * 400 + 1 + n100 * 100 + n4 * 4 + n1 in
      if n1 = 4 \<or> n100 = 4 then (year - 1, 12, 31)
      else (let (m, d) = month_day (n1 = 3 \<and> (n4 \<noteq> 24 \<or> n100 = 3)) n in (year, m, d)))"

definition microseconds_of_day :: int where
  "microseconds_of_day = 86400 * 1000000"

definition date_of :: "datetime \<Rightarrow> int \<times> nat \<times> int" where
  "date_of t = ord2ymd (719163 + t div microseconds_of_day)"

text \<open>\<open>t.replace(day=1, hour=0, minute=0, second=0, microsecond=0)\<close>\<close>

definition month_start :: "datetime \<Rightarrow> datetime" where
  "month_start t = (let (y, m, d) = date_of t in (ymd2ord y m 1 - 719163) * microseconds_of_day)"

text \<open>\<open>t.isoformat()\<close> of a time in UTC.\<close>

definition padded :: "nat \<Rightarrow> int \<Rightarrow> string" where
  "padded width n = (let s = nat_str (nat n) in replicate (width - length s) (CHR ''0'') @ s)"

definition isoformat :: "datetime \<Rightarrow> string" where
  "isoformat t =
     (let (y, m, d) = date_of t; us = t mod microseconds_of_day; s = us div 1000000 in
      padded 4 y @ ''-'' @ padded 2 (int m) @ ''-'' @ padded 2 d @ ''T'' @ padded 2 (s div 3600) @ '':'' @ padded 2 (s div 60 mod 60) @ '':'' @
      padded 2 (s mod 60) @ (if us mod 1000000 = 0 then [] else ''.'' @ padded 6 (us mod 1000000)) @ ''+00:00'')"

section \<open>The calendar is right\<close>

lemma month_day_exact:
  assumes n: "0 \<le> n" "n \<le> (if leap then 365 else 364)" and md: "month_day leap n = (m, d)"
  shows "1 \<le> m \<and> m \<le> 12 \<and> 1 \<le> d \<and> d \<le> 31 \<and> days_before_month leap m + d = n + 1"
proof -
  define k where "k = nat ((n + 50) div 32)"
  have "(n + 50) div 32 = int k" using n(1) by (simp add: k_def)
  then have b: "32 * int k \<le> n + 50" "n + 50 < 32 * int k + 32" by linarith+
  have "n \<le> 365" using n(2) by (simp split: if_splits)
  then have "1 \<le> k" "k \<le> 12" using b n(1) by linarith+
  then have "k \<in> {1, 2, 3, 4, 5, 6, 7, 8, 9, 10, 11, 12}" by simp arith
  moreover have "month_day leap n =
      (if n < days_before_month leap k
       then (k - 1, n - (days_before_month leap k - (in_month ! (k - 1) + (if k - 1 = 2 \<and> leap then 1 else 0))) + 1)
       else (k, n - days_before_month leap k + 1))"
    by (simp add: month_day_def Let_def k_def)
  ultimately show ?thesis
    using b n md by (cases leap) (auto simp: days_before_month_def before_month_def in_month_def split: if_splits)
qed

lemma days_before_year_parts:
  assumes "0 \<le> b" "b \<le> 3" "0 \<le> c" "c \<le> 24" "0 \<le> e" "e \<le> 3"
  shows "days_before_year (a * 400 + 1 + b * 100 + c * 4 + e) = 146097 * a + 36524 * b + 1461 * c + 365 * e"
proof -
  let ?n = "a * 400 + 1 + b * 100 + c * 4 + e - 1"
  have "?n div 4 = 100 * a + 25 * b + c" "?n div 100 = 4 * a + b" "?n div 400 = a" using assms by linarith+
  then show ?thesis unfolding days_before_year_def by (simp only: algebra_simps)
qed

lemma mod_eqI_of: "x = n * k + z \<Longrightarrow> x mod n = z mod (n :: int)"
  by simp

lemma is_leap_parts:
  assumes "0 \<le> b" "b \<le> 3" "0 \<le> c" "c \<le> 24" "0 \<le> e" "e \<le> 3"
  shows "is_leap (a * 400 + 1 + b * 100 + c * 4 + e) \<longleftrightarrow> e = 3 \<and> (c \<noteq> 24 \<or> b = 3)"
proof -
  let ?y = "a * 400 + 1 + b * 100 + c * 4 + e"
  have "?y mod 4 = (e + 1) mod 4"
    by (rule mod_eqI_of [where k = "100 * a + 25 * b + c"]) simp
  then have four: "?y mod 4 = 0 \<longleftrightarrow> e = 3" using assms by (cases "e = 3") simp_all
  have "?y mod 100 = 0 \<longleftrightarrow> c = 24" "?y mod 400 = 0 \<longleftrightarrow> c = 24 \<and> b = 3" if e: "e = 3"
  proof -
    have "?y mod 100 = (c * 4 + 4) mod 100" by (rule mod_eqI_of [where k = "4 * a + b"]) (simp add: e)
    then show "?y mod 100 = 0 \<longleftrightarrow> c = 24" using assms by (cases "c = 24") simp_all
    have m: "?y mod 400 = (b * 100 + c * 4 + 4) mod 400" by (rule mod_eqI_of [where k = a]) (simp add: e)
    then show "?y mod 400 = 0 \<longleftrightarrow> c = 24 \<and> b = 3"
    proof (cases "c = 24 \<and> b = 3")
      case False
      then have "(b * 100 + c * 4 + 4) mod 400 = b * 100 + c * 4 + 4" using assms by (intro mod_pos_pos_trivial) auto
      then show ?thesis using m False assms by linarith
    qed (use m in simp)
  qed
  then show ?thesis unfolding is_leap_def using four by metis
qed

text \<open>A date belongs to its ordinal.\<close>

lemma ymd2ord_ord2ymd:
  assumes "ord2ymd n = (y, m, d)" shows "ymd2ord y m d = n \<and> 1 \<le> d \<and> d \<le> 31 \<and> 1 \<le> m \<and> m \<le> 12"
proof -
  define a where "a = (n - 1) div 146097"
  define r1 where "r1 = (n - 1) mod 146097"
  define b where "b = r1 div 36524"
  define r2 where "r2 = r1 mod 36524"
  define c where "c = r2 div 1461"
  define r3 where "r3 = r2 mod 1461"
  define e where "e = r3 div 365"
  define r4 where "r4 = r3 mod 365"
  note defs = a_def r1_def b_def r2_def c_def r3_def e_def r4_def
  have r: "n - 1 = 146097 * a + r1" "0 \<le> r1" "r1 < 146097" "r1 = 36524 * b + r2" "0 \<le> r2" "r2 < 36524"
      "r2 = 1461 * c + r3" "0 \<le> r3" "r3 < 1461" "r3 = 365 * e + r4" "0 \<le> r4" "r4 < 365"
    by (simp_all add: defs)
  have bounds: "0 \<le> b" "b \<le> 4" "0 \<le> c" "c \<le> 24" "0 \<le> e" "e \<le> 4" using r by linarith+
  have ord: "ord2ymd n = (if e = 4 \<or> b = 4 then (a * 400 + 1 + b * 100 + c * 4 + e - 1, 12, 31)
      else (let (m, d) = month_day (e = 3 \<and> (c \<noteq> 24 \<or> b = 3)) r4 in (a * 400 + 1 + b * 100 + c * 4 + e, m, d)))"
    by (simp add: ord2ymd_def Let_def defs)
  consider (century) "b = 4" | (leap_end) "b \<noteq> 4" "e = 4" | (inside) "b \<noteq> 4" "e \<noteq> 4" by blast
  then show ?thesis
  proof cases
    case century
    then have z: "r2 = 0" "c = 0" "e = 0" "r4 = 0" using r bounds by linarith+
    have y: "y = a * 400 + 1 + 3 * 100 + 24 * 4 + 3" "m = 12" "d = 31" using assms century z by (simp_all add: ord)
    have "days_before_year y = 146097 * a + 36524 * 3 + 1461 * 24 + 365 * 3" "is_leap y"
      unfolding y using days_before_year_parts [of 3 24 3 a] is_leap_parts [of 3 24 3 a] by simp_all
    then show ?thesis
      using y(2,3) r z century by (simp add: ymd2ord_def days_before_month_def before_month_def)
  next
    case leap_end
    then have z: "r3 = 1460" "r4 = 0" "c \<noteq> 24 \<or> b = 3" "b \<le> 3" using r bounds by linarith+
    have y: "y = a * 400 + 1 + b * 100 + c * 4 + 3" "m = 12" "d = 31" using assms leap_end by (simp_all add: ord)
    have "days_before_year y = 146097 * a + 36524 * b + 1461 * c + 365 * 3" "is_leap y"
      unfolding y using days_before_year_parts [of b c 3 a] is_leap_parts [of b c 3 a] bounds z by simp_all
    then show ?thesis
      using y(2,3) r z leap_end by (simp add: ymd2ord_def days_before_month_def before_month_def)
  next
    case inside
    then have le: "b \<le> 3" "e \<le> 3" using bounds by linarith+
    let ?leap = "e = 3 \<and> (c \<noteq> 24 \<or> b = 3)"
    have md: "month_day ?leap r4 = (m, d)" "y = a * 400 + 1 + b * 100 + c * 4 + e"
      using assms inside by (auto simp: ord split: prod.splits)
    have "r4 \<le> (if ?leap then 365 else 364)" using r(12) by simp
    note exact = month_day_exact [OF r(11) this md(1)]
    have "days_before_year y = 146097 * a + 36524 * b + 1461 * c + 365 * e" "is_leap y \<longleftrightarrow> ?leap"
      unfolding md(2) using days_before_year_parts [of b c e a] is_leap_parts [of b c e a] bounds le by simp_all
    then show ?thesis using exact r by (simp add: ymd2ord_def)
  qed
qed

text \<open>The month of an instant starts at most 31 days before it, on day 1, at midnight.\<close>

lemma month_start_bounds:
  "month_start t \<le> t" "t < month_start t + 31 * microseconds_of_day" "month_start t mod microseconds_of_day = 0"
proof -
  obtain y m d where date: "date_of t = (y, m, d)" by (metis prod_cases3)
  then have o: "ymd2ord y m d = 719163 + t div microseconds_of_day" "1 \<le> d" "d \<le> 31"
    using ymd2ord_ord2ymd unfolding date_of_def by blast+
  have "ymd2ord y m 1 = ymd2ord y m d - (d - 1)" by (simp add: ymd2ord_def)
  then have s: "month_start t = (t div microseconds_of_day - (d - 1)) * microseconds_of_day"
    using o by (simp add: month_start_def date)
  have day: "t = t div microseconds_of_day * microseconds_of_day + t mod microseconds_of_day"
      "0 \<le> t mod microseconds_of_day" "t mod microseconds_of_day < microseconds_of_day"
    by (simp_all add: microseconds_of_day_def)
  have "0 \<le> (d - 1) * microseconds_of_day" "(d - 1) * microseconds_of_day \<le> 30 * microseconds_of_day"
    using o(2,3) by (simp_all add: microseconds_of_day_def)
  then show "month_start t \<le> t" "t < month_start t + 31 * microseconds_of_day"
    unfolding s using day by (simp_all add: algebra_simps microseconds_of_day_def)
  show "month_start t mod microseconds_of_day = 0" unfolding s by simp
qed

lemma isoformat_samples:
  "isoformat 0 = ''1970-01-01T00:00:00+00:00''" "isoformat 1709164805000250 = ''2024-02-29T00:00:05.000250+00:00''"
  "month_start 1709164805000250 = 1706745600000000"
  by code_simp+

end
