(* ===== verification/AI_Usage.thy ===== *)
theory AI_Usage
  imports Audit_Trail Py_Decimal Py_Datetime
begin

text \<open>
  \<open>ai/provider.py\<close> and \<open>ai/usage.py\<close>: what is sent to and received from a language model, and the budgets that are checked before a
  call and charged after it. The provider is outside the repository: it is any function of the request and of the agent run it is
  called for, so that its answer may differ from call to call, and it may raise.
\<close>

section \<open>The provider\<close>

record LLMUsage =
  lu_input_tokens :: int
  lu_output_tokens :: int
  lu_cost_amount :: rat
  lu_cost_currency :: "string option"

record LLMRequest =
  lq_task :: string
  lq_prompt_version :: string
  lq_context :: dict
  lq_constraints :: dict

record 'out LLMResult =
  lr_output :: 'out
  lr_provider :: string
  lr_model :: string
  lr_usage :: LLMUsage
  lr_provider_metadata :: "dict option"

type_synonym 'out StructuredLLM = "LLMRequest \<Rightarrow> uuid \<Rightarrow> exn + 'out LLMResult"

section \<open>Agent runs\<close>

definition new_agent_run :: "uuid \<Rightarrow> datetime \<Rightarrow> uuid option \<Rightarrow> string \<Rightarrow> string \<Rightarrow> string \<Rightarrow> AgentRun" where
  "new_agent_run run_id now workflow_id agent_type input_reference prompt_version =
     \<lparr>row_id = run_id, row_created_at = now, ag_workflow_run_id = workflow_id, ag_agent_type = agent_type,
      ag_status = Run_RUNNING, ag_input_reference = Some input_reference, ag_output_reference = None,
      ag_provider = None, ag_model = None, ag_prompt_version = Some prompt_version, ag_input_tokens = 0,
      ag_output_tokens = 0, ag_cost_amount = 0, ag_cost_currency = None, ag_safety_result = [], ag_error = None\<rparr>"

definition set_agent_run :: "uuid \<Rightarrow> (AgentRun \<Rightarrow> AgentRun) \<Rightarrow> unit op" where
  "set_agent_run = set_row agent_runs agent_runs_update"

section \<open>Budgets\<close>

record UsageAccounting =
  monthly_limit :: "rat option"
  workflow_limit :: "rat option"
  accounting_currency :: string

definition usage_accounting :: "rat option \<Rightarrow> rat option \<Rightarrow> string \<Rightarrow> UsageAccounting" where
  "usage_accounting monthly workflow currency =
     \<lparr>monthly_limit = monthly, workflow_limit = workflow, accounting_currency = str_upper currency\<rparr>"

text \<open>The constructor's defaults: no limits.\<close>

definition default_accounting :: UsageAccounting where
  "default_accounting = usage_accounting None None ''USD''"

text \<open>\<open>UsageAccounting.from_settings\<close>; a limit is the decimal its setting spells.\<close>

record SpendingSettings =
  ai_monthly_spending_limit :: "rat option"
  workflow_spending_limit :: "rat option"
  spending_currency :: string

definition accounting_from_settings :: "SpendingSettings \<Rightarrow> UsageAccounting" where
  "accounting_from_settings c =
     usage_accounting (ai_monthly_spending_limit c) (workflow_spending_limit c) (spending_currency c)"

text \<open>The costs of a month in the currency of the budget, and the two tests of \<open>authorize\<close>.\<close>

definition spent_since :: "datetime \<Rightarrow> string \<Rightarrow> AgentRun list \<Rightarrow> rat" where
  "spent_since start currency runs =
     sum_list (map ag_cost_amount (filter (\<lambda>r. start \<le> row_created_at r \<and> ag_cost_currency r = Some currency) runs))"

definition over_limit :: "rat option \<Rightarrow> rat \<Rightarrow> bool" where
  "over_limit limit spent \<longleftrightarrow> (case limit of None \<Rightarrow> False | Some l \<Rightarrow> l \<le> spent)"

definition authorize :: "UsageAccounting \<Rightarrow> WorkflowRun option \<Rightarrow> unit op" where
  "authorize U workflow =
     bind now_utc (\<lambda>now.
     andthen flush
     (bind (gets agent_runs) (\<lambda>runs.
      andthen (raise_if (over_limit (monthly_limit U) (spent_since (month_start now) (accounting_currency U) runs))
        (Exn SpendingLimitExceeded ''Monthly AI spending limit reached''))
      (case workflow of
         None \<Rightarrow> ret ()
       | Some w \<Rightarrow> raise_if (wf_cost_currency w = Some (accounting_currency U) \<and> over_limit (workflow_limit U) (wf_cost_amount w))
           (Exn SpendingLimitExceeded ''Workflow AI spending limit reached'')))))"

definition charged :: "LLMUsage \<Rightarrow> AgentRun \<Rightarrow> AgentRun" where
  "charged usage r = r\<lparr>ag_input_tokens := lu_input_tokens usage, ag_output_tokens := lu_output_tokens usage,
     ag_cost_amount := lu_cost_amount usage, ag_cost_currency := lu_cost_currency usage\<rparr>"

definition record_usage :: "WorkflowRun option \<Rightarrow> uuid \<Rightarrow> LLMUsage \<Rightarrow> unit op" where
  "record_usage workflow agent_run_id usage =
     andthen (raise_if (lu_cost_amount usage < 0 \<or> lu_input_tokens usage < 0 \<or> lu_output_tokens usage < 0)
       (Exn ValueError ''AI usage cannot be negative''))
     (andthen (set_agent_run agent_run_id (charged usage))
     (case workflow of
        None \<Rightarrow> ret ()
      | Some w \<Rightarrow> (case lu_cost_currency usage of
          None \<Rightarrow> ret ()
        | Some c \<Rightarrow>
            if c = [] then ret ()
            else let currency = str_upper c in
              andthen (raise_if (wf_cost_currency w \<noteq> None \<and> wf_cost_currency w \<noteq> Some currency)
                (Exn ValueError ''A workflow cannot aggregate costs in multiple currencies''))
              (set_workflow (row_id w) (\<lambda>v. v\<lparr>wf_cost_currency := Some currency,
                 wf_cost_amount := dec_add (wf_cost_amount v) (lu_cost_amount usage)\<rparr>)))))"

section \<open>Frames\<close>

text \<open>What a call of a language model may touch: agent runs and workflow runs.\<close>

lemma keeps_authorize [keeps_intros]: "(\<And>s. f (flush_db s) = f s) \<Longrightarrow> keeps f (authorize U w)"
  unfolding authorize_def by (intro keeps_intros)

lemma keeps_set_agent_run [keeps_intros]:
  "(\<And>s g h. f (dirty_rows_update g (agent_runs_update h s)) = f s) \<Longrightarrow> keeps f (set_agent_run i c)"
  unfolding set_agent_run_def by (intro keeps_intros)

lemma keeps_record_usage [keeps_intros]:
  assumes "\<And>s g h. f (dirty_rows_update g (agent_runs_update h s)) = f s"
    and "\<And>s g h. f (dirty_rows_update g (workflow_runs_update h s)) = f s"
  shows "keeps f (record_usage w i u)"
  unfolding record_usage_def Let_def set_workflow_def
  by (intro keeps_intros assms)

lemma keeps_record_usage_alone:
  assumes "\<And>s g h. f (dirty_rows_update g (agent_runs_update h s)) = f s"
  shows "keeps f (record_usage None i u)"
  unfolding record_usage_def option.case by (intro keeps_intros assms)

lemma advances_usage [simp]: "advances (authorize U w)" "advances (set_agent_run i c)" "advances (record_usage w i u)"
proof -
  show "advances (authorize U w)" unfolding authorize_def by (intro advances_intros advances_simple)
  show a: "advances (set_agent_run i c)" for i c unfolding set_agent_run_def by (intro advances_writes) simp
  show "advances (record_usage w i u)"
    unfolding record_usage_def Let_def set_workflow_def
    by (intro advances_intros advances_simple a advances_writes) simp
qed

section \<open>Budgets hold\<close>

text \<open>A call is authorized exactly below both limits, and authorization changes no table.\<close>

lemma authorize_apply: "authorize U w s = ((if over_limit (monthly_limit U) (spent_since (month_start (clock s)) (accounting_currency U) (agent_runs s))
      then Inl (Exn SpendingLimitExceeded ''Monthly AI spending limit reached'')
      else case w of None \<Rightarrow> Inr () | Some v \<Rightarrow>
        if wf_cost_currency v = Some (accounting_currency U) \<and> over_limit (workflow_limit U) (wf_cost_amount v)
        then Inl (Exn SpendingLimitExceeded ''Workflow AI spending limit reached'') else Inr ()), flush_db s)"
  by (simp add: authorize_def run_simps split: option.split)

lemma charged_fields [simp]:
  "row_id (charged u r) = row_id r" "row_created_at (charged u r) = row_created_at r"
  "ag_cost_amount (charged u r) = lu_cost_amount u" "ag_cost_currency (charged u r) = lu_cost_currency u"
  by (simp_all add: charged_def)

text \<open>Charging one run raises the costs of a month at most by the cost charged.\<close>

lemma usage_of_run:
  "spent_since a c (update_rows i (charged u) runs) \<le> spent_since a c runs + (if lu_cost_currency u = Some c then lu_cost_amount u else 0)"
  if "0 \<le> lu_cost_amount u" "\<forall>r \<in> set runs. 0 \<le> ag_cost_amount r" "distinct (map row_id runs)"
  using that
proof (induction runs)
  case (Cons r rs)
  show ?case
  proof (cases "row_id r = i")
    case True
    then have "update_rows i (charged u) rs = rs"
      using Cons.prems(3) by (intro update_rows_idem) (auto simp: row_None_iff)
    then show ?thesis using Cons.prems True by (auto simp: spent_since_def update_rows_Cons)
  next
    case False
    then show ?thesis using Cons by (auto simp: spent_since_def update_rows_Cons)
  qed
qed (simp add: spent_since_def update_rows_def)

end
