(* ===== verification/Risk_Screen.thy ===== *)
theory Risk_Screen
  imports Session "HOL-Library.List_Lexorder" "HOL-Library.Char_ord"
begin

text \<open>
  \<open>CustomerRiskScreen\<close> of \<open>application/customer_service.py\<close>: the deterministic screening of a customer's message. Each rule is a
  regular expression \<open>\b(..|..)\b\<close> that ignores case, searched for anywhere in the text. Its alternatives are sequences of literals
  and \<open>.*\<close>; the matcher keeps every position at which such a sequence may end.
\<close>

section \<open>Searching\<close>

datatype piece = Lit string | AnyRun

text \<open>A position in a text: the character before it and the rest.\<close>

type_synonym position = "char option \<times> string"

text \<open>\<open>\w\<close> and \<open>\b\<close>\<close>

definition is_word :: "char \<Rightarrow> bool" where
  "is_word c \<longleftrightarrow> (let n = of_char c :: nat in 48 \<le> n \<and> n \<le> 57 \<or> 65 \<le> n \<and> n \<le> 90 \<or> n = 95 \<or> 97 \<le> n \<and> n \<le> 122)"

definition word_before :: "position \<Rightarrow> bool" where
  "word_before p \<longleftrightarrow> (case fst p of None \<Rightarrow> False | Some c \<Rightarrow> is_word c)"

definition word_after :: "position \<Rightarrow> bool" where
  "word_after p \<longleftrightarrow> (case snd p of [] \<Rightarrow> False | c # _ \<Rightarrow> is_word c)"

definition boundary :: "position \<Rightarrow> bool" where
  "boundary p \<longleftrightarrow> word_before p \<noteq> word_after p"

fun positions :: "char option \<Rightarrow> string \<Rightarrow> position list" where
  "positions before [] = [(before, [])]"
| "positions before (c # cs) = (before, c # cs) # positions (Some c) cs"

text \<open>Reading a literal, and where a \<open>.*\<close> may end: before or after any character but a newline.\<close>

fun read_literal :: "string \<Rightarrow> position \<Rightarrow> position list" where
  "read_literal [] p = [p]"
| "read_literal (l # ls) (before, []) = []"
| "read_literal (l # ls) (before, c # cs) = (if c = l then read_literal ls (Some c, cs) else [])"

fun run_ends :: "char option \<Rightarrow> string \<Rightarrow> position list" where
  "run_ends before [] = [(before, [])]"
| "run_ends before (c # cs) = (before, c # cs) # (if c = CHR 0x0A then [] else run_ends (Some c) cs)"

definition piece_ends :: "piece \<Rightarrow> position \<Rightarrow> position list" where
  "piece_ends q p = (case q of Lit l \<Rightarrow> read_literal l p | AnyRun \<Rightarrow> run_ends (fst p) (snd p))"

fun match_ends :: "piece list \<Rightarrow> position \<Rightarrow> position list" where
  "match_ends [] p = [p]"
| "match_ends (q # qs) p = concat (map (match_ends qs) (piece_ends q p))"

text \<open>\<open>pattern.search(content)\<close> with \<open>re.IGNORECASE\<close>, for \<open>\b(alternatives)\b\<close> with lower-case literals.\<close>

definition pattern_found :: "piece list list \<Rightarrow> string \<Rightarrow> bool" where
  "pattern_found alternatives content \<longleftrightarrow>
     (\<exists>p \<in> set (positions None (str_lower content)). boundary p \<and>
        (\<exists>alternative \<in> set alternatives. \<exists>e \<in> set (match_ends alternative p). boundary e))"

section \<open>The rules\<close>

definition risk_rules :: "(string \<times> piece list list) list" where
  "risk_rules =
     [(''legal_threat'', [[Lit ''lawyer''], [Lit ''solicitor''], [Lit ''sue''], [Lit ''court''], [Lit ''legal action''],
         [Lit ''regulator''], [Lit ''trading standards'']]),
      (''dispute'', [[Lit ''chargeback''], [Lit ''payment dispute''], [Lit ''open a dispute'']]),
      (''suspected_fraud'', [[Lit ''fraud''], [Lit ''fraudulent''], [Lit ''scam''], [Lit ''stolen card''],
         [Lit ''unauthorised''], [Lit ''unauthorized'']]),
      (''abusive_or_threatening'', [[Lit ''kill''], [Lit ''hurt you''], [Lit ''threat''], [Lit ''idiot''], [Lit ''moron''],
         [Lit ''fuck''], [Lit ''bastard'']]),
      (''unusual_refund'', [[Lit ''refund'', AnyRun, Lit ''different card''], [Lit ''refund'', AnyRun, Lit ''different account''],
         [Lit ''refund'', AnyRun, Lit ''gift card''], [Lit ''refund'', AnyRun, Lit ''crypto''], [Lit ''multiple refunds'']])]"

definition matched_rules :: "string \<Rightarrow> string list" where
  "matched_rules content = map fst (filter (\<lambda>(name, alternatives). pattern_found alternatives content) risk_rules)"

text \<open>\<open>CustomerRiskScreen.evaluate\<close>\<close>

definition evaluate_risks :: "string \<Rightarrow> CustomerConversation \<Rightarrow> string list" where
  "evaluate_risks content conversation =
     sort (remdups (matched_rules content @
       (if cc_risk_level conversation \<in> {Some ''high'', Some ''critical''} then [''existing_high_risk_conversation''] else [])))"

section \<open>What the search finds\<close>

text \<open>A position splits the text; a literal is found exactly where it stands.\<close>

definition last_of :: "string \<Rightarrow> char option \<Rightarrow> char option" where
  "last_of xs before = (if xs = [] then before else Some (last xs))"

lemma last_of_simps [simp]: "last_of [] before = before" "last_of (c # xs) before = last_of xs (Some c)"
  by (simp_all add: last_of_def)

lemma splits_Cons: "(\<exists>xs ys. c # s = xs @ ys \<and> P xs ys) \<longleftrightarrow> P [] (c # s) \<or> (\<exists>xs ys. s = xs @ ys \<and> P (c # xs) ys)"
proof
  assume "\<exists>xs ys. c # s = xs @ ys \<and> P xs ys"
  then obtain xs ys where x: "c # s = xs @ ys" "P xs ys" by blast
  then show "P [] (c # s) \<or> (\<exists>xs ys. s = xs @ ys \<and> P (c # xs) ys)" by (cases xs) auto
next
  assume "P [] (c # s) \<or> (\<exists>xs ys. s = xs @ ys \<and> P (c # xs) ys)"
  then show "\<exists>xs ys. c # s = xs @ ys \<and> P xs ys" by (metis append_Cons append_Nil)
qed

lemma positions_iff: "p \<in> set (positions before s) \<longleftrightarrow> (\<exists>xs ys. s = xs @ ys \<and> p = (last_of xs before, ys))"
  by (induction s arbitrary: before) (simp, simp add: splits_Cons)

lemma read_literal_iff: "e \<in> set (read_literal l p) \<longleftrightarrow> (\<exists>ys. snd p = l @ ys \<and> e = (last_of l (fst p), ys))"
  by (induction l p rule: read_literal.induct) auto

lemma run_ends_iff: "e \<in> set (run_ends before s) \<longleftrightarrow>
    (\<exists>xs ys. s = xs @ ys \<and> CHR 0x0A \<notin> set xs \<and> e = (last_of xs before, ys))"
  by (induction s arbitrary: before) (simp, auto simp add: splits_Cons)

text \<open>A word is found exactly when it stands in the text, in any case, with no letter, digit or underscore against it.\<close>

definition stands_in :: "string \<Rightarrow> string \<Rightarrow> bool" where
  "stands_in w content \<longleftrightarrow> (\<exists>xs ys. str_lower content = xs @ w @ ys \<and>
     (xs \<noteq> [] \<longrightarrow> \<not> is_word (last xs)) \<and> (ys \<noteq> [] \<longrightarrow> \<not> is_word (hd ys)))"

lemma boundary_split:
  assumes "w \<noteq> []" "is_word (hd w)" "is_word (last w)"
  shows "boundary (last_of xs None, w @ ys) \<longleftrightarrow> (xs \<noteq> [] \<longrightarrow> \<not> is_word (last xs))"
    "boundary (last_of w before, ys) \<longleftrightarrow> (ys \<noteq> [] \<longrightarrow> \<not> is_word (hd ys))"
  using assms by (auto simp: boundary_def word_before_def word_after_def last_of_def neq_Nil_conv split: list.split)

text \<open>The texts a sequence of pieces stands for, and the positions at which it matches.\<close>

fun denotes :: "piece list \<Rightarrow> string \<Rightarrow> bool" where
  "denotes [] w \<longleftrightarrow> w = []"
| "denotes (Lit l # qs) w \<longleftrightarrow> (\<exists>v. w = l @ v \<and> denotes qs v)"
| "denotes (AnyRun # qs) w \<longleftrightarrow> (\<exists>m v. w = m @ v \<and> CHR 0x0A \<notin> set m \<and> denotes qs v)"

lemma last_of_append: "last_of (xs @ ys) before = last_of ys (last_of xs before)"
  by (simp add: last_of_def)

lemma match_ends_iff: "e \<in> set (match_ends alt p) \<longleftrightarrow> (\<exists>w ys. snd p = w @ ys \<and> denotes alt w \<and> e = (last_of w (fst p), ys))"
proof (induction alt arbitrary: p)
  case Nil
  then show ?case by (cases p) auto
next
  case (Cons q qs)
  show ?case
  proof (cases q)
    case (Lit l)
    then show ?thesis by (auto simp: piece_ends_def read_literal_iff Cons last_of_append)
  next
    case AnyRun
    have runs: "(\<exists>x \<in> set (run_ends b r). P x) \<longleftrightarrow> (\<exists>m ys. r = m @ ys \<and> CHR 0x0A \<notin> set m \<and> P (last_of m b, ys))" for b r P
      unfolding Bex_def run_ends_iff by blast
    show ?thesis unfolding AnyRun by (auto simp: piece_ends_def runs Cons last_of_append) blast+
  qed
qed

definition bounded_by_words :: "piece list \<Rightarrow> bool" where
  "bounded_by_words alt \<longleftrightarrow>
     (case alt of Lit l # _ \<Rightarrow> l \<noteq> [] \<and> is_word (hd l) | _ \<Rightarrow> False) \<and>
     (case rev alt of Lit l # _ \<Rightarrow> l \<noteq> [] \<and> is_word (last l) | _ \<Rightarrow> False)"

lemma denotes_last: "denotes (qs @ [Lit l]) w \<Longrightarrow> \<exists>v. w = v @ l"
proof (induction qs arbitrary: w)
  case (Cons q qs)
  then show ?case by (cases q) (auto, (metis append_assoc)+)
qed simp

lemma bounded_word:
  assumes "bounded_by_words alt" "denotes alt w"
  shows "w \<noteq> []" "is_word (hd w)" "is_word (last w)"
proof -
  obtain l qs where first: "alt = Lit l # qs" "l \<noteq> []" "is_word (hd l)"
    using assms(1) by (auto simp: bounded_by_words_def split: list.splits piece.splits)
  then obtain v where v: "w = l @ v" using assms(2) by auto
  obtain l' qs' where "rev alt = Lit l' # qs'" and last: "l' \<noteq> []" "is_word (last l')"
    using assms(1) by (auto simp: bounded_by_words_def split: list.splits piece.splits)
  then have "alt = rev qs' @ [Lit l']" by (metis rev_rev_ident rev.simps(2))
  then obtain u where u: "w = u @ l'" using denotes_last assms(2) by blast
  show "w \<noteq> []" "is_word (hd w)" using v first by simp_all
  show "is_word (last w)" using u last by simp
qed

lemma pattern_found_iff:
  assumes "\<forall>alt \<in> set alternatives. bounded_by_words alt"
  shows "pattern_found alternatives content \<longleftrightarrow> (\<exists>alt \<in> set alternatives. \<exists>w. denotes alt w \<and> stands_in w content)"
proof -
  let ?s = "str_lower content"
  have one: "(\<exists>p \<in> set (positions None ?s). boundary p \<and> (\<exists>e \<in> set (match_ends alt p). boundary e)) \<longleftrightarrow>
      (\<exists>w. denotes alt w \<and> stands_in w content)" (is "?l \<longleftrightarrow> ?r") if alt: "bounded_by_words alt" for alt
  proof
    assume ?l
    then obtain xs w ys where x: "?s = xs @ w @ ys" "boundary (last_of xs None, w @ ys)" "denotes alt w"
        "boundary (last_of w (last_of xs None), ys)"
      unfolding Bex_def positions_iff match_ends_iff by auto
    then have "stands_in w content"
      using boundary_split [OF bounded_word [OF alt x(3)]] unfolding stands_in_def by blast
    then show ?r using x(3) by blast
  next
    assume ?r
    then obtain w xs ys where x: "denotes alt w" "?s = xs @ w @ ys" "boundary (last_of xs None, w @ ys)"
        "boundary (last_of w (last_of xs None), ys)"
      unfolding stands_in_def using boundary_split [OF bounded_word [OF alt]] by blast
    show ?l
      unfolding Bex_def positions_iff match_ends_iff
      by (rule exI [of _ "(last_of xs None, w @ ys)"], intro conjI exI [of _ "(last_of w (last_of xs None), ys)"])
        (use x in auto)
  qed
  have "pattern_found alternatives content \<longleftrightarrow> (\<exists>alt \<in> set alternatives. \<exists>p \<in> set (positions None ?s). boundary p \<and>
      (\<exists>e \<in> set (match_ends alt p). boundary e))"
    unfolding pattern_found_def by blast
  then show ?thesis using one assms by blast
qed

lemma rules_bounded: "\<forall>(name, alternatives) \<in> set risk_rules. \<forall>alt \<in> set alternatives. bounded_by_words alt"
  by code_simp

text \<open>
  C36: the risk screen finds exactly what it is configured for: a reason is reported if and only if one of the phrases of its rule
  stands in the message, in upper or lower case, with no letter, digit or underscore against it, or the conversation already has
  a high risk level; each reason once, in order.
\<close>

theorem risk_screen_exact:
  "(name \<in> set (evaluate_risks content conversation) \<longleftrightarrow>
      (\<exists>alternatives alt w. (name, alternatives) \<in> set risk_rules \<and> alt \<in> set alternatives \<and> denotes alt w \<and> stands_in w content) \<or>
      name = ''existing_high_risk_conversation'' \<and> cc_risk_level conversation \<in> {Some ''high'', Some ''critical''}) \<and>
   sorted (evaluate_risks content conversation) \<and> distinct (evaluate_risks content conversation)"
proof -
  have "name \<in> set (matched_rules content) \<longleftrightarrow> (\<exists>alternatives. (name, alternatives) \<in> set risk_rules \<and> pattern_found alternatives content)"
    by (force simp: matched_rules_def)
  also have "\<dots> \<longleftrightarrow> (\<exists>alternatives alt w. (name, alternatives) \<in> set risk_rules \<and> alt \<in> set alternatives \<and> denotes alt w \<and> stands_in w content)"
    using pattern_found_iff rules_bounded by blast
  finally show ?thesis by (auto simp: evaluate_risks_def)
qed

lemma screened_samples:
  "matched_rules ''I will SUE you!'' = [''legal_threat'']"
  "matched_rules ''The issue with my suede shoes'' = []"
  "matched_rules ''please refund it to a different card'' = [''unusual_refund'']"
  by code_simp+

end
