(* ===== verification/Customer_Service.thy ===== *)
theory Customer_Service
  imports Orchestration Frame_Steps AI_Usage Risk_Screen
begin

text \<open>
  \<open>application/customer_service.py\<close>: a customer's message is stored, screened, and either escalated to a human, answered
  automatically, or drafted for an approval; the handler of the granted approval releases the draft. The language model is the
  parameter \<open>cs_llm\<close>.
\<close>

section \<open>The answer of the model\<close>

record CustomerServiceAIResponse =
  cr_intent :: CustomerIntent
  cr_decision :: CustomerServiceDecision
  cr_risk_level :: string
  cr_generated_response :: "string option"
  cr_rationale :: string

definition ai_response_valid :: "CustomerServiceAIResponse \<Rightarrow> bool" where
  "ai_response_valid r \<longleftrightarrow> 1 \<le> length (cr_risk_level r) \<and> length (cr_risk_level r) \<le> 50 \<and>
     (case cr_generated_response r of None \<Rightarrow> True | Some g \<Rightarrow> length g \<le> 5000) \<and>
     1 \<le> length (cr_rationale r) \<and> length (cr_rationale r) \<le> 1000"

primrec intent_value :: "CustomerIntent \<Rightarrow> string" where
  "intent_value Intent_PRODUCT_ENQUIRY = ''product_enquiry''"
| "intent_value Intent_ORDER_STATUS = ''order_status''"
| "intent_value Intent_DELIVERY_QUESTION = ''delivery_question''"
| "intent_value Intent_RETURN_REQUEST = ''return_request''"
| "intent_value Intent_REFUND_ENQUIRY = ''refund_enquiry''"
| "intent_value Intent_COMPLAINT = ''complaint''"
| "intent_value Intent_COMMON_MARKETPLACE_MESSAGE = ''common_marketplace_message''"
| "intent_value Intent_UNKNOWN = ''unknown''"

primrec conversation_value :: "ConversationStatus \<Rightarrow> string" where
  "conversation_value Conversation_OPEN = ''open''"
| "conversation_value Conversation_AWAITING_APPROVAL = ''awaiting_approval''"
| "conversation_value Conversation_ESCALATED = ''escalated''"
| "conversation_value Conversation_CLOSED = ''closed''"

definition response_dump :: "CustomerServiceAIResponse \<Rightarrow> dict" where
  "response_dump r = [(''intent'', JStr (intent_value (cr_intent r))), (''decision'', JStr (decision_value (cr_decision r))),
     (''risk_level'', JStr (cr_risk_level r)), (''generated_response'', j_opt JStr (cr_generated_response r)),
     (''rationale'', JStr (cr_rationale r))]"

section \<open>The agent\<close>

record CustomerServiceAgent =
  cs_llm :: "CustomerServiceAIResponse StructuredLLM"
  cs_approval_engine :: ApprovalEngine
  cs_prompt_version :: string
  cs_usage_accounting :: UsageAccounting

definition safe_auto_intents :: "CustomerIntent set" where
  "safe_auto_intents = {Intent_PRODUCT_ENQUIRY, Intent_ORDER_STATUS, Intent_DELIVERY_QUESTION, Intent_COMMON_MARKETPLACE_MESSAGE}"

definition approval_intents :: "CustomerIntent set" where
  "approval_intents = {Intent_RETURN_REQUEST, Intent_REFUND_ENQUIRY, Intent_COMPLAINT}"

definition set_message :: "uuid \<Rightarrow> (CustomerMessage \<Rightarrow> CustomerMessage) \<Rightarrow> unit op" where
  "set_message = set_row customer_messages customer_messages_update"

definition set_conversation :: "uuid \<Rightarrow> (CustomerConversation \<Rightarrow> CustomerConversation) \<Rightarrow> unit op" where
  "set_conversation = set_row customer_conversations customer_conversations_update"

definition escalated_message :: "string list \<Rightarrow> CustomerIntent \<Rightarrow> CustomerMessage \<Rightarrow> CustomerMessage" where
  "escalated_message reasons intent m = m\<lparr>cm_intent := Some intent, cm_classification := Some Decision_HUMAN_ESCALATION,
     cm_risk_level := Some ''high'', cm_risk_reasons := reasons, cm_status := Message_RECEIVED\<rparr>"

definition escalated_conversation :: "CustomerConversation \<Rightarrow> CustomerConversation" where
  "escalated_conversation c = c\<lparr>cc_classification := Some (decision_value Decision_HUMAN_ESCALATION), cc_risk_level := Some ''high'',
     cc_status := Conversation_ESCALATED, cc_assignee := Some ''human-support-queue''\<rparr>"

definition escalate :: "uuid \<Rightarrow> uuid \<Rightarrow> string list \<Rightarrow> CustomerIntent \<Rightarrow> unit op" where
  "escalate conversation_id message_id reasons intent =
     andthen (set_message message_id (escalated_message reasons intent))
     (set_conversation conversation_id escalated_conversation)"

definition auto_respond :: "uuid \<Rightarrow> uuid \<Rightarrow> unit op" where
  "auto_respond conversation_id message_id =
     bind now_utc (\<lambda>now.
     andthen (set_message message_id (\<lambda>m. m\<lparr>cm_classification := Some Decision_AUTO_RESPOND, cm_risk_level := Some ''low'',
       cm_final_response := cm_generated_response m, cm_status := Message_APPROVED, cm_responded_at := Some now\<rparr>))
     (set_conversation conversation_id (\<lambda>c. c\<lparr>cc_classification := Some (decision_value Decision_AUTO_RESPOND),
       cc_risk_level := Some ''low'', cc_status := Conversation_OPEN\<rparr>)))"

definition response_request :: "uuid \<Rightarrow> string option \<Rightarrow> ApprovalRequest" where
  "response_request message_id generated =
     \<lparr>rq_action_type = action_type_value CUSTOMER_RESPONSE, rq_resource_type = ''customer_message'', rq_resource_id = message_id,
      rq_requested_action = [(''final_response'', j_opt JStr generated)], rq_reason = ''Customer response requires human review'',
      rq_requester = ''customer-service-agent'', rq_risk_level = ''customer_communication'', rq_workflow_run_id = None,
      rq_expires_at = None\<rparr>"

definition draft_for_approval :: "CustomerServiceAgent \<Rightarrow> uuid \<Rightarrow> uuid \<Rightarrow> unit op" where
  "draft_for_approval A conversation_id message_id =
     bind (reload customer_messages message_id) (\<lambda>message.
     andthen (set_message message_id (\<lambda>m. m\<lparr>cm_classification := Some Decision_DRAFT_FOR_APPROVAL, cm_risk_level := Some ''medium'',
       cm_status := Message_DRAFT\<rparr>))
     (andthen (set_conversation conversation_id (\<lambda>c. c\<lparr>cc_classification := Some (decision_value Decision_DRAFT_FOR_APPROVAL),
       cc_risk_level := Some ''medium'', cc_status := Conversation_AWAITING_APPROVAL\<rparr>))
     (bind (create_request (cs_approval_engine A) (response_request message_id (cm_generated_response message))
             ''customer_response_review'' 1) (\<lambda>approval.
      set_message message_id (\<lambda>m. m\<lparr>cm_approval_id := Some (row_id approval)\<rparr>)))))"

text \<open>What the model is told: the message, the conversation, and what belongs to its product and order.\<close>

definition product_context :: "Product \<Rightarrow> dict" where
  "product_context p = [(''name'', JStr (pd_name p)), (''brand'', j_opt JStr (pd_brand p)),
     (''attributes'', JObj (take 20 (sort_key fst (pd_attributes p))))]"

definition order_context :: "Order \<Rightarrow> OrderItem list \<Rightarrow> dict" where
  "order_context ord items =
     [(''external_order_id'', JStr (or_external_order_id ord)), (''status'', JStr (order_value (or_status ord))),
      (''ordered_at'', JStr (isoformat (or_ordered_at ord))),
      (''dispatched_at'', j_opt (\<lambda>t. JStr (isoformat t)) (or_dispatched_at ord)),
      (''delivered_at'', j_opt (\<lambda>t. JStr (isoformat t)) (or_delivered_at ord)),
      (''items'', JList (map (\<lambda>i. JObj [(''sku'', JStr (oi_sku i)), (''quantity'', JInt (oi_quantity i))]) items))]"

definition minimum_context :: "CustomerConversation \<Rightarrow> CustomerMessage \<Rightarrow> dict op" where
  "minimum_context c m =
     bind (get_opt_row products (cc_product_id c)) (\<lambda>product.
     bind (get_opt_row orders (cc_order_id c)) (\<lambda>ord.
     bind (case ord of None \<Rightarrow> ret [] | Some r \<Rightarrow> scalars order_items (\<lambda>i. oi_order_id i = row_id r)) (\<lambda>items.
     ret ([(''message'', JObj [(''content'', JStr (cm_content m)), (''channel'', JStr (cm_channel m))]),
       (''conversation'', JObj [(''marketplace'', JStr (cc_marketplace c)), (''status'', JStr (conversation_value (cc_status c))),
          (''existing_classification'', j_opt JStr (cc_classification c)), (''risk_level'', j_opt JStr (cc_risk_level c))])] @
       (case product of None \<Rightarrow> [] | Some p \<Rightarrow> [(''product'', JObj (product_context p))]) @
       (case ord of None \<Rightarrow> [] | Some r \<Rightarrow> [(''order'', JObj (order_context r items))])))))"

definition classification_constraints :: dict where
  "classification_constraints =
     [(''allowed_intents'', JList (map (\<lambda>i. JStr (intent_value i)) [Intent_PRODUCT_ENQUIRY, Intent_ORDER_STATUS,
        Intent_DELIVERY_QUESTION, Intent_RETURN_REQUEST, Intent_REFUND_ENQUIRY, Intent_COMPLAINT,
        Intent_COMMON_MARKETPLACE_MESSAGE, Intent_UNKNOWN])),
      (''decisions'', JList (map (\<lambda>d. JStr (decision_value d)) [Decision_AUTO_RESPOND, Decision_DRAFT_FOR_APPROVAL,
        Decision_HUMAN_ESCALATION])),
      (''never_promise_refunds_or_policy_exceptions'', JBool True), (''maximum_response_characters'', JInt 5000)]"

text \<open>The body of the \<open>try\<close>: budget, call, validation.\<close>

definition consult_model ::
  "CustomerServiceAgent \<Rightarrow> CustomerConversation \<Rightarrow> CustomerMessage \<Rightarrow> uuid \<Rightarrow> CustomerServiceAIResponse LLMResult op" where
  "consult_model A c m agent_run_id =
     andthen (authorize (cs_usage_accounting A) None)
     (bind (minimum_context c m) (\<lambda>known.
      bind (of_result (cs_llm A \<lparr>lq_task = ''classify_and_draft_customer_service_response'', lq_prompt_version = cs_prompt_version A,
        lq_context = known, lq_constraints = classification_constraints\<rparr> agent_run_id)) (\<lambda>result.
      andthen (raise_if (\<not> ai_response_valid (lr_output result)) (Exn ValidationError ''CustomerServiceAIResponse''))
      (ret result))))"

definition answered :: "CustomerServiceAgent \<Rightarrow> CustomerServiceAIResponse LLMResult \<Rightarrow> CustomerMessage \<Rightarrow> CustomerMessage" where
  "answered A result m = m\<lparr>cm_intent := Some (cr_intent (lr_output result)),
     cm_generated_response := cr_generated_response (lr_output result),
     cm_structured_ai_response := Some (response_dump (lr_output result)), cm_prompt_version := Some (cs_prompt_version A),
     cm_ai_provider := Some (lr_provider result), cm_ai_model := Some (lr_model result),
     cm_input_tokens := lu_input_tokens (lr_usage result), cm_output_tokens := lu_output_tokens (lr_usage result),
     cm_ai_cost_amount := lu_cost_amount (lr_usage result), cm_ai_cost_currency := lu_cost_currency (lr_usage result)\<rparr>"

text \<open>The chain of tests on the answer.\<close>

definition route_answer :: "CustomerServiceAgent \<Rightarrow> uuid \<Rightarrow> uuid \<Rightarrow> CustomerServiceAIResponse \<Rightarrow> unit op" where
  "route_answer A conversation_id message_id output =
     (let stop = (\<lambda>reason. escalate conversation_id message_id [reason] (cr_intent output)) in
      if cr_intent output = Intent_UNKNOWN then stop ''outside_defined_policy''
      else if str_lower (cr_risk_level output) \<in> {''high'', ''critical''} then stop ''ai_high_risk''
      else if cr_decision output = Decision_HUMAN_ESCALATION then stop ''ai_requested_escalation''
      else if cr_generated_response output \<in> {None, Some []} then stop ''missing_generated_response''
      else if cr_decision output = Decision_DRAFT_FOR_APPROVAL \<or> cr_intent output \<in> approval_intents
        then draft_for_approval A conversation_id message_id
      else if cr_intent output \<in> safe_auto_intents then auto_respond conversation_id message_id
      else stop ''outside_defined_policy'')"

definition classify_with_ai :: "CustomerServiceAgent \<Rightarrow> CustomerConversation \<Rightarrow> CustomerMessage \<Rightarrow> unit op" where
  "classify_with_ai A c m =
     bind new_uuid (\<lambda>run_id.
     bind now_utc (\<lambda>now.
     andthen (add_row agent_runs_update (new_agent_run run_id now None ''customer_service'' (uuid_str (row_id m)) (cs_prompt_version A)))
     (andthen flush
     (bind (attempt (consult_model A c m run_id)) (\<lambda>outcome.
      case outcome of
        Inl exc \<Rightarrow>
          andthen (set_agent_run run_id (\<lambda>r. r\<lparr>ag_status := Run_FAILED, ag_error := Some [(''type'', JStr ''ai_processing_failure'')]\<rparr>))
          (escalate (row_id c) (row_id m) [''ai_processing_failure''] Intent_UNKNOWN)
      | Inr result \<Rightarrow>
          andthen (set_agent_run run_id (\<lambda>r. r\<lparr>ag_status := Run_SUCCEEDED, ag_provider := Some (lr_provider result),
            ag_model := Some (lr_model result)\<rparr>))
          (andthen (record_usage None run_id (lr_usage result))
          (andthen (set_message (row_id m) (answered A result))
          (route_answer A (row_id c) (row_id m) (lr_output result)))))))))"

definition screen_message :: "CustomerServiceAgent \<Rightarrow> CustomerConversation \<Rightarrow> CustomerMessage \<Rightarrow> unit op" where
  "screen_message A c m =
     (let risks = evaluate_risks (cm_content m) c in
      if risks \<noteq> [] then escalate (row_id c) (row_id m) risks Intent_UNKNOWN else classify_with_ai A c m)"

definition audit_message :: "uuid \<Rightarrow> uuid \<Rightarrow> unit op" where
  "audit_message conversation_id message_id =
     bind (reload customer_messages message_id) (\<lambda>m.
     write_audit ''agent'' ''customer-service-agent'' ''customer_message.classified'' ''customer_message'' message_id
       (Some [(''intent'', j_opt (\<lambda>i. JStr (intent_value i)) (cm_intent m)),
         (''classification'', j_opt (\<lambda>d. JStr (decision_value d)) (cm_classification m)),
         (''risk_reasons'', JList (map JStr (cm_risk_reasons m)))])
       (Some ''Deterministic safety screening and structured AI classification'') conversation_id)"

section \<open>Operations\<close>

definition received_message :: "uuid \<Rightarrow> datetime \<Rightarrow> uuid \<Rightarrow> string \<Rightarrow> string \<Rightarrow> string \<Rightarrow> CustomerMessage" where
  "received_message message_id now conversation_id external_id channel content =
     \<lparr>row_id = message_id, row_created_at = now, cm_conversation_id = conversation_id, cm_approval_id = None,
      cm_external_message_id = Some external_id, cm_direction = Message_INBOUND, cm_channel = channel, cm_content = content,
      cm_author_type = ''customer'', cm_status = Message_RECEIVED, cm_sent_at = None, cm_intent = None, cm_classification = None,
      cm_risk_level = None, cm_risk_reasons = [], cm_generated_response = None, cm_final_response = None,
      cm_structured_ai_response = None, cm_prompt_version = None, cm_ai_provider = None, cm_ai_model = None, cm_input_tokens = 0,
      cm_output_tokens = 0, cm_ai_cost_amount = 0, cm_ai_cost_currency = None, cm_responded_at = None\<rparr>"

text \<open>\<open>CustomerServiceResult(message, duplicate)\<close>\<close>

type_synonym CustomerServiceResult = "CustomerMessage \<times> bool"

definition handle_message ::
  "CustomerServiceAgent \<Rightarrow> uuid \<Rightarrow> string \<Rightarrow> string \<Rightarrow> string \<Rightarrow> CustomerServiceResult op" where
  "handle_message A conversation_id external_id channel content =
     bind (scalar customer_messages (\<lambda>m. cm_conversation_id m = conversation_id \<and> cm_external_message_id m = Some external_id)) (\<lambda>existing.
     case existing of
       Some m \<Rightarrow>
         andthen (raise_if (cm_content m \<noteq> content \<or> cm_channel m \<noteq> channel)
           (Exn CustomerMessageConflict ''External message ID was reused with different content''))
         (ret (m, True))
     | None \<Rightarrow>
         bind (scalar customer_conversations (\<lambda>c. row_id c = conversation_id)) (\<lambda>found.
         bind (the_or (Exn ConversationNotFoundError (uuid_str conversation_id)) found) (\<lambda>conversation.
         bind new_uuid (\<lambda>message_id.
         bind now_utc (\<lambda>now.
         andthen (raise_if (content = []) (Exn IntegrityError ''ck_customer_messages_nonempty_content''))
         (andthen (add_row customer_messages_update (received_message message_id now conversation_id external_id channel content))
         (andthen flush
         (bind (version_of conversation_id) (\<lambda>version.
          bind (emit (CustomerMessageReceivedPayload conversation_id message_id channel) ''customer_conversation'' conversation_id
                  version (''customer-message-received:'' @ uuid_str message_id) (Some conversation_id) None None) (\<lambda>_.
          andthen (screen_message A conversation (received_message message_id now conversation_id external_id channel content))
          (andthen (audit_message conversation_id message_id)
          (andthen flush
          (bind (reload customer_messages message_id) (\<lambda>message.
           ret (message, False)))))))))))))))"

definition process_received_event :: "CustomerServiceAgent \<Rightarrow> EventEnvelope \<Rightarrow> CustomerMessage op" where
  "process_received_event A event = (case ee_data event of
     CustomerMessageReceivedPayload conversation_id message_id channel \<Rightarrow>
       bind (scalar customer_messages (\<lambda>m. row_id m = message_id)) (\<lambda>found.
       bind (the_or (Exn ConversationNotFoundError ''Customer message event references missing data'')
         (case found of None \<Rightarrow> None | Some m \<Rightarrow> if cm_conversation_id m \<noteq> conversation_id then None else Some m)) (\<lambda>message.
       if cm_classification message \<noteq> None then ret message
       else
         bind (reload customer_conversations (cm_conversation_id message)) (\<lambda>conversation.
         andthen (screen_message A conversation message)
         (andthen (audit_message (row_id conversation) message_id)
         (reload customer_messages message_id)))))
   | _ \<Rightarrow> wrong_payload)"

definition approve_response :: "Approval \<Rightarrow> unit op" where
  "approve_response approval =
     andthen (raise_if (ap_resource_type approval \<noteq> ''customer_message'')
       (Exn CustomerResponseApprovalError ''Approval references the wrong resource''))
     (bind (scalar customer_messages (\<lambda>m. row_id m = ap_resource_id approval)) (\<lambda>found.
      bind (the_or (Exn CustomerResponseApprovalError ''Customer message was not found'') found) (\<lambda>message.
      andthen (raise_if (cm_approval_id message \<noteq> Some (row_id approval) \<or> cm_status message \<noteq> Message_DRAFT)
        (Exn CustomerResponseApprovalError ''Message is not awaiting this approval''))
      (andthen (raise_if (ap_status approval \<noteq> Approval_APPROVED)
        (Exn CustomerResponseApprovalError ''Customer response has not been approved''))
      (bind now_utc (\<lambda>now.
       andthen (set_message (row_id message) (\<lambda>m. m\<lparr>cm_final_response := cm_generated_response m, cm_status := Message_APPROVED,
         cm_responded_at := Some now\<rparr>))
       (set_conversation (cm_conversation_id message) (\<lambda>c. c\<lparr>cc_status := Conversation_OPEN\<rparr>))))))))"

definition register_customer_response_approval_handler :: "ApprovalActionRegistry \<Rightarrow> exn + ApprovalActionRegistry" where
  "register_customer_response_approval_handler reg = register_action (action_type_value CUSTOMER_RESPONSE) approve_response reg"

section \<open>Frames\<close>

definition messages_view :: "db \<Rightarrow> CustomerMessage list \<times> Approval list" where
  "messages_view s = (customer_messages s, approvals s)"

lemma messages_view_simps [simp]:
  "messages_view (flush_db s) = messages_view s" "messages_view (next_id_update n s) = messages_view s"
  "messages_view (pending_rows_update p s) = messages_view s" "messages_view (dirty_rows_update d s) = messages_view s"
  "messages_view (domain_events_update e s) = messages_view s" "messages_view (audit_events_update a s) = messages_view s"
  "messages_view (agent_runs_update r s) = messages_view s" "messages_view (customer_conversations_update c s) = messages_view s"
  by (simp_all add: messages_view_def)

lemma messages_viewD: "messages_view t = messages_view s \<Longrightarrow> customer_messages t = customer_messages s"
  by (simp add: messages_view_def)

lemma keeps_set_conversation [keeps_intros]:
  "(\<And>s g h. f (dirty_rows_update g (customer_conversations_update h s)) = f s) \<Longrightarrow> keeps f (set_conversation i c)"
  unfolding set_conversation_def by (intro keeps_intros)

lemma keeps_set_message [keeps_intros]:
  "(\<And>s g h. f (dirty_rows_update g (customer_messages_update h s)) = f s) \<Longrightarrow> keeps f (set_message i c)"
  unfolding set_message_def by (intro keeps_intros)

lemma advances_sets [simp]: "advances (set_conversation i c)" "advances (set_message i g)"
  unfolding set_conversation_def set_message_def by (intro advances_writes; simp)+

lemma keeps_minimum_context [keeps_intros]: "(\<And>s. f (flush_db s) = f s) \<Longrightarrow> keeps f (minimum_context c m)"
  unfolding minimum_context_def by (intro keeps_intros)

lemma keeps_consult_model [keeps_intros]: "(\<And>s. f (flush_db s) = f s) \<Longrightarrow> keeps f (consult_model A c m i)"
  unfolding consult_model_def by (intro keeps_intros)

lemma advances_consult [simp]: "advances (consult_model A c m i)"
  unfolding consult_model_def minimum_context_def by (intro advances_intros advances_simple advances_usage)

section \<open>Every released response was permitted\<close>

definition asks_for :: "Approval \<Rightarrow> CustomerMessage \<Rightarrow> bool" where
  "asks_for a m \<longleftrightarrow> ap_resource_type a = ''customer_message'' \<and> ap_resource_id a = row_id m \<and>
     ap_requested_payload a = [(''final_response'', j_opt JStr (cm_generated_response m))]"

text \<open>What an automatic answer requires of the message and of the model's answer.\<close>

definition automatic :: "CustomerMessage \<Rightarrow> bool" where
  "automatic m \<longleftrightarrow> cm_classification m = Some Decision_AUTO_RESPOND \<and> (\<exists>i \<in> safe_auto_intents. cm_intent m = Some i) \<and>
     matched_rules (cm_content m) = [] \<and>
     (\<exists>r. cm_structured_ai_response m = Some (response_dump r) \<and> cr_decision r = Decision_AUTO_RESPOND \<and>
        str_lower (cr_risk_level r) \<notin> {''high'', ''critical''} \<and> cr_generated_response r = cm_final_response m)"

definition message_ok :: "Approval list \<Rightarrow> CustomerMessage \<Rightarrow> bool" where
  "message_ok aps m \<longleftrightarrow>
     (cm_classification m = None \<longrightarrow> cm_final_response m = None \<and> cm_status m \<noteq> Message_DRAFT) \<and>
     (cm_status m = Message_DRAFT \<longrightarrow> (\<exists>a \<in> set aps. cm_approval_id m = Some (row_id a) \<and> asks_for a m)) \<and>
     (cm_final_response m \<noteq> None \<longrightarrow> automatic m \<or>
        (\<exists>a \<in> set aps. ap_status a = Approval_APPROVED \<and> asks_for a m \<and> cm_final_response m = cm_generated_response m))"

definition messages_ok :: "db \<Rightarrow> bool" where
  "messages_ok s \<longleftrightarrow> ids_ok (next_id s) (customer_messages s) \<and> ids_ok (next_id s) (approvals s) \<and>
     (\<forall>a \<in> set (approvals s). ap_resource_type a = ''customer_message'' \<longrightarrow>
        (\<exists>m \<in> set (customer_messages s). row_id m = ap_resource_id a \<and> cm_classification m \<noteq> None)) \<and>
     (\<forall>m \<in> set (customer_messages s). message_ok (approvals s) m)"

lemma messages_ok_part: "messages_ok s \<Longrightarrow> messages_view t = messages_view s \<Longrightarrow> next_id s \<le> next_id t \<Longrightarrow> messages_ok t"
  by (auto simp: messages_ok_def messages_view_def intro: ids_ok_mono)

interpretation message_steps: aside_steps messages_view messages_ok
  by unfold_locales (rule messages_ok_part)

lemma message_ok_moves:
  assumes moves: "list_all2 approval_moves aps bps" and m: "message_ok aps m"
  shows "message_ok bps m"
proof -
  have move: "\<exists>b \<in> set bps. row_id b = row_id a \<and> asks_for b m = asks_for a m \<and>
      (ap_status a = Approval_APPROVED \<longrightarrow> ap_status b = Approval_APPROVED)" if a: "a \<in> set aps" for a
  proof -
    obtain b where b: "b \<in> set bps" "approval_moves a b" using approval_move [OF moves a] by blast
    then show ?thesis using request_part_eqD [of b a] by (intro bexI [of _ b]) (auto simp: approval_moves_def asks_for_def)
  qed
  then show ?thesis using m unfolding message_ok_def by metis
qed

lemma messages_decision:
  assumes "messages_ok s" "but_decisions t = but_decisions s" "next_id s \<le> next_id t"
    and m: "list_all2 approval_moves (approvals s) (approvals t)"
  shows "messages_ok t"
proof -
  let ?P = "\<lambda>a. ap_resource_type a = ''customer_message'' \<longrightarrow>
      (\<exists>m \<in> set (customer_messages s). row_id m = ap_resource_id a \<and> cm_classification m \<noteq> None)"
  have "?P a \<Longrightarrow> ?P b" if "approval_moves a b" for a b
    using that request_part_eqD [of b a] by (auto simp: approval_moves_def)
  moreover have "\<forall>a \<in> set (approvals s). ?P a" using assms(1) by (simp add: messages_ok_def)
  ultimately have "\<forall>a \<in> set (approvals t). ?P a" using moves_all [OF m, where P = ?P] by blast
  then show ?thesis
    using assms(1,3) moves_ids_ok [OF m, of "next_id s" "next_id t"] message_ok_moves [OF m] but_decisionsD(6) [OF assms(2)]
    by (auto simp: messages_ok_def intro: ids_ok_mono)
qed

interpretation messages: approval_invariant messages_ok
proof
  show "messages_ok t" if "messages_ok s" "tables_of t = tables_of s" "next_id s \<le> next_id t" for s t
    using that tables_ofD [OF that(2)] by (auto simp: messages_ok_def intro: ids_ok_mono)
  show "ids_ok (next_id s) (approvals s)" if "messages_ok s" for s using that by (simp add: messages_ok_def)
qed (rule messages_decision)

text \<open>One change of a message.\<close>

lemma set_message_ok:
  assumes ok: "messages_ok s" and m: "row (customer_messages s) i = Some m"
    and id: "\<And>r. row_id (f r) = row_id r" and f: "message_ok (approvals s) (f m)"
    and c: "cm_classification (f m) = None \<longrightarrow> cm_classification m = None"
  shows "messages_ok (customer_messages_update (update_rows i f) s)"
proof -
  have d: "distinct (map row_id (customer_messages s))" using ok by (simp add: messages_ok_def ids_ok_def)
  have cases: "r \<in> set (update_rows i f (customer_messages s)) \<longleftrightarrow>
      r = f m \<or> r \<in> set (customer_messages s) \<and> row_id r \<noteq> i" for r
    by (rule in_update_rows [OF d m])
  have "\<exists>r \<in> set (update_rows i f (customer_messages s)). row_id r = ap_resource_id a \<and> cm_classification r \<noteq> None"
    if a: "a \<in> set (approvals s)" "ap_resource_type a = ''customer_message''" for a
  proof -
    obtain r where r: "r \<in> set (customer_messages s)" "row_id r = ap_resource_id a" "cm_classification r \<noteq> None"
      using ok a by (auto simp: messages_ok_def)
    show ?thesis
    proof (cases "row_id r = i")
      case True
      then have "r = m" using row_in_set [OF d r(1)] m by simp
      then show ?thesis using r c id cases by metis
    next
      case False
      then show ?thesis using r cases by blast
    qed
  qed
  moreover have "message_ok (approvals s) r" if "r \<in> set (update_rows i f (customer_messages s))" for r
    using that cases f ok by (auto simp: messages_ok_def)
  ultimately show ?thesis using ok id by (simp add: messages_ok_def ids_ok_update)
qed

lemma wp_set_message:
  assumes ok: "messages_ok s" and m: "row (customer_messages s) i = Some m"
    and id: "\<And>r. row_id (f r) = row_id r" and f: "message_ok (approvals s) (f m)"
    and c: "cm_classification (f m) = None \<longrightarrow> cm_classification m = None"
  shows "wp (set_message i f) (\<lambda>_ t. messages_ok t \<and> row (customer_messages t) i = Some (f m) \<and> approvals t = approvals s) X s"
proof -
  have "messages_ok (customer_messages_update (update_rows i f) s)" by (rule set_message_ok [OF assms])
  then have "messages_ok (dirty_rows_update d (customer_messages_update (update_rows i f) s))" for d
    by (rule messages_ok_part) simp_all
  then show ?thesis using m by (simp add: set_message_def wp_set_row row_update_rows id)
qed

lemma escalate_keeps:
  assumes "messages_ok s" "row (customer_messages s) i = Some m" "cm_final_response m = None"
  shows "wp (escalate c i reasons intent) (\<lambda>_ t. messages_ok t) X s"
proof -
  have "wp (set_message i (escalated_message reasons intent)) (\<lambda>_ t. messages_ok t \<and>
      row (customer_messages t) i = Some (escalated_message reasons intent m) \<and> approvals t = approvals s) X s"
    by (rule wp_set_message [OF assms(1,2)]) (use assms(3) in \<open>simp_all add: escalated_message_def message_ok_def\<close>)
  then show ?thesis
    unfolding escalate_def wp_andthen
    by (rule wp_mono) (auto simp: set_conversation_def wp_simps elim!: messages_ok_part)
qed

lemma auto_keeps:
  assumes "messages_ok s" "row (customer_messages s) i = Some m" "\<exists>n \<in> safe_auto_intents. cm_intent m = Some n"
    and "matched_rules (cm_content m) = []" "cm_structured_ai_response m = Some (response_dump r)"
      "cr_decision r = Decision_AUTO_RESPOND" "str_lower (cr_risk_level r) \<notin> {''high'', ''critical''}"
      "cr_generated_response r = cm_generated_response m"
  shows "wp (auto_respond c i) (\<lambda>_ t. messages_ok t) X s"
proof -
  let ?f = "\<lambda>m. m\<lparr>cm_classification := Some Decision_AUTO_RESPOND, cm_risk_level := Some ''low'',
       cm_final_response := cm_generated_response m, cm_status := Message_APPROVED, cm_responded_at := Some (clock s)\<rparr>"
  have "wp (set_message i ?f) (\<lambda>_ t. messages_ok t \<and> row (customer_messages t) i = Some (?f m) \<and> approvals t = approvals s) X s"
    by (rule wp_set_message [OF assms(1,2)]) (use assms(3-) in \<open>auto simp: message_ok_def automatic_def\<close>)
  then show ?thesis
    unfolding auto_respond_def wp_bind wp_now_utc wp_andthen
    by (rule wp_mono) (auto simp: set_conversation_def wp_simps elim!: messages_ok_part)
qed

lemma message_ok_append: "message_ok aps m \<Longrightarrow> message_ok (aps @ [a]) m"
  by (auto simp: message_ok_def)

lemma messages_ok_asked:
  assumes ok: "messages_ok s" and m: "row (customer_messages s) i = Some m"
    and id: "\<And>r. row_id (f r) = row_id r" and f: "message_ok (approvals s @ [a]) (f m)" "cm_classification (f m) \<noteq> None"
    and a: "next_id s \<le> row_id a" "row_id a < next_id t" "ap_resource_id a = i"
    and t: "customer_messages t = update_rows i f (customer_messages s)" "approvals t = approvals s @ [a]"
  shows "messages_ok t"
proof -
  have d: "distinct (map row_id (customer_messages s))" using ok by (simp add: messages_ok_def ids_ok_def)
  note cases = in_update_rows [OF d m, of _ f]
  have m_id: "row_id m = i" using m by blast
  have "\<exists>r \<in> set (update_rows i f (customer_messages s)). row_id r = ap_resource_id b \<and> cm_classification r \<noteq> None"
    if b: "b \<in> set (approvals s @ [a])" "ap_resource_type b = ''customer_message''" for b
  proof (cases "ap_resource_id b = i")
    case True
    then show ?thesis using f(2) id m_id by (intro bexI [of _ "f m"]) (auto simp: cases)
  next
    case False
    then have "b \<in> set (approvals s)" using b a(3) by auto
    then obtain r where "r \<in> set (customer_messages s)" "row_id r = ap_resource_id b" "cm_classification r \<noteq> None"
      using ok b(2) by (auto simp: messages_ok_def)
    with False show ?thesis by (intro bexI [of _ r]) (simp_all add: cases)
  qed
  moreover have "message_ok (approvals s @ [a]) r" if "r \<in> set (update_rows i f (customer_messages s))" for r
    using that cases f(1) ok by (auto simp: messages_ok_def intro: message_ok_append)
  moreover have "ids_ok (next_id t) (update_rows i f (customer_messages s))" "ids_ok (next_id t) (approvals s @ [a])"
    using ok a id by (auto simp: messages_ok_def intro: ids_ok_mono [OF ids_ok_update] ids_ok_append)
  ultimately show ?thesis by (simp add: messages_ok_def t)
qed

lemma draft_keeps:
  assumes ok: "messages_ok s" and m: "row (customer_messages s) i = Some m" and c: "cm_classification m = None"
  shows "wp (draft_for_approval A j i) (\<lambda>_ t. messages_ok t) X s"
proof -
  let ?f = "\<lambda>m :: CustomerMessage. m\<lparr>cm_classification := Some Decision_DRAFT_FOR_APPROVAL, cm_risk_level := Some ''medium'',
       cm_status := Message_DRAFT\<rparr>"
  let ?req = "response_request i (cm_generated_response m)"
  have m_id: "row_id m = i" using m by blast
  have none: "request_key E ?req \<notin> approval_key ` set (approvals s)" for E
  proof
    assume "request_key E ?req \<in> approval_key ` set (approvals s)"
    then obtain a where "a \<in> set (approvals s)" "approval_key a = request_key E ?req" by force
    then obtain r where "r \<in> set (customer_messages s)" "row_id r = i" "cm_classification r \<noteq> None"
      using ok by (auto simp: messages_ok_def approval_key_def request_key_def response_request_def)
    then show False using row_in_set [OF ids_ok_distinct, of "next_id s" "customer_messages s" r] ok m c
      by (auto simp: messages_ok_def)
  qed
  have create: "wp (create_request (cs_approval_engine A) ?req ''customer_response_review'' 1)
      (\<lambda>a t. approvals t = approvals u @ [a] \<and> customer_messages t = customer_messages u \<and> next_id u \<le> row_id a \<and> row_id a < next_id t \<and>
         ap_resource_id a = i \<and> asks_for a m) X u"
    if u: "approvals u = approvals s" for u X
  proof -
    obtain x t where x: "create_request (cs_approval_engine A) ?req ''customer_response_review'' 1 u = (x, t)" by force
    then show ?thesis
    proof (cases rule: create_request_cases)
      case (existing a)
      then show ?thesis using none u by (metis imageI)
    next
      case (new a)
      then have "asks_for a m" "ap_resource_id a = i"
        by (simp_all add: asks_for_def approval_key_def request_key_def response_request_def m_id)
      moreover have "customer_messages t = customer_messages u" using but_decisionsD(6) [OF but_decisions_part] new by blast
      ultimately show ?thesis using x new by (simp add: wp_def)
    qed
  qed
  have last: "messages_ok (dirty_rows_update d (customer_messages_update (update_rows i (\<lambda>m. m\<lparr>cm_approval_id := Some (row_id a)\<rparr>)) t))"
    if t: "approvals t = approvals s @ [a]" "customer_messages t = update_rows i ?f (customer_messages s)"
      "next_id s \<le> row_id a" "row_id a < next_id t" "ap_resource_id a = i" "asks_for a m" for a t d
  proof (rule messages_ok_asked [OF ok m, where a = a and f = "\<lambda>r. (?f r)\<lparr>cm_approval_id := Some (row_id a)\<rparr>"])
    show "message_ok (approvals s @ [a]) ((?f m)\<lparr>cm_approval_id := Some (row_id a)\<rparr>)"
      using t(6) ok row_Some_iff [OF m] c by (auto simp: messages_ok_def message_ok_def asks_for_def)
  qed (use t in \<open>simp_all add: update_rows_twice\<close>)
  show ?thesis
    unfolding draft_for_approval_def wp_bind wp_reload m option.case set_message_def set_conversation_def wp_andthen wp_set_row
    by (rule wp_mono [OF create]) (simp, (elim conjE, rule last; simp), assumption)
qed

text \<open>The steps of a classification that are aside.\<close>

lemma asides:
  "keeps messages_view new_uuid" "keeps messages_view now_utc" "keeps messages_view flush" "keeps messages_view (set_agent_run i g)"
  "keeps messages_view (record_usage None i u)" "keeps messages_view (attempt (consult_model A c m i))"
  "keeps messages_view (add_row agent_runs_update r)"
  "advances new_uuid" "advances now_utc" "advances flush" "advances (set_agent_run i g)" "advances (record_usage None i u)"
  "advances (attempt (consult_model A c m i))" "advances (add_row agent_runs_update r)"
  by (simp_all add: keeps_intros keeps_record_usage_alone advances_intros advances_writes)

lemma route_keeps:
  assumes ok: "messages_ok s" and m: "row (customer_messages s) i = Some m" and none: "cm_classification m = None"
    and out: "cm_intent m = Some (cr_intent out)" "cm_generated_response m = cr_generated_response out"
      "cm_structured_ai_response m = Some (response_dump out)" "matched_rules (cm_content m) = []"
  shows "wp (route_answer A c i out) (\<lambda>_ t. messages_ok t) X s"
proof -
  have "cm_final_response m = None" using ok row_Some_iff [OF m] none by (auto simp: messages_ok_def message_ok_def)
  note stop = escalate_keeps [OF ok m this]
  have "wp (auto_respond c i) (\<lambda>_ t. messages_ok t) X s"
    if "cr_intent out \<in> safe_auto_intents" "cr_decision out \<noteq> Decision_HUMAN_ESCALATION" "cr_decision out \<noteq> Decision_DRAFT_FOR_APPROVAL"
      "str_lower (cr_risk_level out) \<notin> {''high'', ''critical''}"
    by (rule auto_keeps [OF ok m, of out]) (use that out in \<open>cases "cr_decision out"; simp\<close>)+
  then show ?thesis
    unfolding route_answer_def Let_def by (simp add: stop draft_keeps [OF ok m none])
qed

lemma classify_keeps:
  assumes ok: "messages_ok s" and m: "row (customer_messages s) (row_id m) = Some m" and none: "cm_classification m = None"
    and clean: "matched_rules (cm_content m) = []"
  shows "wp (classify_with_ai A c m) (\<lambda>_ t. messages_ok t) (\<lambda>_ _. True) s"
proof -
  have final: "cm_final_response m = None" "cm_status m \<noteq> Message_DRAFT"
    using ok row_Some_iff [OF m] none by (auto simp: messages_ok_def message_ok_def)
  have answer: "wp (andthen (set_message (row_id m) (answered A result)) (route_answer A (row_id c) (row_id m) (lr_output result)))
      (\<lambda>_ t. messages_ok t) (\<lambda>_ _. True) t" if t: "messages_ok t" "messages_view t = messages_view s" for result t
  proof -
    have mt: "row (customer_messages t) (row_id m) = Some m" using messages_viewD [OF t(2)] m by simp
    have set: "wp (set_message (row_id m) (answered A result)) (\<lambda>_ u. messages_ok u \<and>
        row (customer_messages u) (row_id m) = Some (answered A result m) \<and> approvals u = approvals t) (\<lambda>_ _. True) t"
      by (rule wp_set_message [OF t(1) mt]) (use final none in \<open>simp_all add: answered_def message_ok_def\<close>)
    show ?thesis
      unfolding wp_andthen
      by (rule wp_mono [OF set]) (rule route_keeps [where m = "answered A result m"], use none clean in \<open>auto simp: answered_def\<close>)
  qed
  have tail: "wp (case outcome of
        Inl exc \<Rightarrow>
          andthen (set_agent_run i (\<lambda>r. r\<lparr>ag_status := Run_FAILED, ag_error := Some [(''type'', JStr ''ai_processing_failure'')]\<rparr>))
          (escalate (row_id c) (row_id m) [''ai_processing_failure''] Intent_UNKNOWN)
      | Inr result \<Rightarrow>
          andthen (set_agent_run i (\<lambda>r. r\<lparr>ag_status := Run_SUCCEEDED, ag_provider := Some (lr_provider result),
            ag_model := Some (lr_model result)\<rparr>))
          (andthen (record_usage None i (lr_usage result))
          (andthen (set_message (row_id m) (answered A result))
          (route_answer A (row_id c) (row_id m) (lr_output result))))) (\<lambda>_ t. messages_ok t) (\<lambda>_ _. True) t"
    if t: "messages_ok t" "messages_view t = messages_view s" for outcome i t
  proof (cases outcome)
    case (Inl exc)
    have "wp (escalate (row_id c) (row_id m) r n) (\<lambda>_ t. messages_ok t) (\<lambda>_ _. True) u"
      if "messages_ok u" "messages_view u = messages_view t" for r n u
      by (rule escalate_keeps [where m = m]) (use that messages_viewD [OF that(2)] messages_viewD [OF t(2)] m final in simp_all)
    then show ?thesis unfolding Inl sum.case by (intro message_steps.aside_andthen asides t(1)) blast
  next
    case (Inr result)
    have "wp (andthen (set_message (row_id m) (answered A result)) (route_answer A (row_id c) (row_id m) (lr_output result)))
        (\<lambda>_ t. messages_ok t) (\<lambda>_ _. True) v"
      if "messages_ok v" "messages_view v = messages_view u" "messages_view u = messages_view t" for u v
      by (rule answer) (use that t in simp_all)
    then show ?thesis unfolding Inr sum.case by (intro message_steps.aside_andthen [OF asides(4) asides(11) t(1)] message_steps.aside_andthen [OF asides(5) asides(12)]) assumption+
  qed
  show ?thesis
    unfolding classify_with_ai_def
    apply (rule message_steps.aside_bind [OF asides(1,8) ok])
    apply (rule message_steps.aside_bind [OF asides(2,9)], assumption)
    apply (rule message_steps.aside_andthen [OF asides(7,14)], assumption)
    apply (rule message_steps.aside_andthen [OF asides(3,10)], assumption)
    apply (rule message_steps.aside_bind [OF asides(6,13)], assumption)
    apply (rule tail, assumption, simp)
    done
qed

lemma screen_keeps:
  assumes "messages_ok s" "row (customer_messages s) (row_id m) = Some m" "cm_classification m = None"
  shows "wp (screen_message A c m) (\<lambda>_ t. messages_ok t) (\<lambda>_ _. True) s"
proof (cases "evaluate_risks (cm_content m) c = []")
  case True
  have "set (matched_rules (cm_content m)) \<subseteq> set (evaluate_risks (cm_content m) c)" by (simp only: evaluate_risks_def set_sort set_remdups set_append Un_upper1)
  then have "matched_rules (cm_content m) = []" unfolding True by simp
  then show ?thesis unfolding screen_message_def Let_def True using classify_keeps [OF assms] by simp
next
  case False
  have "cm_final_response m = None" using assms row_Some_iff [OF assms(2)] by (auto simp: messages_ok_def message_ok_def)
  with False show ?thesis using escalate_keeps [OF assms(1,2)] by (simp add: screen_message_def Let_def)
qed

lemma asides_after:
  "keeps messages_view (version_of i)" "keeps messages_view (emit pl ty ai av k co wo ca)" "keeps messages_view (audit_message i j)"
  "keeps messages_view (reload rows i)"
  "advances (version_of i)" "advances (emit pl ty ai av k co wo ca)" "advances (audit_message i j)" "advances (reload rows i)"
  unfolding audit_message_def by (simp_all add: keeps_intros advances_intros)

lemma handle_keeps:
  assumes ok: "messages_ok s"
  shows "wp (handle_message A j ext ch content) (\<lambda>_ t. messages_ok t) (\<lambda>_ _. True) s"
proof (cases "find (\<lambda>m. cm_conversation_id m = j \<and> cm_external_message_id m = Some ext) (customer_messages s)")
  case (Some m)
  then show ?thesis using messages.flushed [OF ok] by (simp add: handle_message_def wp_simps)
next
  case None
  let ?m = "received_message (next_id s) (clock s) j ext ch content"
  let ?t = "(flush_db (pending_rows_update ((#) (next_id s)) (customer_messages_update (\<lambda>rs. rs @ [?m])
      (flush_db (flush_db s)\<lparr>next_id := next_id s + 1\<rparr>))))"
  have m: "row_id ?m = next_id s" "message_ok aps ?m" "cm_classification ?m = None" for aps
    by (simp_all add: received_message_def message_ok_def)
  have t: "messages_ok ?t"
    using ok m by (auto simp: messages_ok_def intro: ids_ok_append ids_ok_mono)
  have row: "row (customer_messages ?t) (next_id s) = Some ?m"
    using ok m(1) ids_ok_fresh [of "next_id s" "customer_messages s" "next_id s"] by (simp add: messages_ok_def row_append row_Cons)
  have rest: "wp (bind (version_of j) (\<lambda>version.
      bind (emit (CustomerMessageReceivedPayload j (next_id s) ch) ''customer_conversation'' j
              version (''customer-message-received:'' @ uuid_str (next_id s)) (Some j) None None) (\<lambda>_.
      andthen (screen_message A c ?m)
      (andthen (audit_message j (next_id s))
      (andthen flush
      (bind (reload customer_messages (next_id s)) (\<lambda>message. ret (message, False)))))))) (\<lambda>_ t. messages_ok t) (\<lambda>_ _. True) ?t" for c
  proof (rule message_steps.aside_bind [OF asides_after(1,5) t], rule message_steps.aside_bind [OF asides_after(2,6)], assumption)
    fix u v assume v: "messages_ok v" "messages_view v = messages_view u" "messages_view u = messages_view ?t"
    have "customer_messages v = customer_messages ?t" using v(2,3) by (intro messages_viewD) (simp only:)
    then have screen: "wp (screen_message A c ?m) (\<lambda>_ t. messages_ok t) (\<lambda>_ _. True) v"
      using row m v(1) by (intro screen_keeps) simp_all
    show "wp (andthen (screen_message A c ?m) (andthen (audit_message j (next_id s)) (andthen flush
        (bind (reload customer_messages (next_id s)) (\<lambda>message. ret (message, False)))))) (\<lambda>_ t. messages_ok t) (\<lambda>_ _. True) v"
      unfolding wp_andthen [of "screen_message _ _ _"]
      apply (rule wp_mono [OF screen])
       apply (rule message_steps.aside_andthen [OF asides_after(3,7)], assumption)
       apply (rule message_steps.aside_andthen [OF asides(3,10)], assumption)
       apply (rule message_steps.aside_bind [OF asides_after(4,8)], assumption)
       apply (simp_all add: wp_ret)
      done
  qed
  show ?thesis
    using rest by (simp add: handle_message_def wp_bind wp_andthen wp_scalar None wp_the_or wp_new_uuid wp_now_utc wp_raise_if wp_add_row wp_flush
        m(1) split: option.split)
qed

lemma process_keeps:
  assumes ok: "messages_ok s" shows "wp (process_received_event A e) (\<lambda>_ t. messages_ok t) (\<lambda>_ _. True) s"
proof (cases "ee_data e")
  case (CustomerMessageReceivedPayload j i ch)
  have f: "messages_ok (flush_db s)" by (rule messages.flushed [OF ok])
  have run: "wp (andthen (screen_message A c m) (andthen (audit_message (row_id c) i) (reload customer_messages i)))
      (\<lambda>_ t. messages_ok t) (\<lambda>_ _. True) (flush_db s)"
    if m: "row (customer_messages s) i = Some m" "cm_classification m = None" for m c
  proof -
    have "wp (screen_message A c m) (\<lambda>_ t. messages_ok t) (\<lambda>_ _. True) (flush_db s)"
      using screen_keeps [OF f] m row_Some_iff [OF m(1)] by simp
    then show ?thesis
      unfolding wp_andthen [of "screen_message _ _ _"]
      by (rule wp_mono) (rule message_steps.aside_andthen [OF asides_after(3,7)], assumption, simp_all add: wp_reload split: option.split)
  qed
  show ?thesis
    using run f by (simp add: process_received_event_def CustomerMessageReceivedPayload wp_bind wp_scalar find_row wp_the_or wp_ret wp_reload
        split: option.split)
qed (simp_all add: process_received_event_def wrong_payload_def wp_throw)

lemma approve_response_keeps:
  assumes ok: "messages_ok s" and a: "row (approvals s) (row_id a) = Some a" "ap_status a = Approval_APPROVED"
  shows "wp (approve_response a) (\<lambda>_ t. messages_ok t) (\<lambda>e _. exn_class e \<noteq> ApprovalExpiredError) s"
proof (cases "\<exists>m. row (customer_messages s) (ap_resource_id a) = Some m \<and> cm_approval_id m = Some (row_id a) \<and> cm_status m = Message_DRAFT")
  case False
  then show ?thesis by (auto simp: approve_response_def wp_simps find_row split: option.split)
next
  case True
  then obtain m where m: "row (customer_messages s) (ap_resource_id a) = Some m" "cm_approval_id m = Some (row_id a)"
      "cm_status m = Message_DRAFT" by blast
  note in_m = row_Some_iff [OF m(1)]
  have mo: "message_ok (approvals s) m" using ok in_m by (simp add: messages_ok_def)
  then have "\<exists>b \<in> set (approvals s). cm_approval_id m = Some (row_id b) \<and> asks_for b m" "cm_classification m \<noteq> None"
    using m(3) unfolding message_ok_def by blast+
  then obtain b where b: "b \<in> set (approvals s)" "row_id b = row_id a" "asks_for b m" "cm_classification m \<noteq> None"
    unfolding m(2) by (metis option.inject)
  have "distinct (map row_id (approvals s))" using ok by (simp only: messages_ok_def ids_ok_def)
  from row_in_set [OF this b(1)] have "b = a" unfolding b(2) a(1) by simp
  let ?f = "\<lambda>m. m\<lparr>cm_final_response := cm_generated_response m, cm_status := Message_APPROVED, cm_responded_at := Some (clock s)\<rparr>"
  have set: "wp (set_message (row_id m) ?f) (\<lambda>_ t. messages_ok t \<and> row (customer_messages t) (row_id m) = Some (?f m) \<and>
      approvals t = approvals (flush_db s)) (\<lambda>e _. exn_class e \<noteq> ApprovalExpiredError) (flush_db s)"
  proof (rule wp_set_message [OF messages.flushed [OF ok]])
    show "message_ok (approvals (flush_db s)) (?f m)"
      using a(2) b \<open>b = a\<close> by (auto simp: message_ok_def asks_for_def)
  qed (use m in_m in simp_all)
  show ?thesis
  proof (cases "ap_resource_type a = ''customer_message''")
    case True
    show ?thesis
      using m a(2) True by (simp add: approve_response_def wp_bind wp_andthen wp_raise_if wp_scalar find_row wp_the_or wp_now_utc)
        (rule wp_mono [OF set], auto simp: set_conversation_def wp_set_row elim!: messages_ok_part)
  qed (simp add: approve_response_def wp_simps)
qed

section \<open>Runs\<close>

text \<open>An engine whose handler of responses is this one; the other handlers leave messages and approvals alone.\<close>

definition responses_engine :: "ApprovalEngine \<Rightarrow> bool" where
  "responses_engine E \<longleftrightarrow> get_action (engine_registry E) (action_type_value CUSTOMER_RESPONSE) = Some approve_response \<and>
     (\<forall>ty h a. ty \<noteq> action_type_value CUSTOMER_RESPONSE \<longrightarrow> get_action (engine_registry E) ty = Some h \<longrightarrow>
        keeps messages_view (h a) \<and> advances (h a) \<and> (\<forall>s e. fst (h a s) = Inl e \<longrightarrow> exn_class e \<noteq> ApprovalExpiredError))"

lemma responses_engine_keeps:
  assumes "responses_engine E" shows "handlers_keep messages_ok E"
  unfolding handlers_keep_def
proof (intro allI impI)
  fix ty h a u
  assume h: "get_action (engine_registry E) ty = Some h" and u: "messages_ok u" "row (approvals u) (row_id a) = Some a"
    "ap_action_type a = ty" "ap_status a = Approval_APPROVED"
  show "wp (h a) (\<lambda>_. messages_ok) (\<lambda>e _. exn_class e \<noteq> ApprovalExpiredError) u"
  proof (cases "ty = action_type_value CUSTOMER_RESPONSE")
    case True
    then have "h = approve_response" using assms h by (simp add: responses_engine_def)
    then show ?thesis using approve_response_keeps [OF u(1,2,4)] by simp
  next
    case False
    then have k: "keeps messages_view (h a)" "advances (h a)" "\<And>s e. fst (h a s) = Inl e \<Longrightarrow> exn_class e \<noteq> ApprovalExpiredError"
      using assms h unfolding responses_engine_def by blast+
    have "messages_ok (snd (h a u))"
      by (rule messages_ok_part [OF u(1)]) (use k(1,2) keeps_snd [OF k(1), of u] in \<open>auto simp: advances_def\<close>)
    then show ?thesis using k(3) by (auto simp: wp_def split: sum.split)
  qed
qed

datatype service_call =
    Handle_Message uuid string string string
  | Deliver_Event EventEnvelope
  | Approve_Response string uuid string string
  | Reject_Response string uuid string string
  | Wait datetime

fun run_service_call :: "CustomerServiceAgent \<Rightarrow> service_call \<Rightarrow> db \<Rightarrow> db" where
  "run_service_call A (Handle_Message j ext ch content) s = snd (transaction (handle_message A j ext ch content) s)"
| "run_service_call A (Deliver_Event e) s = snd (transaction (process_received_event A e) s)"
| "run_service_call A (Approve_Response p i who why) s = snd (approve_endpoint (cs_approval_engine A) p i who why s)"
| "run_service_call A (Reject_Response p i who why) s = snd (reject_endpoint p i who why s)"
| "run_service_call A (Wait d) s = s\<lparr>clock := clock s + d\<rparr>"

fun run_service :: "CustomerServiceAgent \<Rightarrow> service_call list \<Rightarrow> db \<Rightarrow> db" where
  "run_service A [] s = s"
| "run_service A (c # cs) s = run_service A cs (run_service_call A c s)"

lemma run_service_call_keeps:
  assumes "responses_engine (cs_approval_engine A)" "messages_ok s" shows "messages_ok (run_service_call A c s)"
proof (cases c)
  case (Handle_Message j ext ch content)
  have "messages_ok (snd (transaction (handle_message A j ext ch content) s))"
    by (rule messages.transaction_keeps [OF assms(2)]) (rule wp_InrD [OF handle_keeps [OF assms(2)]])
  with Handle_Message show ?thesis by simp
next
  case (Deliver_Event e)
  have "messages_ok (snd (transaction (process_received_event A e) s))"
    by (rule messages.transaction_keeps [OF assms(2)]) (rule wp_InrD [OF process_keeps [OF assms(2)]])
  with Deliver_Event show ?thesis by simp
next
  case (Wait d)
  then show ?thesis using assms(2) by (simp add: messages_ok_def)
qed (use messages.endpoints_keep [OF assms(2)] responses_engine_keeps [OF assms(1)] in simp_all)

lemma run_service_keeps: "responses_engine (cs_approval_engine A) \<Longrightarrow> messages_ok s \<Longrightarrow> messages_ok (run_service A cs s)"
  by (induction cs arbitrary: s) (simp_all add: run_service_call_keeps)

text \<open>What permits the release of a response.\<close>

definition response_permitted :: "Approval list \<Rightarrow> CustomerMessage \<Rightarrow> string \<Rightarrow> bool" where
  "response_permitted aps m response \<longleftrightarrow>
     (cm_classification m = Some Decision_AUTO_RESPOND \<and> (\<exists>i \<in> safe_auto_intents. cm_intent m = Some i) \<and>
      matched_rules (cm_content m) = [] \<and>
      (\<exists>r. cm_structured_ai_response m = Some (response_dump r) \<and> cr_decision r = Decision_AUTO_RESPOND \<and>
         str_lower (cr_risk_level r) \<notin> {''high'', ''critical''} \<and> cr_generated_response r = Some response)) \<or>
     (\<exists>a \<in> set aps. ap_status a = Approval_APPROVED \<and> ap_resource_type a = ''customer_message'' \<and>
        ap_resource_id a = row_id m \<and> ap_requested_payload a = [(''final_response'', JStr response)])"

lemma message_ok_permitted:
  assumes "message_ok aps m" "cm_final_response m = Some response"
  shows "response_permitted aps m response"
proof -
  consider (auto) "automatic m"
    | (human) a where "a \<in> set aps" "ap_status a = Approval_APPROVED" "asks_for a m" "cm_generated_response m = Some response"
    using assms unfolding message_ok_def by (metis option.distinct(1))
  then show ?thesis
  proof cases
    case auto
    then show ?thesis using assms(2) by (auto simp: automatic_def response_permitted_def)
  next
    case human
    then show ?thesis by (auto simp: asks_for_def j_opt_def response_permitted_def)
  qed
qed


section \<open>An escalated conversation\<close>

lemma emit_clash:
  assumes "payload_valid pl" "0 < av" "\<forall>e \<in> set (domain_events s). ev_idempotency_key e \<noteq> k"
    and "\<exists>e \<in> set (domain_events s). aggregate_key e = (aty, ai, av, event_type_value (payload_event_type pl))"
  shows "\<exists>msg. fst (emit pl aty ai av k (Some c) w ca s) = Inl (Exn IntegrityError msg)"
proof -
  have none: "find (\<lambda>e. ev_idempotency_key e = k) (domain_events s) = None" using assms(3) by (auto simp: find_None_iff)
  show ?thesis
    using assms(1,2,4)
    by (auto simp: emit_def create_event_def create_event_by_def publish_def run_simps none event_record_def aggregate_key_def)
qed

definition message_key :: "uuid \<Rightarrow> string" where
  "message_key i = ''customer-message-received:'' @ uuid_str i"

text \<open>A state between transactions in which a human has the conversation.\<close>

definition with_human :: "uuid \<Rightarrow> CustomerConversation \<Rightarrow> db \<Rightarrow> bool" where
  "with_human j c s \<longleftrightarrow> row (customer_conversations s) j = Some c \<and> escalated_conversation c = c \<and>
     distinct (map row_id (customer_conversations s)) \<and>
     ids_ok (next_id s) (customer_messages s) \<and> j < next_id s \<and> 0 < versions s j \<and> pending_rows s = [] \<and> dirty_rows s = [] \<and>
     (\<forall>e \<in> set (domain_events s). \<forall>i \<ge> next_id s. ev_idempotency_key e \<noteq> message_key i)"

definition announced :: "uuid \<Rightarrow> db \<Rightarrow> bool" where
  "announced j s \<longleftrightarrow> (\<exists>e \<in> set (domain_events s).
     aggregate_key e = (''customer_conversation'', j, versions s j, event_type_value CUSTOMER_MESSAGE_RECEIVED))"

definition new_to :: "uuid \<Rightarrow> string \<Rightarrow> db \<Rightarrow> bool" where
  "new_to j ext s \<longleftrightarrow> (\<forall>m \<in> set (customer_messages s). \<not> (cm_conversation_id m = j \<and> cm_external_message_id m = Some ext))"

lemma with_human_risks:
  assumes "with_human j c s" shows "evaluate_risks content c \<noteq> []"
proof -
  have "cc_risk_level (escalated_conversation c) = Some ''high''" by (simp add: escalated_conversation_def)
  then have "cc_risk_level c = Some ''high''" using assms by (simp only: with_human_def)
  then have "''existing_high_risk_conversation'' \<in> set (evaluate_risks content c)" by (simp add: evaluate_risks_def)
  then show ?thesis by (metis list.set_cases list.distinct(1))
qed

lemma received_id [simp]: "row_id (received_message i now j ext ch content) = i"
  by (simp add: received_message_def)

lemma flush_clean: "pending_rows s = [] \<Longrightarrow> dirty_rows s = [] \<Longrightarrow> flush_db s = s"
  by (simp add: flush_db_def)

lemma versions_flush_clean: "dirty_rows s = [] \<Longrightarrow> versions (flush_db s) i = versions s i"
  by (simp add: flush_db_def)

lemma announced_refuses:
  assumes h: "with_human j c s" and a: "announced j s" and n: "new_to j ext s" and content: "content \<noteq> []"
  shows "\<exists>msg. fst (transaction (handle_message A j ext ch content) s) = Inl (Exn IntegrityError msg)"
proof -
  have f: "flush_db s = s" using h by (simp add: with_human_def flush_clean)
  have none: "find (\<lambda>m. cm_conversation_id m = j \<and> cm_external_message_id m = Some ext) (customer_messages s) = None"
    using n by (auto simp: new_to_def find_None_iff)
  have c: "find (\<lambda>c. row_id c = j) (customer_conversations s) = Some c" using h by (simp add: with_human_def row_def)
  let ?u = "flush_db (pending_rows_update ((#) (next_id s)) (customer_messages_update
      (\<lambda>rs. rs @ [received_message (next_id s) (clock s) j ext ch content]) (s\<lparr>next_id := next_id s + 1\<rparr>)))"
  have "versions ?u j = versions s j" using h by (simp add: with_human_def flush_db_def)
  then obtain msg where "fst (emit (CustomerMessageReceivedPayload j (next_id s) ch) ''customer_conversation'' j
          (versions ?u j) (message_key (next_id s)) (Some j) None None ?u) = Inl (Exn IntegrityError msg)"
    using emit_clash [of "CustomerMessageReceivedPayload j (next_id s) ch" "versions ?u j" ?u "message_key (next_id s)" "''customer_conversation''" j j None None]
      h a by (auto simp: with_human_def announced_def)
  then show ?thesis
    using content unfolding message_key_def by (simp add: transaction_def handle_message_def run_simps f none c)
qed

lemma escalate_again:
  assumes "update_rows j escalated_conversation (customer_conversations w) = customer_conversations w"
    and "\<not> list_ex (\<lambda>r. row_id r = j \<and> escalated_conversation r \<noteq> r) (customer_conversations w)" "dirty_rows w = []"
  shows "\<exists>x. escalate j i reasons n w = (Inr (), x) \<and> customer_messages x = update_rows i (escalated_message reasons n) (customer_messages w) \<and>
    customer_conversations x = customer_conversations w \<and> domain_events x = domain_events w \<and> (\<forall>k \<in> set (dirty_rows x). k = i) \<and>
    pending_rows x = pending_rows w \<and> versions x = versions w \<and> next_id x = next_id w"
  using assms by (simp add: escalate_def set_message_def set_conversation_def run_simps)

text \<open>A new message up to its screening: the state in which it is screened, and what follows.\<close>

definition announcement :: "uuid \<Rightarrow> string \<Rightarrow> db \<Rightarrow> DomainEvent" where
  "announcement j ch s = event_for (CustomerMessageReceivedPayload j (next_id s) ch) ''customer_conversation'' j (versions s j)
     (message_key (next_id s)) j None None (s\<lparr>next_id := next_id s + 1\<rparr>)"

definition ready_to_screen :: "uuid \<Rightarrow> string \<Rightarrow> string \<Rightarrow> string \<Rightarrow> db \<Rightarrow> db \<Rightarrow> bool" where
  "ready_to_screen j ext ch content s w \<longleftrightarrow>
     customer_messages w = customer_messages s @ [received_message (next_id s) (clock s) j ext ch content] \<and>
     customer_conversations w = customer_conversations s \<and> domain_events w = domain_events s @ [announcement j ch s] \<and>
     approvals w = approvals s \<and> agent_runs w = agent_runs s \<and> clock w = clock s \<and> next_id w = next_id s + 2 \<and>
     dirty_rows w = [] \<and> pending_rows w = [] \<and> versions w j = versions s j"

definition after_screen :: "uuid \<Rightarrow> uuid \<Rightarrow> CustomerServiceResult op" where
  "after_screen j i = andthen (audit_message j i) (andthen flush (bind (reload customer_messages i) (\<lambda>message. ret (message, False))))"

lemma handle_new_message:
  assumes c: "row (customer_conversations s) j = Some c" and n: "new_to j ext s" and content: "content \<noteq> []"
    and clean: "pending_rows s = []" "dirty_rows s = []" and v: "0 < versions s j" and j: "j < next_id s"
    and keys: "\<forall>e \<in> set (domain_events s). ev_idempotency_key e \<noteq> message_key (next_id s)" and a: "\<not> announced j s"
  shows "\<exists>w. handle_message A j ext ch content s =
      andthen (screen_message A c (received_message (next_id s) (clock s) j ext ch content)) (after_screen j (next_id s)) w \<and>
    ready_to_screen j ext ch content s w"
proof -
  have f: "flush_db s = s" using clean by (rule flush_clean)
  have none: "find (\<lambda>m. cm_conversation_id m = j \<and> cm_external_message_id m = Some ext) (customer_messages s) = None"
    using n by (auto simp: new_to_def find_None_iff)
  have c': "find (\<lambda>c. row_id c = j) (customer_conversations s) = Some c" using c by (simp add: row_def)
  let ?i = "next_id s"
  let ?m = "received_message ?i (clock s) j ext ch content"
  let ?u = "flush_db (pending_rows_update ((#) ?i) (customer_messages_update (\<lambda>rs. rs @ [?m]) (s\<lparr>next_id := next_id s + 1\<rparr>)))"
  let ?e = "event_for (CustomerMessageReceivedPayload j ?i ch) ''customer_conversation'' j (versions s j) (message_key ?i) j None None ?u"
  have e: "?e = announcement j ch s" by (simp add: announcement_def event_for_def)
  have u: "versions ?u j = versions s j" using clean j by (simp add: flush_db_def)
  have emit: "emit (CustomerMessageReceivedPayload j ?i ch) ''customer_conversation'' j (versions ?u j) (message_key ?i) (Some j) None None ?u =
      (Inr ?e, flush_db (domain_events_update (\<lambda>es. es @ [?e]) (?u\<lparr>next_id := next_id ?u + 1\<rparr>)))"
    unfolding u by (rule emit_run) (use v keys a in \<open>auto simp: announced_def\<close>)
  let ?w = "flush_db (domain_events_update (\<lambda>es. es @ [?e]) (?u\<lparr>next_id := next_id ?u + 1\<rparr>))"
  have "handle_message A j ext ch content s = andthen (screen_message A c ?m) (after_screen j ?i) ?w"
    using content emit unfolding message_key_def after_screen_def by (simp add: handle_message_def run_simps f none c')
  moreover have "versions ?w j = versions ?u j" by (subst versions_flush_clean) simp_all
  then have "ready_to_screen j ext ch content s ?w" unfolding ready_to_screen_def e [symmetric] using u by simp
  ultimately show ?thesis by blast
qed

lemma accepted_announces:
  assumes h: "with_human j c s" and a: "\<not> announced j s" and n: "new_to j ext s" and content: "content \<noteq> []"
  shows "\<exists>r t. transaction (handle_message A j ext ch content) s = (Inr r, t) \<and> with_human j c t \<and> announced j t \<and>
    (\<forall>x. new_to j x t \<longleftrightarrow> new_to j x s \<and> x \<noteq> ext)"
proof -
  let ?i = "next_id s"
  let ?m = "received_message ?i (clock s) j ext ch content"
  let ?risks = "evaluate_risks content c"
  let ?m' = "escalated_message ?risks Intent_UNKNOWN ?m"
  have c: "row (customer_conversations s) j = Some c" using h by (simp add: with_human_def)
  obtain w where run: "handle_message A j ext ch content s = andthen (screen_message A c ?m) (after_screen j ?i) w"
    and w: "ready_to_screen j ext ch content s w"
    using handle_new_message [OF c n content, of A ch] h a by (auto simp: with_human_def)
  note w = w [unfolded ready_to_screen_def]
  have fresh: "row (customer_messages s) ?i = None" using h by (auto simp: with_human_def intro: ids_ok_fresh)
  have stay: "escalated_conversation r = r" if "r \<in> set (customer_conversations s)" "row_id r = j" for r
  proof -
    have "row (customer_conversations s) (row_id r) = Some r" using that(1) h by (intro row_in_set) (simp_all add: with_human_def)
    then have "r = c" using c that(2) by simp
    then show ?thesis using h by (simp add: with_human_def)
  qed
  then have same: "update_rows j escalated_conversation (customer_conversations w) = customer_conversations w"
    "\<not> list_ex (\<lambda>r. row_id r = j \<and> escalated_conversation r \<noteq> r) (customer_conversations w)"
    using w by (auto simp: update_rows_def map_idI list_ex_iff)
  have screen: "screen_message A c ?m = escalate j ?i ?risks Intent_UNKNOWN"
    using with_human_risks [OF h, of content] c by (auto simp: screen_message_def received_message_def)
  have msgs: "update_rows ?i (escalated_message ?risks Intent_UNKNOWN) (customer_messages w) = customer_messages s @ [?m']"
    using fresh w by (simp add: update_rows_idem update_rows_Cons)
  obtain x where x: "escalate j ?i ?risks Intent_UNKNOWN w = (Inr (), x)" "customer_messages x = customer_messages s @ [?m']"
      "customer_conversations x = customer_conversations s" "domain_events x = domain_events s @ [announcement j ch s]"
      "\<forall>k \<in> set (dirty_rows x). k = ?i" "pending_rows x = []" "versions x j = versions s j" "next_id x = next_id s + 2"
    using escalate_again [OF same, of ?i ?risks Intent_UNKNOWN] w unfolding msgs by auto
  have row: "row (customer_messages x) ?i = Some ?m'"
    unfolding x(2) using fresh by (simp add: row_append row_Cons escalated_message_def)
  obtain y where y: "audit_message j ?i x = (Inr (), y)" "customer_messages y = customer_messages x"
      "customer_conversations y = customer_conversations x" "domain_events y = domain_events x" "dirty_rows y = dirty_rows x"
      "versions y = versions x" "next_id y = next_id s + 3"
    using row x(8) by (simp add: audit_message_def write_audit_def run_simps)
  have "transaction (handle_message A j ext ch content) s = (Inr (?m', False), flush_db (flush_db y))"
    unfolding transaction_def after_screen_def using x(1) y row by (simp add: run screen after_screen_def run_simps)
  moreover have v: "versions (flush_db (flush_db y)) j = versions s j"
    using x(5,7) y(5,6) h by (auto simp: flush_db_def with_human_def)
  moreover have "with_human j c (flush_db (flush_db y))"
  proof -
    have "ids_ok (next_id s + 3) (customer_messages s @ [?m'])"
      using h by (auto simp: with_human_def escalated_message_def intro: ids_ok_append)
    then show ?thesis using h x y v by (auto simp: with_human_def message_key_def announcement_def)
  qed
  moreover have "announced j (flush_db (flush_db y))"
    unfolding announced_def v using x(4) y(4) by (intro bexI [of _ "announcement j ch s"]) (simp_all add: announcement_def)
  moreover have "new_to j z (flush_db (flush_db y)) \<longleftrightarrow> new_to j z s \<and> z \<noteq> ext" for z
    using x(2) y(2) by (auto simp: new_to_def escalated_message_def received_message_def)
  ultimately show ?thesis by blast
qed

text \<open>
  C38: once a human has a conversation, one more message of the customer is accepted and every later one is refused by the database:
  the conversation row does not change any more, so its version stays, and the event that reports the message repeats the
  aggregate, version and type of the previous one.
\<close>

theorem escalated_conversation_blocked:
  assumes "with_human j c s" "\<not> announced j s" "new_to j ext s" "content \<noteq> []"
  shows "\<exists>r t. transaction (handle_message A j ext ch content) s = (Inr r, t) \<and>
    (\<forall>ext' ch' content'. new_to j ext' s \<and> ext' \<noteq> ext \<and> content' \<noteq> [] \<longrightarrow>
       (\<exists>msg. fst (transaction (handle_message A j ext' ch' content') t) = Inl (Exn IntegrityError msg)))"
proof -
  obtain r t where t: "transaction (handle_message A j ext ch content) s = (Inr r, t)" "with_human j c t" "announced j t"
      "\<forall>x. new_to j x t \<longleftrightarrow> new_to j x s \<and> x \<noteq> ext"
    using accepted_announces [OF assms] by blast
  have "\<exists>msg. fst (transaction (handle_message A j ext' ch' content') t) = Inl (Exn IntegrityError msg)"
    if "new_to j ext' s" "ext' \<noteq> ext" "content' \<noteq> []" for ext' ch' content'
    by (rule announced_refuses [OF t(2,3)]) (use that t(4) in simp_all)
  then show ?thesis using t(1) by (intro exI [of _ r] exI [of _ t]) simp
qed

section \<open>Doubt goes to a human\<close>

definition model_unusable :: "CustomerServiceAgent \<Rightarrow> db \<Rightarrow> bool" where
  "model_unusable A s \<longleftrightarrow>
     over_limit (monthly_limit (cs_usage_accounting A))
       (spent_since (month_start (clock s)) (accounting_currency (cs_usage_accounting A)) (agent_runs s)) \<or>
     (\<forall>req i. case cs_llm A req i of Inl e \<Rightarrow> True | Inr r \<Rightarrow> \<not> ai_response_valid (lr_output r))"

lemma minimum_context_ok: "\<exists>known. fst (minimum_context c m s) = Inr known"
  by (simp add: minimum_context_def run_simps get_opt_row_def split: option.split)

lemma new_run_free: "spent_since start currency (runs @ [new_agent_run i now w ty ref v]) = spent_since start currency runs"
  by (simp add: spent_since_def new_agent_run_def)

lemma consult_fails:
  assumes "model_unusable A u" shows "\<exists>e. fst (consult_model A c m i u) = Inl e"
proof -
  obtain known where k: "fst (minimum_context c m (flush_db u)) = Inr known" using minimum_context_ok by blast
  show ?thesis
    using assms k by (auto simp: consult_model_def authorize_apply run_simps model_unusable_def split: sum.splits)
qed

definition conversations_view :: "db \<Rightarrow> CustomerMessage list \<times> CustomerConversation list \<times> Approval list" where
  "conversations_view s = (customer_messages s, customer_conversations s, approvals s)"

lemma conversations_view_simps [simp]:
  "conversations_view (flush_db s) = conversations_view s" "conversations_view (dirty_rows_update d s) = conversations_view s"
  "conversations_view (agent_runs_update r s) = conversations_view s" "conversations_view (next_id_update n s) = conversations_view s"
  "conversations_view (pending_rows_update p s) = conversations_view s"
  by (simp_all add: conversations_view_def)

lemma escalate_apply: "\<exists>t. escalate j i reasons n s = (Inr (), t) \<and>
    customer_messages t = update_rows i (escalated_message reasons n) (customer_messages s) \<and>
    customer_conversations t = update_rows j escalated_conversation (customer_conversations s) \<and>
    approvals t = approvals s \<and> agent_runs t = agent_runs s"
  by (simp add: escalate_def set_message_def set_conversation_def run_simps)

lemma unusable_escalates:
  assumes "model_unusable A s"
  shows "\<exists>t. classify_with_ai A c m s = (Inr (), t) \<and>
    customer_messages t = update_rows (row_id m) (escalated_message [''ai_processing_failure''] Intent_UNKNOWN) (customer_messages s) \<and>
    customer_conversations t = update_rows (row_id c) escalated_conversation (customer_conversations s) \<and> approvals t = approvals s"
proof -
  let ?run = "new_agent_run (next_id s) (clock s) None ''customer_service'' (uuid_str (row_id m)) (cs_prompt_version A)"
  let ?u = "flush_db (pending_rows_update ((#) (row_id ?run)) (agent_runs_update (\<lambda>rs. rs @ [?run]) (s\<lparr>next_id := next_id s + 1\<rparr>)))"
  have "model_unusable A ?u" using assms by (simp add: model_unusable_def new_run_free)
  then obtain e where e: "fst (consult_model A c m (next_id s) ?u) = Inl e" using consult_fails by blast
  have "keeps conversations_view (consult_model A c m (next_id s))" by (intro keeps_intros) simp
  then have v: "conversations_view (snd (consult_model A c m (next_id s) ?u)) = conversations_view s"
    by (simp add: keeps_snd)
  let ?w = "snd (set_agent_run (next_id s) (\<lambda>r. r\<lparr>ag_status := Run_FAILED, ag_error := Some [(''type'', JStr ''ai_processing_failure'')]\<rparr>)
      (snd (consult_model A c m (next_id s) ?u)))"
  have w: "customer_messages ?w = customer_messages s" "customer_conversations ?w = customer_conversations s" "approvals ?w = approvals s"
    using v by (simp_all add: conversations_view_def set_agent_run_def run_simps)
  obtain t where "escalate (row_id c) (row_id m) [''ai_processing_failure''] Intent_UNKNOWN ?w = (Inr (), t)"
    "customer_messages t = update_rows (row_id m) (escalated_message [''ai_processing_failure''] Intent_UNKNOWN) (customer_messages ?w)"
    "customer_conversations t = update_rows (row_id c) escalated_conversation (customer_conversations ?w)" "approvals t = approvals ?w"
    using escalate_apply by blast
  then show ?thesis
    unfolding w by (intro exI [of _ t]) (use e in \<open>simp add: classify_with_ai_def run_simps set_agent_run_def\<close>)
qed


text \<open>The other end: a usable, harmless answer is released.\<close>

lemma auto_answer:
  assumes "\<not> over_limit (monthly_limit (cs_usage_accounting A))
       (spent_since (month_start (clock s)) (accounting_currency (cs_usage_accounting A)) (agent_runs s))"
    and llm: "\<And>req i. cs_llm A req i = Inr result" and out: "ai_response_valid (lr_output result)"
      "cr_intent (lr_output result) \<in> safe_auto_intents" "cr_decision (lr_output result) = Decision_AUTO_RESPOND"
      "str_lower (cr_risk_level (lr_output result)) \<notin> {''high'', ''critical''}" "cr_generated_response (lr_output result) \<notin> {None, Some []}"
    and usage: "0 \<le> lu_cost_amount (lr_usage result)" "0 \<le> lu_input_tokens (lr_usage result)" "0 \<le> lu_output_tokens (lr_usage result)"
  shows "\<exists>t now. classify_with_ai A c m s = (Inr (), t) \<and>
    customer_messages t = update_rows (row_id m) (\<lambda>m. (answered A result m)\<lparr>cm_classification := Some Decision_AUTO_RESPOND,
       cm_risk_level := Some ''low'', cm_final_response := cr_generated_response (lr_output result), cm_status := Message_APPROVED,
       cm_responded_at := Some now\<rparr>) (customer_messages s) \<and> approvals t = approvals s"
proof -
  let ?run = "new_agent_run (next_id s) (clock s) None ''customer_service'' (uuid_str (row_id m)) (cs_prompt_version A)"
  let ?u = "flush_db (pending_rows_update ((#) (row_id ?run)) (agent_runs_update (\<lambda>rs. rs @ [?run]) (s\<lparr>next_id := next_id s + 1\<rparr>)))"
  obtain known where k: "fst (minimum_context c m (flush_db ?u)) = Inr known" using minimum_context_ok by blast
  have "fst (consult_model A c m (next_id s) ?u) = Inr result"
    using assms(1) k llm out(1) by (simp add: consult_model_def authorize_apply run_simps new_run_free)
  then obtain v where v: "consult_model A c m (next_id s) ?u = (Inr result, v)" by (metis prod.collapse)
  have kv: "keeps conversations_view (consult_model A c m (next_id s))" by (intro keeps_intros) simp
  have "conversations_view v = conversations_view s" using keepsD [OF kv v] by simp
  then have view: "customer_messages v = customer_messages s" "approvals v = approvals s" by (simp_all add: conversations_view_def)
  have route: "route_answer A j i (lr_output result) = auto_respond j i" for j i
    using out by (auto simp: route_answer_def Let_def safe_auto_intents_def approval_intents_def)
  show ?thesis
    using v view usage
    by (simp add: classify_with_ai_def run_simps set_agent_run_def record_usage_def set_message_def route auto_respond_def set_conversation_def)
      (auto simp: update_rows_def answered_def o_def)
qed

section \<open>Samples\<close>

definition sample_conversation :: CustomerConversation where
  "sample_conversation = \<lparr>row_id = 2, row_created_at = 0, cc_order_id = None, cc_product_id = None, cc_marketplace = ''ebay'',
     cc_marketplace_account_id = ''acct'', cc_external_conversation_id = ''c1'', cc_customer_reference = ''buyer'',
     cc_classification = None, cc_risk_level = None, cc_status = Conversation_OPEN, cc_assignee = None\<rparr>"

definition sample_answer :: CustomerServiceAIResponse where
  "sample_answer = \<lparr>cr_intent = Intent_ORDER_STATUS, cr_decision = Decision_AUTO_RESPOND, cr_risk_level = ''low'',
     cr_generated_response = Some ''It ships today.'', cr_rationale = ''order status''\<rparr>"

definition sample_agent :: CustomerServiceAgent where
  "sample_agent = \<lparr>cs_llm = (\<lambda>req i. Inr \<lparr>lr_output = sample_answer, lr_provider = ''p'', lr_model = ''m'',
       lr_usage = \<lparr>lu_input_tokens = 10, lu_output_tokens = 5, lu_cost_amount = 1 / 100, lu_cost_currency = Some ''USD''\<rparr>,
       lr_provider_metadata = None\<rparr>),
     cs_approval_engine = \<lparr>engine_policy = policy_from_settings 10 50, default_expiry_hours = 72,
       engine_registry = [(''customer_response'', approve_response)], digest = (\<lambda>_. ''h'')\<rparr>,
     cs_prompt_version = ''customer-service-v1'', cs_usage_accounting = default_accounting\<rparr>"

definition conversation_db :: db where
  "conversation_db = (empty_db 7)\<lparr>next_id := 3, customer_conversations := [sample_conversation]\<rparr>"

lemma sample_screen: "evaluate_risks ''Where is my order?'' sample_conversation = []"
  by code_simp

lemma sample_service_ok: "messages_ok conversation_db" "responses_engine (cs_approval_engine sample_agent)"
  by (simp_all add: messages_ok_def conversation_db_def empty_db_def responses_engine_def sample_agent_def get_action_def)

lemma sample_fields:
  "row_id sample_conversation = 2" "cc_order_id sample_conversation = None" "cc_product_id sample_conversation = None"
  "cr_intent sample_answer = Intent_ORDER_STATUS" "cr_decision sample_answer = Decision_AUTO_RESPOND"
  "cr_risk_level sample_answer = ''low''" "cr_generated_response sample_answer = Some ''It ships today.''"
  "ai_response_valid sample_answer" "str_lower ''low'' = ''low''"
  by (simp_all add: sample_conversation_def sample_answer_def ai_response_valid_def str_lower_def lower_char_def)



theorem escalated_conversation_blocked_witness:
  "\<exists>r t msg. transaction (handle_message sample_agent 2 ''m1'' ''email'' ''hello'')
       (conversation_db\<lparr>customer_conversations := [escalated_conversation sample_conversation]\<rparr>) = (Inr r, t) \<and>
     fst (transaction (handle_message sample_agent 2 ''m2'' ''email'' ''are you there?'') t) = Inl (Exn IntegrityError msg)"
proof -
  let ?s = "conversation_db\<lparr>customer_conversations := [escalated_conversation sample_conversation]\<rparr>"
  have "with_human 2 (escalated_conversation sample_conversation) ?s" "\<not> announced 2 ?s" "new_to 2 x ?s" for x
    by (simp_all add: with_human_def announced_def new_to_def conversation_db_def empty_db_def row_Cons sample_fields escalated_conversation_def)
  note w = this
  obtain r t where t: "transaction (handle_message sample_agent 2 ''m1'' ''email'' ''hello'') ?s = (Inr r, t)"
      "\<And>ext' ch' content'. new_to 2 ext' ?s \<Longrightarrow> ext' \<noteq> ''m1'' \<Longrightarrow> content' \<noteq> [] \<Longrightarrow>
         \<exists>msg. fst (transaction (handle_message sample_agent 2 ext' ch' content') t) = Inl (Exn IntegrityError msg)"
    using escalated_conversation_blocked [OF w(1,2,3), where content = "''hello''" and ext = "''m1''" and A = sample_agent and ch = "''email''"] by auto
  have "\<exists>msg. fst (transaction (handle_message sample_agent 2 ''m2'' ''email'' ''are you there?'') t) = Inl (Exn IntegrityError msg)"
    by (rule t(2) [OF w(3)]) simp_all
  then show ?thesis using t(1) by blast
qed

section \<open>As the orchestrator's agent\<close>

lemma trade_view_service [simp]:
  "trade_view (customer_messages_update m s) = trade_view s" "trade_view (customer_conversations_update c s) = trade_view s"
  "trade_view (agent_runs_update r s) = trade_view s"
  by (simp_all add: trade_view_def supply_part_def order_part_def)

lemma classification_aside:
  "keeps trade_view (escalate j i r n)" "advances (escalate j i r n)"
  "keeps trade_view (draft_for_approval A j i)" "advances (draft_for_approval A j i)"
  "keeps trade_view (auto_respond j i)" "advances (auto_respond j i)"
  "keeps trade_view (audit_message j i)" "advances (audit_message j i)"
  unfolding escalate_def draft_for_approval_def auto_respond_def audit_message_def create_request_def audit_approval_def Let_def
  by (intro keeps_intros advances_intros advances_sets advances_writes; simp)+

lemma route_aside: "keeps trade_view (route_answer A j i out)" "advances (route_answer A j i out)"
  unfolding route_answer_def Let_def by (simp_all add: classification_aside)

lemma screen_aside: "keeps trade_view (screen_message A c m)" "advances (screen_message A c m)"
proof -
  have "keeps trade_view (classify_with_ai A c m)"
    unfolding classify_with_ai_def Let_def
    by (intro keeps_intros keeps_case_sum keeps_record_usage_alone keeps_set_agent_run keeps_set_message
        classification_aside route_aside; simp)
  then show "keeps trade_view (screen_message A c m)" by (simp add: screen_message_def Let_def classification_aside)
  have "advances (classify_with_ai A c m)"
    unfolding classify_with_ai_def Let_def
    by (intro advances_intros advances_case_sum advances_writes advances_usage advances_sets
        classification_aside route_aside; simp)
  then show "advances (screen_message A c m)" by (simp add: screen_message_def Let_def classification_aside)
qed

lemma customer_agent_aside: "keeps trade_view (process_received_event A e)" "advances (process_received_event A e)"
  unfolding process_received_event_def wrong_payload_def
  by (cases "ee_data e"; simp; intro keeps_intros advances_intros screen_aside classification_aside; simp)+

end
