(* ===== verification/Listing_Adapter.thy ===== *)
theory Listing_Adapter
  imports Order_Service
begin

text \<open>
  \<open>integrations/marketplaces/listing.py\<close> and \<open>agents/listing_models.py\<close>: a generated listing, the requirements of a marketplace, and
  the validation of the one against the other, compared with a table of the violations.
\<close>

section \<open>Generated listings\<close>

record ImageRequirement =
  ig_image_type :: string
  ig_description :: string
  ig_required :: bool

record GeneratedListing =
  gl_title :: string
  gl_bullet_points :: "string list"
  gl_description :: string
  gl_search_terms :: "string list"
  gl_category_suggestion :: string
  gl_product_attributes :: dict
  gl_sku :: string
  gl_proposed_price :: rat
  gl_image_requirements :: "ImageRequirement list"

record ValidationIssue =
  vi_code :: string
  vi_field :: string
  vi_message :: string

text \<open>What pydantic requires of a listing.\<close>

definition image_valid :: "ImageRequirement \<Rightarrow> bool" where
  "image_valid i \<longleftrightarrow> text_within 1 100 (ig_image_type i) \<and> text_within 1 1000 (ig_description i)"

definition listing_valid :: "GeneratedListing \<Rightarrow> bool" where
  "listing_valid g \<longleftrightarrow> gl_title g \<noteq> [] \<and> gl_description g \<noteq> [] \<and> gl_category_suggestion g \<noteq> [] \<and> gl_sku g \<noteq> [] \<and>
     0 < gl_proposed_price g \<and> four_places (gl_proposed_price g) \<and> list_all image_valid (gl_image_requirements g)"

text \<open>\<open>model_dump(mode="json")\<close>; the text of a decimal is \<open>JDec\<close> of it.\<close>

definition image_dump :: "ImageRequirement \<Rightarrow> json" where
  "image_dump i = JObj [(''image_type'', JStr (ig_image_type i)), (''description'', JStr (ig_description i)),
     (''required'', JBool (ig_required i))]"

definition issue_dump :: "ValidationIssue \<Rightarrow> json" where
  "issue_dump v = JObj [(''code'', JStr (vi_code v)), (''field'', JStr (vi_field v)), (''message'', JStr (vi_message v))]"

abbreviation j_texts :: "string list \<Rightarrow> json" where
  "j_texts ts \<equiv> JList (map JStr ts)"

definition listing_dump :: "GeneratedListing \<Rightarrow> dict" where
  "listing_dump g = [(''title'', JStr (gl_title g)), (''bullet_points'', j_texts (gl_bullet_points g)),
     (''description'', JStr (gl_description g)), (''search_terms'', j_texts (gl_search_terms g)),
     (''category_suggestion'', JStr (gl_category_suggestion g)), (''product_attributes'', JObj (gl_product_attributes g)),
     (''sku'', JStr (gl_sku g)), (''proposed_price'', JDec (gl_proposed_price g)),
     (''image_requirements'', JList (map image_dump (gl_image_requirements g)))]"

section \<open>Requirements of a marketplace\<close>

text \<open>The minimum price is kept with the text \<open>str(minimum_price)\<close> that constraints and messages show.\<close>

record MarketplaceListingRequirements =
  mr_marketplace :: string
  title_max_length :: int
  bullet_min_count :: int
  bullet_max_count :: int
  bullet_max_length :: int
  description_max_length :: int
  keyword_max_count :: int
  keyword_max_length :: int
  required_attributes :: "string list"
  minimum_required_images :: int
  minimum_price :: rat
  minimum_price_text :: string
  generation_guidance :: "string list"

text \<open>The protocol.\<close>

record MarketplaceListingAdapter =
  ad_marketplace :: string
  ad_generation_constraints :: dict
  ad_validate :: "GeneratedListing \<Rightarrow> string \<Rightarrow> ValidationIssue list"
  ad_build_payload :: "GeneratedListing \<Rightarrow> dict"

definition generation_constraints :: "MarketplaceListingRequirements \<Rightarrow> dict" where
  "generation_constraints R = [(''marketplace'', JStr (mr_marketplace R)), (''title_max_length'', JInt (title_max_length R)),
     (''bullet_min_count'', JInt (bullet_min_count R)), (''bullet_max_count'', JInt (bullet_max_count R)),
     (''bullet_max_length'', JInt (bullet_max_length R)), (''description_max_length'', JInt (description_max_length R)),
     (''keyword_max_count'', JInt (keyword_max_count R)), (''keyword_max_length'', JInt (keyword_max_length R)),
     (''required_attributes'', j_texts (required_attributes R)), (''minimum_required_images'', JInt (minimum_required_images R)),
     (''minimum_price'', JStr (minimum_price_text R)), (''generation_guidance'', j_texts (generation_guidance R))]"

definition issue :: "string \<Rightarrow> string \<Rightarrow> string \<Rightarrow> ValidationIssue" where
  "issue code field message = \<lparr>vi_code = code, vi_field = field, vi_message = message\<rparr>"

definition max_length :: "string \<Rightarrow> string \<Rightarrow> int \<Rightarrow> ValidationIssue list" where
  "max_length field value maximum =
     (if maximum < int (length value)
      then [issue ''max_length'' field (''Must contain at most '' @ int_str maximum @ '' characters'')] else [])"

text \<open>\<open>for index, value in enumerate(values): self._max_length(issues, f"{field}.{index}", value, maximum)\<close>\<close>

fun max_lengths :: "string \<Rightarrow> nat \<Rightarrow> string list \<Rightarrow> int \<Rightarrow> ValidationIssue list" where
  "max_lengths field index [] maximum = []"
| "max_lengths field index (v # vs) maximum =
     max_length (field @ ''.'' @ nat_str index) v maximum @ max_lengths field (Suc index) vs maximum"

definition absent :: "dict \<Rightarrow> string \<Rightarrow> bool" where
  "absent attributes a \<longleftrightarrow> dict_get attributes a \<in> {None, Some JNull, Some (JStr [])}"

definition required_images :: "GeneratedListing \<Rightarrow> int" where
  "required_images g = sum_list (map (\<lambda>i. if ig_required i then 1 else 0) (gl_image_requirements g))"

definition validate_listing :: "MarketplaceListingRequirements \<Rightarrow> GeneratedListing \<Rightarrow> string \<Rightarrow> ValidationIssue list" where
  "validate_listing R g expected_sku =
     max_length ''title'' (gl_title g) (title_max_length R) @
     (if \<not> (bullet_min_count R \<le> int (length (gl_bullet_points g)) \<and> int (length (gl_bullet_points g)) \<le> bullet_max_count R)
      then [issue ''bullet_count'' ''bullet_points''
        (''Requires '' @ int_str (bullet_min_count R) @ ''-'' @ int_str (bullet_max_count R) @ '' bullet points'')] else []) @
     max_lengths ''bullet_points'' 0 (gl_bullet_points g) (bullet_max_length R) @
     max_length ''description'' (gl_description g) (description_max_length R) @
     (if keyword_max_count R < int (length (gl_search_terms g))
      then [issue ''keyword_count'' ''search_terms'' (''Allows at most '' @ int_str (keyword_max_count R) @ '' search terms'')] else []) @
     max_lengths ''search_terms'' 0 (gl_search_terms g) (keyword_max_length R) @
     (if gl_sku g \<noteq> expected_sku then [issue ''sku_mismatch'' ''sku'' ''Generated SKU does not match inventory SKU''] else []) @
     (if gl_proposed_price g < minimum_price R
      then [issue ''price_below_marketplace_minimum'' ''proposed_price'' (''Price must be at least '' @ minimum_price_text R)] else []) @
     concat (map (\<lambda>a. if absent (gl_product_attributes g) a
       then [issue ''required_attribute'' (''product_attributes.'' @ a) (''Required attribute is missing: '' @ a)] else [])
       (required_attributes R)) @
     (if required_images g < minimum_required_images R
      then [issue ''image_count'' ''image_requirements''
        (''Requires at least '' @ int_str (minimum_required_images R) @ '' images'')] else [])"

definition build_payload :: "GeneratedListing \<Rightarrow> dict" where
  "build_payload g = [(''title'', JStr (gl_title g)), (''bullets'', j_texts (gl_bullet_points g)),
     (''description'', JStr (gl_description g)), (''search_terms'', j_texts (gl_search_terms g)),
     (''category'', JStr (gl_category_suggestion g)), (''attributes'', JObj (gl_product_attributes g)), (''sku'', JStr (gl_sku g)),
     (''price'', JDec (gl_proposed_price g)), (''image_requirements'', JList (map image_dump (gl_image_requirements g)))]"

definition configured_adapter :: "MarketplaceListingRequirements \<Rightarrow> MarketplaceListingAdapter" where
  "configured_adapter R = \<lparr>ad_marketplace = mr_marketplace R, ad_generation_constraints = generation_constraints R,
     ad_validate = validate_listing R, ad_build_payload = build_payload\<rparr>"

section \<open>The registry of adapters\<close>

text \<open>Adapters and connectors are kept in dictionaries by marketplace, in the order of registration.\<close>

definition register_named :: "string \<Rightarrow> string \<Rightarrow> 'v \<Rightarrow> (string \<times> 'v) list \<Rightarrow> exn + (string \<times> 'v) list" where
  "register_named what marketplace v reg =
     (if marketplace \<in> fst ` set reg then Inl (Exn ValueError (what @ '' already registered: '' @ marketplace))
      else Inr (reg @ [(marketplace, v)]))"

definition get_named :: "string \<Rightarrow> (string \<times> 'v) list \<Rightarrow> string \<Rightarrow> exn + 'v" where
  "get_named what reg marketplace = (case map_of reg marketplace of
     None \<Rightarrow> Inl (Exn LookupError (what @ '' is not registered: '' @ marketplace)) | Some v \<Rightarrow> Inr v)"

type_synonym MarketplaceListingAdapterRegistry = "(string \<times> MarketplaceListingAdapter) list"

definition register_adapter ::
  "MarketplaceListingAdapter \<Rightarrow> MarketplaceListingAdapterRegistry \<Rightarrow> exn + MarketplaceListingAdapterRegistry" where
  "register_adapter a = register_named ''Marketplace adapter'' (ad_marketplace a) a"

definition get_adapter :: "MarketplaceListingAdapterRegistry \<Rightarrow> string \<Rightarrow> exn + MarketplaceListingAdapter" where
  "get_adapter = get_named ''Marketplace adapter''"

definition all_adapters :: "MarketplaceListingAdapterRegistry \<Rightarrow> MarketplaceListingAdapter list" where
  "all_adapters reg = map snd reg"

lemma register_named_lookup:
  "register_named what k v reg =
     (if map_of reg k \<noteq> None then Inl (Exn ValueError (what @ '' already registered: '' @ k)) else Inr (reg @ [(k, v)]))"
  by (simp add: register_named_def map_of_eq_None_iff)

interpretation named_registry: keyed_registry "\<lambda>_. True" "register_named what" map_of for what
  by unfold_locales (auto simp: register_named_lookup map_add_def fun_eq_iff split: option.split)

section \<open>Validation is exact\<close>

definition issue_key :: "ValidationIssue \<Rightarrow> string \<times> string" where
  "issue_key v = (vi_code v, vi_field v)"

definition keys_of :: "ValidationIssue list \<Rightarrow> (string \<times> string) set" where
  "keys_of vs = issue_key ` set vs"

text \<open>The table of the violations: the code and the field of each.\<close>

definition violations :: "MarketplaceListingRequirements \<Rightarrow> GeneratedListing \<Rightarrow> string \<Rightarrow> (string \<times> string) set" where
  "violations R g sku =
     {(''max_length'', ''title'') |_ :: unit. title_max_length R < int (length (gl_title g))} \<union>
     {(''bullet_count'', ''bullet_points'') |_ :: unit. int (length (gl_bullet_points g)) \<notin> {bullet_min_count R .. bullet_max_count R}} \<union>
     {(''max_length'', ''bullet_points.'' @ nat_str i) |i. i < length (gl_bullet_points g) \<and>
        bullet_max_length R < int (length (gl_bullet_points g ! i))} \<union>
     {(''max_length'', ''description'') |_ :: unit. description_max_length R < int (length (gl_description g))} \<union>
     {(''keyword_count'', ''search_terms'') |_ :: unit. keyword_max_count R < int (length (gl_search_terms g))} \<union>
     {(''max_length'', ''search_terms.'' @ nat_str i) |i. i < length (gl_search_terms g) \<and>
        keyword_max_length R < int (length (gl_search_terms g ! i))} \<union>
     {(''sku_mismatch'', ''sku'') |_ :: unit. gl_sku g \<noteq> sku} \<union>
     {(''price_below_marketplace_minimum'', ''proposed_price'') |_ :: unit. gl_proposed_price g < minimum_price R} \<union>
     {(''required_attribute'', ''product_attributes.'' @ a) |a. a \<in> set (required_attributes R) \<and> absent (gl_product_attributes g) a} \<union>
     {(''image_count'', ''image_requirements'') |_ :: unit.
        int (length (filter ig_required (gl_image_requirements g))) < minimum_required_images R}"

lemma keys_of_append [simp]: "keys_of (xs @ ys) = keys_of xs \<union> keys_of ys"
  by (simp add: keys_of_def image_Un)

lemma keys_of_Nil [simp]: "keys_of [] = {}"
  by (simp add: keys_of_def)

lemma keys_of_issue [simp]: "keys_of [issue c f m] = {(c, f)}"
  by (simp add: keys_of_def issue_key_def issue_def)

lemma keys_of_if [simp]: "keys_of (if b then vs else []) = {k \<in> keys_of vs. b}"
  by simp

lemma keys_of_max_length [simp]: "keys_of (max_length f v n) = {(''max_length'', f) |_ :: unit. n < int (length v)}"
  by (simp add: max_length_def)

lemma keys_of_max_lengths:
  "keys_of (max_lengths f k vs n) = {(''max_length'', f @ ''.'' @ nat_str (k + i)) |i. i < length vs \<and> n < int (length (vs ! i))}"
proof (induction vs arbitrary: k)
  case (Cons v vs)
  have "{(''max_length'', f @ ''.'' @ nat_str (k + i)) |i. i < length (v # vs) \<and> n < int (length ((v # vs) ! i))} =
    {(''max_length'', f @ ''.'' @ nat_str k) |_ :: unit. n < int (length v)} \<union>
    {(''max_length'', f @ ''.'' @ nat_str (Suc k + i)) |i. i < length vs \<and> n < int (length (vs ! i))}" (is "?L = ?A \<union> ?B")
  proof (intro equalityI subsetI)
    fix x assume "x \<in> ?L"
    then obtain i where i: "x = (''max_length'', f @ ''.'' @ nat_str (k + i))" "i < length (v # vs)" "n < int (length ((v # vs) ! i))" by blast
    then show "x \<in> ?A \<union> ?B" by (cases i) auto
  next
    fix x assume "x \<in> ?A \<union> ?B"
    then consider "x \<in> ?A" | "x \<in> ?B" by blast
    then show "x \<in> ?L"
    proof cases
      case 1
      then show ?thesis by (auto intro!: exI [of _ 0])
    next
      case 2
      then obtain i where "x = (''max_length'', f @ ''.'' @ nat_str (Suc k + i))" "i < length vs" "n < int (length (vs ! i))" by blast
      then show ?thesis by (auto intro!: exI [of _ "Suc i"])
    qed
  qed
  then show ?case by (simp add: Cons.IH)
qed simp

lemma required_images_count: "required_images g = int (length (filter ig_required (gl_image_requirements g)))"
proof -
  have "sum_list (map (\<lambda>i. if ig_required i then 1 else 0) is) = int (length (filter ig_required is))" for "is"
    by (induction "is") simp_all
  then show ?thesis by (simp only: required_images_def)
qed

lemma keys_of_attributes:
  "keys_of (concat (map (\<lambda>a. if absent d a then [issue c (f a) (m a)] else []) as)) = {(c, f a) |a. a \<in> set as \<and> absent d a}"
  by (induction as) auto

lemma validate_keys: "keys_of (validate_listing R g sku) = violations R g sku"
  unfolding validate_listing_def violations_def keys_of_append keys_of_max_lengths keys_of_attributes required_images_count
  by auto

text \<open>No violation is reported twice.\<close>

lemma nat_str_inject [simp]: "nat_str m = nat_str n \<longleftrightarrow> m = n"
proof
  have digit: "''0123456789'' ! a = ''0123456789'' ! b \<Longrightarrow> a < 10 \<Longrightarrow> b < 10 \<Longrightarrow> a = b" for a b :: nat
    using nth_eq_iff_index_eq [of "''0123456789''" a b] by simp
  have some: "nat_str k \<noteq> []" for k by (subst nat_str.simps) simp
  show "nat_str m = nat_str n \<Longrightarrow> m = n"
  proof (induction m arbitrary: n rule: nat_str.induct)
    case (1 m)
    have m: "nat_str m = (if m < 10 then [] else nat_str (m div 10)) @ [''0123456789'' ! (m mod 10)]" by (subst nat_str.simps) simp
    have n: "nat_str n = (if n < 10 then [] else nat_str (n div 10)) @ [''0123456789'' ! (n mod 10)]" by (subst nat_str.simps) simp
    have last: "m mod 10 = n mod 10" and init: "(if m < 10 then [] else nat_str (m div 10)) = (if n < 10 then [] else nat_str (n div 10))"
      using "1.prems" digit [of "m mod 10" "n mod 10"] unfolding m n by simp_all
    show ?case
    proof (cases "m < 10")
      case True
      then show ?thesis using last init some [of "n div 10"] by (simp split: if_splits)
    next
      case False
      then have "nat_str (m div 10) = nat_str (n div 10)" "\<not> n < 10" using init some [of "m div 10"] by (auto split: if_splits)
      then have "m div 10 = n div 10" using "1.IH" [OF False] by blast
      then show ?thesis using last by (metis div_mult_mod_eq)
    qed
  qed
qed simp

definition once :: "ValidationIssue list \<Rightarrow> bool" where
  "once vs \<longleftrightarrow> distinct (map issue_key vs)"

lemma once_append [simp]: "once (xs @ ys) \<longleftrightarrow> once xs \<and> once ys \<and> keys_of xs \<inter> keys_of ys = {}"
  by (simp add: once_def keys_of_def)

lemma once_small [simp]: "once []" "once [v]" "once (max_length f v' n)"
  by (simp_all add: once_def max_length_def)

lemma once_max_lengths [simp]: "once (max_lengths f k vs n)"
  by (induction vs arbitrary: k) (auto simp: keys_of_max_lengths)

lemma once_attributes:
  "distinct as \<Longrightarrow> inj f \<Longrightarrow> once (concat (map (\<lambda>a. if absent d a then [issue c (f a) (m a)] else []) as))"
  by (induction as) (auto simp: keys_of_attributes inj_eq simp del: keys_of_if)

lemma once_if [simp]: "once (if b then [v] else [])"
  by simp

text \<open>
  C37: validation reports exactly the violated requirements of the marketplace, each once: lengths of title, description, every
  bullet point and every search term, the numbers of bullet points, search terms and required images, the SKU, the minimum price
  and each required attribute. In particular a listing without issues meets them all.
\<close>

theorem listing_validation_exact:
  assumes "distinct (required_attributes R)"
  shows "distinct (map issue_key (validate_listing R g sku)) \<and> issue_key ` set (validate_listing R g sku) = violations R g sku"
proof -
  have "once (validate_listing R g sku)"
    unfolding validate_listing_def once_append keys_of_append keys_of_max_lengths keys_of_attributes
    using once_attributes [OF assms, of "\<lambda>a. ''product_attributes.'' @ a"] by (auto simp: inj_def)
  then show ?thesis using validate_keys by (simp add: once_def keys_of_def)
qed

text \<open>A listing with every kind of violation.\<close>

definition sample_requirements :: MarketplaceListingRequirements where
  "sample_requirements = \<lparr>mr_marketplace = ''amazon'', title_max_length = 3, bullet_min_count = 1, bullet_max_count = 2, bullet_max_length = 2,
     description_max_length = 5, keyword_max_count = 1, keyword_max_length = 2, required_attributes = [''c'', ''d''],
     minimum_required_images = 1, minimum_price = 1, minimum_price_text = ''1'', generation_guidance = []\<rparr>"

definition sample_listing :: GeneratedListing where
  "sample_listing = \<lparr>gl_title = ''t'', gl_bullet_points = [''b''], gl_description = ''d'', gl_search_terms = [''s''],
     gl_category_suggestion = ''c'', gl_product_attributes = [(''c'', JStr ''x''), (''d'', JStr ''y'')], gl_sku = ''S'',
     gl_proposed_price = 2, gl_image_requirements = [\<lparr>ig_image_type = ''i'', ig_description = ''i'', ig_required = True\<rparr>]\<rparr>"

lemma sample_listing_conforms: "violations sample_requirements sample_listing ''S'' = {}"
  by (auto simp: violations_def sample_listing_def sample_requirements_def absent_def dict_get_def)

theorem listing_validation_exact_witness:
  "let issues = validate_listing sample_requirements (sample_listing\<lparr>gl_title := ''long'', gl_product_attributes := []\<rparr>) ''T'' in
     distinct (map issue_key issues) \<and> (''sku_mismatch'', ''sku'') \<in> issue_key ` set issues"
proof -
  have "distinct (required_attributes sample_requirements)" by (simp add: sample_requirements_def)
  from listing_validation_exact [OF this] show ?thesis
    by (simp add: Let_def violations_def sample_listing_def)
qed

end
