(* ===== verification/Listing_Service.thy ===== *)
theory Listing_Service
  imports Event_Processor Listing_Adapter Frame_Steps AI_Usage
begin

text \<open>
  \<open>application/listings.py\<close>: for stock that can be sold the agent of a marketplace has a listing generated, validates it, stores
  the draft and asks for the approval of its publication; the handler of the granted approval releases the draft.
\<close>

section \<open>The agent\<close>

record MarketplaceListingAgent =
  la_llm :: "GeneratedListing StructuredLLM"
  la_adapter :: MarketplaceListingAdapter
  la_approval_engine :: ApprovalEngine
  la_prompt_version :: string
  la_usage_accounting :: UsageAccounting
  la_uuid5 :: "string \<Rightarrow> uuid"

definition listing_handler_name :: "MarketplaceListingAgent \<Rightarrow> string" where
  "listing_handler_name A = ''listing-agent:'' @ ad_marketplace (la_adapter A)"

definition set_draft :: "uuid \<Rightarrow> (ListingDraft \<Rightarrow> ListingDraft) \<Rightarrow> unit op" where
  "set_draft = set_row listing_drafts listing_drafts_update"

text \<open>\<open>session.scalar(select(..).order_by(created_at.desc()))\<close>; the order of rows of the same time is the database's.\<close>

definition newest :: "'r EntityMixin_scheme list \<Rightarrow> 'r EntityMixin_scheme option" where
  "newest rs = (case rs of [] \<Rightarrow> None
     | r # rs' \<Rightarrow> Some (foldl (\<lambda>a b. if row_created_at a < row_created_at b then b else a) r rs'))"

text \<open>\<open>Decimal(str(value))\<close>\<close>

fun decimal_of_text :: "json \<Rightarrow> exn + rat" where
  "decimal_of_text (JDec d) = Inr d"
| "decimal_of_text (JInt i) = Inr (of_int i)"
| "decimal_of_text v = Inl (Exn InvalidOperation ''[<class 'decimal.ConversionSyntax'>]'')"

definition economics_price :: "dict \<Rightarrow> exn + json option" where
  "economics_price context = (case dict_get context ''economics'' of
     None \<Rightarrow> Inr None
   | Some (JObj economics) \<Rightarrow> Inr (case dict_get economics ''recommended_selling_price'' of Some JNull \<Rightarrow> None | v \<Rightarrow> v)
   | Some _ \<Rightarrow> Inl (Exn AttributeError ''get''))"

definition recommended_price :: "InventoryItem \<Rightarrow> rat op" where
  "recommended_price inventory =
     bind (scalars procurement_requests (\<lambda>p. pr_product_id p = ii_product_id inventory)) (\<lambda>found.
     bind (case newest found of None \<Rightarrow> ret None | Some p \<Rightarrow> of_result (economics_price (pr_recommendation_context p))) (\<lambda>value.
     case value of
       Some v \<Rightarrow> of_result (decimal_of_text v)
     | None \<Rightarrow> ret (dec_mul (ii_cost_basis inventory) 2)))"

text \<open>\<open>(max(listing_version) or 0) + 1\<close>\<close>

definition next_version :: "ListingDraft list \<Rightarrow> int" where
  "next_version ds = (case map ld_listing_version ds of [] \<Rightarrow> 0 | v # vs \<Rightarrow> foldl max v vs) + 1"

definition origin_text :: "uuid option \<Rightarrow> uuid option \<Rightarrow> string" where
  "origin_text source_event_id correlation_id = (case source_event_id of
     Some e \<Rightarrow> uuid_str e | None \<Rightarrow> (case correlation_id of Some c \<Rightarrow> uuid_str c | None \<Rightarrow> ''None''))"

text \<open>The workflow run and the agent run, both running.\<close>

definition open_runs :: "MarketplaceListingAgent \<Rightarrow> InventoryItem \<Rightarrow> uuid option \<Rightarrow> uuid option \<Rightarrow> (WorkflowRun \<times> uuid) op" where
  "open_runs A inventory correlation_id source_event_id =
     bind new_uuid (\<lambda>workflow_id.
     bind now_utc (\<lambda>now.
     let workflow = new_workflow workflow_id now (''marketplace-listing:'' @ ad_marketplace (la_adapter A))
       (la_uuid5 A (''listing:'' @ origin_text source_event_id correlation_id @ '':'' @ ad_marketplace (la_adapter A)))
       Run_RUNNING ''ai_generation''
       [(''inventory_item_id'', j_uuid (row_id inventory)), (''source_event_id'', j_opt j_uuid source_event_id),
        (''marketplace'', JStr (ad_marketplace (la_adapter A)))] in
     andthen (add_workflow workflow)
     (bind new_uuid (\<lambda>run_id.
      andthen (add_row agent_runs_update (new_agent_run run_id now (Some workflow_id) ''marketplace_listing''
        (case source_event_id of Some e \<Rightarrow> uuid_str e | None \<Rightarrow> uuid_str (row_id inventory)) (la_prompt_version A)))
      (andthen flush
      (ret (workflow, run_id)))))))"

definition listing_context :: "Product \<Rightarrow> InventoryItem \<Rightarrow> rat \<Rightarrow> dict" where
  "listing_context p inventory price =
     [(''product'', JObj [(''name'', JStr (pd_name p)), (''brand'', j_opt JStr (pd_brand p)),
        (''identifiers'', JObj (pd_identifiers p)), (''attributes'', JObj (pd_attributes p))]),
      (''inventory'', JObj [(''sku'', JStr (ii_sku inventory)), (''available_quantity'', JInt (available_quantity inventory)),
        (''cost_basis'', JDec (ii_cost_basis inventory)), (''currency'', JStr (ii_currency inventory))]),
      (''commercial_guidance'', JObj [(''recommended_selling_price'', JDec price)])]"

text \<open>The call of the model, after the budgets are checked.\<close>

definition generate_listing ::
  "MarketplaceListingAgent \<Rightarrow> Product \<Rightarrow> InventoryItem \<Rightarrow> WorkflowRun \<Rightarrow> uuid \<Rightarrow> GeneratedListing LLMResult op" where
  "generate_listing A p inventory workflow run_id =
     andthen (authorize (la_usage_accounting A) (Some workflow))
     (bind (recommended_price inventory) (\<lambda>price.
      bind (of_result (la_llm A \<lparr>lq_task = ''generate_marketplace_listing'', lq_prompt_version = la_prompt_version A,
        lq_context = listing_context p inventory price, lq_constraints = ad_generation_constraints (la_adapter A)\<rparr> run_id)) (\<lambda>result.
      andthen (raise_if (\<not> listing_valid (lr_output result)) (Exn ValidationError ''GeneratedListing''))
      (ret result))))"

definition new_draft ::
  "MarketplaceListingAgent \<Rightarrow> InventoryItem \<Rightarrow> int \<Rightarrow> uuid \<Rightarrow> uuid \<Rightarrow> GeneratedListing LLMResult \<Rightarrow> ValidationIssue list \<Rightarrow>
   uuid \<Rightarrow> datetime \<Rightarrow> ListingDraft" where
  "new_draft A inventory version workflow_id run_id result issues draft_id now =
     (let g = lr_output result in
      \<lparr>row_id = draft_id, row_created_at = now, ld_inventory_item_id = row_id inventory, ld_workflow_run_id = Some workflow_id,
       ld_agent_run_id = Some run_id, ld_approval_id = None, ld_marketplace = ad_marketplace (la_adapter A),
       ld_listing_version = version, ld_title = gl_title g, ld_bullet_points = gl_bullet_points g,
       ld_description = gl_description g, ld_category = Some (gl_category_suggestion g), ld_attributes = gl_product_attributes g,
       ld_search_keywords = gl_search_terms g, ld_sku = gl_sku g, ld_proposed_price = gl_proposed_price g,
       ld_currency = ii_currency inventory, ld_image_requirements = map image_dump (gl_image_requirements g),
       ld_marketplace_payload = ad_build_payload (la_adapter A) g,
       ld_validation_results = [(''valid'', JBool (issues = [])), (''issues'', JList (map issue_dump issues))],
       ld_approval_status = (if issues = [] then Approval_PENDING else Approval_REJECTED),
       ld_provider_metadata = (case lr_provider_metadata result of None \<Rightarrow> [] | Some d \<Rightarrow> d),
       ld_structured_ai_response = Some (listing_dump g), ld_prompt_version = Some (la_prompt_version A),
       ld_ai_provider = Some (lr_provider result), ld_ai_model = Some (lr_model result)\<rparr>)"

text \<open>The end of the agent run.\<close>

definition close_agent_run :: "WorkflowRun \<Rightarrow> uuid \<Rightarrow> GeneratedListing LLMResult \<Rightarrow> ValidationIssue list \<Rightarrow> unit op" where
  "close_agent_run workflow run_id result issues =
     andthen (set_agent_run run_id (\<lambda>r. r\<lparr>ag_status := Run_SUCCEEDED, ag_provider := Some (lr_provider result),
       ag_model := Some (lr_model result)\<rparr>))
     (andthen (record_usage (Some workflow) run_id (lr_usage result))
     (set_agent_run run_id (\<lambda>r. r\<lparr>ag_safety_result := [(''deterministic_validation_passed'', JBool (issues = [])),
       (''validation_issue_count'', JInt (int (length issues)))]\<rparr>)))"

definition announce_draft :: "ListingDraft \<Rightarrow> WorkflowRun \<Rightarrow> uuid \<Rightarrow> uuid option \<Rightarrow> unit op" where
  "announce_draft draft workflow run_id causation_id =
     andthen (set_agent_run run_id (\<lambda>r. r\<lparr>ag_output_reference := Some (uuid_str (row_id draft))\<rparr>))
     (andthen (write_audit ''agent'' ''marketplace_listing'' ''listing.draft_created'' ''listing_draft'' (row_id draft)
       (Some [(''marketplace'', JStr (ld_marketplace draft)), (''listing_version'', JInt (ld_listing_version draft)),
          (''valid'', (case dict_get (ld_validation_results draft) ''valid'' of Some v \<Rightarrow> v | None \<Rightarrow> JNull))])
       (Some ''Structured AI listing generation'') (wf_correlation_id workflow))
     (bind (version_of (row_id draft)) (\<lambda>version.
      bind (emit (ListingDraftCreatedPayload (row_id draft) (ld_inventory_item_id draft) (ld_marketplace draft) (ld_listing_version draft))
        ''listing_draft'' (row_id draft) version (''listing-draft-created:'' @ uuid_str (row_id draft))
        (Some (wf_correlation_id workflow)) (Some (row_id workflow)) causation_id) (\<lambda>_.
      ret ()))))"

definition publication_context :: ApprovalContext where
  "publication_context = (approval_context FIRST_MARKETPLACE_PUBLICATION)\<lparr>ctx_is_first_publication := True,
     ctx_risk_level := ''public_commercial_action''\<rparr>"

definition publication_action :: "ListingDraft \<Rightarrow> dict" where
  "publication_action draft = [(''operation'', JStr ''approve_first_marketplace_listing''), (''marketplace'', JStr (ld_marketplace draft)),
     (''listing_version'', JInt (ld_listing_version draft)), (''payload'', JObj (ld_marketplace_payload draft))]"

definition publication_request :: "MarketplaceListingAgent \<Rightarrow> ListingDraft \<Rightarrow> uuid \<Rightarrow> ApprovalRequest" where
  "publication_request A draft workflow_id =
     \<lparr>rq_action_type = action_type_value FIRST_MARKETPLACE_PUBLICATION, rq_resource_type = ''listing_draft'',
      rq_resource_id = row_id draft, rq_requested_action = publication_action draft,
      rq_reason = ''First marketplace publication requires human review'', rq_requester = listing_handler_name A,
      rq_risk_level = ''public_commercial_action'', rq_workflow_run_id = Some workflow_id, rq_expires_at = None\<rparr>"

definition await_listing_approval :: "MarketplaceListingAgent \<Rightarrow> ListingDraft \<Rightarrow> uuid \<Rightarrow> unit op" where
  "await_listing_approval A draft workflow_id =
     bind (request_if_required (la_approval_engine A) publication_context (publication_request A draft workflow_id)) (\<lambda>asked.
     bind (the_or (Exn RuntimeError ''First publication policy unexpectedly allowed publication'') asked) (\<lambda>approval.
     andthen (set_draft (row_id draft) (\<lambda>d. d\<lparr>ld_approval_id := Some (row_id approval)\<rparr>))
     (set_workflow workflow_id (\<lambda>w. w\<lparr>wf_status := Run_PENDING, wf_current_step := Some ''awaiting_listing_approval''\<rparr>))))"

definition fail_listing :: "ListingDraft \<Rightarrow> WorkflowRun \<Rightarrow> ValidationIssue list \<Rightarrow> uuid option \<Rightarrow> unit op" where
  "fail_listing draft workflow issues causation_id =
     andthen (set_workflow (row_id workflow) (\<lambda>w. w\<lparr>wf_status := Run_FAILED, wf_current_step := Some ''validation_failed'',
       wf_error := Some [(''type'', JStr ''deterministic_listing_validation''), (''issues'', JList (map issue_dump issues))]\<rparr>))
     (bind (version_of (row_id draft)) (\<lambda>version.
      bind (emit (ListingValidationFailedPayload (row_id draft) (ld_inventory_item_id draft) (ld_marketplace draft) (int (length issues)))
        ''listing_draft'' (row_id draft) version (''listing-validation-failed:'' @ uuid_str (row_id draft))
        (Some (wf_correlation_id workflow)) (Some (row_id workflow)) causation_id) (\<lambda>_.
      ret ())))"

section \<open>Operations\<close>

text \<open>\<open>generate\<close> from the validation of the answer on.\<close>

definition finish_draft ::
  "MarketplaceListingAgent \<Rightarrow> ListingDraft \<Rightarrow> WorkflowRun \<Rightarrow> uuid \<Rightarrow> ValidationIssue list \<Rightarrow> uuid option \<Rightarrow> ListingDraft op" where
  "finish_draft A draft workflow run_id issues causation_id =
     andthen (announce_draft draft workflow run_id causation_id)
     (andthen (if issues = [] then await_listing_approval A draft (row_id workflow)
               else fail_listing draft workflow issues causation_id)
     (andthen flush
     (reload listing_drafts (row_id draft))))"

definition store_listing ::
  "MarketplaceListingAgent \<Rightarrow> InventoryItem \<Rightarrow> int \<Rightarrow> WorkflowRun \<Rightarrow> uuid \<Rightarrow> uuid option \<Rightarrow> GeneratedListing LLMResult \<Rightarrow>
   ListingDraft op" where
  "store_listing A inventory version workflow run_id causation_id result =
     (let issues = ad_validate (la_adapter A) (lr_output result) (ii_sku inventory) in
      andthen (close_agent_run workflow run_id result issues)
      (bind new_uuid (\<lambda>draft_id.
       bind now_utc (\<lambda>now.
       let draft = new_draft A inventory version (row_id workflow) run_id result issues draft_id now in
       andthen (add_row listing_drafts_update draft)
       (andthen flush
       (finish_draft A draft workflow run_id issues causation_id))))))"

definition drafts_of :: "MarketplaceListingAgent \<Rightarrow> InventoryItem \<Rightarrow> ListingDraft \<Rightarrow> bool" where
  "drafts_of A inventory d \<longleftrightarrow> ld_inventory_item_id d = row_id inventory \<and> ld_marketplace d = ad_marketplace (la_adapter A)"

definition generate ::
  "MarketplaceListingAgent \<Rightarrow> uuid \<Rightarrow> uuid option \<Rightarrow> uuid option \<Rightarrow> uuid option \<Rightarrow> ListingDraft op" where
  "generate A inventory_item_id correlation_id causation_id source_event_id =
     bind (get_row inventory_items inventory_item_id) (\<lambda>found.
     bind (the_or (Exn ListingInventoryNotReadyError ''Inventory is not listing-ready'')
       (case found of None \<Rightarrow> None | Some i \<Rightarrow> if available_quantity i \<le> 0 then None else Some i)) (\<lambda>inventory.
     bind (reload products (ii_product_id inventory)) (\<lambda>product_row.
     bind (scalars listing_drafts (drafts_of A inventory)) (\<lambda>earlier.
     bind (open_runs A inventory correlation_id source_event_id) (\<lambda>(workflow, run_id).
     bind (generate_listing A product_row inventory workflow run_id)
       (store_listing A inventory (next_version earlier) workflow run_id causation_id))))))"

definition handle_stock_received :: "MarketplaceListingAgent \<Rightarrow> EventEnvelope \<Rightarrow> unit op" where
  "handle_stock_received A event = (case ee_data event of
     StockReceivedPayload item_id purchase_order_id quantity \<Rightarrow>
       bind (generate A item_id (Some (ee_correlation_id event)) (Some (ee_event_id event)) (Some (ee_event_id event))) (\<lambda>_. ret ())
   | _ \<Rightarrow> throw (Exn ValidationError ''StockReceivedPayload''))"

definition register_listing_agent :: "MarketplaceListingAgent \<Rightarrow> EventHandlerRegistry \<Rightarrow> exn + EventHandlerRegistry" where
  "register_listing_agent A reg = register_handler STOCK_RECEIVED (listing_handler_name A) (handle_stock_received A) reg"

text \<open>The truth value of \<open>d.get(k)\<close>.\<close>

fun truthy :: "json option \<Rightarrow> bool" where
  "truthy None = False"
| "truthy (Some JNull) = False"
| "truthy (Some (JBool b)) = b"
| "truthy (Some (JInt i)) = (i \<noteq> 0)"
| "truthy (Some (JStr s)) = (s \<noteq> [])"
| "truthy (Some (JDec d)) = True"
| "truthy (Some (JList vs)) = (vs \<noteq> [])"
| "truthy (Some (JObj kvs)) = (kvs \<noteq> [])"

definition audit_listing_approved :: "Approval \<Rightarrow> uuid \<Rightarrow> uuid \<Rightarrow> unit op" where
  "audit_listing_approved approval draft_id correlation =
     bind new_uuid (\<lambda>audit_id.
     bind now_utc (\<lambda>now.
     add_row audit_events_update
       \<lparr>row_id = audit_id, row_created_at = now, au_actor_type = ''user'',
        au_actor_id = (case ap_decided_by approval of Some who \<Rightarrow> if who = [] then ''unknown'' else who | None \<Rightarrow> ''unknown''),
        au_action = ''listing.approved'', au_resource_type = ''listing_draft'', au_resource_id = draft_id,
        au_before_state = Some [(''approval_status'', JStr ''pending'')], au_after_state = Some [(''approval_status'', JStr ''approved'')],
        au_reason = ap_rationale approval, au_request_id = None, au_correlation_id = correlation\<rparr>))"

definition approve_listing :: "Approval \<Rightarrow> unit op" where
  "approve_listing approval =
     andthen (raise_if (ap_resource_type approval \<noteq> ''listing_draft'')
       (Exn ListingApprovalError ''Listing approval references the wrong entity type''))
     (bind (scalar listing_drafts (\<lambda>d. row_id d = ap_resource_id approval)) (\<lambda>found.
      bind (the_or (Exn ListingApprovalError ''Listing draft was not found'') found) (\<lambda>draft.
      andthen (raise_if (ld_approval_id draft \<noteq> Some (row_id approval) \<or> ld_approval_status draft \<noteq> Approval_PENDING)
        (Exn ListingApprovalError ''Listing draft is not awaiting this approval''))
      (andthen (raise_if (\<not> truthy (dict_get (ld_validation_results draft) ''valid''))
        (Exn ListingApprovalError ''Invalid listing draft cannot be approved''))
      (andthen (set_draft (row_id draft) (\<lambda>d. d\<lparr>ld_approval_status := Approval_APPROVED\<rparr>))
      (bind (get_opt_row workflow_runs (ld_workflow_run_id draft)) (\<lambda>run.
       bind (the_or (Exn ListingApprovalError ''Listing workflow was not found'') run) (\<lambda>workflow.
       andthen (set_workflow (row_id workflow) (\<lambda>w. w\<lparr>wf_status := Run_SUCCEEDED, wf_current_step := Some ''listing_approved''\<rparr>))
       (bind (version_of (row_id draft)) (\<lambda>version.
        bind (emit (ListingApprovedPayload (row_id draft) (row_id approval)) ''listing_draft'' (row_id draft) version
          (''listing-approved:'' @ uuid_str (row_id draft)) (Some (wf_correlation_id workflow)) (Some (row_id workflow)) None) (\<lambda>_.
        audit_listing_approved approval (row_id draft) (wf_correlation_id workflow))))))))))))"

definition register_listing_approval_handler :: "ApprovalActionRegistry \<Rightarrow> exn + ApprovalActionRegistry" where
  "register_listing_approval_handler reg = register_action (action_type_value FIRST_MARKETPLACE_PUBLICATION) approve_listing reg"

section \<open>Frames\<close>

definition item_skus :: "db \<Rightarrow> (uuid \<times> string) list" where
  "item_skus s = map (\<lambda>i. (row_id i, ii_sku i)) (inventory_items s)"

text \<open>What a listing on a marketplace is of.\<close>

definition listing_links :: "db \<Rightarrow> (uuid \<times> string \<times> string) list" where
  "listing_links s = map (\<lambda>l. (ml_draft_id l, ml_marketplace l, ml_sku l)) (marketplace_listings s)"

definition listings_view :: "db \<Rightarrow> ListingDraft list \<times> (uuid \<times> string \<times> string) list \<times> Approval list \<times> (uuid \<times> string) list" where
  "listings_view s = (listing_drafts s, listing_links s, approvals s, item_skus s)"

lemma listings_view_simps [simp]:
  "listings_view (flush_db s) = listings_view s" "listings_view (next_id_update n s) = listings_view s"
  "listings_view (pending_rows_update p s) = listings_view s" "listings_view (dirty_rows_update d s) = listings_view s"
  "listings_view (domain_events_update e s) = listings_view s" "listings_view (audit_events_update a s) = listings_view s"
  "listings_view (agent_runs_update r s) = listings_view s" "listings_view (workflow_runs_update w s) = listings_view s"
  by (simp_all add: listings_view_def item_skus_def listing_links_def)

lemma keeps_set_draft [keeps_intros]:
  "(\<And>s g h. f (dirty_rows_update g (listing_drafts_update h s)) = f s) \<Longrightarrow> keeps f (set_draft i c)"
  unfolding set_draft_def by (intro keeps_intros)

lemma advances_set_draft [simp]: "advances (set_draft i c)"
  unfolding set_draft_def by (intro advances_writes; simp)

lemma keeps_recommended_price [keeps_intros]: "(\<And>s. f (flush_db s) = f s) \<Longrightarrow> keeps f (recommended_price i)"
  unfolding recommended_price_def by (intro keeps_intros)

lemma advances_recommended_price [simp]: "advances (recommended_price i)"
  unfolding recommended_price_def by (intro advances_intros advances_simple)

lemma keeps_generate_listing [keeps_intros]: "(\<And>s. f (flush_db s) = f s) \<Longrightarrow> keeps f (generate_listing A p i w r)"
  unfolding generate_listing_def by (intro keeps_intros)

lemma advances_generate_listing [simp]: "advances (generate_listing A p i w r)"
  unfolding generate_listing_def by (intro advances_intros advances_simple advances_usage advances_recommended_price)

text \<open>The parts of \<open>generate\<close> that leave drafts, published listings and approvals alone.\<close>

lemma listing_asides:
  "keeps listings_view (open_runs A i c e)" "keeps listings_view (generate_listing A p i w r)"
  "keeps listings_view (close_agent_run w r res iss)" "keeps listings_view (announce_draft d w r ca)"
  "keeps listings_view (fail_listing d w iss ca)" "keeps listings_view (audit_listing_approved ap j k)"
  "keeps listings_view (set_workflow j g)"
  unfolding open_runs_def close_agent_run_def announce_draft_def fail_listing_def audit_listing_approved_def Let_def add_workflow_def
    set_workflow_def
  by (intro keeps_intros; simp)+

lemma listing_asides_advance:
  "advances (open_runs A i c e)" "advances (close_agent_run w r res iss)" "advances (announce_draft d w r ca)"
  "advances (fail_listing d w iss ca)" "advances (audit_listing_approved ap j k)"
  unfolding open_runs_def close_agent_run_def announce_draft_def fail_listing_def audit_listing_approved_def Let_def
    set_workflow_def
  by (intro advances_intros advances_simple advances_usage advances_writes advances_add_workflow advances_audit advances_emit
      advances_write_audit; simp)+

section \<open>Drafts that may be published\<close>

text \<open>The draft is a generated listing for its item that meets the requirements of its marketplace.\<close>

definition draft_conforms :: "MarketplaceListingRequirements set \<Rightarrow> (uuid \<times> string) list \<Rightarrow> ListingDraft \<Rightarrow> bool" where
  "draft_conforms Rs skus d \<longleftrightarrow> (\<exists>R \<in> Rs. \<exists>g. ld_marketplace d = mr_marketplace R \<and> listing_valid g \<and>
     violations R g (ld_sku d) = {} \<and> (ld_inventory_item_id d, ld_sku d) \<in> set skus \<and> ld_marketplace_payload d = build_payload g)"

definition asks_to_publish :: "Approval \<Rightarrow> ListingDraft \<Rightarrow> bool" where
  "asks_to_publish a d \<longleftrightarrow> ap_resource_type a = ''listing_draft'' \<and> ap_resource_id a = row_id d \<and>
     ap_requested_payload a = publication_action d"

definition draft_ok :: "MarketplaceListingRequirements set \<Rightarrow> Approval list \<Rightarrow> (uuid \<times> string) list \<Rightarrow> ListingDraft \<Rightarrow> bool" where
  "draft_ok Rs aps skus d \<longleftrightarrow>
     (ld_approval_status d \<in> {Approval_PENDING, Approval_APPROVED} \<longrightarrow> draft_conforms Rs skus d) \<and>
     (ld_approval_id d \<noteq> None \<longrightarrow> (\<exists>a \<in> set aps. ld_approval_id d = Some (row_id a) \<and> asks_to_publish a d)) \<and>
     (ld_approval_status d = Approval_APPROVED \<longrightarrow> (\<exists>a \<in> set aps. ap_status a = Approval_APPROVED \<and> asks_to_publish a d))"

definition draft_key :: "ListingDraft \<Rightarrow> uuid \<times> string \<times> int" where
  "draft_key d = (ld_inventory_item_id d, ld_marketplace d, ld_listing_version d)"

definition published_ok :: "ListingDraft list \<Rightarrow> uuid \<times> string \<times> string \<Rightarrow> bool" where
  "published_ok ds l \<longleftrightarrow> (\<exists>d \<in> set ds. l = (row_id d, ld_marketplace d, ld_sku d) \<and> ld_approval_status d = Approval_APPROVED)"

definition listings_ok :: "MarketplaceListingRequirements set \<Rightarrow> db \<Rightarrow> bool" where
  "listings_ok Rs s \<longleftrightarrow> ids_ok (next_id s) (listing_drafts s) \<and> ids_ok (next_id s) (approvals s) \<and>
     distinct (map draft_key (listing_drafts s)) \<and>
     (\<forall>a \<in> set (approvals s). ap_resource_type a = ''listing_draft'' \<longrightarrow>
        (\<exists>d \<in> set (listing_drafts s). row_id d = ap_resource_id a \<and> ld_approval_id d \<noteq> None)) \<and>
     (\<forall>d \<in> set (listing_drafts s). draft_ok Rs (approvals s) (item_skus s) d) \<and>
     (\<forall>l \<in> set (listing_links s). published_ok (listing_drafts s) l)"

lemma listings_okD:
  assumes "listings_ok Rs s"
  shows "ids_ok (next_id s) (listing_drafts s)" "ids_ok (next_id s) (approvals s)" "distinct (map row_id (listing_drafts s))"
    and "distinct (map draft_key (listing_drafts s))"
    and "a \<in> set (approvals s) \<Longrightarrow> ap_resource_type a = ''listing_draft'' \<Longrightarrow>
      \<exists>d \<in> set (listing_drafts s). row_id d = ap_resource_id a \<and> ld_approval_id d \<noteq> None"
    and "d \<in> set (listing_drafts s) \<Longrightarrow> draft_ok Rs (approvals s) (item_skus s) d"
    and "l \<in> set (listing_links s) \<Longrightarrow> published_ok (listing_drafts s) l"
  using assms by (auto simp: listings_ok_def dest: ids_ok_distinct)

lemma listings_ok_part:
  "listings_ok Rs s \<Longrightarrow> listings_view t = listings_view s \<Longrightarrow> next_id s \<le> next_id t \<Longrightarrow> listings_ok Rs t"
  by (auto simp: listings_ok_def listings_view_def intro: ids_ok_mono)

interpretation listing_steps: aside_steps listings_view "listings_ok Rs" for Rs
  by unfold_locales (rule listings_ok_part)

lemma draft_ok_moves:
  assumes moves: "list_all2 approval_moves aps bps" and d: "draft_ok Rs aps skus d"
  shows "draft_ok Rs bps skus d"
proof -
  have move: "\<exists>b \<in> set bps. row_id b = row_id a \<and> asks_to_publish b d = asks_to_publish a d \<and>
      (ap_status a = Approval_APPROVED \<longrightarrow> ap_status b = Approval_APPROVED)" if a: "a \<in> set aps" for a
  proof -
    obtain b where b: "b \<in> set bps" "approval_moves a b" using approval_move [OF moves a] by blast
    then show ?thesis using request_part_eqD [of b a] by (intro bexI [of _ b]) (auto simp: approval_moves_def asks_to_publish_def)
  qed
  then show ?thesis using d unfolding draft_ok_def by metis
qed

lemma listings_decision:
  assumes "listings_ok Rs s" "but_decisions t = but_decisions s" "next_id s \<le> next_id t"
    and m: "list_all2 approval_moves (approvals s) (approvals t)"
  shows "listings_ok Rs t"
proof -
  let ?P = "\<lambda>a. ap_resource_type a = ''listing_draft'' \<longrightarrow>
      (\<exists>d \<in> set (listing_drafts s). row_id d = ap_resource_id a \<and> ld_approval_id d \<noteq> None)"
  have "?P a \<Longrightarrow> ?P b" if "approval_moves a b" for a b
    using that request_part_eqD [of b a] by (auto simp: approval_moves_def)
  moreover have "\<forall>a \<in> set (approvals s). ?P a" using assms(1) by (simp add: listings_ok_def)
  ultimately have "\<forall>a \<in> set (approvals t). ?P a" using moves_all [OF m, where P = ?P] by blast
  then show ?thesis
    using assms(1,3) moves_ids_ok [OF m, of "next_id s" "next_id t"] draft_ok_moves [OF m] but_decisionsD(4,5,8) [OF assms(2)]
    by (auto simp: listings_ok_def item_skus_def listing_links_def intro: ids_ok_mono)
qed

interpretation listings: approval_invariant "listings_ok Rs" for Rs
proof
  show "listings_ok Rs t" if "listings_ok Rs s" "tables_of t = tables_of s" "next_id s \<le> next_id t" for s t
    using that tables_ofD [OF that(2)] by (auto simp: listings_ok_def item_skus_def listing_links_def intro: ids_ok_mono)
  show "ids_ok (next_id s) (approvals s)" if "listings_ok Rs s" for s using that by (simp add: listings_ok_def)
qed (rule listings_decision)

text \<open>One change of a draft.\<close>

lemma draft_ok_append: "draft_ok Rs aps skus d \<Longrightarrow> draft_ok Rs (aps @ as) skus d"
  unfolding draft_ok_def set_append by blast

lemma listings_ok_changed:
  assumes ok: "listings_ok Rs s" and d: "row (listing_drafts s) i = Some d"
    and same: "\<And>r. row_id (f r) = row_id r" "\<And>r. draft_key (f r) = draft_key r" "ld_sku (f d) = ld_sku d"
    and f: "draft_ok Rs (approvals s @ as) (item_skus s) (f d)"
    and asked: "ld_approval_id (f d) = None \<longrightarrow> ld_approval_id d = None"
    and approved: "ld_approval_status d = Approval_APPROVED \<longrightarrow> ld_approval_status (f d) = Approval_APPROVED"
    and as: "\<And>a. a \<in> set as \<Longrightarrow> ap_resource_id a = i \<and> ld_approval_id (f d) \<noteq> None"
    and t: "listings_view t = (update_rows i f (listing_drafts s), listing_links s, approvals s @ as, item_skus s)"
    and ids: "ids_ok (next_id t) (approvals s @ as)" "next_id s \<le> next_id t"
  shows "listings_ok Rs t"
proof -
  have cases: "r \<in> set (update_rows i f (listing_drafts s)) \<longleftrightarrow> r = f d \<or> r \<in> set (listing_drafts s) \<and> row_id r \<noteq> i" for r
    by (rule in_update_rows [OF listings_okD(3) [OF ok] d])
  have d_id: "row_id d = i" using d by blast
  have kept: "\<exists>r' \<in> set (update_rows i f (listing_drafts s)). row_id r' = row_id r \<and> draft_key r' = draft_key r \<and> ld_sku r' = ld_sku r \<and>
      (ld_approval_id r \<noteq> None \<longrightarrow> ld_approval_id r' \<noteq> None) \<and>
      (ld_approval_status r = Approval_APPROVED \<longrightarrow> ld_approval_status r' = Approval_APPROVED)" if r: "r \<in> set (listing_drafts s)" for r
  proof (cases "row_id r = i")
    case True
    then have "r = d" using row_in_set [OF listings_okD(3) [OF ok] r] d by simp
    then show ?thesis using same asked approved by (intro bexI [of _ "f d"]) (auto simp: cases)
  next
    case False
    then show ?thesis using r by (intro bexI [of _ r]) (auto simp: cases)
  qed
  have "\<exists>r \<in> set (update_rows i f (listing_drafts s)). row_id r = ap_resource_id a \<and> ld_approval_id r \<noteq> None"
    if a: "a \<in> set (approvals s @ as)" "ap_resource_type a = ''listing_draft''" for a
  proof (cases "a \<in> set as")
    case True
    then show ?thesis using as same(1) d_id by (intro bexI [of _ "f d"]) (auto simp: cases)
  next
    case False
    then have "a \<in> set (approvals s)" using a(1) by simp
    then obtain r where "r \<in> set (listing_drafts s)" "row_id r = ap_resource_id a" "ld_approval_id r \<noteq> None"
      using listings_okD(5) [OF ok _ a(2)] by blast
    then show ?thesis using kept [of r] by auto
  qed
  moreover have "draft_ok Rs (approvals s @ as) (item_skus s) r" if "r \<in> set (update_rows i f (listing_drafts s))" for r
    using that f listings_okD(6) [OF ok, of r, THEN draft_ok_append] unfolding cases by blast
  moreover have "published_ok (update_rows i f (listing_drafts s)) l" if l: "l \<in> set (listing_links s)" for l
  proof -
    obtain r where r: "r \<in> set (listing_drafts s)" "l = (row_id r, ld_marketplace r, ld_sku r)" "ld_approval_status r = Approval_APPROVED"
      using listings_okD(7) [OF ok l] unfolding published_ok_def by blast
    then show ?thesis using kept [OF r(1)] unfolding published_ok_def draft_key_def by (metis Pair_inject)
  qed
  moreover have "ids_ok (next_id t) (update_rows i f (listing_drafts s))"
    using listings_okD(1) [OF ok] same(1) ids(2) by (intro ids_ok_mono [OF ids_ok_update])
  moreover have "distinct (map draft_key (update_rows i f (listing_drafts s)))"
    using listings_okD(4) [OF ok] same(2) by (simp add: map_update_rows)
  ultimately show ?thesis using t ids(1) by (simp add: listings_ok_def listings_view_def)
qed

text \<open>Asking for the publication of a new draft.\<close>

lemma await_keeps:
  assumes ok: "listings_ok Rs s" and d: "row (listing_drafts s) (row_id draft) = Some draft" and none: "ld_approval_id draft = None"
  shows "wp (await_listing_approval A draft w) (\<lambda>_ t. listings_ok Rs t) (\<lambda>_ _. True) s"
proof -
  let ?req = "publication_request A draft w"
  let ?Q = "\<lambda>a t. approvals t = approvals s @ [a] \<and> listing_drafts t = listing_drafts s \<and> listing_links t = listing_links s \<and>
     item_skus t = item_skus s \<and> row_id a = next_id s \<and> next_id s < next_id t \<and> asks_to_publish a draft"
  have fresh: "request_key E ?req \<notin> approval_key ` set (approvals s)" for E
  proof
    assume "request_key E ?req \<in> approval_key ` set (approvals s)"
    then obtain a where "a \<in> set (approvals s)" "approval_key a = request_key E ?req" by force
    then obtain r where r: "r \<in> set (listing_drafts s)" "row_id r = row_id draft" "ld_approval_id r \<noteq> None"
      using listings_okD(5) [OF ok, of a] by (auto simp: approval_key_def request_key_def publication_request_def)
    have "r = draft" using row_in_set [OF listings_okD(3) [OF ok] r(1)] unfolding r(2) d by simp
    then show False using r(3) none by simp
  qed
  have create: "wp (create_request E ?req n v) ?Q X s" for E n v X
  proof -
    obtain x t where x: "create_request E ?req n v s = (x, t)" by force
    then show ?thesis
    proof (cases rule: create_request_cases)
      case (existing a)
      then show ?thesis using fresh by (metis imageI)
    next
      case (new a)
      have "asks_to_publish a draft" using new
        by (simp add: asks_to_publish_def approval_key_def request_key_def publication_request_def)
      moreover have "but_decisions t = but_decisions s" using new(10) by (rule but_decisions_part)
      note but_decisionsD(4,5,8) [OF this]
      ultimately show ?thesis using x new by (simp add: wp_def item_skus_def listing_links_def)
    qed
  qed
  have last: "listings_ok Rs u" if t: "?Q a t" and u: "next_id u = next_id t" "listings_view u =
      (update_rows (row_id draft) (\<lambda>d. d\<lparr>ld_approval_id := Some (row_id a)\<rparr>) (listing_drafts s), listing_links s, approvals t, item_skus s)"
    for a t u
  proof (rule listings_ok_changed [OF ok d, where as = "[a]"])
    have "draft \<in> set (listing_drafts s)" using d row_Some_iff by blast
    then have dr: "draft_ok Rs (approvals s) (item_skus s) draft" by (rule listings_okD(6) [OF ok])
    have same: "draft_conforms Rs (item_skus s) (draft\<lparr>ld_approval_id := k\<rparr>) = draft_conforms Rs (item_skus s) draft"
      "asks_to_publish b (draft\<lparr>ld_approval_id := k\<rparr>) = asks_to_publish b draft" for b k
      by (simp_all add: draft_conforms_def asks_to_publish_def publication_action_def)
    show "draft_ok Rs (approvals s @ [a]) (item_skus s) (draft\<lparr>ld_approval_id := Some (row_id a)\<rparr>)"
      using dr t by (auto simp: draft_ok_def same)
    show "ids_ok (next_id u) (approvals s @ [a])" using listings_okD(2) [OF ok] t u(1) by (auto intro: ids_ok_append)
  qed (use t u in \<open>auto simp: draft_key_def asks_to_publish_def\<close>)
  show ?thesis
    unfolding await_listing_approval_def request_if_required_def Let_def
    apply (simp add: wp_bind wp_ret wp_the_or wp_throw split: option.split)
    apply (intro allI impI)
    apply (rule wp_mono [OF create])
     apply (simp add: wp_bind wp_ret wp_the_or set_draft_def set_workflow_def wp_andthen wp_set_row)
     apply (rule last, assumption; simp add: listings_view_def item_skus_def listing_links_def)
    apply simp
    done
qed

text \<open>\<open>generate\<close>\<close>

lemma wp_all: "(\<And>x t. Q x t) \<Longrightarrow> (\<And>e t. E e t) \<Longrightarrow> wp m Q E s"
  by (simp add: wp_def split: sum.split)

definition agent_ok :: "MarketplaceListingRequirements set \<Rightarrow> MarketplaceListingAgent \<Rightarrow> bool" where
  "agent_ok Rs A \<longleftrightarrow> (\<exists>R \<in> Rs. la_adapter A = configured_adapter R)"

lemma next_version_above: "v \<in> ld_listing_version ` set ds \<Longrightarrow> v < next_version ds"
proof -
  have fold: "\<forall>v \<in> insert a (set vs). v \<le> foldl max a vs" for a :: int and vs
  proof (induction vs arbitrary: a)
    case (Cons x vs)
    from Cons.IH [of "max a x"] show ?case by simp
  qed simp
  assume "v \<in> ld_listing_version ` set ds"
  then show ?thesis
    using fold by (cases ds) (force simp: next_version_def)+
qed

lemma finish_keeps:
  assumes ok: "listings_ok Rs s" and d: "row (listing_drafts s) (row_id draft) = Some draft" "ld_approval_id draft = None"
  shows "wp (finish_draft A draft w r issues ca) (\<lambda>_ t. listings_ok Rs t) (\<lambda>_ _. True) s"
  unfolding finish_draft_def
proof (rule listing_steps.aside_andthen [OF listing_asides(4) listing_asides_advance(3) ok])
  fix t assume t: "listings_ok Rs t" "listings_view t = listings_view s"
  then have row: "row (listing_drafts t) (row_id draft) = Some draft" using d by (simp add: listings_view_def)
  have tail: "wp (andthen flush (reload listing_drafts j)) (\<lambda>_ t. listings_ok Rs t) (\<lambda>_ _. True) u" if "listings_ok Rs u" for u j
    using listings.flushed [OF that] by (simp add: wp_andthen wp_flush wp_reload split: option.split)
  show "wp (andthen (if issues = [] then await_listing_approval A draft (row_id w) else fail_listing draft w issues ca)
      (andthen flush (reload listing_drafts (row_id draft)))) (\<lambda>_ t. listings_ok Rs t) (\<lambda>_ _. True) t"
    unfolding wp_andthen [of "if _ then _ else _"]
    by (rule wp_mono [where Q = "\<lambda>_ t. listings_ok Rs t" and E = "\<lambda>_ _. True"])
      (simp_all add: tail await_keeps [OF t(1) row d(2)] listing_steps.aside_end [OF listing_asides(5) listing_asides_advance(4) t(1)])
qed

lemma new_draft_conforms:
  assumes R: "R \<in> Rs" "la_adapter A = configured_adapter R" and valid: "listing_valid (lr_output result)"
    and none: "validate_listing R (lr_output result) (ii_sku item) = []" and skus: "(row_id item, ii_sku item) \<in> set skus"
  shows "draft_conforms Rs skus (new_draft A item v w r result iss i now)"
proof -
  have v: "violations R (lr_output result) (ii_sku item) = {}" using validate_keys [of R "lr_output result" "ii_sku item"] none by simp
  then have "gl_sku (lr_output result) = ii_sku item" by (auto simp: violations_def)
  then show ?thesis
    using R(1) v valid skus unfolding draft_conforms_def
    by (intro bexI [of _ R] exI [of _ "lr_output result"]) (simp_all add: new_draft_def Let_def R(2) configured_adapter_def)
qed

lemma listings_ok_added:
  assumes ok: "listings_ok Rs s" and d: "row_id d = next_id s" "ld_approval_id d = None" "ld_approval_status d \<noteq> Approval_APPROVED"
    and conforms: "ld_approval_status d = Approval_PENDING \<Longrightarrow> draft_conforms Rs (item_skus s) d"
    and key: "draft_key d \<notin> draft_key ` set (listing_drafts s)"
    and t: "listings_view t = (listing_drafts s @ [d], listing_links s, approvals s, item_skus s)" "next_id s < next_id t"
  shows "listings_ok Rs t" "row (listing_drafts t) (row_id d) = Some d"
proof -
  have "draft_ok Rs (approvals s) (item_skus s) d" using conforms d by (auto simp: draft_ok_def)
  moreover have "published_ok (listing_drafts s @ [d]) l" if "l \<in> set (listing_links s)" for l
    using listings_okD(7) [OF ok that] unfolding published_ok_def by auto
  moreover have "ids_ok (next_id t) (listing_drafts s @ [d])" "ids_ok (next_id t) (approvals s)"
    using listings_okD(1,2) [OF ok] d(1) t(2) by (auto intro: ids_ok_append ids_ok_mono)
  ultimately show "listings_ok Rs t"
    using listings_okD(4,5,6) [OF ok] key t(1) by (auto simp: listings_ok_def listings_view_def)
  show "row (listing_drafts t) (row_id d) = Some d"
    using ids_ok_fresh [OF listings_okD(1) [OF ok], of "next_id s"] d(1) t(1) by (simp add: row_append row_Cons listings_view_def)
qed

lemma store_keeps:
  assumes ok: "listings_ok Rs s" and A: "agent_ok Rs A" and item: "(row_id item, ii_sku item) \<in> set (item_skus s)"
    and valid: "listing_valid (lr_output result)"
  shows "wp (store_listing A item (next_version (filter (drafts_of A item) (listing_drafts s))) w r ca result)
      (\<lambda>_ t. listings_ok Rs t) (\<lambda>_ _. True) s"
  unfolding store_listing_def Let_def
proof (rule listing_steps.aside_andthen [OF listing_asides(3) listing_asides_advance(2) ok])
  fix t :: db
  assume t: "listings_ok Rs t" "listings_view t = listings_view s"
  obtain R where R: "R \<in> Rs" "la_adapter A = configured_adapter R" using A unfolding agent_ok_def by blast
  let ?issues = "ad_validate (la_adapter A) (lr_output result) (ii_sku item)"
  let ?v = "next_version (filter (drafts_of A item) (listing_drafts s))"
  let ?d = "new_draft A item ?v (row_id w) r result ?issues (next_id t) (clock t)"
  have same: "listing_drafts t = listing_drafts s" "item_skus t = item_skus s" using t(2) by (simp_all add: listings_view_def)
  have d: "row_id ?d = next_id t" "ld_approval_id ?d = None" "ld_approval_status ?d \<noteq> Approval_APPROVED"
    "draft_key ?d = (row_id item, ad_marketplace (la_adapter A), ?v)"
    by (simp_all add: new_draft_def Let_def draft_key_def)
  have conforms: "draft_conforms Rs (item_skus t) ?d" if "ld_approval_status ?d = Approval_PENDING"
  proof (rule new_draft_conforms [OF R valid])
    show "validate_listing R (lr_output result) (ii_sku item) = []"
      using that by (simp add: new_draft_def Let_def R(2) configured_adapter_def split: if_splits)
  qed (use item same in simp)
  have key: "draft_key ?d \<notin> draft_key ` set (listing_drafts t)"
  proof
    assume "draft_key ?d \<in> draft_key ` set (listing_drafts t)"
    then obtain x where x: "x \<in> set (filter (drafts_of A item) (listing_drafts s))" "ld_listing_version x = ?v"
      unfolding d(4) same by (force simp: draft_key_def drafts_of_def)
    from next_version_above [OF imageI [OF x(1), of ld_listing_version]] x(2) show False by simp
  qed
  let ?t = "flush_db (pending_rows_update ((#) (row_id ?d)) (listing_drafts_update (\<lambda>rs. rs @ [?d]) (t\<lparr>next_id := next_id t + 1\<rparr>)))"
  have "listings_view ?t = (listing_drafts t @ [?d], listing_links t, approvals t, item_skus t)" "next_id t < next_id ?t"
    by (simp_all add: listings_view_def item_skus_def listing_links_def)
  note added = listings_ok_added [OF t(1) d(1-3) conforms key this]
  have "clock (t\<lparr>next_id := next_id t + 1\<rparr>) = clock t" by simp
  then show "wp (bind new_uuid (\<lambda>draft_id. bind now_utc (\<lambda>now.
       andthen (add_row listing_drafts_update (new_draft A item ?v (row_id w) r result ?issues draft_id now))
       (andthen flush (finish_draft A (new_draft A item ?v (row_id w) r result ?issues draft_id now) w r ?issues ca)))))
      (\<lambda>_ t. listings_ok Rs t) (\<lambda>_ _. True) t"
    using finish_keeps [OF added d(2)]
    by (simp only: wp_bind wp_new_uuid wp_now_utc wp_andthen [of "add_row _ _"] wp_andthen [of flush] wp_add_row wp_flush)
qed

lemma generated_valid:
  assumes "listings_ok Rs s"
  shows "wp (generate_listing A p item w r) (\<lambda>result t. (listings_ok Rs t \<and> listings_view t = listings_view s) \<and> listing_valid (lr_output result))
      (\<lambda>_ _. True) s"
proof -
  have "wp (generate_listing A p item w r) (\<lambda>result t. listing_valid (lr_output result)) (\<lambda>_ _. True) s"
    unfolding generate_listing_def wp_andthen wp_bind
    by (rule wp_all, rule wp_all, simp_all add: wp_of_result wp_raise_if wp_ret split: sum.split)
  from wp_conj [OF listing_steps.aside [OF listing_asides(2) advances_generate_listing assms] this] show ?thesis by simp
qed

lemma generate_keeps:
  assumes ok: "listings_ok Rs s" and A: "agent_ok Rs A"
  shows "wp (generate A i c ca e) (\<lambda>_ t. listings_ok Rs t) (\<lambda>_ _. True) s"
proof (cases "row (inventory_items s) i")
  case None
  then show ?thesis by (simp add: generate_def wp_simps)
next
  case (Some item)
  have sku: "(row_id item, ii_sku item) \<in> set (item_skus s)" using row_Some_iff [OF Some] by (auto simp: item_skus_def)
  let ?v = "next_version (filter (drafts_of A item) (listing_drafts s))"
  have "wp (bind (open_runs A item c e) (\<lambda>(w, r). bind (generate_listing A p item w r) (store_listing A item ?v w r ca)))
      (\<lambda>_ t. listings_ok Rs t) (\<lambda>_ _. True) (flush_db s)" for p
  proof (rule listing_steps.aside_bind [OF listing_asides(1) listing_asides_advance(1) listings.flushed [OF ok]], split prod.split, intro allI impI)
    fix x and t :: db and w :: WorkflowRun and r :: uuid
    assume t: "listings_ok Rs t" "listings_view t = listings_view (flush_db s)" "x = (w, r)"
    show "wp (bind (generate_listing A p item w r) (store_listing A item ?v w r ca)) (\<lambda>_ t. listings_ok Rs t) (\<lambda>_ _. True) t"
      unfolding wp_bind
    proof (rule wp_mono [OF generated_valid [OF t(1)]])
      fix result :: "GeneratedListing LLMResult" and u :: db
      assume u: "(listings_ok Rs u \<and> listings_view u = listings_view t) \<and> listing_valid (lr_output result)"
      then have "listing_drafts u = listing_drafts s" "item_skus u = item_skus s" using t(2) by (simp_all add: listings_view_def item_skus_def listing_links_def)
      then show "wp (store_listing A item ?v w r ca result) (\<lambda>_ t. listings_ok Rs t) (\<lambda>_ _. True) u"
        using store_keeps [of Rs u A item result w r ca] u sku A by simp
    qed simp
  qed
  then show ?thesis
    using Some by (simp add: generate_def wp_bind [of "get_row _ _"] wp_bind [of "the_or _ _"] wp_bind [of "reload _ _"] wp_bind [of "scalars _ _"]
      wp_get_row wp_the_or wp_reload wp_scalars split: option.split del: wp_case_option)
qed

lemma stock_received_keeps:
  assumes "listings_ok Rs s" "agent_ok Rs A" shows "wp (handle_stock_received A e) (\<lambda>_ t. listings_ok Rs t) (\<lambda>_ _. True) s"
proof (cases "ee_data e")
  case (StockReceivedPayload i p q)
  then show ?thesis
    by (simp add: handle_stock_received_def wp_bind) (rule wp_mono [OF generate_keeps [OF assms]], simp_all add: wp_ret)
qed (simp_all add: handle_stock_received_def wp_throw)

text \<open>The granted approval.\<close>

lemma approve_listing_class: "unexpired (approve_listing a)"
  unfolding approve_listing_def set_draft_def set_workflow_def audit_listing_approved_def by (intro unexpired_intros unexpired_emit; simp)

text \<open>What follows the release of a draft.\<close>

lemma released_aside:
  "keeps listings_view (bind (get_opt_row workflow_runs k) (\<lambda>run.
       bind (the_or x run) (\<lambda>workflow.
       andthen (set_workflow (row_id workflow) g)
       (bind (version_of i) (\<lambda>version.
        bind (emit (ListingApprovedPayload i j) ty i version key (Some (wf_correlation_id workflow)) (Some (row_id workflow)) None) (\<lambda>_.
        audit_listing_approved a i (wf_correlation_id workflow)))))))" (is "keeps _ ?m")
  "advances (bind (get_opt_row workflow_runs k) (\<lambda>run.
       bind (the_or x run) (\<lambda>workflow.
       andthen (set_workflow (row_id workflow) g)
       (bind (version_of i) (\<lambda>version.
        bind (emit (ListingApprovedPayload i j) ty i version key (Some (wf_correlation_id workflow)) (Some (row_id workflow)) None) (\<lambda>_.
        audit_listing_approved a i (wf_correlation_id workflow)))))))"
  by (intro keeps_intros listing_asides; simp)
    (simp add: set_workflow_def, intro advances_intros advances_simple advances_writes advances_audit advances_emit listing_asides_advance; simp)

lemma approve_listing_keeps:
  assumes ok: "listings_ok Rs s" and a: "row (approvals s) (row_id a) = Some a" "ap_status a = Approval_APPROVED"
  shows "wp (approve_listing a) (\<lambda>_ t. listings_ok Rs t) (\<lambda>e _. exn_class e \<noteq> ApprovalExpiredError) s"
proof (cases "\<exists>d. row (listing_drafts s) (ap_resource_id a) = Some d \<and> ld_approval_id d = Some (row_id a) \<and> ld_approval_status d = Approval_PENDING")
  case False
  then show ?thesis by (auto simp: approve_listing_def wp_simps find_row split: option.split)
next
  case True
  then obtain d where d: "row (listing_drafts s) (ap_resource_id a) = Some d" "ld_approval_id d = Some (row_id a)"
      "ld_approval_status d = Approval_PENDING" by blast
  have in_d: "d \<in> set (listing_drafts s)" "row_id d = ap_resource_id a" using row_Some_iff [OF d(1)] by simp_all
  note dr = listings_okD(6) [OF ok in_d(1)]
  then obtain b where b: "b \<in> set (approvals s)" "row_id b = row_id a" "asks_to_publish b d"
    using d(2) unfolding draft_ok_def by (metis option.distinct(1) option.inject)
  have "b = a" using row_in_set [OF ids_ok_distinct [OF listings_okD(2) [OF ok]] b(1)] unfolding b(2) a(1) by simp
  let ?f = "\<lambda>d. d\<lparr>ld_approval_status := Approval_APPROVED\<rparr>"
  have changed: "listings_ok Rs t" if t: "next_id t = next_id s"
    "listings_view t = (update_rows (ap_resource_id a) ?f (listing_drafts s), listing_links s, approvals s @ [], item_skus s)" for t
  proof (rule listings_ok_changed [OF ok d(1) _ _ _ _ _ _ _ t(2)])
    have "draft_conforms Rs (item_skus s) (?f d) = draft_conforms Rs (item_skus s) d" "asks_to_publish a (?f d) = asks_to_publish a d" for a
      by (simp_all add: draft_conforms_def asks_to_publish_def publication_action_def)
    then show "draft_ok Rs (approvals s @ []) (item_skus s) (?f d)"
      using dr b a(2) d(3) \<open>b = a\<close> by (auto simp: draft_ok_def)
    show "ids_ok (next_id t) (approvals s @ [])" using listings_okD(2) [OF ok] t(1) by simp
  qed (use t in \<open>simp_all add: draft_key_def\<close>)
  have "wp (approve_listing a) (\<lambda>_ t. listings_ok Rs t) (\<lambda>_ _. True) s"
    unfolding approve_listing_def
    using d in_d
    apply (simp add: wp_bind [of "scalar _ _"] wp_bind [of "the_or _ _"] wp_andthen [of "raise_if _ _"] wp_raise_if wp_scalar wp_the_or find_row
        wp_andthen [of "set_draft _ _"])
    apply (intro impI)
    apply (simp add: set_draft_def wp_set_row)
    apply (rule listing_steps.aside_end [OF released_aside])
    apply (rule changed; simp add: listings_view_def item_skus_def listing_links_def)
    done
  from wp_conj [OF this approve_listing_class [unfolded unexpired_def, rule_format]] show ?thesis by simp
qed

end
