(* ===== verification/Publication.thy ===== *)
theory Publication
  imports Listing_Service
begin

text \<open>
  \<open>integrations/marketplaces/connector.py\<close> and \<open>application/marketplace_publication.py\<close>: an approved draft is offered to the
  connector of its marketplace and stored as a listing. A connector is outside the repository: its answers are any functions of what
  it is sent and of the state it is asked in, so that they may differ from call to call.
\<close>

section \<open>Connectors\<close>

record MarketplaceListingInput =
  li_sku :: string
  li_title :: string
  li_description :: string
  li_category :: "string option"
  li_attributes :: dict
  li_price :: rat
  li_currency :: string
  li_quantity :: int
  li_image_urls :: "json list"
  li_marketplace_payload :: dict

record MarketplaceValidationResult =
  vr_valid :: bool
  vr_issues :: "string list"
  vr_provider_metadata :: dict

record MarketplaceListingResult =
  mlr_external_listing_id :: string
  mlr_status :: string
  mlr_provider_metadata :: dict

record MarketplaceConnector =
  mc_marketplace :: string
  mc_account_id :: string
  mc_validate_listing :: "MarketplaceListingInput \<Rightarrow> db \<Rightarrow> exn + MarketplaceValidationResult"
  mc_create_listing :: "MarketplaceListingInput \<Rightarrow> string \<Rightarrow> db \<Rightarrow> exn + MarketplaceListingResult"

definition ask :: "(db \<Rightarrow> exn + 'a) \<Rightarrow> 'a op" where
  "ask f = bind (gets f) of_result"

text \<open>\<open>"; ".join(issues)\<close>, and \<open>MarketplaceValidationError(issues)\<close>, whose message ends with it.\<close>

fun join_issues :: "string list \<Rightarrow> string" where
  "join_issues [] = []"
| "join_issues [v] = v"
| "join_issues (v # vs) = v @ ''; '' @ join_issues vs"

definition validation_prefix :: string where
  "validation_prefix = ''Marketplace validation failed: ''"

definition validation_error :: "string list \<Rightarrow> exn" where
  "validation_error issues = Exn MarketplaceValidationError (validation_prefix @ join_issues issues)"

definition issues_text :: "exn \<Rightarrow> string" where
  "issues_text exc = drop (length validation_prefix) (exn_message exc)"

lemma issues_text_validation_error [simp]: "issues_text (validation_error issues) = join_issues issues"
  by (simp add: issues_text_def validation_error_def)

type_synonym MarketplaceConnectorRegistry = "(string \<times> MarketplaceConnector) list"

definition register_connector :: "MarketplaceConnector \<Rightarrow> MarketplaceConnectorRegistry \<Rightarrow> exn + MarketplaceConnectorRegistry" where
  "register_connector c = register_named ''Marketplace connector'' (mc_marketplace c) c"

definition get_connector :: "MarketplaceConnectorRegistry \<Rightarrow> string \<Rightarrow> exn + MarketplaceConnector" where
  "get_connector = get_named ''Marketplace connector''"

section \<open>Publication\<close>

definition set_listing :: "uuid \<Rightarrow> (MarketplaceListing \<Rightarrow> MarketplaceListing) \<Rightarrow> unit op" where
  "set_listing = set_row marketplace_listings marketplace_listings_update"

text \<open>\<open>tuple(payload.get("image_urls", ()))\<close>; the text of a decimal, which no payload holds there, is refused.\<close>

fun image_urls_of :: "json option \<Rightarrow> exn + json list" where
  "image_urls_of None = Inr []"
| "image_urls_of (Some (JList vs)) = Inr vs"
| "image_urls_of (Some (JStr s)) = Inr (map (\<lambda>c. JStr [c]) s)"
| "image_urls_of (Some (JObj kvs)) = Inr (map (\<lambda>kv. JStr (fst kv)) kvs)"
| "image_urls_of (Some (JDec d)) = Inl (Exn ValueError ''the text of a decimal'')"
| "image_urls_of (Some _) = Inl (Exn TypeError ''object is not iterable'')"

definition publication_input :: "ListingDraft \<Rightarrow> InventoryItem \<Rightarrow> exn + MarketplaceListingInput" where
  "publication_input draft inventory = rbind (image_urls_of (dict_get (ld_marketplace_payload draft) ''image_urls'')) (\<lambda>urls. Inr
     \<lparr>li_sku = ld_sku draft, li_title = ld_title draft, li_description = ld_description draft, li_category = ld_category draft,
      li_attributes = ld_attributes draft, li_price = ld_proposed_price draft, li_currency = ld_currency draft,
      li_quantity = available_quantity inventory, li_image_urls = urls, li_marketplace_payload = ld_marketplace_payload draft\<rparr>)"

definition new_listing :: "ListingDraft \<Rightarrow> MarketplaceConnector \<Rightarrow> uuid \<Rightarrow> datetime \<Rightarrow> MarketplaceListing" where
  "new_listing draft connector listing_id now =
     \<lparr>row_id = listing_id, row_created_at = now, ml_draft_id = row_id draft, ml_marketplace = ld_marketplace draft,
      ml_marketplace_account_id = mc_account_id connector, ml_sku = ld_sku draft, ml_external_listing_id = None,
      ml_publication_status = Publication_PENDING, ml_last_error = None, ml_published_at = None, ml_synchronised_at = None\<rparr>"

text \<open>The unique constraints: one listing per draft, and per marketplace, account and SKU.\<close>

definition same_slot :: "MarketplaceListing \<Rightarrow> MarketplaceListing \<Rightarrow> bool" where
  "same_slot l m \<longleftrightarrow> ml_draft_id l = ml_draft_id m \<or>
     ml_marketplace l = ml_marketplace m \<and> ml_marketplace_account_id l = ml_marketplace_account_id m \<and> ml_sku l = ml_sku m"

definition add_listing :: "MarketplaceListing \<Rightarrow> unit op" where
  "add_listing l =
     bind (gets marketplace_listings) (\<lambda>stored.
     andthen (raise_if (\<exists>m \<in> set stored. same_slot m l) (Exn IntegrityError ''uq_marketplace_listing_sku''))
     (andthen (add_row marketplace_listings_update l) flush))"

definition listing_for :: "ListingDraft \<Rightarrow> MarketplaceConnector \<Rightarrow> MarketplaceListing option \<Rightarrow> uuid op" where
  "listing_for draft connector existing = (case existing of
     Some l \<Rightarrow> ret (row_id l)
   | None \<Rightarrow>
       bind new_uuid (\<lambda>listing_id.
       bind now_utc (\<lambda>now.
       andthen (add_listing (new_listing draft connector listing_id now))
       (ret listing_id))))"

definition audit_publication :: "ListingDraft \<Rightarrow> uuid \<Rightarrow> uuid \<Rightarrow> string \<Rightarrow> unit op" where
  "audit_publication draft listing_id correlation outcome =
     bind (reload marketplace_listings listing_id) (\<lambda>l.
     write_audit ''system'' (''marketplace:'' @ ld_marketplace draft) ''listing.publication'' ''marketplace_listing'' listing_id
       (Some [(''outcome'', JStr outcome), (''external_listing_id'', j_opt JStr (ml_external_listing_id l))])
       (Some ''Approved marketplace listing publication'') correlation)"

definition refuse_publication :: "ListingDraft \<Rightarrow> uuid \<Rightarrow> EventEnvelope \<Rightarrow> string \<Rightarrow> unit op" where
  "refuse_publication draft listing_id event error =
     andthen (set_listing listing_id (\<lambda>l. l\<lparr>ml_publication_status := Publication_FAILED, ml_last_error := Some error\<rparr>))
     (audit_publication draft listing_id (ee_correlation_id event) ''validation_failed'')"

text \<open>
  The listing is marked, its workflow succeeds and the publication is announced; the constraint on external identifiers is checked
  when the query of \<open>publish\<close> flushes the listing.
\<close>

definition external_clash :: "uuid \<Rightarrow> MarketplaceListing list \<Rightarrow> bool" where
  "external_clash listing_id stored \<longleftrightarrow> (\<exists>l \<in> set stored. \<exists>m \<in> set stored. row_id l = listing_id \<and> row_id m \<noteq> listing_id \<and>
     ml_marketplace m = ml_marketplace l \<and> ml_marketplace_account_id m = ml_marketplace_account_id l \<and>
     ml_external_listing_id m = ml_external_listing_id l \<and> ml_external_listing_id l \<noteq> None)"

definition published :: "string \<Rightarrow> datetime \<Rightarrow> MarketplaceListing \<Rightarrow> MarketplaceListing" where
  "published external_id now l = l\<lparr>ml_external_listing_id := Some external_id, ml_publication_status := Publication_PUBLISHED,
     ml_published_at := Some now, ml_synchronised_at := Some now, ml_last_error := None\<rparr>"

lemma published_fields [simp]:
  "row_id (published x n l) = row_id l" "ml_draft_id (published x n l) = ml_draft_id l" "ml_marketplace (published x n l) = ml_marketplace l"
  "ml_sku (published x n l) = ml_sku l" "ml_external_listing_id (published x n l) = Some x"
  by (simp_all add: published_def)

definition complete_publication :: "ListingDraft \<Rightarrow> uuid \<Rightarrow> EventEnvelope \<Rightarrow> MarketplaceListingResult \<Rightarrow> unit op" where
  "complete_publication draft listing_id event result =
     bind now_utc (\<lambda>now.
     andthen (set_listing listing_id (published (mlr_external_listing_id result) now))
     (bind (get_opt_row workflow_runs (ld_workflow_run_id draft)) (\<lambda>workflow.
      andthen (case workflow of None \<Rightarrow> ret ()
        | Some w \<Rightarrow> set_workflow (row_id w) (\<lambda>w. w\<lparr>wf_status := Run_SUCCEEDED, wf_current_step := Some ''listing_published''\<rparr>))
      (bind (version_of listing_id) (\<lambda>version.
       bind (gets marketplace_listings) (\<lambda>stored.
       andthen (raise_if (external_clash listing_id stored) (Exn IntegrityError ''uq_marketplace_listing_external_id''))
       (bind (emit (ListingPublishedPayload listing_id (row_id draft) (mlr_external_listing_id result)) ''marketplace_listing''
         listing_id version (''listing-published:'' @ uuid_str (row_id draft)) (Some (ee_correlation_id event))
         (ld_workflow_run_id draft) (Some (ee_event_id event))) (\<lambda>_.
        audit_publication draft listing_id (ee_correlation_id event) ''published''))))))))"

text \<open>From the publication input on.\<close>

definition offer :: "MarketplaceConnector \<Rightarrow> ListingDraft \<Rightarrow> uuid \<Rightarrow> EventEnvelope \<Rightarrow> unit op" where
  "offer connector draft listing_id event =
     bind (reload inventory_items (ld_inventory_item_id draft)) (\<lambda>inventory.
     bind (of_result (publication_input draft inventory)) (\<lambda>listing_input.
     bind (ask (mc_validate_listing connector listing_input)) (\<lambda>validation.
     if \<not> vr_valid validation then refuse_publication draft listing_id event (join_issues (vr_issues validation))
     else
       bind (attempt (ask (mc_create_listing connector listing_input (''listing-draft:'' @ uuid_str (row_id draft))))) (\<lambda>answer.
       case answer of
         Inl exc \<Rightarrow> if exn_class exc = MarketplaceValidationError then refuse_publication draft listing_id event (issues_text exc)
                    else throw exc
       | Inr result \<Rightarrow> complete_publication draft listing_id event result))))"

definition handle_listing_approved :: "MarketplaceConnectorRegistry \<Rightarrow> EventEnvelope \<Rightarrow> unit op" where
  "handle_listing_approved connectors event = (case ee_data event of
     ListingApprovedPayload draft_id approval_id \<Rightarrow>
       bind (scalar listing_drafts (\<lambda>d. row_id d = draft_id)) (\<lambda>found.
       bind (the_or (Exn ListingPublicationError ''Approved listing draft was not found'') found) (\<lambda>draft.
       andthen (raise_if (ld_approval_status draft \<noteq> Approval_APPROVED)
         (Exn ListingPublicationError ''Only approved listing drafts may be published''))
       (bind (of_result (get_connector connectors (ld_marketplace draft))) (\<lambda>connector.
        bind (scalar marketplace_listings (\<lambda>l. ml_draft_id l = row_id draft)) (\<lambda>existing.
        if (case existing of Some l \<Rightarrow> ml_publication_status l = Publication_PUBLISHED | None \<Rightarrow> False) then ret ()
        else bind (listing_for draft connector existing) (\<lambda>listing_id. offer connector draft listing_id event))))))
   | _ \<Rightarrow> throw (Exn ValidationError ''ListingApprovedPayload''))"

definition register_publication :: "MarketplaceConnectorRegistry \<Rightarrow> EventHandlerRegistry \<Rightarrow> exn + EventHandlerRegistry" where
  "register_publication connectors reg =
     register_handler LISTING_APPROVED ''marketplace-publication'' (handle_listing_approved connectors) reg"

section \<open>What is published was approved\<close>

lemma set_listing_aside:
  assumes "\<And>l. (ml_draft_id (f l), ml_marketplace (f l), ml_sku (f l)) = (ml_draft_id l, ml_marketplace l, ml_sku l)"
  shows "keeps listings_view (set_listing i f)"
  unfolding keeps_def
  using assms map_update_rows [of "\<lambda>l. (ml_draft_id l, ml_marketplace l, ml_sku l)" f i]
  by (simp add: set_listing_def run_simps listings_view_def listing_links_def item_skus_def)

lemma advances_set_listing [simp]: "advances (set_listing i f)"
  unfolding set_listing_def by (intro advances_writes; simp)

lemma ask_aside: "keeps f (ask q)" "advances (ask q)"
  unfolding ask_def by (intro keeps_intros advances_intros advances_simple)+

lemma audit_publication_aside: "keeps listings_view (audit_publication d i c out)" "advances (audit_publication d i c out)"
  unfolding audit_publication_def by (intro keeps_intros advances_intros advances_reload advances_write_audit; simp)+

lemma refuse_aside: "keeps listings_view (refuse_publication d i e err)" "advances (refuse_publication d i e err)"
  unfolding refuse_publication_def
  by (intro keeps_intros set_listing_aside audit_publication_aside, simp)
    (intro advances_intros advances_set_listing audit_publication_aside)

lemma complete_aside: "keeps listings_view (complete_publication d i e res)" "advances (complete_publication d i e res)"
  unfolding complete_publication_def
  by (intro keeps_intros set_listing_aside listing_asides audit_publication_aside; simp)
    (simp add: set_workflow_def, intro advances_intros advances_set_listing advances_writes advances_simple advances_audit advances_emit
      audit_publication_aside; simp)

lemma offer_aside: "keeps listings_view (offer c d i e)" "advances (offer c d i e)"
  unfolding offer_def
  by (intro keeps_intros keeps_case_sum ask_aside refuse_aside complete_aside; simp)
    (intro advances_intros advances_case_sum advances_simple advances_reload ask_aside refuse_aside complete_aside)

lemma listing_added:
  assumes ok: "listings_ok Rs s" and d: "d \<in> set (listing_drafts s)" "ld_approval_status d = Approval_APPROVED"
    and t: "listings_view t = (listing_drafts s, listing_links s @ [(row_id d, ld_marketplace d, ld_sku d)], approvals s, item_skus s)"
      "next_id s \<le> next_id t"
  shows "listings_ok Rs t"
proof -
  have "published_ok (listing_drafts s) (row_id d, ld_marketplace d, ld_sku d)" using d by (auto simp: published_ok_def)
  then show ?thesis using ok t by (auto simp: listings_ok_def listings_view_def intro: ids_ok_mono)
qed

lemma listing_for_keeps:
  assumes ok: "listings_ok Rs s" and d: "d \<in> set (listing_drafts s)" "ld_approval_status d = Approval_APPROVED"
  shows "wp (listing_for d c existing) (\<lambda>_ t. listings_ok Rs t) (\<lambda>_ _. True) s"
proof (cases existing)
  case None
  have "listings_ok Rs (flush_db (pending_rows_update p (marketplace_listings_update (\<lambda>ls. ls @ [new_listing d c i now]) (s\<lparr>next_id := next_id s + 1\<rparr>))))"
    for p i now
    by (rule listing_added [OF assms]) (simp_all add: listings_view_def listing_links_def item_skus_def new_listing_def)
  then show ?thesis by (simp add: None listing_for_def add_listing_def wp_simps)
qed (use ok in \<open>simp add: listing_for_def wp_ret\<close>)

lemma publication_keeps:
  assumes ok: "listings_ok Rs s"
  shows "wp (handle_listing_approved C e) (\<lambda>_ t. listings_ok Rs t) (\<lambda>_ _. True) s"
proof (cases "ee_data e")
  case (ListingApprovedPayload i a)
  have f: "listings_ok Rs (flush_db (flush_db s))" by (intro listings.flushed ok)
  have "wp (bind (listing_for d c existing) (\<lambda>j. offer c d j e)) (\<lambda>_ t. listings_ok Rs t) (\<lambda>_ _. True) (flush_db (flush_db s))"
    if d: "row (listing_drafts s) i = Some d" "ld_approval_status d = Approval_APPROVED" for d c existing
    unfolding wp_bind
    by (rule wp_mono [OF listing_for_keeps [OF f _ d(2)]]) (use row_Some_iff [OF d(1)] in \<open>auto intro: listing_steps.aside_end offer_aside\<close>)
  then show ?thesis
    using f by (simp add: handle_listing_approved_def ListingApprovedPayload wp_bind [of "scalar _ _"] wp_bind [of "the_or _ _"] wp_bind [of "of_result _"]
      wp_andthen wp_raise_if wp_scalar wp_the_or wp_of_result wp_ret find_row split: option.split sum.split)
qed (simp_all add: handle_listing_approved_def wp_throw)

section \<open>Runs\<close>

text \<open>An engine whose handler of first publications is that of the drafts; the other handlers leave listings and approvals alone.\<close>

definition publication_engine :: "ApprovalEngine \<Rightarrow> bool" where
  "publication_engine E \<longleftrightarrow> get_action (engine_registry E) (action_type_value FIRST_MARKETPLACE_PUBLICATION) = Some approve_listing \<and>
     (\<forall>ty h a. ty \<noteq> action_type_value FIRST_MARKETPLACE_PUBLICATION \<longrightarrow> get_action (engine_registry E) ty = Some h \<longrightarrow>
        keeps listings_view (h a) \<and> advances (h a) \<and> unexpired (h a))"

lemma publication_engine_keeps:
  assumes "publication_engine E" shows "handlers_keep (listings_ok Rs) E"
  unfolding handlers_keep_def
proof (intro allI impI)
  fix ty h a u
  assume h: "get_action (engine_registry E) ty = Some h" and u: "listings_ok Rs u" "row (approvals u) (row_id a) = Some a"
    "ap_action_type a = ty" "ap_status a = Approval_APPROVED"
  show "wp (h a) (\<lambda>_. listings_ok Rs) (\<lambda>e _. exn_class e \<noteq> ApprovalExpiredError) u"
  proof (cases "ty = action_type_value FIRST_MARKETPLACE_PUBLICATION")
    case True
    then have "h = approve_listing" using assms h by (simp add: publication_engine_def)
    then show ?thesis using approve_listing_keeps [OF u(1,2,4)] by simp
  next
    case False
    then have k: "keeps listings_view (h a)" "advances (h a)" "unexpired (h a)"
      using assms h unfolding publication_engine_def by blast+
    from wp_conj [OF listing_steps.aside_end [OF k(1,2) u(1)] k(3) [unfolded unexpired_def, rule_format]] show ?thesis by simp
  qed
qed

datatype listing_call =
    Generate_Listing MarketplaceListingAgent uuid uuid uuid
  | Stock_Received MarketplaceListingAgent EventEnvelope
  | Publish_Listing EventEnvelope
  | Approve_Listing string uuid string string
  | Reject_Listing string uuid string string
  | Wait_For datetime

fun run_listing_call :: "ApprovalEngine \<Rightarrow> MarketplaceConnectorRegistry \<Rightarrow> listing_call \<Rightarrow> db \<Rightarrow> db" where
  "run_listing_call E C (Generate_Listing A i c e) s = snd (transaction (generate A i (Some c) None (Some e)) s)"
| "run_listing_call E C (Stock_Received A e) s = snd (transaction (handle_stock_received A e) s)"
| "run_listing_call E C (Publish_Listing e) s = snd (transaction (handle_listing_approved C e) s)"
| "run_listing_call E C (Approve_Listing p i who why) s = snd (approve_endpoint E p i who why s)"
| "run_listing_call E C (Reject_Listing p i who why) s = snd (reject_endpoint p i who why s)"
| "run_listing_call E C (Wait_For d) s = s\<lparr>clock := clock s + d\<rparr>"

fun listing_call_ok :: "MarketplaceListingRequirements set \<Rightarrow> listing_call \<Rightarrow> bool" where
  "listing_call_ok Rs (Generate_Listing A i c e) = agent_ok Rs A"
| "listing_call_ok Rs (Stock_Received A e) = agent_ok Rs A"
| "listing_call_ok Rs _ = True"

lemma run_listing_call_keeps:
  assumes "publication_engine E" "listings_ok Rs s" "listing_call_ok Rs c" shows "listings_ok Rs (run_listing_call E C c s)"
proof -
  have keeps: "listings_ok Rs (snd (transaction m s))" if "wp m (\<lambda>_ t. listings_ok Rs t) (\<lambda>_ _. True) s" for m :: "'b op"
    by (rule listings.transaction_keeps [OF assms(2)]) (rule wp_InrD [OF that])
  show ?thesis
    using assms(2,3) keeps [OF generate_keeps] keeps [OF stock_received_keeps] keeps [OF publication_keeps]
      listings.endpoints_keep [OF assms(2)] publication_engine_keeps [OF assms(1)]
    by (cases c) (auto simp: listings_ok_def item_skus_def listing_links_def)
qed

lemma run_listings_keep:
  "publication_engine E \<Longrightarrow> listings_ok Rs s \<Longrightarrow> \<forall>c \<in> set cs. listing_call_ok Rs c \<Longrightarrow> listings_ok Rs (fold (run_listing_call E C) cs s)"
  by (induction cs arbitrary: s) (simp_all add: run_listing_call_keeps)

text \<open>What permits a listing.\<close>

definition listing_permitted :: "MarketplaceListingRequirements set \<Rightarrow> db \<Rightarrow> MarketplaceListing \<Rightarrow> bool" where
  "listing_permitted Rs t l \<longleftrightarrow>
     (\<exists>d \<in> set (listing_drafts t). \<exists>a \<in> set (approvals t). \<exists>R \<in> Rs. \<exists>g. row_id d = ml_draft_id l \<and> ld_sku d = ml_sku l \<and>
       ld_marketplace d = ml_marketplace l \<and> mr_marketplace R = ml_marketplace l \<and>
       listing_valid g \<and> violations R g (ml_sku l) = {} \<and> ld_marketplace_payload d = build_payload g \<and>
       ap_status a = Approval_APPROVED \<and> ap_resource_type a = ''listing_draft'' \<and> ap_resource_id a = row_id d \<and>
       dict_get (ap_requested_payload a) ''payload'' = Some (JObj (build_payload g)))"

lemma listings_ok_permitted:
  assumes ok: "listings_ok Rs t" and l: "l \<in> set (marketplace_listings t)"
  shows "listing_permitted Rs t l"
proof -
  have "(ml_draft_id l, ml_marketplace l, ml_sku l) \<in> set (listing_links t)" using l by (auto simp: listing_links_def)
  from listings_okD(7) [OF ok this] obtain d where d: "d \<in> set (listing_drafts t)" "ml_draft_id l = row_id d" "ml_marketplace l = ld_marketplace d"
      "ml_sku l = ld_sku d" "ld_approval_status d = Approval_APPROVED" by (auto simp: published_ok_def)
  have dr: "draft_ok Rs (approvals t) (item_skus t) d" by (rule listings_okD(6) [OF ok d(1)])
  then obtain a where a: "a \<in> set (approvals t)" "ap_status a = Approval_APPROVED" "asks_to_publish a d"
    using d(5) by (auto simp: draft_ok_def)
  obtain R g where R: "R \<in> Rs" "ld_marketplace d = mr_marketplace R" "listing_valid g" "violations R g (ld_sku d) = {}"
      "ld_marketplace_payload d = build_payload g"
    using dr d(5) by (auto simp: draft_ok_def draft_conforms_def)
  show ?thesis
    unfolding listing_permitted_def using d a R by (intro bexI [of _ d] bexI [of _ a] bexI [of _ R] exI [of _ g])
      (simp_all add: asks_to_publish_def publication_action_def dict_get_def)
qed


text \<open>What has to hold for an approved draft to be published.\<close>

definition published_key :: "uuid \<Rightarrow> string" where
  "published_key i = ''listing-published:'' @ uuid_str i"

definition ready_to_publish :: "MarketplaceConnector \<Rightarrow> ListingDraft \<Rightarrow> MarketplaceListingInput \<Rightarrow> db \<Rightarrow> bool" where
  "ready_to_publish c d inp s \<longleftrightarrow> row (listing_drafts s) (row_id d) = Some d \<and> ld_approval_status d = Approval_APPROVED \<and>
     pending_rows s = [] \<and> dirty_rows s = [] \<and> 0 < versions s (next_id s) \<and> ids_ok (next_id s) (marketplace_listings s) \<and>
     (\<forall>l \<in> set (marketplace_listings s). \<not> same_slot l (new_listing d c (next_id s) (clock s))) \<and>
     (\<exists>item. row (inventory_items s) (ld_inventory_item_id d) = Some item \<and> publication_input d item = Inr inp) \<and>
     (\<forall>e \<in> set (domain_events s). ev_idempotency_key e \<noteq> published_key (row_id d) \<and> ev_aggregate_id e \<noteq> next_id s)"

lemma refused_listing:
  assumes "row (marketplace_listings u) j = Some l"
  shows "\<exists>t. refuse_publication d j e err u = (Inr (), t) \<and>
    marketplace_listings t = update_rows j (\<lambda>l. l\<lparr>ml_publication_status := Publication_FAILED, ml_last_error := Some err\<rparr>) (marketplace_listings u) \<and>
    domain_events t = domain_events u"
  using assms by (simp add: refuse_publication_def set_listing_def audit_publication_def write_audit_def run_simps row_update_rows)

lemma announced_publication:
  assumes l: "row (marketplace_listings w) j = Some l" and v: "0 < versions w j"
    and keys: "\<forall>e \<in> set (domain_events w). ev_idempotency_key e \<noteq> published_key (row_id d) \<and> ev_aggregate_id e \<noteq> j"
  shows "\<exists>t ev. bind (emit (ListingPublishedPayload j (row_id d) x) ''marketplace_listing'' j (versions w j)
         (published_key (row_id d)) (Some c) k (Some i)) (\<lambda>_. audit_publication d j c ''published'') w = (Inr (), t) \<and>
      marketplace_listings t = marketplace_listings w \<and> domain_events t = domain_events w @ [ev] \<and>
      ev_payload ev = model_dump (ListingPublishedPayload j (row_id d) x)"
proof -
  let ?pl = "ListingPublishedPayload j (row_id d) x"
  let ?ev = "event_for ?pl ''marketplace_listing'' j (versions w j) (published_key (row_id d)) c k (Some i) w"
  let ?t = "flush_db (domain_events_update (\<lambda>es. es @ [?ev]) (w\<lparr>next_id := next_id w + 1\<rparr>))"
  have "emit ?pl ''marketplace_listing'' j (versions w j) (published_key (row_id d)) (Some c) k (Some i) w = (Inr ?ev, ?t)"
    by (rule emit_run) (use v keys in \<open>auto simp: aggregate_key_def\<close>)
  moreover have "\<exists>t. audit_publication d j c ''published'' ?t = (Inr (), t) \<and> marketplace_listings t = marketplace_listings w \<and>
      domain_events t = domain_events w @ [?ev]"
    using l by (simp add: audit_publication_def write_audit_def run_simps)
  moreover have "ev_payload ?ev = model_dump ?pl" by (simp add: event_for_def event_record_def)
  ultimately show ?thesis by (auto simp: bind_def)
qed

lemma completed_listing:
  assumes l: "row (marketplace_listings u) j = Some l" and v: "0 < versions u j"
    and x: "\<And>m. m \<in> set (marketplace_listings u) \<Longrightarrow> row_id m \<noteq> j \<Longrightarrow> ml_external_listing_id m \<noteq> Some (mlr_external_listing_id r)"
    and keys: "\<forall>e \<in> set (domain_events u). ev_idempotency_key e \<noteq> published_key (row_id d) \<and> ev_aggregate_id e \<noteq> j"
  shows "\<exists>t ev. complete_publication d j e r u = (Inr (), t) \<and>
    marketplace_listings t = update_rows j (published (mlr_external_listing_id r) (clock u)) (marketplace_listings u) \<and>
    domain_events t = domain_events u @ [ev] \<and> ev_payload ev = model_dump (ListingPublishedPayload j (row_id d) (mlr_external_listing_id r))"
proof -
  let ?f = "published (mlr_external_listing_id r) (clock u)"
  have clash: "\<not> external_clash j (update_rows j ?f (marketplace_listings u))"
  proof
    assume "external_clash j (update_rows j ?f (marketplace_listings u))"
    then obtain k m where k: "k \<in> set (update_rows j ?f (marketplace_listings u))" "row_id k = j"
      and m: "m \<in> set (update_rows j ?f (marketplace_listings u))" "row_id m \<noteq> j" "ml_external_listing_id m = ml_external_listing_id k"
      unfolding external_clash_def by blast
    obtain k' where "k' \<in> set (marketplace_listings u)" "k = (if row_id k' = j then ?f k' else k')" using k(1) unfolding set_update_rows by blast
    then have "ml_external_listing_id k = Some (mlr_external_listing_id r)" using k(2) by (cases "row_id k' = j") simp_all
    moreover obtain m' where m': "m' \<in> set (marketplace_listings u)" "m = (if row_id m' = j then ?f m' else m')"
      using m(1) unfolding set_update_rows by blast
    then have "m = m'" using m(2) by (cases "row_id m' = j") simp_all
    ultimately show False using x [OF m'(1)] m(2,3) by simp
  qed
  have fin: "\<exists>t ev. bind (emit (ListingPublishedPayload j (row_id d) (mlr_external_listing_id r)) ''marketplace_listing'' j (versions w j)
         (published_key (row_id d)) (Some (ee_correlation_id e)) k (Some (ee_event_id e)))
         (\<lambda>_. audit_publication d j (ee_correlation_id e) ''published'') w = (Inr (), t) \<and>
      marketplace_listings t = update_rows j ?f (marketplace_listings u) \<and> domain_events t = domain_events u @ [ev] \<and>
      ev_payload ev = model_dump (ListingPublishedPayload j (row_id d) (mlr_external_listing_id r))"
    if w: "marketplace_listings w = update_rows j ?f (marketplace_listings u)" "domain_events w = domain_events u" "versions w = versions u" for w k
  proof -
    have l': "row (marketplace_listings w) j = Some (?f l)"
      using l by (simp only: w(1) row_update_rows published_fields simp_thms if_True option.map)
    have v': "0 < versions w j" using v by (simp only: w(3))
    have k': "\<forall>e \<in> set (domain_events w). ev_idempotency_key e \<noteq> published_key (row_id d) \<and> ev_aggregate_id e \<noteq> j"
      using keys by (simp only: w(2))
    show ?thesis by (rule announced_publication [OF l' v' k', unfolded w(1,2)])
  qed
  define K where "K v = bind (emit (ListingPublishedPayload j (row_id d) (mlr_external_listing_id r)) ''marketplace_listing'' j v
         (published_key (row_id d)) (Some (ee_correlation_id e)) (ld_workflow_run_id d) (Some (ee_event_id e)))
         (\<lambda>_. audit_publication d j (ee_correlation_id e) ''published'')" for v
  let ?goal = "\<lambda>w. \<exists>t ev. K (versions u j) w = (Inr (), t) \<and>
      marketplace_listings t = update_rows j ?f (marketplace_listings u) \<and> domain_events t = domain_events u @ [ev] \<and>
      ev_payload ev = model_dump (ListingPublishedPayload j (row_id d) (mlr_external_listing_id r))"
  have last: "?goal w" if "marketplace_listings w = update_rows j ?f (marketplace_listings u)" "domain_events w = domain_events u"
    "versions w = versions u" for w
    using fin [OF that, of "ld_workflow_run_id d"] unfolding that(3) K_def .
  have run: "complete_publication d j e r = bind now_utc (\<lambda>now.
     andthen (set_listing j (published (mlr_external_listing_id r) now))
     (bind (get_opt_row workflow_runs (ld_workflow_run_id d)) (\<lambda>workflow.
      andthen (case workflow of None \<Rightarrow> ret ()
        | Some w \<Rightarrow> set_workflow (row_id w) (\<lambda>w. w\<lparr>wf_status := Run_SUCCEEDED, wf_current_step := Some ''listing_published''\<rparr>))
      (bind (version_of j) (\<lambda>version.
       bind (gets marketplace_listings) (\<lambda>stored.
       andthen (raise_if (external_clash j stored) (Exn IntegrityError ''uq_marketplace_listing_external_id'')) (K version)))))))"
    unfolding complete_publication_def K_def published_key_def ..
  have "\<exists>w. complete_publication d j e r u = K (versions u j) w \<and> marketplace_listings w = update_rows j ?f (marketplace_listings u) \<and>
      domain_events w = domain_events u \<and> versions w = versions u"
    unfolding run using clash
    by (cases "ld_workflow_run_id d"; cases "row (workflow_runs u) (the (ld_workflow_run_id d))")
      (simp_all add: set_listing_def set_workflow_def get_opt_row_def run_simps version_of_def, (rule exI, rule conjI, rule refl, simp)+)
  then show ?thesis using last by metis
qed

text \<open>The draft is offered for a new listing, in the state \<open>u\<close>.\<close>

definition listed_for :: "MarketplaceConnector \<Rightarrow> ListingDraft \<Rightarrow> db \<Rightarrow> db \<Rightarrow> bool" where
  "listed_for c d s u \<longleftrightarrow> row (marketplace_listings u) (next_id s) = Some (new_listing d c (next_id s) (clock s)) \<and>
     marketplace_listings u = marketplace_listings s @ [new_listing d c (next_id s) (clock s)] \<and> domain_events u = domain_events s \<and>
     clock u = clock s \<and> inventory_items u = inventory_items s \<and> versions u (next_id s) = versions s (next_id s)"

lemma listed_forD:
  assumes "listed_for c d s u"
  shows "row (marketplace_listings u) (next_id s) = Some (new_listing d c (next_id s) (clock s))" "domain_events u = domain_events s"
    "clock u = clock s" "versions u (next_id s) = versions s (next_id s)"
  using assms unfolding listed_for_def by blast+

lemma first_offer:
  assumes ready: "ready_to_publish c d inp s" and e: "ee_data e = ListingApprovedPayload (row_id d) a"
    and c: "get_connector C (ld_marketplace d) = Inr c"
  obtains u where "listed_for c d s u" "handle_listing_approved C e s = offer c d (next_id s) e u"
proof -
  have r: "row (listing_drafts s) (row_id d) = Some d" "ld_approval_status d = Approval_APPROVED" "pending_rows s = []" "dirty_rows s = []"
    "ids_ok (next_id s) (marketplace_listings s)"
    "\<And>l. l \<in> set (marketplace_listings s) \<Longrightarrow> \<not> same_slot l (new_listing d c (next_id s) (clock s))"
    using ready by (auto simp: ready_to_publish_def)
  have f: "flush_db s = s" using r(3,4) by (simp add: flush_db_def)
  have none: "find (\<lambda>l. ml_draft_id l = row_id d) (marketplace_listings s) = None"
    using r(6) by (auto simp: find_None_iff same_slot_def new_listing_def)
  let ?l = "new_listing d c (next_id s) (clock s)"
  let ?u = "flush_db (pending_rows_update ((#) (next_id s)) (marketplace_listings_update (\<lambda>ls. ls @ [?l]) (s\<lparr>next_id := next_id s + 1\<rparr>)))"
  have id: "row_id ?l = next_id s" by (simp add: new_listing_def)
  have "listed_for c d s ?u"
    using id ids_ok_fresh [OF r(5) order_refl] r(4) by (simp add: listed_for_def row_append row_Cons flush_db_def)
  moreover have "handle_listing_approved C e s = offer c d (next_id s) e ?u"
    using r e c none by (simp add: handle_listing_approved_def run_simps find_row f listing_for_def add_listing_def id)
  ultimately show thesis by (rule that)
qed

lemma listed_change:
  assumes "ready_to_publish c d inp s" "listed_for c d s u"
  shows "update_rows (next_id s) f (marketplace_listings u) = marketplace_listings s @ [f (new_listing d c (next_id s) (clock s))]"
proof -
  have "row (marketplace_listings s) (next_id s) = None" "marketplace_listings u = marketplace_listings s @ [new_listing d c (next_id s) (clock s)]"
    using assms ids_ok_fresh [of "next_id s" "marketplace_listings s"] by (auto simp: ready_to_publish_def listed_for_def)
  then show ?thesis by (simp add: update_rows_idem update_rows_Cons new_listing_def)
qed

text \<open>The offer is the answer's: a refusal, or a publication.\<close>

lemma offer_answered:
  assumes "ready_to_publish c d inp s" "listed_for c d s u" "\<And>u. mc_validate_listing c inp u = Inr v"
  shows "\<not> vr_valid v \<Longrightarrow> offer c d j e u = refuse_publication d j e (join_issues (vr_issues v)) u"
    and "vr_valid v \<Longrightarrow> (\<And>u. mc_create_listing c inp (''listing-draft:'' @ uuid_str (row_id d)) u = Inr r) \<Longrightarrow>
      offer c d j e u = complete_publication d j e r u"
proof -
  obtain item where "row (inventory_items u) (ld_inventory_item_id d) = Some item" "publication_input d item = Inr inp"
    using assms(1,2) by (auto simp: ready_to_publish_def listed_for_def)
  then show "\<not> vr_valid v \<Longrightarrow> offer c d j e u = refuse_publication d j e (join_issues (vr_issues v)) u"
    and "vr_valid v \<Longrightarrow> (\<And>u. mc_create_listing c inp (''listing-draft:'' @ uuid_str (row_id d)) u = Inr r) \<Longrightarrow>
      offer c d j e u = complete_publication d j e r u"
    using assms(3) by (simp_all add: offer_def run_simps ask_def)
qed

lemma accepted_publication:
  assumes "ready_to_publish c d inp s" and "ee_data e = ListingApprovedPayload (row_id d) a" and "get_connector C (ld_marketplace d) = Inr c"
    and "\<And>u. mc_validate_listing c inp u = Inr v" and "\<And>u. mc_create_listing c inp (''listing-draft:'' @ uuid_str (row_id d)) u = Inr r"
    and "\<forall>l \<in> set (marketplace_listings s). ml_external_listing_id l \<noteq> Some (mlr_external_listing_id r)" and "vr_valid v"
  shows "\<exists>t ev. handle_listing_approved C e s = (Inr (), t) \<and>
      marketplace_listings t = marketplace_listings s @
        [published (mlr_external_listing_id r) (clock s) (new_listing d c (next_id s) (clock s))] \<and>
      domain_events t = domain_events s @ [ev] \<and>
      ev_payload ev = model_dump (ListingPublishedPayload (next_id s) (row_id d) (mlr_external_listing_id r))"
proof -
  obtain u where u: "listed_for c d s u" "handle_listing_approved C e s = offer c d (next_id s) e u" by (rule first_offer [OF assms(1-3)])
  note offer_answered(2) [OF assms(1) u(1) assms(4,7,5)]
  moreover have "0 < versions u (next_id s)" "row (marketplace_listings u) (next_id s) = Some (new_listing d c (next_id s) (clock s))"
    "domain_events u = domain_events s" "clock u = clock s"
    using listed_forD [OF u(1)] assms(1) unfolding ready_to_publish_def by auto
  moreover have "ml_external_listing_id m \<noteq> Some (mlr_external_listing_id r)" if "m \<in> set (marketplace_listings u)" "row_id m \<noteq> next_id s" for m
    using that assms(6) u(1) by (auto simp: listed_for_def new_listing_def)
  moreover have "\<forall>e \<in> set (domain_events s). ev_idempotency_key e \<noteq> published_key (row_id d) \<and> ev_aggregate_id e \<noteq> next_id s"
    using assms(1) by (simp add: ready_to_publish_def)
  ultimately show ?thesis
    using completed_listing [of u "next_id s" _ r d e] unfolding u(2) listed_change [OF assms(1) u(1)] by simp
qed

lemma refused_publication:
  assumes "ready_to_publish c d inp s" and "ee_data e = ListingApprovedPayload (row_id d) a" and "get_connector C (ld_marketplace d) = Inr c"
    and "\<And>u. mc_validate_listing c inp u = Inr v" and "\<not> vr_valid v"
  shows "\<exists>t. handle_listing_approved C e s = (Inr (), t) \<and>
      marketplace_listings t = marketplace_listings s @ [(new_listing d c (next_id s) (clock s))
        \<lparr>ml_publication_status := Publication_FAILED, ml_last_error := Some (join_issues (vr_issues v))\<rparr>] \<and>
      domain_events t = domain_events s"
proof -
  obtain u where u: "listed_for c d s u" "handle_listing_approved C e s = offer c d (next_id s) e u" by (rule first_offer [OF assms(1-3)])
  from u(1) have "row (marketplace_listings u) (next_id s) = Some (new_listing d c (next_id s) (clock s))" "domain_events u = domain_events s"
    by (rule listed_forD)+
  then show ?thesis
    using refused_listing [of u "next_id s" _ d e "join_issues (vr_issues v)"] offer_answered(1) [OF assms(1) u(1) assms(4,5)]
    unfolding u(2) listed_change [OF assms(1) u(1)] by simp
qed


text \<open>
  An event of a draft whose listing is published already publishes nothing: the connector is not asked and no table changes.
\<close>

theorem published_draft_not_repeated:
  assumes "ee_data e = ListingApprovedPayload i a" and "row (listing_drafts s) i = Some d"
    and "ld_approval_status d = Approval_APPROVED" and "get_connector C (ld_marketplace d) = Inr c"
    and "find (\<lambda>l. ml_draft_id l = i) (marketplace_listings s) = Some l" and "ml_publication_status l = Publication_PUBLISHED"
  shows "fst (handle_listing_approved C e s) = Inr () \<and> tables_of (snd (handle_listing_approved C e s)) = tables_of s"
  using assms row_id_of [OF assms(2)]
  by (simp_all add: handle_listing_approved_def run_simps find_row)

text \<open>
  C39: one SKU can be listed once per marketplace account: when another draft of the SKU has a listing there, published or not, the
  publication of an approved draft always fails in the database, so no later version of a listing is ever published.
\<close>

theorem later_version_unpublishable:
  assumes "ee_data e = ListingApprovedPayload i a" and "row (listing_drafts s) i = Some d"
    and "ld_approval_status d = Approval_APPROVED" and "get_connector C (ld_marketplace d) = Inr c"
    and "l \<in> set (marketplace_listings s)" and "ml_marketplace l = ld_marketplace d" and "ml_sku l = ld_sku d"
    and "ml_marketplace_account_id l = mc_account_id c" and "\<forall>l' \<in> set (marketplace_listings s). ml_draft_id l' \<noteq> i"
  shows "(\<exists>msg. fst (transaction (handle_listing_approved C e) s) = Inl (Exn IntegrityError msg)) \<and>
    tables_of (snd (transaction (handle_listing_approved C e) s)) = tables_of s"
proof -
  have none: "find (\<lambda>l. ml_draft_id l = i) (marketplace_listings s) = None" using assms(9) by (auto simp: find_None_iff)
  have slot: "\<exists>m \<in> set (marketplace_listings s). same_slot m (new_listing d c j now)" for j now
    using assms(5-8) by (auto simp: same_slot_def new_listing_def)
  have run: "\<exists>u msg. handle_listing_approved C e s = (Inl (Exn IntegrityError msg), u)"
    using assms(1-4) row_id_of [OF assms(2)] none slot
    by (simp add: handle_listing_approved_def run_simps find_row listing_for_def add_listing_def)
  then show ?thesis
    by (auto simp: transaction_def run_simps)
qed

section \<open>A concrete marketplace\<close>

definition sample_connector :: MarketplaceConnector where
  "sample_connector = \<lparr>mc_marketplace = ''amazon'', mc_account_id = ''acct'',
     mc_validate_listing = (\<lambda>i s. Inr \<lparr>vr_valid = True, vr_issues = [], vr_provider_metadata = []\<rparr>),
     mc_create_listing = (\<lambda>i k s. Inr \<lparr>mlr_external_listing_id = ''x1'', mlr_status = ''live'', mlr_provider_metadata = []\<rparr>)\<rparr>"

definition sample_publication_engine :: ApprovalEngine where
  "sample_publication_engine = \<lparr>engine_policy = policy_from_settings 10 50, default_expiry_hours = 72,
     engine_registry = [(''first_marketplace_publication'', approve_listing)], digest = (\<lambda>_. ''h'')\<rparr>"

definition sample_draft :: ListingDraft where
  "sample_draft = \<lparr>row_id = 3, row_created_at = 0, ld_inventory_item_id = 1, ld_workflow_run_id = None, ld_agent_run_id = None,
     ld_approval_id = Some 4, ld_marketplace = ''amazon'', ld_listing_version = 1, ld_title = ''t'', ld_bullet_points = [], ld_description = ''d'',
     ld_category = None, ld_attributes = [], ld_search_keywords = [], ld_sku = ''S'', ld_proposed_price = 2, ld_currency = ''USD'',
     ld_image_requirements = [], ld_marketplace_payload = build_payload sample_listing, ld_validation_results = [(''valid'', JBool True)],
     ld_approval_status = Approval_APPROVED, ld_provider_metadata = [], ld_structured_ai_response = None, ld_prompt_version = None,
     ld_ai_provider = None, ld_ai_model = None\<rparr>"

definition sample_publication_approval :: Approval where
  "sample_publication_approval = \<lparr>row_id = 4, row_created_at = 0, ap_action_type = ''first_marketplace_publication'',
     ap_resource_type = ''listing_draft'', ap_resource_id = 3, ap_requested_payload = publication_action sample_draft,
     ap_action_hash = ''h'', ap_risk_level = ''public_commercial_action'', ap_rule_name = ''r'', ap_rule_version = 1,
     ap_status = Approval_APPROVED, ap_requested_by = ''listing-agent:m'', ap_requested_reason = ''x'', ap_decided_by = Some ''boss'',
     ap_rationale = None, ap_workflow_run_id = None, ap_expires_at = None, ap_decided_at = Some 0, ap_resumed_at = Some 0\<rparr>"

definition sample_sellable :: InventoryItem where
  "sample_sellable = \<lparr>row_id = 1, row_created_at = 0, ii_product_id = 2, ii_sku = ''S'', ii_storage_location = ''A'',
     ii_quantity_on_hand = 5, ii_reserved_quantity = 0, ii_cost_basis = 1, ii_currency = ''USD'', ii_low_stock_threshold = 1\<rparr>"

definition sample_listing_event :: EventEnvelope where
  "sample_listing_event = \<lparr>ee_event_id = 5, ee_event_type = LISTING_APPROVED, ee_event_version = 1, ee_occurred_at = 0,
     ee_producer = ''commerce-operations'', ee_aggregate_type = ''listing_draft'', ee_aggregate_id = 3, ee_aggregate_version = 1,
     ee_correlation_id = 6, ee_workflow_id = None, ee_causation_id = None, ee_idempotency_key = ''k'', ee_data = ListingApprovedPayload 3 4\<rparr>"

definition sample_listing_db :: db where
  "sample_listing_db = (empty_db 9)\<lparr>next_id := 7, listing_drafts := [sample_draft], approvals := [sample_publication_approval],
     inventory_items := [sample_sellable]\<rparr>"

lemma sample_publication_fields:
  "row_id sample_draft = 3" "ld_approval_id sample_draft = Some 4" "ld_approval_status sample_draft = Approval_APPROVED"
  "ld_marketplace sample_draft = ''amazon''" "ld_sku sample_draft = ''S''" "ld_inventory_item_id sample_draft = 1"
  "ld_marketplace_payload sample_draft = build_payload sample_listing" "ld_workflow_run_id sample_draft = None"
  "row_id sample_publication_approval = 4" "ap_status sample_publication_approval = Approval_APPROVED"
  "ap_resource_type sample_publication_approval = ''listing_draft''" "ap_resource_id sample_publication_approval = 3"
  "ap_requested_payload sample_publication_approval = publication_action sample_draft"
  "row_id sample_sellable = 1" "ii_sku sample_sellable = ''S''"
  "ee_data sample_listing_event = ListingApprovedPayload 3 4"
  "mc_marketplace sample_connector = ''amazon''" "mc_account_id sample_connector = ''acct''"
  by (simp_all add: sample_draft_def sample_publication_approval_def sample_sellable_def sample_listing_event_def sample_connector_def)

lemma sample_listing_valid: "listing_valid sample_listing" "mr_marketplace sample_requirements = ''amazon''"
  by (simp_all add: listing_valid_def sample_listing_def image_valid_def text_within_def four_places_def sample_requirements_def)

lemma sample_listings_ok: "listings_ok {sample_requirements} sample_listing_db"
proof -
  have "draft_conforms {sample_requirements} [(1, ''S'')] sample_draft"
    unfolding draft_conforms_def sample_publication_fields using sample_listing_conforms sample_listing_valid by auto
  then have "draft_ok {sample_requirements} [sample_publication_approval] [(1, ''S'')] sample_draft"
    by (simp add: draft_ok_def asks_to_publish_def sample_publication_fields)
  then show ?thesis
    by (simp add: listings_ok_def sample_listing_db_def empty_db_def item_skus_def listing_links_def sample_publication_fields ids_ok_def)
qed

definition sample_input :: MarketplaceListingInput where
  "sample_input = \<lparr>li_sku = ''S'', li_title = ''t'', li_description = ''d'', li_category = None, li_attributes = [], li_price = 2,
     li_currency = ''USD'', li_quantity = 5, li_image_urls = [], li_marketplace_payload = build_payload sample_listing\<rparr>"

lemma sample_ready: "ready_to_publish sample_connector sample_draft sample_input sample_listing_db"
proof -
  have "publication_input sample_draft sample_sellable = Inr sample_input"
    by (simp add: publication_input_def sample_draft_def sample_sellable_def sample_input_def available_quantity_def build_payload_def
        dict_get_def rbind_def)
  then show ?thesis
    by (simp add: ready_to_publish_def sample_listing_db_def empty_db_def sample_publication_fields row_Cons ids_ok_def)
qed

lemma sample_publication: "get_connector [(''amazon'', sample_connector)] (ld_marketplace sample_draft) = Inr sample_connector"
  by (simp add: get_connector_def get_named_def sample_publication_fields)

lemma sample_answers:
  "mc_validate_listing sample_connector i u = Inr \<lparr>vr_valid = True, vr_issues = [], vr_provider_metadata = []\<rparr>"
  "mc_create_listing sample_connector i k u = Inr \<lparr>mlr_external_listing_id = ''x1'', mlr_status = ''live'', mlr_provider_metadata = []\<rparr>"
  by (simp_all add: sample_connector_def)


theorem published_draft_not_repeated_witness:
  "\<exists>l. let s = sample_listing_db\<lparr>marketplace_listings := [l]\<rparr> in
     fst (handle_listing_approved [(''amazon'', sample_connector)] sample_listing_event s) = Inr () \<and>
     tables_of (snd (handle_listing_approved [(''amazon'', sample_connector)] sample_listing_event s)) = tables_of s"
proof -
  let ?l = "published ''x1'' 9 (new_listing sample_draft sample_connector 7 9)"
  let ?s = "sample_listing_db\<lparr>marketplace_listings := [?l]\<rparr>"
  have "row (listing_drafts ?s) 3 = Some sample_draft" "find (\<lambda>l. ml_draft_id l = 3) (marketplace_listings ?s) = Some ?l"
    by (simp_all add: sample_listing_db_def sample_publication_fields row_Cons new_listing_def)
  moreover have "ml_publication_status ?l = Publication_PUBLISHED" by (simp add: published_def)
  ultimately show ?thesis
    unfolding Let_def using published_draft_not_repeated [OF sample_publication_fields(16) _ sample_publication_fields(3) sample_publication]
    by blast
qed

theorem later_version_unpublishable_witness:
  "\<exists>l msg. ml_draft_id l = 2 \<and> fst (transaction (handle_listing_approved [(''amazon'', sample_connector)] sample_listing_event)
     (sample_listing_db\<lparr>marketplace_listings := [l]\<rparr>)) = Inl (Exn IntegrityError msg)"
proof -
  let ?l = "published ''x1'' 9 (new_listing (sample_draft\<lparr>row_id := 2\<rparr>) sample_connector 7 9)"
  let ?s = "sample_listing_db\<lparr>marketplace_listings := [?l]\<rparr>"
  have d: "row (listing_drafts ?s) 3 = Some sample_draft" by (simp add: sample_listing_db_def sample_publication_fields row_Cons)
  have l: "ml_draft_id ?l = 2" "ml_marketplace ?l = ld_marketplace sample_draft" "ml_sku ?l = ld_sku sample_draft"
    "ml_marketplace_account_id ?l = mc_account_id sample_connector" by (simp_all add: new_listing_def published_def)
  have "?l \<in> set (marketplace_listings ?s)" "\<forall>l' \<in> set (marketplace_listings ?s). ml_draft_id l' \<noteq> 3" using l(1) by simp_all
  from later_version_unpublishable [OF sample_publication_fields(16) d sample_publication_fields(3) sample_publication this(1) l(2-4) this(2)]
  show ?thesis using l(1) by blast
qed


end
