(* ===== verification/Event_Worker.thy ===== *)
theory Event_Worker
  imports Orchestration
begin

text \<open>
  \<open>worker.py\<close>: the deployed orchestrator, without agents, and the cycle that processes pending events and retries due runs. The
  heartbeat file, logging, signals and the command line are left out.
\<close>

definition core_event_types :: "EventType list" where
  "core_event_types = [PRODUCT_APPROVED, PURCHASE_APPROVED, ORDER_RECEIVED, LOW_STOCK, ORDER_RETURNED]"

record Worker =
  wk_batch_size :: nat
  wk_registry :: EventHandlerRegistry
  wk_orchestrator :: AutonomousOrchestrator

text \<open>The constructor's default arguments; \<open>uuid5\<close> is that of the default engine.\<close>

definition default_orchestrator :: "Settings \<Rightarrow> (string \<Rightarrow> uuid) \<Rightarrow> AutonomousOrchestrator" where
  "default_orchestrator settings uuid5 = \<lparr>oa_settings = settings, oa_listing_agents = [], oa_publication_service = None,
     oa_customer_service_agent = None, oa_engine = \<lparr>we_uuid5 = uuid5, we_definitions = []\<rparr>\<rparr>"

definition new_worker :: "Settings \<Rightarrow> nat \<Rightarrow> (string \<Rightarrow> uuid) \<Rightarrow> exn + Worker" where
  "new_worker settings batch_size uuid5 =
     rbind (new_orchestrator (default_orchestrator settings uuid5)) (\<lambda>orchestrator.
     rbind (register_orchestrator orchestrator (Some (set core_event_types)) empty_registry) (\<lambda>registry.
     Inr \<lparr>wk_batch_size = batch_size, wk_registry = registry, wk_orchestrator = orchestrator\<rparr>))"

text \<open>The loop over the picked events: a failing handler is logged, any other exception leaves the cycle.\<close>

fun process_all :: "EventHandlerRegistry \<Rightarrow> uuid list \<Rightarrow> nat \<Rightarrow> nat op" where
  "process_all reg [] processed = ret processed"
| "process_all reg (event_id # ids) processed =
     bind (attempt (process_event reg event_id)) (\<lambda>outcome.
     case outcome of
       Inr _ \<Rightarrow> process_all reg ids (processed + 1)
     | Inl exc \<Rightarrow> if exn_class exc = EventProcessingError then process_all reg ids processed else throw exc)"

definition run_once :: "Worker \<Rightarrow> nat op" where
  "run_once W =
     bind (pending_events (wk_batch_size W) (Some core_event_types)) (\<lambda>candidates.
     bind (process_all (wk_registry W) (map row_id candidates) 0) (\<lambda>processed.
     bind (transaction (retry_due (oa_engine (wk_orchestrator W)) None (wk_batch_size W))) (\<lambda>retried.
     ret (processed + length retried))))"

section \<open>The cycle keeps the system consistent\<close>

lemma process_all_steady:
  assumes "register_orchestrator B types empty_registry = Inr reg"
  shows "steady (system_ok A B) (process_all reg ids n)"
proof (induction ids arbitrary: n)
  case (Cons i ids)
  show ?case
    unfolding process_all.simps
    by (intro steady_intros Cons orchestrated.process_event_steady registered_steady [OF assms])
qed (simp add: steady_leaves)

lemma worker_parts:
  assumes "new_worker settings n uuid5 = Inr W"
  shows "built_from (default_orchestrator settings uuid5) (wk_orchestrator W)"
    "register_orchestrator (wk_orchestrator W) (Some (set core_event_types)) empty_registry = Inr (wk_registry W)"
    "agents_keep (default_orchestrator settings uuid5)"
  using assms by (auto simp: new_worker_def rbind_Inr_iff built_from_def fresh_engine_def agents_keep_def default_orchestrator_def)

lemma run_once_steady:
  assumes "new_worker settings n uuid5 = Inr W"
  shows "steady (system_ok (default_orchestrator settings uuid5) (wk_orchestrator W)) (run_once W)"
  unfolding run_once_def pending_events_def
  by (intro steady_intros orchestrated.steady_scalar process_all_steady [OF worker_parts(2) [OF assms]]
      orchestrated.steady_transaction orchestrated.retry_due_steady)

datatype deployed_call = Request trade_call | Cycle

fun run_deployed_call :: "ApprovalEngine \<Rightarrow> OrderService \<Rightarrow> Worker \<Rightarrow> deployed_call \<Rightarrow> db \<Rightarrow> db" where
  "run_deployed_call E S W (Request c) s = snd (transaction (run_trade_call E S c) s)"
| "run_deployed_call E S W Cycle s = snd (run_once W s)"

fun deployed_call_valid :: "deployed_call \<Rightarrow> bool" where
  "deployed_call_valid (Request c) = trade_call_valid c"
| "deployed_call_valid Cycle = True"

text \<open>
  C16: the deployed system. With settings in their bounds a worker is built, and from a consistent state every sequence of client
  requests and worker cycles leads to a consistent state: reservations and stock agree with orders, ledger and receipts, and
  every reorder recommendation is sound and the only one of its event.
\<close>

theorem deployed_system_consistent:
  assumes "settings_valid settings" and "trade_ok (default_orchestrator settings uuid5) s" and "\<forall>c \<in> set cs. deployed_call_valid c"
  shows "\<exists>W. new_worker settings n uuid5 = Inr W \<and>
    trade_ok (default_orchestrator settings uuid5) (fold (run_deployed_call E S W) cs s)"
proof -
  obtain W where W: "new_worker settings n uuid5 = Inr W"
    using assms(1) by (simp add: new_worker_def new_orchestrator_def default_orchestrator_def orchestrator_steps_def register_workflow_def
        check_def settings_valid_def execution_policy_def register_orchestrator_def routes_def register_handler_def empty_registry_def
        core_event_types_def)
  let ?ok = "system_ok (default_orchestrator settings uuid5) (wk_orchestrator W)"
  have one: "?ok (run_deployed_call E S W c s)" if "?ok s" "deployed_call_valid c" for c s
  proof (cases c)
    case (Request d)
    then show ?thesis
      using run_system_call_keeps [OF that(1) worker_parts(2) [OF W], of "Client d" E S] that(2) by simp
  next
    case Cycle
    then show ?thesis using steadyD [OF run_once_steady [OF W] that(1)] by simp
  qed
  have "?ok (fold (run_deployed_call E S W) cs s)" if "?ok s" "\<forall>c \<in> set cs. deployed_call_valid c" for s
    using that by (induction cs arbitrary: s) (simp_all add: one)
  moreover have "?ok s" using assms(2) worker_parts [OF W] by (simp add: system_ok_def)
  ultimately show ?thesis using W assms(3) by (auto simp: system_ok_def)
qed

theorem deployed_system_consistent_witness:
  "\<exists>W. new_worker (oa_settings sample_orchestrator) 100 length = Inr W \<and>
    trade_ok (default_orchestrator (oa_settings sample_orchestrator) length)
      (fold (run_deployed_call sample_engine sample_service W) [Request (Ingest_Order sample_order), Cycle, Cycle] sample_stock_db)"
  by (rule deployed_system_consistent)
    (use sample_orchestrator_ok(1) sample_trade_ok sample_order_valid in \<open>simp_all add: trade_ok_def default_orchestrator_def\<close>)

end
