(* ===== verification/Assembly.thy ===== *)
theory Assembly
  imports Customer_Service Publication Event_Worker
begin

text \<open>
  The orchestrator with the agents of the repository in the places its constructor has for them: the listing agents, the publication
  service and the customer-service agent.
\<close>

definition equipped_orchestrator ::
  "Settings \<Rightarrow> (string \<Rightarrow> uuid) \<Rightarrow> MarketplaceListingAgent list \<Rightarrow> MarketplaceConnectorRegistry \<Rightarrow> CustomerServiceAgent \<Rightarrow> AutonomousOrchestrator" where
  "equipped_orchestrator settings uuid5 agents connectors customer_service =
     \<lparr>oa_settings = settings, oa_listing_agents = map generate agents,
      oa_publication_service = Some (handle_listing_approved connectors),
      oa_customer_service_agent = Some (process_received_event customer_service),
      oa_engine = \<lparr>we_uuid5 = uuid5, we_definitions = []\<rparr>\<rparr>"

section \<open>The agents leave the trade alone\<close>

lemma trade_view_listing [simp]:
  "trade_view (listing_drafts_update d s) = trade_view s" "trade_view (marketplace_listings_update l s) = trade_view s"
  by (simp_all add: trade_view_def supply_part_def order_part_def)

lemma generate_aside: "keeps trade_view (generate A i c ca e)" "advances (generate A i c ca e)"
proof -
  have parts: "keeps trade_view (open_runs A it c e)" "keeps trade_view (close_agent_run w r res iss)"
    "keeps trade_view (announce_draft d w r ca)" "keeps trade_view (fail_listing d w iss ca)"
    "keeps trade_view (await_listing_approval A d j)" for it w r res iss d j
    unfolding open_runs_def close_agent_run_def announce_draft_def fail_listing_def await_listing_approval_def Let_def add_workflow_def set_workflow_def
    by (intro keeps_intros; simp)+
  have asked: "advances (await_listing_approval A d j)" for d j
    unfolding await_listing_approval_def set_workflow_def
    by (intro advances_intros advances_simple advances_engine advances_set_draft advances_writes; simp)
  have finish: "keeps trade_view (finish_draft A d w r iss ca)" "advances (finish_draft A d w r iss ca)" for d w r iss
    unfolding finish_draft_def
    by (intro keeps_intros parts; simp) (intro advances_intros advances_simple advances_reload listing_asides_advance asked)
  have store: "keeps trade_view (store_listing A it v w r ca res)" "advances (store_listing A it v w r ca res)" for it v w r res
    unfolding store_listing_def Let_def
    by (intro keeps_intros parts finish; simp) (intro advances_intros advances_simple advances_writes listing_asides_advance finish; simp)
  show "keeps trade_view (generate A i c ca e)"
    unfolding generate_def case_prod_beta by (intro keeps_intros parts store; simp)
  show "advances (generate A i c ca e)"
    unfolding generate_def case_prod_beta
    by (intro advances_intros advances_simple advances_reload listing_asides_advance advances_generate_listing store)
qed

lemma publication_aside: "keeps trade_view (handle_listing_approved C e)" "advances (handle_listing_approved C e)"
proof -
  have parts: "keeps trade_view (audit_publication d j k out)" "keeps trade_view (set_listing j f)" for d j k out f
    unfolding audit_publication_def set_listing_def by (intro keeps_intros; simp)+
  have refuse: "keeps trade_view (refuse_publication d j e x)" for d j x
    unfolding refuse_publication_def by (intro keeps_intros parts)
  have complete: "keeps trade_view (complete_publication d j e x)" for d j x
    unfolding complete_publication_def set_workflow_def by (intro keeps_intros parts; simp)
  have offer: "keeps trade_view (offer c d j e)" for c d j
    unfolding offer_def by (intro keeps_intros keeps_case_sum ask_aside refuse complete; simp)
  have listing: "keeps trade_view (listing_for d c x)" "advances (listing_for d c x)" for d c x
    unfolding listing_for_def add_listing_def
    by (intro keeps_intros; simp) (intro advances_intros advances_simple advances_writes; simp)
  show "keeps trade_view (handle_listing_approved C e)"
    unfolding handle_listing_approved_def by (cases "ee_data e"; simp; intro keeps_intros offer listing; simp)
  show "advances (handle_listing_approved C e)"
    unfolding handle_listing_approved_def
    by (cases "ee_data e"; simp; intro advances_intros advances_simple offer_aside listing; simp)
qed

lemma equipped_agents_keep: "agents_keep (equipped_orchestrator settings uuid5 agents C customer_service)"
  by (auto simp: agents_keep_def equipped_orchestrator_def generate_aside publication_aside customer_agent_aside)

end
