(* ===== verification/Marketplace_Clients.thy ===== *)
theory Marketplace_Clients
  imports Publication
begin

text \<open>
  \<open>integrations/marketplaces/connectors.py\<close>: the clients of the four marketplaces. A client composes HTTP requests and reads the
  answers; the transport, the clock and HMAC-SHA256 are from outside and may depend on everything sent before.
\<close>

section \<open>Values and their text\<close>

definition hex_pair :: "nat \<Rightarrow> string" where
  "hex_pair n = [hex_digit (n div 16), hex_digit (n mod 16)]"

text \<open>\<open>quote(s, safe="")\<close>\<close>

definition unreserved :: "char \<Rightarrow> bool" where
  "unreserved c \<longleftrightarrow> is_letter c \<or> (let n = of_char c :: nat in 48 \<le> n \<and> n \<le> 57) \<or> c \<in> set ''_.-~''"

definition quote :: "string \<Rightarrow> string" where
  "quote s = concat (map (\<lambda>c. if unreserved c then [c] else CHR ''%'' # str_upper (hex_pair (of_char c))) s)"

text \<open>The text of a price, as the column \<open>Numeric(19, 4)\<close> gives it back.\<close>

definition money_text :: "rat \<Rightarrow> string" where
  "money_text d =
     (let n = nat \<bar>round_half_even (d * 10000)\<bar>; fraction = nat_str (n mod 10000) in
      (if d < 0 then ''-'' else []) @ nat_str (n div 10000) @ ''.'' @ replicate (4 - length fraction) (CHR ''0'') @ fraction)"

definition joined :: "string \<Rightarrow> string list \<Rightarrow> string" where
  "joined sep vs = concat (case vs of [] \<Rightarrow> [] | v # ws \<Rightarrow> v # map (\<lambda>w. sep @ w) ws)"

text \<open>\<open>repr(s)\<close>: single quotes unless the text has one and no double quote.\<close>

definition backslash :: char where "backslash = CHR 0x5C"

definition repr_char :: "char \<Rightarrow> char \<Rightarrow> string" where
  "repr_char q c =
     (if c = q \<or> c = backslash then [backslash, c]
      else if c = CHR 0x0A then [backslash, CHR ''n''] else if c = CHR 0x0D then [backslash, CHR ''r'']
      else if c = CHR 0x09 then [backslash, CHR ''t'']
      else if of_char c < (32 :: nat) \<or> of_char c = (127 :: nat) then [backslash, CHR ''x''] @ hex_pair (of_char c) else [c])"

definition repr_str :: "string \<Rightarrow> string" where
  "repr_str s = (let q = (if CHR 0x27 \<in> set s \<and> CHR 0x22 \<notin> set s then CHR 0x22 else CHR 0x27) in
     [q] @ concat (map (repr_char q) s) @ [q])"

text \<open>\<open>repr(value)\<close> and \<open>str(value)\<close> of a decoded document.\<close>

primrec repr_value :: "json \<Rightarrow> string" where
  "repr_value JNull = ''None''"
| "repr_value (JBool b) = (if b then ''True'' else ''False'')"
| "repr_value (JInt i) = int_str i"
| "repr_value (JStr s) = repr_str s"
| "repr_value (JDec d) = repr_str (money_text d)"
| "repr_value (JList vs) = ''['' @ joined '', '' (map repr_value vs) @ '']''"
| "repr_value (JObj kvs) = ''{'' @ joined '', '' (map (\<lambda>(k, v). repr_str k @ '': '' @ v) (map (map_prod id repr_value) kvs)) @ ''}''"

definition str_value :: "json \<Rightarrow> string" where
  "str_value v = (case v of JStr s \<Rightarrow> s | JDec d \<Rightarrow> money_text d | _ \<Rightarrow> repr_value v)"

text \<open>\<open>json.dumps(value, ensure_ascii=False, separators=(",", ":"))\<close>\<close>

definition json_char :: "char \<Rightarrow> string" where
  "json_char c =
     (if c = CHR 0x22 \<or> c = backslash then [backslash, c]
      else if c = CHR 0x0A then [backslash, CHR ''n''] else if c = CHR 0x0D then [backslash, CHR ''r'']
      else if c = CHR 0x09 then [backslash, CHR ''t''] else if c = CHR 0x08 then [backslash, CHR ''b'']
      else if c = CHR 0x0C then [backslash, CHR ''f'']
      else if of_char c < (32 :: nat) then [backslash] @ ''u00'' @ hex_pair (of_char c) else [c])"

definition json_str :: "string \<Rightarrow> string" where
  "json_str s = [CHR 0x22] @ concat (map json_char s) @ [CHR 0x22]"

primrec json_text :: "json \<Rightarrow> string" where
  "json_text JNull = ''null''"
| "json_text (JBool b) = (if b then ''true'' else ''false'')"
| "json_text (JInt i) = int_str i"
| "json_text (JStr s) = json_str s"
| "json_text (JDec d) = json_str (money_text d)"
| "json_text (JList vs) = ''['' @ joined '','' (map json_text vs) @ '']''"
| "json_text (JObj kvs) = ''{'' @ joined '','' (map (\<lambda>(k, v). json_str k @ '':'' @ v) (map (map_prod id json_text) kvs)) @ ''}''"

text \<open>\<open>value.get(key, default)\<close>, \<open>value[key]\<close> and \<open>value[0]\<close> of what an answer holds.\<close>

definition get_value :: "json \<Rightarrow> string \<Rightarrow> json \<Rightarrow> exn + json" where
  "get_value v k d = (case v of
     JObj kvs \<Rightarrow> Inr (case dict_get kvs k of None \<Rightarrow> d | Some w \<Rightarrow> w)
   | _ \<Rightarrow> Inl (Exn AttributeError ''get''))"

definition item_value :: "json \<Rightarrow> string \<Rightarrow> exn + json" where
  "item_value v k = (case v of
     JObj kvs \<Rightarrow> (case dict_get kvs k of None \<Rightarrow> Inl (Exn KeyError (repr_str k)) | Some w \<Rightarrow> Inr w)
   | _ \<Rightarrow> Inl (Exn TypeError ''indices must be integers''))"

definition first_value :: "json \<Rightarrow> exn + json" where
  "first_value v = (case v of
     JList (w # ws) \<Rightarrow> Inr w
   | JList [] \<Rightarrow> Inl (Exn LookupError ''list index out of range'')
   | JStr (c # s) \<Rightarrow> Inr (JStr [c])
   | JObj kvs \<Rightarrow> Inl (Exn KeyError ''0'')
   | _ \<Rightarrow> Inl (Exn TypeError ''object is not subscriptable''))"

definition tuple_of :: "json \<Rightarrow> exn + json list" where
  "tuple_of v = image_urls_of (Some v)"

section \<open>Requests\<close>

record HttpRequest =
  hr_method :: string
  hr_url :: string
  hr_headers :: "(string \<times> string) list"
  hr_params :: "dict option"
  hr_json :: "json option"

record HttpResponse =
  rs_status_code :: int
  rs_data :: dict
  rs_headers :: "(string \<times> string) list"

record Outside =
  out_request :: "HttpRequest list \<Rightarrow> HttpRequest \<Rightarrow> exn + HttpResponse"
  out_seconds :: "HttpRequest list \<Rightarrow> int"
  out_hmac_sha256 :: "string \<Rightarrow> string \<Rightarrow> string"

text \<open>What a client does: a result, or an exception, and the requests sent so far.\<close>

type_synonym 'a http = "Outside \<Rightarrow> HttpRequest list \<Rightarrow> (exn + 'a) \<times> HttpRequest list"

definition pure :: "exn + 'a \<Rightarrow> 'a http" where
  "pure r = (\<lambda>W sent. (r, sent))"

definition hbind :: "'a http \<Rightarrow> ('a \<Rightarrow> 'b http) \<Rightarrow> 'b http" where
  "hbind m k = (\<lambda>W sent. case m W sent of (Inl e, sent') \<Rightarrow> (Inl e, sent') | (Inr v, sent') \<Rightarrow> k v W sent')"

text \<open>\<open>self.transport.request(...).data\<close>\<close>

definition request ::
  "string \<Rightarrow> string \<Rightarrow> (string \<times> string) list \<Rightarrow> dict option \<Rightarrow> json option \<Rightarrow> dict http" where
  "request m url headers params body = (\<lambda>W sent.
     let q = \<lparr>hr_method = m, hr_url = url, hr_headers = headers, hr_params = params, hr_json = body\<rparr> in
     (case out_request W sent q of Inl e \<Rightarrow> Inl e | Inr answer \<Rightarrow> Inr (rs_data answer), sent @ [q]))"

lemma http_simps [simp]:
  "hbind (pure (Inr v)) k = k v" "hbind (pure (Inl e)) k = pure (Inl e)" "pure r W sent = (r, sent)"
  by (simp_all add: hbind_def pure_def fun_eq_iff)

lemma hbind_run: "hbind m k W sent = (case m W sent of (Inl e, sent') \<Rightarrow> (Inl e, sent') | (Inr v, sent') \<Rightarrow> k v W sent')"
  by (simp add: hbind_def)

section \<open>The four clients\<close>

record EbayConnectorConfig =
  eb_access_token :: string
  eb_marketplace_id :: string
  eb_merchant_location_key :: string
  eb_category_id :: string
  eb_fulfillment_policy_id :: string
  eb_payment_policy_id :: string
  eb_return_policy_id :: string
  eb_base_url :: string

record AmazonConnectorConfig =
  am_access_token :: string
  am_seller_id :: string
  am_marketplace_id :: string
  am_base_url :: string

record FacebookConnectorConfig =
  fb_access_token :: string
  fb_catalog_id :: string
  fb_commerce_account_id :: string
  fb_api_version :: string
  fb_base_url :: string

record TikTokConnectorConfig =
  tt_access_token :: string
  tt_app_key :: string
  tt_app_secret :: string
  tt_shop_cipher :: string
  tt_base_url :: string

text \<open>The subclasses of \<open>BaseConnector\<close>, each with its account.\<close>

datatype MarketplaceClient =
    Ebay string EbayConnectorConfig
  | Amazon string AmazonConnectorConfig
  | Facebook string FacebookConnectorConfig
  | TikTok string TikTokConnectorConfig

fun client_marketplace :: "MarketplaceClient \<Rightarrow> string" where
  "client_marketplace (Ebay a g) = ''ebay''"
| "client_marketplace (Amazon a g) = ''amazon''"
| "client_marketplace (Facebook a g) = ''facebook''"
| "client_marketplace (TikTok a g) = ''tiktok''"

fun client_account :: "MarketplaceClient \<Rightarrow> string" where
  "client_account (Ebay a g) = a"
| "client_account (Amazon a g) = a"
| "client_account (Facebook a g) = a"
| "client_account (TikTok a g) = a"

subsection \<open>Validation\<close>

definition required :: "MarketplaceListingInput \<Rightarrow> string list" where
  "required l =
     concat (map (\<lambda>(name, blank). if blank then [name @ '' is required''] else [])
       [(''sku'', li_sku l = []), (''title'', li_title l = []), (''description'', li_description l = []),
        (''category'', li_category l \<in> {None, Some []})]) @
     (if li_quantity l < 0 then [''quantity cannot be negative''] else []) @
     (if li_price l \<le> 0 then [''price must be positive''] else []) @
     (if li_image_urls l = [] then [''at least one hosted image URL is required''] else [])"

definition demanded :: "string \<Rightarrow> string \<Rightarrow> MarketplaceListingInput \<Rightarrow> string list" where
  "demanded key message l = (if truthy (dict_get (li_marketplace_payload l) key) then [] else [message])"

fun provider_requirements :: "MarketplaceClient \<Rightarrow> MarketplaceListingInput \<Rightarrow> string list" where
  "provider_requirements (Ebay a g) = demanded ''condition'' ''eBay item condition is required''"
| "provider_requirements (Amazon a g) = demanded ''product_type'' ''Amazon product_type is required''"
| "provider_requirements (Facebook a g) = demanded ''link'' ''Facebook product URL is required''"
| "provider_requirements (TikTok a g) = demanded ''category_id'' ''TikTok category_id is required''"

definition validate_input :: "MarketplaceClient \<Rightarrow> MarketplaceListingInput \<Rightarrow> MarketplaceValidationResult" where
  "validate_input c l = (let issues = required l @ provider_requirements c l in
     \<lparr>vr_valid = (issues = []), vr_issues = issues, vr_provider_metadata = []\<rparr>)"

definition ensure_valid :: "MarketplaceClient \<Rightarrow> MarketplaceListingInput \<Rightarrow> unit http" where
  "ensure_valid c l = (let result = validate_input c l in
     pure (if vr_valid result then Inr () else Inl (validation_error (vr_issues result))))"

text \<open>\<open>_result\<close>\<close>

definition listing_result :: "json \<Rightarrow> string list \<Rightarrow> string \<Rightarrow> exn + MarketplaceListingResult" where
  "listing_result answer keys status = (case answer of
     JObj data \<Rightarrow> (case find (\<lambda>k. truthy (dict_get data k)) keys of
         None \<Rightarrow> Inl (Exn MarketplaceConnectorError ''Marketplace response omitted the listing identifier'')
       | Some k \<Rightarrow> Inr \<lparr>mlr_external_listing_id = str_value (the (dict_get data k)), mlr_status = status, mlr_provider_metadata = data\<rparr>)
   | _ \<Rightarrow> Inl (Exn AttributeError ''get''))"

record MarketplaceOrderPage =
  page_orders :: "json list"
  page_next_cursor :: json

definition order_page :: "json \<Rightarrow> json \<Rightarrow> exn + MarketplaceOrderPage" where
  "order_page found cursor = rbind (tuple_of found) (\<lambda>orders. Inr \<lparr>page_orders = orders, page_next_cursor = cursor\<rparr>)"

subsection \<open>eBay\<close>

definition bearer :: "string \<Rightarrow> string \<times> string" where
  "bearer token = (''Authorization'', ''Bearer '' @ token)"

definition json_content :: "string \<times> string" where
  "json_content = (''Content-Type'', ''application/json'')"

definition ebay_headers :: "EbayConnectorConfig \<Rightarrow> (string \<times> string) list" where
  "ebay_headers g = [bearer (eb_access_token g), json_content]"

definition ebay_base :: "EbayConnectorConfig \<Rightarrow> string" where
  "ebay_base g = eb_base_url g @ ''/sell/inventory/v1''"

definition ebay_put_item :: "EbayConnectorConfig \<Rightarrow> MarketplaceListingInput \<Rightarrow> dict http" where
  "ebay_put_item g l =
     hbind (pure (item_value (JObj (li_marketplace_payload l)) ''condition'')) (\<lambda>condition.
     request ''PUT'' (ebay_base g @ ''/inventory_item/'' @ quote (li_sku l)) (ebay_headers g) None (Some (JObj
       [(''availability'', JObj [(''shipToLocationAvailability'', JObj [(''quantity'', JInt (li_quantity l))])]),
        (''condition'', condition),
        (''product'', JObj [(''title'', JStr (li_title l)), (''description'', JStr (li_description l)),
           (''aspects'', JObj (map (\<lambda>(k, v). (k, JList [JStr (str_value v)])) (li_attributes l))),
           (''imageUrls'', JList (li_image_urls l))])])))"

definition ebay_offers :: "EbayConnectorConfig \<Rightarrow> MarketplaceListingInput \<Rightarrow> json http" where
  "ebay_offers g l =
     hbind (request ''GET'' (ebay_base g @ ''/offer'') (ebay_headers g)
       (Some [(''sku'', JStr (li_sku l)), (''marketplace_id'', JStr (eb_marketplace_id g))]) None) (\<lambda>data.
     pure (get_value (JObj data) ''offers'' (JList [])))"

text \<open>\<open>offers[0].get("listing", {}).get("listingId")\<close>\<close>

definition listed_id :: "json \<Rightarrow> exn + json" where
  "listed_id offers = rbind (first_value offers) (\<lambda>offer. rbind (get_value offer ''listing'' (JObj [])) (\<lambda>listing.
     get_value listing ''listingId'' JNull))"

definition ebay_post_offer :: "EbayConnectorConfig \<Rightarrow> MarketplaceListingInput \<Rightarrow> dict http" where
  "ebay_post_offer g l = request ''POST'' (ebay_base g @ ''/offer'') (ebay_headers g) None (Some (JObj
     [(''sku'', JStr (li_sku l)), (''marketplaceId'', JStr (eb_marketplace_id g)), (''format'', JStr ''FIXED_PRICE''),
      (''availableQuantity'', JInt (li_quantity l)),
      (''categoryId'', JStr (case li_category l of Some (c # cs) \<Rightarrow> c # cs | _ \<Rightarrow> eb_category_id g)),
      (''merchantLocationKey'', JStr (eb_merchant_location_key g)), (''listingDuration'', JStr ''GTC''),
      (''pricingSummary'', JObj [(''price'', JObj [(''value'', JStr (money_text (li_price l))), (''currency'', JStr (li_currency l))])]),
      (''listingPolicies'', JObj [(''fulfillmentPolicyId'', JStr (eb_fulfillment_policy_id g)),
         (''paymentPolicyId'', JStr (eb_payment_policy_id g)), (''returnPolicyId'', JStr (eb_return_policy_id g))])]))"

definition ebay_offer_id :: "EbayConnectorConfig \<Rightarrow> MarketplaceListingInput \<Rightarrow> json \<Rightarrow> string http" where
  "ebay_offer_id g l offers =
     (if truthy (Some offers) then pure (rbind (first_value offers) (\<lambda>offer. rbind (item_value offer ''offerId'') (\<lambda>i. Inr (str_value i))))
      else hbind (ebay_post_offer g l) (\<lambda>data. pure (rbind (item_value (JObj data) ''offerId'') (\<lambda>i. Inr (str_value i)))))"

definition ebay_publish :: "EbayConnectorConfig \<Rightarrow> string \<Rightarrow> string \<Rightarrow> MarketplaceListingResult http" where
  "ebay_publish g key offer_id =
     hbind (request ''POST'' (ebay_base g @ ''/offer/'' @ quote offer_id @ ''/publish'') (ebay_headers g) None
       (Some (JObj [(''clientReferenceId'', JStr key)]))) (\<lambda>data.
     pure (listing_result (JObj data) [''listingId''] ''published''))"

definition ebay_create :: "EbayConnectorConfig \<Rightarrow> MarketplaceListingInput \<Rightarrow> string \<Rightarrow> MarketplaceListingResult http" where
  "ebay_create g l key =
     hbind (ebay_put_item g l) (\<lambda>_.
     hbind (ebay_offers g l) (\<lambda>offers.
     hbind (pure (if truthy (Some offers) then rbind (listed_id offers) (\<lambda>i. Inr (truthy (Some i))) else Inr False)) (\<lambda>listed.
     if listed then pure (rbind (first_value offers) (\<lambda>offer. rbind (item_value offer ''listing'') (\<lambda>listing.
       listing_result listing [''listingId''] ''published'')))
     else hbind (ebay_offer_id g l offers) (ebay_publish g key))))"

subsection \<open>Amazon\<close>

definition amazon_headers :: "AmazonConnectorConfig \<Rightarrow> (string \<times> string) list" where
  "amazon_headers g = [(''x-amz-access-token'', am_access_token g), json_content]"

definition amazon_url :: "AmazonConnectorConfig \<Rightarrow> string \<Rightarrow> string" where
  "amazon_url g sku = am_base_url g @ ''/listings/2021-08-01/items/'' @ quote (am_seller_id g) @ ''/'' @ quote sku"

definition amazon_create :: "AmazonConnectorConfig \<Rightarrow> MarketplaceListingInput \<Rightarrow> string \<Rightarrow> MarketplaceListingResult http" where
  "amazon_create g l key =
     hbind (pure (item_value (JObj (li_marketplace_payload l)) ''product_type'')) (\<lambda>product_type.
     hbind (pure (get_value (JObj (li_marketplace_payload l)) ''amazon_attributes'' (JObj (li_attributes l)))) (\<lambda>attributes.
     hbind (request ''PUT'' (amazon_url g (li_sku l)) (amazon_headers g @ [(''x-amzn-idempotency-key'', key)])
       (Some [(''marketplaceIds'', JStr (am_marketplace_id g))])
       (Some (JObj [(''productType'', product_type), (''requirements'', JStr ''LISTING''), (''attributes'', attributes)]))) (\<lambda>data.
     pure (if dict_get data ''status'' = Some (JStr ''INVALID'')
           then Inl (Exn MarketplaceConnectorError ''Amazon rejected the listing submission'')
           else Inr \<lparr>mlr_external_listing_id = li_sku l,
             mlr_status = str_lower (case dict_get data ''status'' of None \<Rightarrow> ''ACCEPTED'' | Some v \<Rightarrow> str_value v),
             mlr_provider_metadata = data\<rparr>))))"

subsection \<open>Facebook\<close>

definition facebook_url :: "FacebookConnectorConfig \<Rightarrow> string \<Rightarrow> string" where
  "facebook_url g node = fb_base_url g @ ''/'' @ fb_api_version g @ ''/'' @ node"

definition price_with_currency :: "MarketplaceListingInput \<Rightarrow> string" where
  "price_with_currency l = money_text (li_price l) @ '' '' @ li_currency l"

definition facebook_create :: "FacebookConnectorConfig \<Rightarrow> MarketplaceListingInput \<Rightarrow> string \<Rightarrow> MarketplaceListingResult http" where
  "facebook_create g l key =
     hbind (pure (item_value (JObj (li_marketplace_payload l)) ''link'')) (\<lambda>link.
     hbind (pure (first_value (JList (li_image_urls l)))) (\<lambda>image.
     hbind (pure (get_value (JObj (li_marketplace_payload l)) ''condition'' (JStr ''new''))) (\<lambda>condition.
     hbind (request ''POST'' (facebook_url g (fb_catalog_id g @ ''/products'')) [bearer (fb_access_token g)] None
       (Some (JObj [(''retailer_id'', JStr (li_sku l)), (''name'', JStr (li_title l)), (''description'', JStr (li_description l)),
          (''availability'', JStr (if li_quantity l \<noteq> 0 then ''in stock'' else ''out of stock'')), (''condition'', condition),
          (''price'', JStr (price_with_currency l)), (''link'', link), (''image_url'', image), (''idempotency_key'', JStr key)]))) (\<lambda>data.
     pure (listing_result (JObj data) [''id'', ''retailer_id''] ''published'')))))"

subsection \<open>TikTok\<close>

text \<open>\<open>_auth\<close>: the parameters sorted by key, the body and the path are signed between two copies of the secret.\<close>

definition parameter_string :: "dict \<Rightarrow> string" where
  "parameter_string signed = concat (map (\<lambda>(k, v). k @ str_value v) (sort_key fst signed))"

definition tiktok_auth ::
  "TikTokConnectorConfig \<Rightarrow> string \<Rightarrow> dict \<Rightarrow> json option \<Rightarrow> ((string \<times> string) list \<times> dict) http" where
  "tiktok_auth g path params body = (\<lambda>W sent.
     let signed = dict_merge [(''app_key'', JStr (tt_app_key g)), (''shop_cipher'', JStr (tt_shop_cipher g)),
           (''timestamp'', JStr (int_str (out_seconds W sent)))] params;
         message = tt_app_secret g @ path @ parameter_string signed @
           (case body of Some b \<Rightarrow> if truthy body then json_text b else [] | None \<Rightarrow> []) @ tt_app_secret g in
     (Inr ([(''x-tts-access-token'', tt_access_token g), json_content],
           dict_put signed ''sign'' (JStr (out_hmac_sha256 W (tt_app_secret g) message))), sent))"

definition tiktok_request :: "TikTokConnectorConfig \<Rightarrow> string \<Rightarrow> string \<Rightarrow> json option \<Rightarrow> dict option \<Rightarrow> dict http" where
  "tiktok_request g m path body params =
     hbind (tiktok_auth g path (case params of None \<Rightarrow> [] | Some ps \<Rightarrow> ps) body) (\<lambda>(headers, auth).
     request m (tt_base_url g @ path) headers (Some auth) body)"

definition tiktok_create :: "TikTokConnectorConfig \<Rightarrow> MarketplaceListingInput \<Rightarrow> string \<Rightarrow> MarketplaceListingResult http" where
  "tiktok_create g l key =
     hbind (pure (item_value (JObj (li_marketplace_payload l)) ''category_id'')) (\<lambda>category.
     hbind (pure (get_value (JObj (li_marketplace_payload l)) ''tiktok_skus'' (JList [JObj
       [(''seller_sku'', JStr (li_sku l)),
        (''price'', JObj [(''amount'', JStr (money_text (li_price l))), (''currency'', JStr (li_currency l))]),
        (''inventory'', JList [JObj [(''quantity'', JInt (li_quantity l))]])]]))) (\<lambda>skus.
     hbind (tiktok_request g ''POST'' ''/product/202309/products'' (Some (JObj
       [(''idempotency_key'', JStr key), (''title'', JStr (li_title l)), (''description'', JStr (li_description l)),
        (''category_id'', category), (''main_images'', JList (map (\<lambda>u. JObj [(''uri'', u)]) (li_image_urls l))), (''skus'', skus)])) None) (\<lambda>data.
     hbind (pure (get_value (JObj data) ''data'' (JObj data))) (\<lambda>created.
     pure (listing_result created [''product_id'', ''id''] ''published'')))))"

section \<open>The operations of a client\<close>

fun create_listing :: "MarketplaceClient \<Rightarrow> MarketplaceListingInput \<Rightarrow> string \<Rightarrow> MarketplaceListingResult http" where
  "create_listing (Ebay a g) l key = hbind (ensure_valid (Ebay a g) l) (\<lambda>_. ebay_create g l key)"
| "create_listing (Amazon a g) l key = hbind (ensure_valid (Amazon a g) l) (\<lambda>_. amazon_create g l key)"
| "create_listing (Facebook a g) l key = hbind (ensure_valid (Facebook a g) l) (\<lambda>_. facebook_create g l key)"
| "create_listing (TikTok a g) l key = hbind (ensure_valid (TikTok a g) l) (\<lambda>_. tiktok_create g l key)"

text \<open>A result that only repeats the identifier.\<close>

definition same_listing :: "string \<Rightarrow> string \<Rightarrow> dict \<Rightarrow> MarketplaceListingResult" where
  "same_listing external_id status data =
     \<lparr>mlr_external_listing_id = external_id, mlr_status = status, mlr_provider_metadata = data\<rparr>"

definition facebook_update_listing :: "FacebookConnectorConfig \<Rightarrow> string \<Rightarrow> MarketplaceListingInput \<Rightarrow> MarketplaceListingResult http" where
  "facebook_update_listing g i l =
     hbind (request ''POST'' (facebook_url g (quote i)) [bearer (fb_access_token g)] None (Some (JObj
       [(''name'', JStr (li_title l)), (''description'', JStr (li_description l)), (''price'', JStr (price_with_currency l))]))) (\<lambda>data.
     pure (Inr (same_listing i ''published'' data)))"

definition tiktok_update_listing :: "TikTokConnectorConfig \<Rightarrow> string \<Rightarrow> MarketplaceListingInput \<Rightarrow> MarketplaceListingResult http" where
  "tiktok_update_listing g i l =
     hbind (tiktok_request g ''PUT'' (''/product/202309/products/'' @ quote i) (Some (JObj (li_marketplace_payload l))) None) (\<lambda>data.
     pure (Inr (same_listing i ''pending'' data)))"

fun update_listing :: "MarketplaceClient \<Rightarrow> string \<Rightarrow> MarketplaceListingInput \<Rightarrow> MarketplaceListingResult http" where
  "update_listing (Ebay a g) i l = create_listing (Ebay a g) l (''update:'' @ i)"
| "update_listing (Amazon a g) i l = create_listing (Amazon a g) l (''update:'' @ i)"
| "update_listing (Facebook a g) i l = facebook_update_listing g i l"
| "update_listing (TikTok a g) i l = tiktok_update_listing g i l"

definition ebay_end_listing :: "EbayConnectorConfig \<Rightarrow> string \<Rightarrow> unit http" where
  "ebay_end_listing g i =
     hbind (request ''POST'' (ebay_base g @ ''/offer/'' @ quote i @ ''/withdraw'') (ebay_headers g) None None) (\<lambda>_. pure (Inr ()))"

definition amazon_end_listing :: "AmazonConnectorConfig \<Rightarrow> string \<Rightarrow> unit http" where
  "amazon_end_listing g i =
     hbind (request ''DELETE'' (amazon_url g i) (amazon_headers g) (Some [(''marketplaceIds'', JStr (am_marketplace_id g))]) None) (\<lambda>_.
     pure (Inr ()))"

definition facebook_end_listing :: "FacebookConnectorConfig \<Rightarrow> string \<Rightarrow> unit http" where
  "facebook_end_listing g i =
     hbind (request ''DELETE'' (facebook_url g (quote i)) [bearer (fb_access_token g)] None None) (\<lambda>_. pure (Inr ()))"

definition tiktok_end_listing :: "TikTokConnectorConfig \<Rightarrow> string \<Rightarrow> unit http" where
  "tiktok_end_listing g i =
     hbind (tiktok_request g ''POST'' ''/product/202309/products/deactivate'' (Some (JObj [(''product_ids'', JList [JStr i])])) None) (\<lambda>_.
     pure (Inr ()))"

fun end_listing :: "MarketplaceClient \<Rightarrow> string \<Rightarrow> unit http" where
  "end_listing (Ebay a g) i = ebay_end_listing g i"
| "end_listing (Amazon a g) i = amazon_end_listing g i"
| "end_listing (Facebook a g) i = facebook_end_listing g i"
| "end_listing (TikTok a g) i = tiktok_end_listing g i"

definition status_of :: "dict \<Rightarrow> string" where
  "status_of data = (case dict_get data ''status'' of None \<Rightarrow> ''unknown'' | Some v \<Rightarrow> str_value v)"

definition ebay_get_listing :: "EbayConnectorConfig \<Rightarrow> string \<Rightarrow> MarketplaceListingResult http" where
  "ebay_get_listing g i =
     hbind (request ''GET'' (ebay_base g @ ''/offer/'' @ quote i) (ebay_headers g) None None) (\<lambda>data.
     pure (listing_result (JObj data) [''listingId'', ''offerId''] (status_of data)))"

definition amazon_get_listing :: "AmazonConnectorConfig \<Rightarrow> string \<Rightarrow> MarketplaceListingResult http" where
  "amazon_get_listing g i =
     hbind (request ''GET'' (amazon_url g i) (amazon_headers g) (Some
       [(''marketplaceIds'', JStr (am_marketplace_id g)), (''includedData'', JStr ''summaries,issues,offers'')]) None) (\<lambda>data.
     pure (Inr (same_listing i ''active'' data)))"

definition facebook_get_listing :: "FacebookConnectorConfig \<Rightarrow> string \<Rightarrow> MarketplaceListingResult http" where
  "facebook_get_listing g i =
     hbind (request ''GET'' (facebook_url g (quote i)) [bearer (fb_access_token g)] None None) (\<lambda>data.
     pure (Inr (same_listing i ''active'' data)))"

definition tiktok_get_listing :: "TikTokConnectorConfig \<Rightarrow> string \<Rightarrow> MarketplaceListingResult http" where
  "tiktok_get_listing g i =
     hbind (tiktok_request g ''GET'' (''/product/202309/products/'' @ quote i) None None) (\<lambda>data.
     pure (Inr (same_listing i (status_of data) data)))"

fun get_listing :: "MarketplaceClient \<Rightarrow> string \<Rightarrow> MarketplaceListingResult http" where
  "get_listing (Ebay a g) i = ebay_get_listing g i"
| "get_listing (Amazon a g) i = amazon_get_listing g i"
| "get_listing (Facebook a g) i = facebook_get_listing g i"
| "get_listing (TikTok a g) i = tiktok_get_listing g i"

definition given :: "string option \<Rightarrow> bool" where
  "given cursor \<longleftrightarrow> cursor \<noteq> None \<and> cursor \<noteq> Some []"

definition ebay_get_orders :: "EbayConnectorConfig \<Rightarrow> string \<Rightarrow> string option \<Rightarrow> MarketplaceOrderPage http" where
  "ebay_get_orders g created_after cursor =
     hbind (request ''GET'' (eb_base_url g @ ''/sell/fulfillment/v1/order'') (ebay_headers g) (Some
       [(''filter'', JStr (''creationdate:['' @ created_after @ ''..]'')),
        (''offset'', JStr (if given cursor then the cursor else ''0''))]) None) (\<lambda>data.
     hbind (pure (get_value (JObj data) ''orders'' (JList []))) (\<lambda>orders.
     hbind (pure (get_value (JObj data) ''next'' JNull)) (\<lambda>next.
     pure (order_page orders next))))"

definition amazon_get_orders :: "AmazonConnectorConfig \<Rightarrow> string \<Rightarrow> string option \<Rightarrow> MarketplaceOrderPage http" where
  "amazon_get_orders g created_after cursor =
     hbind (request ''GET'' (am_base_url g @ ''/orders/2026-01-01/orders'') (amazon_headers g) (Some
       (if given cursor then [(''nextToken'', JStr (the cursor))]
        else [(''marketplaceIds'', JStr (am_marketplace_id g)), (''createdAfter'', JStr created_after)])) None) (\<lambda>data.
     hbind (pure (get_value (JObj data) ''orders'' (JList []))) (\<lambda>orders.
     hbind (pure (tuple_of orders)) (\<lambda>_.
     hbind (pure (get_value (JObj data) ''pagination'' (JObj []))) (\<lambda>pagination.
     hbind (pure (get_value pagination ''nextToken'' JNull)) (\<lambda>next.
     pure (order_page orders next))))))"

definition facebook_get_orders :: "FacebookConnectorConfig \<Rightarrow> string \<Rightarrow> string option \<Rightarrow> MarketplaceOrderPage http" where
  "facebook_get_orders g created_after cursor =
     hbind (request ''GET'' (facebook_url g (fb_commerce_account_id g @ ''/orders'')) [bearer (fb_access_token g)] (Some
       ((''updated_after'', JStr created_after) # (if given cursor then [(''after'', JStr (the cursor))] else []))) None) (\<lambda>data.
     hbind (pure (get_value (JObj data) ''data'' (JList []))) (\<lambda>orders.
     hbind (pure (tuple_of orders)) (\<lambda>_.
     hbind (pure (get_value (JObj data) ''paging'' (JObj []))) (\<lambda>paging.
     hbind (pure (get_value paging ''cursors'' (JObj []))) (\<lambda>cursors.
     hbind (pure (get_value cursors ''after'' JNull)) (\<lambda>next.
     pure (order_page orders next)))))))"

definition tiktok_get_orders :: "TikTokConnectorConfig \<Rightarrow> string \<Rightarrow> string option \<Rightarrow> MarketplaceOrderPage http" where
  "tiktok_get_orders g created_after cursor =
     hbind (tiktok_request g ''POST'' ''/order/202309/orders/search'' (Some (JObj [(''create_time_ge'', JStr created_after)]))
       (if given cursor then Some [(''page_token'', JStr (the cursor))] else None)) (\<lambda>data.
     hbind (pure (get_value (JObj data) ''data'' (JObj data))) (\<lambda>body.
     hbind (pure (get_value body ''orders'' (JList []))) (\<lambda>orders.
     hbind (pure (tuple_of orders)) (\<lambda>_.
     hbind (pure (get_value body ''next_page_token'' JNull)) (\<lambda>next.
     pure (order_page orders next))))))"

fun get_orders :: "MarketplaceClient \<Rightarrow> string \<Rightarrow> string option \<Rightarrow> MarketplaceOrderPage http" where
  "get_orders (Ebay a g) created_after cursor = ebay_get_orders g created_after cursor"
| "get_orders (Amazon a g) created_after cursor = amazon_get_orders g created_after cursor"
| "get_orders (Facebook a g) created_after cursor = facebook_get_orders g created_after cursor"
| "get_orders (TikTok a g) created_after cursor = tiktok_get_orders g created_after cursor"

text \<open>A client as the connector of its marketplace; \<open>W\<close> is the outside as it is in a state of the database.\<close>

definition as_connector :: "(db \<Rightarrow> Outside) \<Rightarrow> MarketplaceClient \<Rightarrow> MarketplaceConnector" where
  "as_connector W c = \<lparr>mc_marketplace = client_marketplace c, mc_account_id = client_account c,
     mc_validate_listing = (\<lambda>l s. Inr (validate_input c l)),
     mc_create_listing = (\<lambda>l key s. fst (create_listing c l key (W s) []))\<rparr>"

section \<open>What is sent\<close>

lemma truthy_get: "truthy (dict_get d k) \<Longrightarrow> \<exists>v. dict_get d k = Some v"
  by (cases "dict_get d k") simp_all

lemma listing_refused:
  assumes "\<not> vr_valid (validate_input c l)"
  shows "create_listing c l key = pure (Inl (validation_error (vr_issues (validate_input c l))))"
  using assms by (cases c) (simp_all add: ensure_valid_def)

lemma image_required:
  assumes "li_image_urls l = []"
  shows "\<not> vr_valid (validate_input c l)" "''at least one hosted image URL is required'' \<in> set (vr_issues (validate_input c l))"
  using assms by (simp_all add: validate_input_def required_def)

definition address :: "HttpRequest \<Rightarrow> string \<times> string" where
  "address q = (hr_method q, hr_url q)"

lemma request_sent:
  obtains q where "address q = (m, u)" "request m u h ps b W sent =
    (case out_request W sent q of Inl e \<Rightarrow> Inl e | Inr answer \<Rightarrow> Inr (rs_data answer), sent @ [q])"
  by (rule that [of "\<lparr>hr_method = m, hr_url = u, hr_headers = h, hr_params = ps, hr_json = b\<rparr>"])
    (simp_all add: address_def request_def Let_def)

lemma last_request [simp]:
  "snd (hbind (request m u h ps b) (\<lambda>data. pure (f data)) W sent) =
    sent @ [\<lparr>hr_method = m, hr_url = u, hr_headers = h, hr_params = ps, hr_json = b\<rparr>]"
  by (simp add: hbind_run request_def Let_def split: sum.split)

lemma ebay_begins:
  assumes "vr_valid (validate_input (Ebay a g) l)"
    and "\<And>q. out_request W [] q = Inr item" and "\<And>p q. out_request W [p] q = Inr found"
  obtains p q where "address p = (''PUT'', ebay_base g @ ''/inventory_item/'' @ quote (li_sku l))"
    "address q = (''GET'', ebay_base g @ ''/offer'')"
    "create_listing (Ebay a g) l key W [] =
      hbind (pure (get_value (JObj (rs_data found)) ''offers'' (JList []))) (\<lambda>offers.
      hbind (pure (if truthy (Some offers) then rbind (listed_id offers) (\<lambda>i. Inr (truthy (Some i))) else Inr False)) (\<lambda>listed.
      if listed then pure (rbind (first_value offers) (\<lambda>offer. rbind (item_value offer ''listing'') (\<lambda>listing.
        listing_result listing [''listingId''] ''published'')))
      else hbind (ebay_offer_id g l offers) (ebay_publish g key))) W [p, q]"
proof -
  have "truthy (dict_get (li_marketplace_payload l) ''condition'')"
    using assms(1) by (auto simp: validate_input_def demanded_def split: if_splits)
  then obtain condition where condition: "dict_get (li_marketplace_payload l) ''condition'' = Some condition" using truthy_get by blast
  obtain p where p: "address p = (''PUT'', ebay_base g @ ''/inventory_item/'' @ quote (li_sku l))"
    "ebay_put_item g l W [] = (Inr (rs_data item), [p])"
    unfolding ebay_put_item_def using condition
    by (rule_tac request_sent [of "''PUT''" "ebay_base g @ ''/inventory_item/'' @ quote (li_sku l)" "ebay_headers g" None _ W "[]"])
      (simp add: item_value_def assms(2))
  obtain q where q: "address q = (''GET'', ebay_base g @ ''/offer'')"
    "ebay_offers g l W [p] = (get_value (JObj (rs_data found)) ''offers'' (JList []), [p, q])"
    unfolding ebay_offers_def
    by (rule request_sent [of "''GET''" "ebay_base g @ ''/offer''" "ebay_headers g"
      "Some [(''sku'', JStr (li_sku l)), (''marketplace_id'', JStr (eb_marketplace_id g))]" None W "[p]"])
      (simp add: hbind_run assms(3))
  show thesis
    by (rule that [OF p(1) q(1)])
      (use assms(1) in \<open>simp add: ensure_valid_def ebay_create_def hbind_run [of "ebay_put_item g l"] hbind_run [of "ebay_offers g l"] p(2) q(2)
        get_value_def split: option.split\<close>)
qed

text \<open>
  C26: creating an eBay listing again resumes what is there. When an offer for the SKU is already published its listing is returned
  and nothing but the item and the query is sent; when it is not published yet, exactly that offer is published. In neither case is
  a second offer made.
\<close>

theorem ebay_creation_resumes:
  assumes "vr_valid (validate_input (Ebay a g) l)"
    and "\<And>q. out_request W [] q = Inr item" and "\<And>p q. out_request W [p] q = Inr found"
    and "dict_get (rs_data found) ''offers'' = Some (JList (JObj held # others))"
  shows "(\<forall>listing i. dict_get held ''listing'' = Some (JObj listing) \<longrightarrow> dict_get listing ''listingId'' = Some i \<longrightarrow> truthy (Some i) \<longrightarrow>
      (\<exists>qs. create_listing (Ebay a g) l key W [] = (Inr (same_listing (str_value i) ''published'' listing), qs) \<and>
        map address qs = [(''PUT'', ebay_base g @ ''/inventory_item/'' @ quote (li_sku l)), (''GET'', ebay_base g @ ''/offer'')])) \<and>
    (\<forall>i. dict_get held ''listing'' = None \<longrightarrow> dict_get held ''offerId'' = Some i \<longrightarrow>
      map address (snd (create_listing (Ebay a g) l key W [])) =
        [(''PUT'', ebay_base g @ ''/inventory_item/'' @ quote (li_sku l)), (''GET'', ebay_base g @ ''/offer''),
         (''POST'', ebay_base g @ ''/offer/'' @ quote (str_value i) @ ''/publish'')])"
proof -
  obtain p q where pq: "address p = (''PUT'', ebay_base g @ ''/inventory_item/'' @ quote (li_sku l))"
    "address q = (''GET'', ebay_base g @ ''/offer'')"
    and run: "create_listing (Ebay a g) l key W [] =
      hbind (pure (get_value (JObj (rs_data found)) ''offers'' (JList []))) (\<lambda>offers.
      hbind (pure (if truthy (Some offers) then rbind (listed_id offers) (\<lambda>i. Inr (truthy (Some i))) else Inr False)) (\<lambda>listed.
      if listed then pure (rbind (first_value offers) (\<lambda>offer. rbind (item_value offer ''listing'') (\<lambda>listing.
        listing_result listing [''listingId''] ''published'')))
      else hbind (ebay_offer_id g l offers) (ebay_publish g key))) W [p, q]"
    by (rule ebay_begins [OF assms(1-3)])
  note step = run assms(4) get_value_def listed_id_def first_value_def item_value_def
  show ?thesis
    by (intro conjI allI impI)
      (simp_all add: step listing_result_def same_listing_def ebay_offer_id_def ebay_publish_def pq pq [unfolded address_def] address_def
        dict_get_def [of "[]"] del: create_listing.simps)
qed

section \<open>A published offer\<close>

definition sample_ebay :: EbayConnectorConfig where
  "sample_ebay = \<lparr>eb_access_token = ''t'', eb_marketplace_id = ''EBAY_GB'', eb_merchant_location_key = ''w'', eb_category_id = ''1'',
     eb_fulfillment_policy_id = ''f'', eb_payment_policy_id = ''p'', eb_return_policy_id = ''r'', eb_base_url = ''e''\<rparr>"

definition sample_offer_input :: MarketplaceListingInput where
  "sample_offer_input = \<lparr>li_sku = ''S'', li_title = ''t'', li_description = ''d'', li_category = Some ''1'', li_attributes = [], li_price = 2,
     li_currency = ''GBP'', li_quantity = 5, li_image_urls = [JStr ''u''], li_marketplace_payload = [(''condition'', JStr ''NEW'')]\<rparr>"

definition sample_found :: dict where
  "sample_found = [(''offers'', JList [JObj [(''offerId'', JStr ''o''), (''listing'', JObj [(''listingId'', JStr ''L1'')])]])]"

definition sample_web :: Outside where
  "sample_web = \<lparr>out_request = (\<lambda>sent q. Inr \<lparr>rs_status_code = 200, rs_data = sample_found, rs_headers = []\<rparr>),
     out_seconds = (\<lambda>sent. 0), out_hmac_sha256 = (\<lambda>key message. ''h'')\<rparr>"

theorem ebay_creation_resumes_witness:
  "\<exists>qs. create_listing (Ebay ''a'' sample_ebay) sample_offer_input ''k'' sample_web [] =
     (Inr \<lparr>mlr_external_listing_id = ''L1'', mlr_status = ''published'', mlr_provider_metadata = [(''listingId'', JStr ''L1'')]\<rparr>, qs) \<and>
     map address qs = [(''PUT'', ''e/sell/inventory/v1/inventory_item/S''), (''GET'', ''e/sell/inventory/v1/offer'')]"
proof -
  have valid: "vr_valid (validate_input (Ebay ''a'' sample_ebay) sample_offer_input)"
    by (simp add: validate_input_def required_def demanded_def sample_offer_input_def dict_get_def)
  have web: "out_request sample_web sent q = Inr \<lparr>rs_status_code = 200, rs_data = sample_found, rs_headers = []\<rparr>" for sent q
    by (simp add: sample_web_def)
  have found: "dict_get (rs_data \<lparr>rs_status_code = 200, rs_data = sample_found, rs_headers = []\<rparr>) ''offers'' =
      Some (JList (JObj [(''offerId'', JStr ''o''), (''listing'', JObj [(''listingId'', JStr ''L1'')])] # []))"
    by (simp add: sample_found_def dict_get_def)
  have "quote (li_sku sample_offer_input) = ''S''"
    by (simp add: sample_offer_input_def quote_def unreserved_def is_letter_def)
  then show ?thesis
    using ebay_creation_resumes [OF valid web web found, of "''k''"]
    by (simp add: dict_get_def same_listing_def str_value_def ebay_base_def sample_ebay_def del: create_listing.simps)
qed

end
