(* ===== verification/Marketplace_Factory.thy ===== *)
theory Marketplace_Factory
  imports Marketplace_Clients
begin

text \<open>
  \<open>integrations/marketplaces/factory.py\<close>: the connectors of the enabled marketplaces are built from the settings; and what becomes of
  generated listings that are offered to them.
\<close>

section \<open>Settings\<close>

text \<open>The fields of \<open>Settings\<close> the factory reads; a secret is its value.\<close>

record MarketplaceSettings =
  demo_mode :: bool
  enabled_marketplaces :: "string list"
  ebay_access_token :: "string option"
  ebay_account_id :: "string option"
  ebay_endpoint :: string
  ebay_marketplace_id :: string
  ebay_merchant_location_key :: "string option"
  ebay_category_id :: "string option"
  ebay_fulfillment_policy_id :: "string option"
  ebay_payment_policy_id :: "string option"
  ebay_return_policy_id :: "string option"
  amazon_access_token :: "string option"
  amazon_seller_id :: "string option"
  amazon_marketplace_id :: "string option"
  amazon_endpoint :: string
  facebook_access_token :: "string option"
  facebook_catalog_id :: "string option"
  facebook_commerce_account_id :: "string option"
  facebook_endpoint :: string
  facebook_api_version :: string
  tiktok_access_token :: "string option"
  tiktok_app_key :: "string option"
  tiktok_app_secret :: "string option"
  tiktok_shop_cipher :: "string option"
  tiktok_endpoint :: string

section \<open>Construction\<close>

text \<open>\<open>value in (None, "")\<close>: a \<open>SecretStr\<close> is never equal to a text.\<close>

definition plain :: "string option \<Rightarrow> string option" where
  "plain v = (if v = Some [] then None else v)"

text \<open>\<open>_required\<close>: the values by name, or all the missing names.\<close>

definition required_values :: "string \<Rightarrow> (string \<times> string option) list \<Rightarrow> exn + string list" where
  "required_values marketplace values =
     (let missing = map fst (filter (\<lambda>(name, v). v = None) values) in
      if missing \<noteq> [] then Inl (Exn MarketplaceConfigurationError
        (marketplace @ '' connector is missing configuration: '' @ joined '', '' missing))
      else Inr (map (\<lambda>(name, v). the v) values))"

definition client_for :: "MarketplaceSettings \<Rightarrow> string \<Rightarrow> exn + MarketplaceClient" where
  "client_for S m =
     (if m = ''ebay'' then
        rbind (required_values m [(''access_token'', ebay_access_token S), (''account_id'', plain (ebay_account_id S)),
          (''merchant_location_key'', plain (ebay_merchant_location_key S)), (''category_id'', plain (ebay_category_id S)),
          (''fulfillment_policy_id'', plain (ebay_fulfillment_policy_id S)), (''payment_policy_id'', plain (ebay_payment_policy_id S)),
          (''return_policy_id'', plain (ebay_return_policy_id S))]) (\<lambda>vs.
        Inr (Ebay (vs ! 1) \<lparr>eb_access_token = vs ! 0, eb_marketplace_id = ebay_marketplace_id S, eb_merchant_location_key = vs ! 2,
          eb_category_id = vs ! 3, eb_fulfillment_policy_id = vs ! 4, eb_payment_policy_id = vs ! 5, eb_return_policy_id = vs ! 6,
          eb_base_url = ebay_endpoint S\<rparr>))
      else if m = ''amazon'' then
        rbind (required_values m [(''access_token'', amazon_access_token S), (''seller_id'', plain (amazon_seller_id S)),
          (''marketplace_id'', plain (amazon_marketplace_id S))]) (\<lambda>vs.
        Inr (Amazon (vs ! 1) \<lparr>am_access_token = vs ! 0, am_seller_id = vs ! 1, am_marketplace_id = vs ! 2, am_base_url = amazon_endpoint S\<rparr>))
      else if m = ''facebook'' then
        rbind (required_values m [(''access_token'', facebook_access_token S), (''catalog_id'', plain (facebook_catalog_id S)),
          (''commerce_account_id'', plain (facebook_commerce_account_id S))]) (\<lambda>vs.
        Inr (Facebook (vs ! 2) \<lparr>fb_access_token = vs ! 0, fb_catalog_id = vs ! 1, fb_commerce_account_id = vs ! 2,
          fb_api_version = facebook_api_version S, fb_base_url = facebook_endpoint S\<rparr>))
      else if m = ''tiktok'' then
        rbind (required_values m [(''access_token'', tiktok_access_token S), (''app_key'', plain (tiktok_app_key S)),
          (''app_secret'', tiktok_app_secret S), (''shop_cipher'', tiktok_shop_cipher S)]) (\<lambda>vs.
        Inr (TikTok (vs ! 3) \<lparr>tt_access_token = vs ! 0, tt_app_key = vs ! 1, tt_app_secret = vs ! 2, tt_shop_cipher = vs ! 3,
          tt_base_url = tiktok_endpoint S\<rparr>))
      else Inl (Exn MarketplaceConfigurationError (''Unsupported marketplace: '' @ m)))"

fun add_connectors ::
  "(db \<Rightarrow> Outside) \<Rightarrow> MarketplaceSettings \<Rightarrow> string list \<Rightarrow> MarketplaceConnectorRegistry \<Rightarrow> exn + MarketplaceConnectorRegistry" where
  "add_connectors W S [] reg = Inr reg"
| "add_connectors W S (m # ms) reg =
     rbind (client_for S m) (\<lambda>c. rbind (register_connector (as_connector W c) reg) (add_connectors W S ms))"

definition build_marketplace_connectors :: "(db \<Rightarrow> Outside) \<Rightarrow> MarketplaceSettings \<Rightarrow> exn + MarketplaceConnectorRegistry" where
  "build_marketplace_connectors W S = (if demo_mode S then Inr [] else add_connectors W S (enabled_marketplaces S) [])"

section \<open>What is built\<close>

lemma client_for_marketplace: "client_for S m = Inr c \<Longrightarrow> client_marketplace c = m"
  by (auto simp: client_for_def rbind_Inr_iff split: if_splits)

definition named_client :: "(db \<Rightarrow> Outside) \<Rightarrow> MarketplaceSettings \<Rightarrow> string \<Rightarrow> string \<times> MarketplaceConnector" where
  "named_client W S m = (m, as_connector W (projr (client_for S m)))"

lemma connectors_added:
  "add_connectors W S ms reg = Inr C \<longleftrightarrow> distinct ms \<and> fst ` set reg \<inter> set ms = {} \<and>
     (\<forall>m \<in> set ms. \<exists>c. client_for S m = Inr c) \<and> C = reg @ map (named_client W S) ms"
proof (induction ms arbitrary: reg)
  case (Cons m ms)
  show ?case
  proof (cases "client_for S m")
    case (Inr c)
    then show ?thesis
      using Cons client_for_marketplace [OF Inr]
      by (auto simp: register_connector_def register_named_def as_connector_def named_client_def)
  qed simp
qed auto

text \<open>
  Construction succeeds exactly when the application is in demo mode, then without connectors, or when the enabled marketplaces
  are supported, listed once and completely configured; then there is a connector for each of them, in their order.
\<close>

theorem connectors_built:
  "build_marketplace_connectors W S = Inr C \<longleftrightarrow>
     (if demo_mode S then C = []
      else distinct (enabled_marketplaces S) \<and> (\<forall>m \<in> set (enabled_marketplaces S). \<exists>c. client_for S m = Inr c) \<and>
        C = map (named_client W S) (enabled_marketplaces S))"
  by (auto simp: build_marketplace_connectors_def connectors_added)

section \<open>Generated listings are refused\<close>

definition nothing_published :: "db \<Rightarrow> bool" where
  "nothing_published s \<longleftrightarrow> (\<forall>l \<in> set (marketplace_listings s). ml_publication_status l \<noteq> Publication_PUBLISHED)"

definition never_listed :: "MarketplaceListingRequirements set \<Rightarrow> db \<Rightarrow> bool" where
  "never_listed Rs s \<longleftrightarrow> listings_ok Rs s \<and> nothing_published s"

interpretation never_listed: approval_invariant "never_listed Rs" for Rs
proof
  show "never_listed Rs t" if "never_listed Rs s" "tables_of t = tables_of s" "next_id s \<le> next_id t" for s t
    using that listings.tables [OF _ that(2,3)] tables_ofD [OF that(2)] by (simp add: never_listed_def nothing_published_def)
  show "ids_ok (next_id s) (approvals s)" if "never_listed Rs s" for s using that by (auto simp: never_listed_def intro: listings.ids)
  show "never_listed Rs t" if "never_listed Rs s" "but_decisions t = but_decisions s" "next_id s \<le> next_id t"
    "list_all2 approval_moves (approvals s) (approvals t)" for s t
    using that listings.decision [OF _ that(2-4)] but_decisionsD(5) [OF that(2)] by (simp add: never_listed_def nothing_published_def)
qed

lemma never_listed_aside:
  assumes "wp m (\<lambda>_. listings_ok Rs) E s" "keeps marketplace_listings m" "never_listed Rs s"
  shows "wp m (\<lambda>_. never_listed Rs) E s"
  by (rule wp_mono [OF wp_conj [OF assms(1) wp_keeps [OF assms(2), of s "\<lambda>_ t. marketplace_listings t = marketplace_listings s" "\<lambda>_ _. True"]]])
    (use assms(3) in \<open>auto simp: never_listed_def nothing_published_def\<close>)

subsection \<open>Operations that leave the listings alone\<close>

lemma generate_unlisted: "keeps marketplace_listings (generate A i c ca e)"
proof -
  have parts: "keeps marketplace_listings (open_runs A it c e)" "keeps marketplace_listings (close_agent_run w r res iss)"
    "keeps marketplace_listings (announce_draft d w r ca)" "keeps marketplace_listings (fail_listing d w iss ca)"
    "keeps marketplace_listings (await_listing_approval A d j)" for it w r res iss d j
    unfolding open_runs_def close_agent_run_def announce_draft_def fail_listing_def await_listing_approval_def Let_def add_workflow_def set_workflow_def
    by (intro keeps_intros; simp)+
  have finish: "keeps marketplace_listings (finish_draft A d w r iss ca)" for d w r iss
    unfolding finish_draft_def by (intro keeps_intros parts; simp)
  have store: "keeps marketplace_listings (store_listing A it v w r ca res)" for it v w r res
    unfolding store_listing_def Let_def by (intro keeps_intros parts finish; simp)
  show ?thesis unfolding generate_def case_prod_beta by (intro keeps_intros parts store; simp)
qed

lemma stock_received_unlisted: "keeps marketplace_listings (handle_stock_received A e)"
  unfolding handle_stock_received_def by (cases "ee_data e"; simp; intro keeps_intros generate_unlisted)

lemma approve_listing_unlisted: "keeps marketplace_listings (approve_listing a)"
  unfolding approve_listing_def audit_listing_approved_def set_draft_def set_workflow_def by (intro keeps_intros; simp)

subsection \<open>Offers to the connectors of the factory\<close>

definition shipped :: "MarketplaceConnector \<Rightarrow> bool" where
  "shipped c \<longleftrightarrow> (\<exists>W k. c = as_connector W k)"

lemma shippedI: "shipped (as_connector W k)"
  unfolding shipped_def by blast

lemma built_shipped: "build_marketplace_connectors W S = Inr C \<Longrightarrow> get_connector C m = Inr c \<Longrightarrow> shipped c"
  by (auto simp: build_marketplace_connectors_def connectors_added get_connector_def get_named_def named_client_def
      intro: shippedI dest!: map_of_SomeD split: if_splits option.splits)

lemma built_payload_input: "ld_marketplace_payload d = build_payload g \<Longrightarrow> publication_input d item = Inr inp \<Longrightarrow> li_image_urls inp = []"
  by (auto simp: publication_input_def build_payload_def dict_get_def)

lemma refuse_published:
  "nothing_published u \<Longrightarrow> wp (refuse_publication d j e x) (\<lambda>_ t. nothing_published t) (\<lambda>_ _. True) u"
  by (auto simp: refuse_publication_def set_listing_def audit_publication_def write_audit_def wp_simps nothing_published_def set_update_rows
      split: option.split)

lemma offer_refused:
  assumes "shipped c" "ld_marketplace_payload d = build_payload g" "nothing_published u"
  shows "wp (offer c d j e) (\<lambda>_ t. nothing_published t) (\<lambda>_ _. True) u"
proof -
  obtain W k where c: "c = as_connector W k" using assms(1) by (auto simp: shipped_def)
  have "\<not> vr_valid (validate_input k inp)" if "publication_input d item = Inr inp" for item inp
    using image_required [OF built_payload_input [OF assms(2) that]] by simp
  then show ?thesis
    using assms(3) by (auto simp: offer_def c as_connector_def wp_simps ask_def refuse_published split: option.split sum.split)
qed

lemma approved_draft_built:
  assumes "listings_ok Rs s" "row (listing_drafts s) i = Some d" "ld_approval_status d = Approval_APPROVED"
  shows "\<exists>g. ld_marketplace_payload d = build_payload g"
  using listings_okD(6) [OF assms(1) row_Some_iff [OF assms(2), THEN conjunct1]] assms(3) by (auto simp: draft_ok_def draft_conforms_def)

lemma shipped_publication_keeps:
  assumes C: "\<And>m c. get_connector C m = Inr c \<Longrightarrow> shipped c" and ok: "never_listed Rs s"
  shows "wp (handle_listing_approved C e) (\<lambda>_ t. nothing_published t) (\<lambda>_ _. True) s"
proof (cases "ee_data e")
  case (ListingApprovedPayload i a)
  have f: "nothing_published (flush_db (flush_db s))" using ok by (simp add: never_listed_def nothing_published_def)
  have "wp (bind (listing_for d c existing) (\<lambda>j. offer c d j e)) (\<lambda>_ t. nothing_published t) (\<lambda>_ _. True) (flush_db (flush_db s))"
    if d: "row (listing_drafts s) i = Some d" "ld_approval_status d = Approval_APPROVED" and c: "shipped c" for d c existing
  proof -
    obtain g where g: "ld_marketplace_payload d = build_payload g"
      using approved_draft_built [OF _ d] ok by (auto simp: never_listed_def)
    have "wp (listing_for d c existing) (\<lambda>_ t. nothing_published t) (\<lambda>_ _. True) (flush_db (flush_db s))"
      using f by (auto simp: listing_for_def add_listing_def new_listing_def wp_simps nothing_published_def split: option.split)
    then show ?thesis unfolding wp_bind by (rule wp_mono) (auto intro: offer_refused [OF c g])
  qed
  then show ?thesis
    using f C by (auto simp: handle_listing_approved_def ListingApprovedPayload wp_bind [of "scalar _ _"] wp_bind [of "the_or _ _"] wp_bind [of "of_result _"]
      wp_andthen wp_raise_if wp_scalar wp_the_or wp_of_result wp_ret find_row split: option.split sum.split)
qed (simp_all add: handle_listing_approved_def wp_throw)

text \<open>The other handlers of the engine leave the listings alone as well.\<close>

definition unlisting_engine :: "ApprovalEngine \<Rightarrow> bool" where
  "unlisting_engine E \<longleftrightarrow> publication_engine E \<and>
     (\<forall>ty h a. get_action (engine_registry E) ty = Some h \<longrightarrow> keeps marketplace_listings (h a))"

lemma unlisting_engine_keeps: "unlisting_engine E \<Longrightarrow> handlers_keep (never_listed Rs) E"
  using publication_engine_keeps [of E Rs]
  by (auto simp: unlisting_engine_def handlers_keep_def never_listed_def [of _ s for s] intro!: never_listed_aside)

lemma never_listed_clock [simp]: "never_listed Rs (clock_update f s) = never_listed Rs s"
  by (simp add: never_listed_def nothing_published_def listings_ok_def item_skus_def listing_links_def)

lemma run_never_listed:
  assumes C: "\<And>m c. get_connector C m = Inr c \<Longrightarrow> shipped c" and E: "unlisting_engine E"
    and ok: "never_listed Rs s" and c: "listing_call_ok Rs c"
  shows "never_listed Rs (run_listing_call E C c s)"
proof -
  have l: "listings_ok Rs s" using ok by (simp add: never_listed_def)
  have keeps: "never_listed Rs (snd (transaction m s))" if "wp m (\<lambda>_. never_listed Rs) (\<lambda>_ _. True) s" for m :: "'b op"
    by (rule never_listed.transaction_keeps [OF ok]) (rule wp_InrD [OF that])
  have "wp (handle_listing_approved C e) (\<lambda>_. never_listed Rs) (\<lambda>_ _. True) s" for e
    by (rule wp_mono [OF wp_conj [OF publication_keeps [OF l] shipped_publication_keeps [OF C ok]]]) (simp_all add: never_listed_def)
  then show ?thesis
    using c ok keeps keeps [OF never_listed_aside [OF generate_keeps [OF l] generate_unlisted ok]]
      keeps [OF never_listed_aside [OF stock_received_keeps [OF l] stock_received_unlisted ok]]
      never_listed.endpoints_keep [OF ok] unlisting_engine_keeps [OF E]
    by (cases c) auto
qed

text \<open>
  C10: with the connectors the factory builds and the adapters of the repository no generated listing is ever published: the payload
  of a draft has no image URL, without which every one of the four connectors refuses a listing, so that over any sequence of
  generated listings, stock receipts, decisions and approved-listing events everything listed stays unpublished.
\<close>

theorem generated_listings_never_published:
  assumes "build_marketplace_connectors W S = Inr C" and "unlisting_engine E" and "never_listed Rs s"
    and "\<forall>c \<in> set cs. listing_call_ok Rs c" and "l \<in> set (marketplace_listings (fold (run_listing_call E C) cs s))"
  shows "ml_publication_status l \<noteq> Publication_PUBLISHED"
proof -
  have "never_listed Rs (fold (run_listing_call E C) cs s)" if "never_listed Rs s" "\<forall>c \<in> set cs. listing_call_ok Rs c" for s
    using that by (induction cs arbitrary: s) (simp_all add: run_never_listed [OF built_shipped [OF assms(1)] assms(2)])
  from this [OF assms(3,4)] show ?thesis using assms(5) by (auto simp: never_listed_def nothing_published_def)
qed

section \<open>An Amazon listing\<close>

definition sample_marketplaces :: MarketplaceSettings where
  "sample_marketplaces = \<lparr>demo_mode = False, enabled_marketplaces = [''amazon''], ebay_access_token = None, ebay_account_id = None,
     ebay_endpoint = ''e'', ebay_marketplace_id = ''EBAY_GB'', ebay_merchant_location_key = None, ebay_category_id = None,
     ebay_fulfillment_policy_id = None, ebay_payment_policy_id = None, ebay_return_policy_id = None,
     amazon_access_token = Some ''t'', amazon_seller_id = Some ''seller'', amazon_marketplace_id = Some ''M'', amazon_endpoint = ''a'',
     facebook_access_token = None, facebook_catalog_id = None, facebook_commerce_account_id = None, facebook_endpoint = ''f'',
     facebook_api_version = ''v23.0'', tiktok_access_token = None, tiktok_app_key = None, tiktok_app_secret = None,
     tiktok_shop_cipher = None, tiktok_endpoint = ''t''\<rparr>"

lemma sample_client: "client_for sample_marketplaces ''amazon'' =
    Inr (Amazon ''seller'' \<lparr>am_access_token = ''t'', am_seller_id = ''seller'', am_marketplace_id = ''M'', am_base_url = ''a''\<rparr>)"
  by (simp add: client_for_def sample_marketplaces_def required_values_def plain_def Let_def)

lemma sample_build: "build_marketplace_connectors (\<lambda>s. sample_web) sample_marketplaces =
    Inr [named_client (\<lambda>s. sample_web) sample_marketplaces ''amazon'']"
proof -
  have "\<not> demo_mode sample_marketplaces" "enabled_marketplaces sample_marketplaces = [''amazon'']" by (simp_all add: sample_marketplaces_def)
  then show ?thesis using sample_client unfolding build_marketplace_connectors_def by (simp add: connectors_added del: add_connectors.simps)
qed

theorem connectors_built_witness:
  "\<exists>C. build_marketplace_connectors (\<lambda>s. sample_web) sample_marketplaces = Inr C \<and> map fst C = [''amazon'']"
proof -
  have "\<not> demo_mode sample_marketplaces" "enabled_marketplaces sample_marketplaces = [''amazon'']" by (simp_all add: sample_marketplaces_def)
  then show ?thesis using sample_client by (simp add: connectors_built named_client_def)
qed

theorem generated_listings_never_published_witness:
  "\<exists>C l. build_marketplace_connectors (\<lambda>s. sample_web) sample_marketplaces = Inr C \<and>
     l \<in> set (marketplace_listings (fold (run_listing_call sample_publication_engine C) [Publish_Listing sample_listing_event] sample_listing_db)) \<and>
     ml_draft_id l = 3 \<and> ml_publication_status l \<noteq> Publication_PUBLISHED"
proof -
  let ?n = "named_client (\<lambda>s. sample_web) sample_marketplaces ''amazon''"
  let ?l = "(new_listing sample_draft (snd ?n) 7 9)\<lparr>ml_publication_status := Publication_FAILED,
    ml_last_error := Some (join_issues (vr_issues (validate_input (projr (client_for sample_marketplaces ''amazon'')) sample_input)))\<rparr>"
  let ?s = "fold (run_listing_call sample_publication_engine [?n]) [Publish_Listing sample_listing_event] sample_listing_db"
  have e: "unlisting_engine sample_publication_engine"
    by (auto simp: unlisting_engine_def publication_engine_def sample_publication_engine_def get_action_def approve_listing_unlisted split: if_splits)
  have ok: "never_listed {sample_requirements} sample_listing_db"
    using sample_listings_ok by (simp add: never_listed_def nothing_published_def sample_listing_db_def empty_db_def)
  have ready: "ready_to_publish (snd ?n) sample_draft sample_input sample_listing_db"
    using sample_ready by (simp add: ready_to_publish_def sample_listing_db_def empty_db_def)
  have get: "get_connector [?n] (ld_marketplace sample_draft) = Inr (snd ?n)"
    by (simp add: get_connector_def get_named_def named_client_def sample_publication_fields)
  have e3: "ee_data sample_listing_event = ListingApprovedPayload (row_id sample_draft) 4" by (simp add: sample_publication_fields)
  have v: "mc_validate_listing (snd ?n) sample_input u = Inr (validate_input (projr (client_for sample_marketplaces ''amazon'')) sample_input)" for u
    by (simp add: named_client_def as_connector_def)
  have "\<not> vr_valid (validate_input (projr (client_for sample_marketplaces ''amazon'')) sample_input)"
    by (rule image_required) (simp add: sample_input_def)
  from refused_publication [OF ready e3 get v this] have l: "?l \<in> set (marketplace_listings ?s)"
    by (auto simp: transaction_def run_simps sample_listing_db_def empty_db_def)
  have "ml_draft_id ?l = 3" by (simp add: new_listing_def sample_publication_fields)
  then show ?thesis
    using generated_listings_never_published [OF sample_build e ok _ l] l sample_build by auto
qed

end
