(* ===== verification/Spec2Isabelle.thy ===== *)
theory Spec2Isabelle
  imports Inventory_Model Lifecycles
    Pricing_Service Refund_Service Product_Ingestion Request_Security Assembly Marketplace_Factory
begin

text \<open>
  Verification of the commerce operations service, \<open>src/src/commerce_operations\<close> (paths below are relative to it).

  \<^bold>\<open>The program.\<close> A back office for marketplace selling. An approved product arrives with a supplier's quote and becomes a
  procurement request; an approved purchase becomes a purchase order whose goods are received into stock; orders reserve stock,
  ship it or give it back; prices and refunds need a policy or a human to permit them. Every change is written in one database
  transaction with its audit row and its domain event. Events are processed by named handlers, each once per event, and the
  orchestrator routes them to durable workflows that retry, time out, wait for approvals or fail.

  \<^bold>\<open>How it is modelled.\<close> The tables are the fields of one record \<open>db\<close> (lists of rows in insertion order), beside the clock, the
  next identifier and the row versions of SQLAlchemy's optimistic locking. An operation is a function \<open>'a op\<close> from a state to
  a result and the next state; the result is \<open>Inl\<close> of the exception or \<open>Inr\<close> of the value, so every \<open>raise\<close>, early return and
  rollback is a branch. A \<open>flush\<close> is written where the code flushes or a query flushes first. \<open>Decimal\<close>s are rationals with the
  rounding of the 28-digit context written out, Python's integers are \<open>int\<close>, identifiers are naturals drawn in order. SHA-256,
  \<open>uuid5\<close>, the language model and the marketplace clients are from outside the repository and are parameters.

  \<^bold>\<open>Parts.\<close>
    \<^item> \<open>Prelude\<close>, \<open>Session\<close>, \<open>Registry\<close>: the operations' combinators with weakest preconditions (\<open>wp\<close>), frame rules (\<open>keeps\<close>),
      rows and queries, transactions and savepoints; the locale \<open>unit_of_work\<close> of invariants that depend on the tables, and
      \<open>keyed_registry\<close> of name-to-handler registries.
    \<^item> \<open>Core_Types\<close>, \<open>Models\<close>: \<open>persistence/enums.py\<close>, \<open>persistence/models.py\<close>; JSON and identifiers as text.
    \<^item> \<open>Py_Decimal\<close>, \<open>Pricing_Model\<close>, \<open>Inventory_Model\<close>, \<open>Lifecycles\<close>: the pure domain code under \<open>domains/\<close>: prices,
      cost basis, the state machines of orders and procurement (locales \<open>decimal_context\<close>, \<open>lifecycle\<close>).
    \<^item> \<open>Event_Types\<close>, \<open>Event_Store\<close>, \<open>Event_Processor\<close>: \<open>events/\<close>: payloads with their JSON form and reader, the outbox
      (locale \<open>event_port\<close>), handlers and receipts.
    \<^item> \<open>Approval_Policy\<close>, \<open>Approval_Engine\<close>, \<open>Approval_Requests\<close>: \<open>approvals/\<close> and the decisions of \<open>api/approvals.py\<close> (locale
      \<open>approval_invariant\<close>: what a decision may change).
    \<^item> \<open>Audit_Trail\<close>, \<open>Procurement_Service\<close>, \<open>Stock_Ledger\<close>, \<open>Inventory_Service\<close>, \<open>Order_Service\<close>, \<open>Pricing_Service\<close>,
      \<open>Refund_Service\<close>: the services of \<open>application/\<close>, one definition per operation and per loop or block of it.
    \<^item> \<open>Product_Ingestion\<close>: \<open>integrations/repository_1/\<close> and its endpoint.
    \<^item> \<open>Workflow_Engine\<close>: \<open>workflows/engine.py\<close>; a step is any operation. The abstract machine of a run is \<open>run_move\<close>.
    \<^item> \<open>Event_Driven\<close>, \<open>Orchestration\<close>: \<open>application/orchestration.py\<close>; the locale \<open>engine_client\<close> carries a predicate kept by
      the steps through deliveries, retries and event processing.
    \<^item> \<open>Event_Worker\<close>: \<open>worker.py\<close>, the deployed orchestrator and its cycle.
    \<^item> \<open>Request_Security\<close>: \<open>security/middleware.py\<close>, keys, roles and the rate limiter.
    \<^item> \<open>Py_Datetime\<close>, \<open>AI_Usage\<close>: the calendar arithmetic behind the monthly budget, \<open>ai/provider.py\<close> and \<open>ai/usage.py\<close>; the
      language model is a function from a request (and the identity of the call) to an answer or an exception.
    \<^item> \<open>Frame_Steps\<close>: the locale \<open>aside_steps\<close>, how an operation that leaves a part of the tables alone keeps an invariant of it.
    \<^item> \<open>Risk_Screen\<close>, \<open>Customer_Service\<close>: \<open>application/customer_service.py\<close> and \<open>agents/customer_service_models.py\<close>: the patterns
      of the risk screen, the agent's classification, drafts, automatic answers and escalations, and the released responses.
    \<^item> \<open>Listing_Adapter\<close>, \<open>Listing_Service\<close>: \<open>integrations/marketplaces/listing.py\<close>, \<open>agents/listing_models.py\<close> and
      \<open>application/listings.py\<close>: a marketplace's requirements and their validation, the agent that turns stock into a draft and a request
      for approval, the handler of the granted approval.
    \<^item> \<open>Publication\<close>: \<open>integrations/marketplaces/connector.py\<close>, \<open>application/marketplace_publication.py\<close>; a connector is a pair of
      functions that may answer differently at every call.
    \<^item> \<open>Marketplace_Clients\<close>, \<open>Marketplace_Factory\<close>: \<open>integrations/marketplaces/connectors.py\<close> and \<open>factory.py\<close>: the requests the four
      clients send and what they make of the answers (a transport that knows everything sent before it), and their construction.
    \<^item> \<open>Assembly\<close>: the orchestrator with its agents in place, and that they leave the trade alone.

  \<^bold>\<open>What is shown.\<close>
    \<^item> Invariants of the whole state: procurement and purchase orders, stock against its ledger and receipts, reservations
      against open orders, approvals, the outbox, prices and refunds against policy and approvals, ingested products, the runs
      of the engine; each over every sequence of requests, succeeding or failing, and together over clients, processed
      events and retries (\<open>orchestration_invariant\<close>).
    \<^item> Safety: no request without a key and role for it, no overselling, no purchase, price, refund, response to a customer or published listing without what
      permits it, whatever the language model and the connectors answer, a handler's effect at most once and never half, a failing step leaves nothing.
    \<^item> Functional behaviour: what prices, reservations, decisions, reconciliations, ingestions and replays return on every branch;
      the price routine equals its exact specification.
    \<^item> Refinement and liveness of workflow runs, bounds of retries, round trips of events.

  \<^bold>\<open>Bounds.\<close> No definition uses fuel: every loop of the modelled code is over a finite list.

  \<^bold>\<open>Conventions.\<close> Statements are executed in the order of the code, one transaction at a time; the database's own serialization of
  concurrent transactions is what the conditional updates and unique constraints of the code rely on, and only the latter
  are modelled (a refused insert is \<open>IntegrityError\<close>). Text is ASCII; a \<open>datetime\<close> is a number of microseconds.

  \<^bold>\<open>Not modelled.\<close> The HTTP transport (\<open>http.py\<close>), the HTTP layer beyond the endpoints named above, the
  request-context middleware, settings beyond the fields read here, logging, metrics, the dashboard, the demo data, deployment
  and migrations: presentation, input/output or schema definitions without behaviour of their own.
\<close>

end
